(* ===== verification/Prelude.thy ===== *)
theory Prelude
  imports Main "HOL-Library.Word"
begin

text \<open>
  Shared vocabulary of the development: the machine's integer types, the bytes of a word in
  either byte order, and memory as a list of bytes with checked reads and writes.

  The program is built as ILP32 (\<^verbatim>\<open>gcc -m32\<close>, see \<^verbatim>\<open>cctools.README\<close>): \<^verbatim>\<open>int\<close>, \<^verbatim>\<open>long\<close> and
  pointers are 32 bits wide, so \<open>unsigned long\<close> and \<open>uint32_t\<close> are both \<open>u32\<close> here and their
  arithmetic wraps at \<open>2 ^ 32\<close>.
\<close>

unbundle bit_operations_syntax

type_synonym u8 = "8 word"
type_synonym u16 = "16 word"
type_synonym u32 = "32 word"
type_synonym u64 = "64 word"

text \<open>Facts that reduce reads and writes of memory and of encoded fields.\<close>

named_theorems mem_simps

section \<open>Words and their bytes\<close>

text \<open>The low \<open>n\<close> bytes of a word, least significant first, and the word of a byte list.\<close>

definition bytes_of :: "nat \<Rightarrow> 'a::len word \<Rightarrow> u8 list" where
  "bytes_of n w = map (\<lambda>i. ucast (drop_bit (8 * i) w)) [0..<n]"

fun word_of :: "u8 list \<Rightarrow> 'a::len word" where
  "word_of [] = 0"
| "word_of (b # bs) = ucast b OR push_bit 8 (word_of bs)"

lemma length_bytes_of [simp]: "length (bytes_of n w) = n"
  by (simp add: bytes_of_def)

lemma nth_bytes_of: "i < n \<Longrightarrow> bytes_of n w ! i = ucast (drop_bit (8 * i) w)"
  by (simp add: bytes_of_def)

lemma bit_word_of:
  "bit (word_of bs :: 'a::len word) n \<longleftrightarrow>
     n < LENGTH('a) \<and> n div 8 < length bs \<and> bit (bs ! (n div 8)) (n mod 8)"
proof (induction bs arbitrary: n)
  case Nil
  then show ?case by simp
next
  case (Cons b bs)
  show ?case
  proof (cases "n < 8")
    case True
    then show ?thesis
      by (auto simp: bit_or_iff bit_ucast_iff bit_push_bit_iff dest: bit_imp_le_length)
  next
    case False
    then obtain m where n: "n = m + 8" by (metis add.commute le_Suc_ex not_less)
    have "\<not> bit b (m + 8)" by (auto dest: bit_imp_le_length)
    moreover have "(m + 8) div 8 = Suc (m div 8)" by simp
    ultimately show ?thesis
      by (auto simp: n bit_or_iff bit_ucast_iff bit_push_bit_iff Cons.IH simp del: div_add_self2)
  qed
qed

lemma bit_byte_of:
  "i < n \<Longrightarrow> bit (bytes_of n (w :: 'a::len word) ! i) j \<longleftrightarrow> j < 8 \<and> bit w (8 * i + j)"
  by (auto simp: nth_bytes_of bit_ucast_iff bit_drop_bit_eq dest: bit_imp_le_length)

lemma word_of_bytes_of:
  assumes "LENGTH('a) \<le> 8 * n"
  shows "word_of (bytes_of n (w :: 'a::len word)) = w"
proof (rule bit_word_eqI)
  fix k
  assume k: "k < LENGTH('a)"
  then have "k div 8 < n" using assms by simp
  then show "bit (word_of (bytes_of n w) :: 'a word) k = bit w k"
    using k by (simp add: bit_word_of bit_byte_of)
qed

lemma bytes_of_word_of:
  assumes "LENGTH('a) = 8 * length bs"
  shows "bytes_of (length bs) (word_of bs :: 'a::len word) = bs"
proof (rule nth_equalityI)
  show "length (bytes_of (length bs) (word_of bs :: 'a word)) = length bs" by simp
next
  fix i
  assume "i < length (bytes_of (length bs) (word_of bs :: 'a word))"
  then have i: "i < length bs" by simp
  show "bytes_of (length bs) (word_of bs :: 'a word) ! i = bs ! i"
  proof (rule bit_word_eqI)
    fix j
    assume j: "j < LENGTH(8)"
    then have "8 * i + j < 8 * length bs" using i by simp
    then show "bit (bytes_of (length bs) (word_of bs :: 'a word) ! i) j = bit (bs ! i) j"
      using i j assms by (simp add: bit_byte_of bit_word_of)
  qed
qed

text \<open>Two byte lists of the word's size that denote the same word are the same.\<close>

lemma word_of_inj:
  assumes "LENGTH('a) = 8 * length bs" and "length cs = length bs"
    and "(word_of bs :: 'a::len word) = word_of cs"
  shows "bs = cs"
  using assms by (metis bytes_of_word_of)

section \<open>Memory\<close>

type_synonym mem = "u8 list"

text \<open>
  Memory is a list of bytes; an access that does not lie within it is \<open>None\<close>, never an
  unspecified value.
\<close>

definition get_bytes :: "mem \<Rightarrow> nat \<Rightarrow> nat \<Rightarrow> u8 list option" where
  "get_bytes m off n = (if off + n \<le> length m then Some (take n (drop off m)) else None)"

definition put_bytes :: "mem \<Rightarrow> nat \<Rightarrow> u8 list \<Rightarrow> mem" where
  "put_bytes m off bs = take off m @ bs @ drop (off + length bs) m"

lemma length_put_bytes [simp]:
  "off + length bs \<le> length m \<Longrightarrow> length (put_bytes m off bs) = length m"
  by (simp add: put_bytes_def)

lemma get_bytes_length: "get_bytes m off n = Some bs \<Longrightarrow> length bs = n \<and> off + n \<le> length m"
  by (auto simp: get_bytes_def split: if_splits)

lemma get_put_same [mem_simps]:
  "off + length bs \<le> length m \<Longrightarrow> get_bytes (put_bytes m off bs) off (length bs) = Some bs"
  by (simp add: get_bytes_def put_bytes_def)

lemma nth_put_bytes:
  "off + length bs \<le> length m \<Longrightarrow> i < length m \<Longrightarrow>
     put_bytes m off bs ! i = (if off \<le> i \<and> i < off + length bs then bs ! (i - off) else m ! i)"
  by (auto simp: put_bytes_def nth_append)

lemma take_drop_nth: "off + n \<le> length m \<Longrightarrow> take n (drop off m) = map (\<lambda>i. m ! (off + i)) [0..<n]"
  by (rule nth_equalityI) auto

lemma get_bytes_cong:
  assumes "length m = length m'" and "\<And>i. off \<le> i \<Longrightarrow> i < off + n \<Longrightarrow> m ! i = m' ! i"
  shows "get_bytes m off n = get_bytes m' off n"
  using assms by (auto simp: get_bytes_def take_drop_nth intro!: map_cong)

lemma get_put_other [mem_simps]:
  assumes "off + length bs \<le> length m" and "a + n \<le> off \<or> off + length bs \<le> a"
  shows "get_bytes (put_bytes m off bs) a n = get_bytes m a n"
proof (cases "a + n \<le> length m")
  case True
  show ?thesis
  proof (rule get_bytes_cong)
    show "length (put_bytes m off bs) = length m" using assms by simp
  next
    fix i
    assume "a \<le> i" and "i < a + n"
    then show "put_bytes m off bs ! i = m ! i"
      using assms True by (auto simp: nth_put_bytes)
  qed
next
  case False
  then show ?thesis using assms by (simp add: get_bytes_def)
qed

lemma put_get_id: "get_bytes m off n = Some bs \<Longrightarrow> put_bytes m off bs = m"
  by (auto simp: get_bytes_def put_bytes_def split: if_splits) (metis append_take_drop_id drop_drop add.commute)

end
