(* ===== verification/ByteSex.thy ===== *)
theory ByteSex
  imports Prelude
begin

text \<open>
  The byte orders of \<^verbatim>\<open>include/stuff/bytesex.h\<close> and the scalar swaps of
  \<^verbatim>\<open>libstuff/bytesex.c\<close>, followed by the layer every struct of the Mach-O format goes through:
  a struct is a list of fields laid out one after the other, encoded in the byte order of the
  machine that reads it.  The locales at the end are the contract between a struct's record and
  its bytes (\<open>mach_struct\<close>) and between a struct and its swap routine (\<open>swappable_struct\<close>); they are
  interpreted on every struct of the program in \<open>SwapStructs\<close>.
\<close>

section \<open>Byte order\<close>

datatype byte_sex = UNKNOWN_BYTE_SEX | BIG_ENDIAN_BYTE_SEX | LITTLE_ENDIAN_BYTE_SEX

text \<open>The byte order of the host is a parameter \<open>h\<close> wherever the code depends on it.\<close>

definition other_byte_sex :: "byte_sex \<Rightarrow> byte_sex" where
  "other_byte_sex h =
     (if h = BIG_ENDIAN_BYTE_SEX then LITTLE_ENDIAN_BYTE_SEX else BIG_ENDIAN_BYTE_SEX)"

text \<open>How a machine of byte order \<open>h\<close> lays out the bytes of a word, and reads them back.\<close>

definition order_bytes :: "byte_sex \<Rightarrow> u8 list \<Rightarrow> u8 list" where
  "order_bytes h bs = (if h = BIG_ENDIAN_BYTE_SEX then rev bs else bs)"

lemma length_order_bytes [simp]: "length (order_bytes h bs) = length bs"
  by (simp add: order_bytes_def)

lemma order_bytes_twice [simp]: "order_bytes h (order_bytes h bs) = bs"
  by (simp add: order_bytes_def)

lemma order_bytes_other: "order_bytes (other_byte_sex h) bs = order_bytes h (rev bs)"
  by (simp add: order_bytes_def other_byte_sex_def)

text \<open>
  \<^verbatim>\<open>get_host_byte_sex()\<close> stores \<open>(BIG << 24) | LITTLE\<close> in a word and reads its first byte.
\<close>

definition BIG_ENDIAN_CODE :: u32 where "BIG_ENDIAN_CODE = 1"
definition LITTLE_ENDIAN_CODE :: u32 where "LITTLE_ENDIAN_CODE = 2"

definition byte_sex_of_code :: "u8 \<Rightarrow> byte_sex" where
  "byte_sex_of_code c =
     (if c = 1 then BIG_ENDIAN_BYTE_SEX
      else if c = 2 then LITTLE_ENDIAN_BYTE_SEX else UNKNOWN_BYTE_SEX)"

definition get_host_byte_sex :: "byte_sex \<Rightarrow> byte_sex" where
  "get_host_byte_sex h =
     (let s = push_bit 24 BIG_ENDIAN_CODE OR LITTLE_ENDIAN_CODE
      in byte_sex_of_code (hd (order_bytes h (bytes_of 4 s))))"

lemma get_host_byte_sex_is_host:
  "get_host_byte_sex BIG_ENDIAN_BYTE_SEX = BIG_ENDIAN_BYTE_SEX"
  "get_host_byte_sex LITTLE_ENDIAN_BYTE_SEX = LITTLE_ENDIAN_BYTE_SEX"
  by (simp_all add: get_host_byte_sex_def order_bytes_def bytes_of_def upt_rec
      BIG_ENDIAN_CODE_def LITTLE_ENDIAN_CODE_def byte_sex_of_code_def push_bit_eq_mult
      drop_bit_eq_div unat_arith_simps)

section \<open>Swapping scalars\<close>

definition SWAP_SHORT :: "u16 \<Rightarrow> u16" where
  "SWAP_SHORT a = push_bit 8 (a AND 0xff) OR drop_bit 8 a"

definition SWAP_INT :: "u32 \<Rightarrow> u32" where
  "SWAP_INT a =
     push_bit 24 a OR (push_bit 8 a AND 0x00ff0000) OR (drop_bit 8 a AND 0x0000ff00) OR drop_bit 24 a"

text \<open>
  \<^verbatim>\<open>SWAP_LONG_LONG\<close> copies the eight bytes of the value, last to first, through a union;
  \<^verbatim>\<open>SWAP_DOUBLE\<close> does the same to the eight bytes of a double, which the model keeps as its bit
  pattern.
\<close>

definition SWAP_LONG_LONG :: "u64 \<Rightarrow> u64" where
  "SWAP_LONG_LONG ll =
     (let inc = bytes_of 8 ll
      in word_of [inc ! 7, inc ! 6, inc ! 5, inc ! 4, inc ! 3, inc ! 2, inc ! 1, inc ! 0])"

definition SWAP_DOUBLE :: "u64 \<Rightarrow> u64" where
  "SWAP_DOUBLE d =
     (let inc = bytes_of 8 d
      in word_of [inc ! 7, inc ! 6, inc ! 5, inc ! 4, inc ! 3, inc ! 2, inc ! 1, inc ! 0])"

lemma upt_4: "[0..<4] = [0, 1, 2, 3 :: nat]" and upt_2: "[0..<2] = [0, 1 :: nat]"
  and upt_8: "[0..<8] = [0, 1, 2, 3, 4, 5, 6, 7 :: nat]"
  by (simp_all add: upt_rec)

lemma byte_masks:
  "(0xff :: u16) = mask 8" "(0x00ff0000 :: u32) = push_bit 16 (mask 8)"
  "(0x0000ff00 :: u32) = push_bit 8 (mask 8)"
  by (simp_all add: mask_eq_exp_minus_1)

lemmas byte_bits = bit_or_iff bit_and_iff bit_push_bit_iff bit_drop_bit_eq bit_mask_iff bit_ucast_iff

lemma bytes_SWAP_SHORT: "bytes_of 2 (SWAP_SHORT a) = rev (bytes_of 2 a)"
  unfolding bytes_of_def upt_2 SWAP_SHORT_def byte_masks
  by (simp, intro conjI; rule bit_word_eqI; auto simp: byte_bits dest: bit_imp_le_length)

lemma bytes_SWAP_INT: "bytes_of 4 (SWAP_INT a) = rev (bytes_of 4 a)"
  unfolding bytes_of_def upt_4 SWAP_INT_def byte_masks
  by (simp, intro conjI; rule bit_word_eqI; auto simp: byte_bits dest: bit_imp_le_length)

lemma bytes_SWAP_LONG_LONG: "bytes_of 8 (SWAP_LONG_LONG a) = rev (bytes_of 8 a)"
proof -
  have *: "[bytes_of 8 a ! 7, bytes_of 8 a ! 6, bytes_of 8 a ! 5, bytes_of 8 a ! 4,
      bytes_of 8 a ! 3, bytes_of 8 a ! 2, bytes_of 8 a ! 1, bytes_of 8 a ! 0] = rev (bytes_of 8 a)"
    by (simp add: bytes_of_def upt_8)
  show ?thesis
    using bytes_of_word_of [where 'a = 64, of "rev (bytes_of 8 a)"]
    by (simp only: SWAP_LONG_LONG_def Let_def *) simp
qed

lemma SWAP_DOUBLE_eq: "SWAP_DOUBLE = SWAP_LONG_LONG"
  by (simp add: fun_eq_iff SWAP_DOUBLE_def SWAP_LONG_LONG_def)

lemma rev_bytes_inj:
  assumes "LENGTH('a) = 8 * n" and "bytes_of n v = bytes_of n (w :: 'a::len word)"
  shows "v = w"
proof -
  have "v = word_of (bytes_of n v)" by (rule word_of_bytes_of [symmetric]) (simp add: assms(1))
  also have "\<dots> = w" unfolding assms(2) by (rule word_of_bytes_of) (simp add: assms(1))
  finally show ?thesis .
qed

lemma SWAP_SHORT_SWAP_SHORT [simp]: "SWAP_SHORT (SWAP_SHORT a) = a"
  by (rule rev_bytes_inj [where n = 2]) (simp_all add: bytes_SWAP_SHORT)

lemma SWAP_INT_SWAP_INT [simp]: "SWAP_INT (SWAP_INT a) = a"
  by (rule rev_bytes_inj [where n = 4]) (simp_all add: bytes_SWAP_INT)

lemma SWAP_LONG_LONG_SWAP_LONG_LONG [simp]: "SWAP_LONG_LONG (SWAP_LONG_LONG a) = a"
  by (rule rev_bytes_inj [where n = 8]) (simp_all add: bytes_SWAP_LONG_LONG)

section \<open>Fields and structs\<close>

text \<open>
  A field of a struct: a run of characters, or an integer of 16, 32 or 64 bits.  The structs of
  the format have no padding, so a struct is its fields one after the other.
\<close>

datatype field = F8 "u8 list" | F16 u16 | F32 u32 | F64 u64
datatype kind = K8 nat | K16 | K32 | K64

fun kind_of :: "field \<Rightarrow> kind" where
  "kind_of (F8 bs) = K8 (length bs)"
| "kind_of (F16 _) = K16"
| "kind_of (F32 _) = K32"
| "kind_of (F64 _) = K64"

fun kind_size :: "kind \<Rightarrow> nat" where
  "kind_size (K8 n) = n"
| "kind_size K16 = 2"
| "kind_size K32 = 4"
| "kind_size K64 = 8"

fun f8 :: "field \<Rightarrow> u8 list" where "f8 (F8 bs) = bs" | "f8 _ = []"
fun f16 :: "field \<Rightarrow> u16" where "f16 (F16 w) = w" | "f16 _ = 0"
fun f32 :: "field \<Rightarrow> u32" where "f32 (F32 w) = w" | "f32 _ = 0"
fun f64 :: "field \<Rightarrow> u64" where "f64 (F64 w) = w" | "f64 _ = 0"

fun encode_field :: "byte_sex \<Rightarrow> field \<Rightarrow> u8 list" where
  "encode_field h (F8 bs) = bs"
| "encode_field h (F16 w) = order_bytes h (bytes_of 2 w)"
| "encode_field h (F32 w) = order_bytes h (bytes_of 4 w)"
| "encode_field h (F64 w) = order_bytes h (bytes_of 8 w)"

fun decode_field :: "byte_sex \<Rightarrow> kind \<Rightarrow> u8 list \<Rightarrow> field" where
  "decode_field h (K8 n) bs = F8 bs"
| "decode_field h K16 bs = F16 (word_of (order_bytes h bs))"
| "decode_field h K32 bs = F32 (word_of (order_bytes h bs))"
| "decode_field h K64 bs = F64 (word_of (order_bytes h bs))"

text \<open>What swapping does to one field: characters stay, integers are reversed.\<close>

fun swap_field :: "field \<Rightarrow> field" where
  "swap_field (F8 bs) = F8 bs"
| "swap_field (F16 w) = F16 (SWAP_SHORT w)"
| "swap_field (F32 w) = F32 (SWAP_INT w)"
| "swap_field (F64 w) = F64 (SWAP_LONG_LONG w)"

lemma swap_field_twice [simp]: "swap_field (swap_field f) = f"
  by (cases f) simp_all

lemma kind_of_swap_field [simp]: "kind_of (swap_field f) = kind_of f"
  by (cases f) simp_all

lemma length_encode_field [simp]: "length (encode_field h f) = kind_size (kind_of f)"
  by (cases f) simp_all

lemma decode_encode_field: "decode_field h (kind_of f) (encode_field h f) = f"
  by (cases f) (simp_all add: word_of_bytes_of)

lemma kind_decode_field [simp]: "length bs = kind_size k \<Longrightarrow> kind_of (decode_field h k bs) = k"
  by (cases k) simp_all

lemma encode_decode_field: "length bs = kind_size k \<Longrightarrow> encode_field h (decode_field h k bs) = bs"
proof (cases k)
  case K16
  assume "length bs = kind_size k"
  then show ?thesis
    using K16 bytes_of_word_of [where 'a = 16 and bs = "order_bytes h bs"] by simp
next
  case K32
  assume "length bs = kind_size k"
  then show ?thesis
    using K32 bytes_of_word_of [where 'a = 32 and bs = "order_bytes h bs"] by simp
next
  case K64
  assume "length bs = kind_size k"
  then show ?thesis
    using K64 bytes_of_word_of [where 'a = 64 and bs = "order_bytes h bs"] by simp
qed simp

lemma encode_swap_field: "encode_field h (swap_field f) = encode_field (other_byte_sex h) f"
  by (cases f)
    (simp_all add: order_bytes_other bytes_SWAP_SHORT bytes_SWAP_INT bytes_SWAP_LONG_LONG)

text \<open>A whole struct: its fields encoded one after the other, and decoded by its layout.\<close>

fun encode :: "byte_sex \<Rightarrow> field list \<Rightarrow> u8 list" where
  "encode h [] = []"
| "encode h (f # fs) = encode_field h f @ encode h fs"

fun decode :: "byte_sex \<Rightarrow> kind list \<Rightarrow> u8 list \<Rightarrow> field list" where
  "decode h [] bs = []"
| "decode h (k # ks) bs =
     decode_field h k (take (kind_size k) bs) # decode h ks (drop (kind_size k) bs)"

definition layout_size :: "kind list \<Rightarrow> nat" where
  "layout_size ks = sum_list (map kind_size ks)"

lemma layout_size_simps [simp]:
  "layout_size [] = 0" "layout_size (k # ks) = kind_size k + layout_size ks"
  by (simp_all add: layout_size_def)

lemma length_encode [simp]: "length (encode h fs) = layout_size (map kind_of fs)"
  by (induction fs) simp_all

lemma decode_encode: "decode h (map kind_of fs) (encode h fs) = fs"
  by (induction fs) (simp_all add: decode_encode_field)

lemma kinds_decode [simp]: "length bs = layout_size ks \<Longrightarrow> map kind_of (decode h ks bs) = ks"
  by (induction ks arbitrary: bs) simp_all

lemma encode_decode: "length bs = layout_size ks \<Longrightarrow> encode h (decode h ks bs) = bs"
  by (induction ks arbitrary: bs) (simp_all add: encode_decode_field)

lemma encode_swap_fields: "encode h (map swap_field fs) = encode (other_byte_sex h) fs"
  by (induction fs) (simp_all add: encode_swap_field)

lemma encode_swap_fields': "encode (other_byte_sex h) (map swap_field fs) = encode h fs"
  using encode_swap_fields [of h "map swap_field fs"] by (simp add: comp_def)

lemma decode_other_sex:
  assumes "length bs = layout_size ks"
  shows "decode (other_byte_sex h) ks bs = map swap_field (decode h ks bs)"
proof -
  have "decode (other_byte_sex h) (map kind_of (map swap_field (decode h ks bs)))
          (encode (other_byte_sex h) (map swap_field (decode h ks bs)))
        = map swap_field (decode h ks bs)"
    by (rule decode_encode)
  then show ?thesis
    using assms by (simp add: encode_swap_fields' encode_decode comp_def)
qed

text \<open>
  A codec ties a record to its bytes: the kinds of its fields in the order the header declares
  them, the fields of a value, and the value of a list of fields.
\<close>

record 'a codec =
  layout :: "kind list"
  parts :: "'a \<Rightarrow> field list"
  build :: "field list \<Rightarrow> 'a"

definition size_of :: "'a codec \<Rightarrow> nat" where
  "size_of C = layout_size (layout C)"

text \<open>Reading and writing a struct at an offset, as a cast pointer does.\<close>

definition load :: "'a codec \<Rightarrow> byte_sex \<Rightarrow> mem \<Rightarrow> nat \<Rightarrow> 'a option" where
  "load C h m off = map_option (\<lambda>bs. build C (decode h (layout C) bs)) (get_bytes m off (size_of C))"

definition store :: "'a codec \<Rightarrow> byte_sex \<Rightarrow> mem \<Rightarrow> nat \<Rightarrow> 'a \<Rightarrow> mem" where
  "store C h m off x = put_bytes m off (encode h (parts C x))"

text \<open>
  The call \<^verbatim>\<open>swap_X(p, sex)\<close> on a pointer into memory: read the struct, swap it, write it back.
\<close>

definition swap_at ::
  "'a codec \<Rightarrow> ('a \<Rightarrow> 'a) \<Rightarrow> byte_sex \<Rightarrow> mem \<Rightarrow> nat \<Rightarrow> mem option" where
  "swap_at C swap h m off = map_option (\<lambda>x. store C h m off (swap x)) (load C h m off)"

text \<open>The same over an array of \<open>n\<close> structs, as the loops of the swap routines do.\<close>

fun swap_array_at ::
  "'a codec \<Rightarrow> ('a \<Rightarrow> 'a) \<Rightarrow> byte_sex \<Rightarrow> mem \<Rightarrow> nat \<Rightarrow> nat \<Rightarrow> mem option" where
  "swap_array_at C swap h m off 0 = Some m"
| "swap_array_at C swap h m off (Suc n) =
     (case swap_at C swap h m off of
        None \<Rightarrow> None
      | Some m' \<Rightarrow> swap_array_at C swap h m' (off + size_of C) n)"

lemma get_bytes_Some_iff: "(\<exists>bs. get_bytes m off n = Some bs) \<longleftrightarrow> off + n \<le> length m"
  by (simp add: get_bytes_def)

lemma load_Some_iff: "(\<exists>x. load C h m off = Some x) \<longleftrightarrow> off + size_of C \<le> length m"
  by (simp add: load_def get_bytes_def)

lemma load_NoneD: "load C h m off = None \<Longrightarrow> length m < off + size_of C"
  by (auto simp: load_def get_bytes_def split: if_splits)

lemma load_bound: "load C h m off = Some x \<Longrightarrow> off + size_of C \<le> length m"
  by (auto simp: load_def get_bytes_def split: if_splits)

section \<open>The contract of a struct\<close>

text \<open>
  What a record and its codec promise each other.  \<open>wf\<close> says that the character arrays of the
  record have their declared sizes.
\<close>

locale mach_struct =
  fixes C :: "'a codec" and wf :: "'a \<Rightarrow> bool"
  assumes kinds_parts: "wf x \<Longrightarrow> map kind_of (parts C x) = layout C"
    and build_parts: "build C (parts C x) = x"
    and parts_build: "map kind_of fs = layout C \<Longrightarrow> parts C (build C fs) = fs \<and> wf (build C fs)"
begin

lemma length_encode_parts: "wf x \<Longrightarrow> length (encode h (parts C x)) = size_of C"
  by (simp add: kinds_parts size_of_def)

lemma load_wf: "load C h m off = Some x \<Longrightarrow> wf x"
  by (auto simp: load_def size_of_def dest!: get_bytes_length intro!: conjunct2 [OF parts_build])

lemma length_store: "load C h m off = Some x \<Longrightarrow> wf y \<Longrightarrow> length (store C h' m off y) = length m"
  by (auto simp: store_def kinds_parts size_of_def dest!: load_bound)

text \<open>What was stored is read back; storing what was read changes nothing.\<close>

lemma load_store:
  assumes "off + size_of C \<le> length m" and "wf x"
  shows "load C h (store C h m off x) off = Some x"
proof -
  have "get_bytes (store C h m off x) off (size_of C) = Some (encode h (parts C x))"
    using assms get_put_same [of off "encode h (parts C x)" m]
    by (simp add: store_def kinds_parts size_of_def)
  then show ?thesis
    using decode_encode [of h "parts C x"] assms(2) by (simp add: load_def kinds_parts build_parts)
qed

lemma store_load:
  assumes "load C h m off = Some x"
  shows "store C h m off x = m"
proof -
  from assms obtain bs where bs: "get_bytes m off (size_of C) = Some bs"
    and x: "x = build C (decode h (layout C) bs)"
    by (auto simp: load_def)
  then have len: "length bs = layout_size (layout C)"
    by (auto simp: size_of_def dest: get_bytes_length)
  then have "encode h (parts C x) = bs"
    by (simp add: x parts_build encode_decode)
  then show ?thesis
    using put_get_id [OF bs] by (simp add: store_def)
qed

lemma load_store_other:
  assumes "off + size_of C \<le> length m" and "wf x" and "a + size_of D \<le> off \<or> off + size_of C \<le> a"
  shows "load D h' (store C h m off x) a = load D h' m a"
  using assms by (simp add: load_def store_def get_put_other kinds_parts size_of_def)

end

text \<open>
  A struct whose swap routine reverses every integer field and leaves the characters alone.
\<close>

locale swappable_struct = mach_struct C wf for C :: "'a codec" and wf +
  fixes swap :: "'a \<Rightarrow> 'a"
  assumes parts_swap: "wf x \<Longrightarrow> parts C (swap x) = map swap_field (parts C x)"
begin

lemma wf_swap:
  assumes "wf x"
  shows "wf (swap x)"
proof -
  have "map kind_of (parts C (swap x)) = layout C"
    using assms by (simp add: parts_swap kinds_parts comp_def)
  then have "wf (build C (parts C (swap x)))" using parts_build by blast
  then show ?thesis by (simp add: build_parts)
qed

lemma swap_swap: "wf x \<Longrightarrow> swap (swap x) = x"
proof -
  assume "wf x"
  then have "parts C (swap (swap x)) = parts C x"
    by (simp add: parts_swap wf_swap comp_def)
  then show ?thesis by (metis build_parts)
qed

text \<open>
  The meaning of a swap: the bytes of the swapped struct in one byte order are the bytes of the
  struct in the other.
\<close>

lemma encode_swap: "wf x \<Longrightarrow> encode h (parts C (swap x)) = encode (other_byte_sex h) (parts C x)"
  by (simp add: parts_swap encode_swap_fields)

lemma load_other_sex: "load C (other_byte_sex h) m off = map_option swap (load C h m off)"
proof (cases "get_bytes m off (size_of C)")
  case None
  then show ?thesis by (simp add: load_def)
next
  case (Some bs)
  then have len: "length bs = layout_size (layout C)"
    by (auto simp: size_of_def dest: get_bytes_length)
  let ?fs = "decode h (layout C) bs"
  have "parts C (swap (build C ?fs)) = map swap_field ?fs"
    using len by (simp add: parts_swap parts_build)
  then have "swap (build C ?fs) = build C (map swap_field ?fs)"
    by (metis build_parts)
  then show ?thesis
    using Some len by (simp add: load_def decode_other_sex)
qed

text \<open>
  Swapping a struct in memory: the machine of the other byte order now reads what this machine
  read before, memory outside the struct is untouched, and a second swap restores it.
\<close>

lemma swap_at_reads:
  assumes "swap_at C swap h m off = Some m'"
  shows "load C (other_byte_sex h) m' off = load C h m off"
proof -
  from assms obtain x where x: "load C h m off = Some x" and m': "m' = store C h m off (swap x)"
    by (auto simp: swap_at_def)
  have "load C h m' off = Some (swap x)"
    using load_store [OF load_bound [OF x] wf_swap [OF load_wf [OF x]]] by (simp add: m')
  then show ?thesis by (simp add: load_other_sex x swap_swap load_wf [OF x])
qed

lemma swap_at_length: "swap_at C swap h m off = Some m' \<Longrightarrow> length m' = length m"
  by (auto simp: swap_at_def length_store wf_swap load_wf)

lemma swap_at_Some_iff: "(\<exists>m'. swap_at C swap h m off = Some m') \<longleftrightarrow> off + size_of C \<le> length m"
  by (simp add: swap_at_def load_def get_bytes_def)

lemma swap_at_other:
  assumes "swap_at C swap h m off = Some m'" and "a + size_of D \<le> off \<or> off + size_of C \<le> a"
  shows "load D h' m' a = load D h' m a"
  using assms by (auto simp: swap_at_def load_store_other load_bound wf_swap load_wf)

lemma store_store:
  assumes "load C h m off = Some x" and "wf y" and "wf z"
  shows "store C h (store C h m off y) off z = store C h m off z"
  using assms length_encode_parts [of y h] length_encode_parts [of z h]
  by (auto simp: store_def put_bytes_def dest!: load_bound)

lemma swap_at_twice:
  assumes "swap_at C swap h m off = Some m'"
  shows "swap_at C swap h m' off = Some m"
proof -
  from assms obtain x where x: "load C h m off = Some x" and m': "m' = store C h m off (swap x)"
    by (auto simp: swap_at_def)
  note wf = load_wf [OF x] wf_swap [OF load_wf [OF x]]
  have "load C h m' off = Some (swap x)"
    using load_store [OF load_bound [OF x] wf(2)] by (simp add: m')
  then have "swap_at C swap h m' off = Some (store C h m' off x)"
    by (simp add: swap_at_def swap_swap wf)
  also have "store C h m' off x = m"
    using store_store [OF x wf(2) wf(1)] store_load [OF x] by (simp add: m')
  finally show ?thesis .
qed

text \<open>The bytes a swap writes do not depend on the host that runs it.\<close>

lemma swap_at_host: "swap_at C swap (other_byte_sex h) m off = swap_at C swap h m off"
proof (cases "load C h m off")
  case None
  then show ?thesis by (simp add: swap_at_def load_other_sex)
next
  case (Some x)
  then show ?thesis
    using encode_swap [of x h] encode_swap [of "swap x" h] load_wf [OF Some] wf_swap [OF load_wf [OF Some]]
    by (simp add: swap_at_def load_other_sex store_def swap_swap)
qed

text \<open>
  The loop over an array: it stays within memory exactly when the array does, leaves the rest of
  memory alone, and the other byte order then reads every element as it was.
\<close>

lemma swap_array_frame:
  assumes "swap_array_at C swap h m off n = Some m'"
    and "a + size_of D \<le> off \<or> off + n * size_of C \<le> a"
  shows "load D h' m' a = load D h' m a"
  using assms
proof (induction n arbitrary: m off)
  case (Suc n)
  then obtain m1 where m1: "swap_at C swap h m off = Some m1"
    and rest: "swap_array_at C swap h m1 (off + size_of C) n = Some m'"
    by (auto split: option.splits)
  have "load D h' m' a = load D h' m1 a"
    using Suc.IH [OF rest] Suc.prems(2) by auto
  also have "\<dots> = load D h' m a"
    using swap_at_other [OF m1, of a D h'] Suc.prems(2) by auto
  finally show ?case .
qed simp

lemma swap_array_length: "swap_array_at C swap h m off n = Some m' \<Longrightarrow> length m' = length m"
  by (induction n arbitrary: m off) (auto split: option.splits simp: swap_at_length)

lemma swap_array_Some_iff:
  "(\<exists>m'. swap_array_at C swap h m off n = Some m') \<longleftrightarrow> n = 0 \<or> off + n * size_of C \<le> length m"
proof (induction n arbitrary: m off)
  case (Suc n)
  show ?case
  proof (cases "swap_at C swap h m off")
    case None
    then have "\<not> off + size_of C \<le> length m" using swap_at_Some_iff [of h m off] by simp
    then show ?thesis using None by simp
  next
    case (Some m1)
    then have "off + size_of C \<le> length m" using swap_at_Some_iff [of h m off] by auto
    then show ?thesis
      using Some Suc.IH [of m1 "off + size_of C"] swap_at_length [OF Some] by auto
  qed
qed simp

lemma swap_array_reads:
  assumes "swap_array_at C swap h m off n = Some m'" and "i < n"
  shows "load C (other_byte_sex h) m' (off + i * size_of C) = load C h m (off + i * size_of C)"
  using assms
proof (induction n arbitrary: m off i)
  case (Suc n)
  then obtain m1 where m1: "swap_at C swap h m off = Some m1"
    and rest: "swap_array_at C swap h m1 (off + size_of C) n = Some m'"
    by (auto split: option.splits)
  show ?case
  proof (cases i)
    case 0
    then show ?thesis
      using swap_array_frame [OF rest, of off C] swap_at_reads [OF m1] by simp
  next
    case (Suc j)
    then have "load C (other_byte_sex h) m' (off + size_of C + j * size_of C) =
               load C h m1 (off + size_of C + j * size_of C)"
      using Suc.IH [OF rest, of j] Suc.prems(2) by simp
    also have "\<dots> = load C h m (off + size_of C + j * size_of C)"
      using swap_at_other [OF m1, of "off + size_of C + j * size_of C" C h] by simp
    finally show ?thesis by (simp add: Suc add.assoc)
  qed
qed simp

lemma swap_array_same:
  "swap_array_at C swap (other_byte_sex h) m off n = swap_array_at C swap h m off n"
  by (induction n arbitrary: m off) (auto simp: swap_at_host split: option.splits)

end

end
