(* ===== verification/Arch.thy ===== *)
theory Arch
  imports ByteSex
begin

text \<open>
  The architecture table of \<^verbatim>\<open>libstuff/arch.c\<close> and the routines that answer questions about an
  architecture: its name, its family, its byte order, its stack and its segments.  A routine of
  this file that is handed a \<^verbatim>\<open>struct arch_flag *\<close> only reads it, so the model takes the record.
\<close>

section \<open>Processor types (\<^verbatim>\<open>include/mach/machine.h\<close>)\<close>

abbreviation CPU_TYPE_ANY :: u32 where "CPU_TYPE_ANY \<equiv> 0xffffffff"
abbreviation CPU_TYPE_MC680x0 :: u32 where "CPU_TYPE_MC680x0 \<equiv> 6"
abbreviation CPU_TYPE_I386 :: u32 where "CPU_TYPE_I386 \<equiv> 7"
abbreviation CPU_TYPE_X86_64 :: u32 where "CPU_TYPE_X86_64 \<equiv> 0x1000007"
abbreviation CPU_TYPE_HPPA :: u32 where "CPU_TYPE_HPPA \<equiv> 11"
abbreviation CPU_TYPE_ARM :: u32 where "CPU_TYPE_ARM \<equiv> 12"
abbreviation CPU_TYPE_MC88000 :: u32 where "CPU_TYPE_MC88000 \<equiv> 13"
abbreviation CPU_TYPE_SPARC :: u32 where "CPU_TYPE_SPARC \<equiv> 14"
abbreviation CPU_TYPE_I860 :: u32 where "CPU_TYPE_I860 \<equiv> 15"
abbreviation CPU_TYPE_POWERPC :: u32 where "CPU_TYPE_POWERPC \<equiv> 18"
abbreviation CPU_TYPE_POWERPC64 :: u32 where "CPU_TYPE_POWERPC64 \<equiv> 0x1000012"
abbreviation CPU_TYPE_VEO :: u32 where "CPU_TYPE_VEO \<equiv> 255"
abbreviation CPU_SUBTYPE_MULTIPLE :: u32 where "CPU_SUBTYPE_MULTIPLE \<equiv> 0xffffffff"
abbreviation CPU_SUBTYPE_LITTLE_ENDIAN :: u32 where "CPU_SUBTYPE_LITTLE_ENDIAN \<equiv> 0"
abbreviation CPU_SUBTYPE_BIG_ENDIAN :: u32 where "CPU_SUBTYPE_BIG_ENDIAN \<equiv> 1"
abbreviation CPU_SUBTYPE_I386_ALL :: u32 where "CPU_SUBTYPE_I386_ALL \<equiv> 3"
abbreviation CPU_SUBTYPE_X86_64_ALL :: u32 where "CPU_SUBTYPE_X86_64_ALL \<equiv> 3"
abbreviation CPU_SUBTYPE_486 :: u32 where "CPU_SUBTYPE_486 \<equiv> 4"
abbreviation CPU_SUBTYPE_486SX :: u32 where "CPU_SUBTYPE_486SX \<equiv> 132"
abbreviation CPU_SUBTYPE_586 :: u32 where "CPU_SUBTYPE_586 \<equiv> 5"
abbreviation CPU_SUBTYPE_PENT :: u32 where "CPU_SUBTYPE_PENT \<equiv> 5"
abbreviation CPU_SUBTYPE_PENTPRO :: u32 where "CPU_SUBTYPE_PENTPRO \<equiv> 22"
abbreviation CPU_SUBTYPE_PENTII_M3 :: u32 where "CPU_SUBTYPE_PENTII_M3 \<equiv> 54"
abbreviation CPU_SUBTYPE_PENTII_M5 :: u32 where "CPU_SUBTYPE_PENTII_M5 \<equiv> 86"
abbreviation CPU_SUBTYPE_PENTIUM_4 :: u32 where "CPU_SUBTYPE_PENTIUM_4 \<equiv> 10"
abbreviation CPU_SUBTYPE_MC680x0_ALL :: u32 where "CPU_SUBTYPE_MC680x0_ALL \<equiv> 1"
abbreviation CPU_SUBTYPE_MC68030 :: u32 where "CPU_SUBTYPE_MC68030 \<equiv> 1"
abbreviation CPU_SUBTYPE_MC68040 :: u32 where "CPU_SUBTYPE_MC68040 \<equiv> 2"
abbreviation CPU_SUBTYPE_MC68030_ONLY :: u32 where "CPU_SUBTYPE_MC68030_ONLY \<equiv> 3"
abbreviation CPU_SUBTYPE_HPPA_ALL :: u32 where "CPU_SUBTYPE_HPPA_ALL \<equiv> 0"
abbreviation CPU_SUBTYPE_HPPA_7100 :: u32 where "CPU_SUBTYPE_HPPA_7100 \<equiv> 0"
abbreviation CPU_SUBTYPE_HPPA_7100LC :: u32 where "CPU_SUBTYPE_HPPA_7100LC \<equiv> 1"
abbreviation CPU_SUBTYPE_ARM_ALL :: u32 where "CPU_SUBTYPE_ARM_ALL \<equiv> 0"
abbreviation CPU_SUBTYPE_ARM_V4T :: u32 where "CPU_SUBTYPE_ARM_V4T \<equiv> 5"
abbreviation CPU_SUBTYPE_ARM_V6 :: u32 where "CPU_SUBTYPE_ARM_V6 \<equiv> 6"
abbreviation CPU_SUBTYPE_ARM_V5TEJ :: u32 where "CPU_SUBTYPE_ARM_V5TEJ \<equiv> 7"
abbreviation CPU_SUBTYPE_ARM_XSCALE :: u32 where "CPU_SUBTYPE_ARM_XSCALE \<equiv> 8"
abbreviation CPU_SUBTYPE_MC88000_ALL :: u32 where "CPU_SUBTYPE_MC88000_ALL \<equiv> 0"
abbreviation CPU_SUBTYPE_MC88110 :: u32 where "CPU_SUBTYPE_MC88110 \<equiv> 2"
abbreviation CPU_SUBTYPE_I860_ALL :: u32 where "CPU_SUBTYPE_I860_ALL \<equiv> 0"
abbreviation CPU_SUBTYPE_I860_860 :: u32 where "CPU_SUBTYPE_I860_860 \<equiv> 1"
abbreviation CPU_SUBTYPE_SPARC_ALL :: u32 where "CPU_SUBTYPE_SPARC_ALL \<equiv> 0"
abbreviation CPU_SUBTYPE_POWERPC_ALL :: u32 where "CPU_SUBTYPE_POWERPC_ALL \<equiv> 0"
abbreviation CPU_SUBTYPE_POWERPC_601 :: u32 where "CPU_SUBTYPE_POWERPC_601 \<equiv> 1"
abbreviation CPU_SUBTYPE_POWERPC_602 :: u32 where "CPU_SUBTYPE_POWERPC_602 \<equiv> 2"
abbreviation CPU_SUBTYPE_POWERPC_603 :: u32 where "CPU_SUBTYPE_POWERPC_603 \<equiv> 3"
abbreviation CPU_SUBTYPE_POWERPC_603e :: u32 where "CPU_SUBTYPE_POWERPC_603e \<equiv> 4"
abbreviation CPU_SUBTYPE_POWERPC_603ev :: u32 where "CPU_SUBTYPE_POWERPC_603ev \<equiv> 5"
abbreviation CPU_SUBTYPE_POWERPC_604 :: u32 where "CPU_SUBTYPE_POWERPC_604 \<equiv> 6"
abbreviation CPU_SUBTYPE_POWERPC_604e :: u32 where "CPU_SUBTYPE_POWERPC_604e \<equiv> 7"
abbreviation CPU_SUBTYPE_POWERPC_620 :: u32 where "CPU_SUBTYPE_POWERPC_620 \<equiv> 8"
abbreviation CPU_SUBTYPE_POWERPC_750 :: u32 where "CPU_SUBTYPE_POWERPC_750 \<equiv> 9"
abbreviation CPU_SUBTYPE_POWERPC_7400 :: u32 where "CPU_SUBTYPE_POWERPC_7400 \<equiv> 10"
abbreviation CPU_SUBTYPE_POWERPC_7450 :: u32 where "CPU_SUBTYPE_POWERPC_7450 \<equiv> 11"
abbreviation CPU_SUBTYPE_POWERPC_970 :: u32 where "CPU_SUBTYPE_POWERPC_970 \<equiv> 100"
abbreviation CPU_SUBTYPE_VEO_1 :: u32 where "CPU_SUBTYPE_VEO_1 \<equiv> 1"
abbreviation CPU_SUBTYPE_VEO_2 :: u32 where "CPU_SUBTYPE_VEO_2 \<equiv> 2"
abbreviation CPU_SUBTYPE_VEO_3 :: u32 where "CPU_SUBTYPE_VEO_3 \<equiv> 3"
abbreviation CPU_SUBTYPE_VEO_4 :: u32 where "CPU_SUBTYPE_VEO_4 \<equiv> 4"
abbreviation CPU_SUBTYPE_VEO_ALL :: u32 where "CPU_SUBTYPE_VEO_ALL \<equiv> 2"

abbreviation CPU_SUBTYPE_MASK :: u32 where "CPU_SUBTYPE_MASK \<equiv> 0xff000000"

text \<open>\<^verbatim>\<open>cpusubtype & ~CPU_SUBTYPE_MASK\<close>: the subtype without its feature bits.\<close>

definition subtype_of :: "u32 \<Rightarrow> u32" where
  "subtype_of cpusubtype = cpusubtype AND NOT CPU_SUBTYPE_MASK"

lemma NOT_CPU_SUBTYPE_MASK: "NOT CPU_SUBTYPE_MASK = 0x00ffffff"
  by (simp add: not_eq_complement)

lemma subtype_of_mask: "subtype_of w = w AND 0x00ffffff"
  unfolding subtype_of_def by (subst NOT_CPU_SUBTYPE_MASK) (rule refl)

lemma subtype_of_numeral [simp]:
  "subtype_of 0 = 0" "subtype_of 1 = 1" "subtype_of (numeral n) = numeral n AND 0x00ffffff"
  by (simp_all add: subtype_of_mask)

lemma subtype_of_subtype_of [simp]: "subtype_of (subtype_of w) = subtype_of w"
  by (simp add: subtype_of_mask and.assoc)

section \<open>The table\<close>

record arch_flag =
  af_name :: "string option"
  af_cputype :: u32
  af_cpusubtype :: u32

text \<open>The table of known architectures ends with an entry without a name.\<close>

definition arch_flags :: "arch_flag list" where
  "arch_flags =
   [\<lparr>af_name = Some ''any'', af_cputype = CPU_TYPE_ANY, af_cpusubtype = CPU_SUBTYPE_MULTIPLE\<rparr>,
    \<lparr>af_name = Some ''little'', af_cputype = CPU_TYPE_ANY, af_cpusubtype = CPU_SUBTYPE_LITTLE_ENDIAN\<rparr>,
    \<lparr>af_name = Some ''big'', af_cputype = CPU_TYPE_ANY, af_cpusubtype = CPU_SUBTYPE_BIG_ENDIAN\<rparr>,
    \<lparr>af_name = Some ''ppc64'', af_cputype = CPU_TYPE_POWERPC64, af_cpusubtype = CPU_SUBTYPE_POWERPC_ALL\<rparr>,
    \<lparr>af_name = Some ''x86_64'', af_cputype = CPU_TYPE_X86_64, af_cpusubtype = CPU_SUBTYPE_X86_64_ALL\<rparr>,
    \<lparr>af_name = Some ''ppc970-64'', af_cputype = CPU_TYPE_POWERPC64, af_cpusubtype = CPU_SUBTYPE_POWERPC_970\<rparr>,
    \<lparr>af_name = Some ''ppc'', af_cputype = CPU_TYPE_POWERPC, af_cpusubtype = CPU_SUBTYPE_POWERPC_ALL\<rparr>,
    \<lparr>af_name = Some ''i386'', af_cputype = CPU_TYPE_I386, af_cpusubtype = CPU_SUBTYPE_I386_ALL\<rparr>,
    \<lparr>af_name = Some ''m68k'', af_cputype = CPU_TYPE_MC680x0, af_cpusubtype = CPU_SUBTYPE_MC680x0_ALL\<rparr>,
    \<lparr>af_name = Some ''hppa'', af_cputype = CPU_TYPE_HPPA, af_cpusubtype = CPU_SUBTYPE_HPPA_ALL\<rparr>,
    \<lparr>af_name = Some ''sparc'', af_cputype = CPU_TYPE_SPARC, af_cpusubtype = CPU_SUBTYPE_SPARC_ALL\<rparr>,
    \<lparr>af_name = Some ''m88k'', af_cputype = CPU_TYPE_MC88000, af_cpusubtype = CPU_SUBTYPE_MC88000_ALL\<rparr>,
    \<lparr>af_name = Some ''i860'', af_cputype = CPU_TYPE_I860, af_cpusubtype = CPU_SUBTYPE_I860_ALL\<rparr>,
    \<lparr>af_name = Some ''veo'', af_cputype = CPU_TYPE_VEO, af_cpusubtype = CPU_SUBTYPE_VEO_ALL\<rparr>,
    \<lparr>af_name = Some ''arm'', af_cputype = CPU_TYPE_ARM, af_cpusubtype = CPU_SUBTYPE_ARM_ALL\<rparr>,
    \<lparr>af_name = Some ''ppc601'', af_cputype = CPU_TYPE_POWERPC, af_cpusubtype = CPU_SUBTYPE_POWERPC_601\<rparr>,
    \<lparr>af_name = Some ''ppc603'', af_cputype = CPU_TYPE_POWERPC, af_cpusubtype = CPU_SUBTYPE_POWERPC_603\<rparr>,
    \<lparr>af_name = Some ''ppc603e'', af_cputype = CPU_TYPE_POWERPC, af_cpusubtype = CPU_SUBTYPE_POWERPC_603e\<rparr>,
    \<lparr>af_name = Some ''ppc603ev'', af_cputype = CPU_TYPE_POWERPC, af_cpusubtype = CPU_SUBTYPE_POWERPC_603ev\<rparr>,
    \<lparr>af_name = Some ''ppc604'', af_cputype = CPU_TYPE_POWERPC, af_cpusubtype = CPU_SUBTYPE_POWERPC_604\<rparr>,
    \<lparr>af_name = Some ''ppc604e'', af_cputype = CPU_TYPE_POWERPC, af_cpusubtype = CPU_SUBTYPE_POWERPC_604e\<rparr>,
    \<lparr>af_name = Some ''ppc750'', af_cputype = CPU_TYPE_POWERPC, af_cpusubtype = CPU_SUBTYPE_POWERPC_750\<rparr>,
    \<lparr>af_name = Some ''ppc7400'', af_cputype = CPU_TYPE_POWERPC, af_cpusubtype = CPU_SUBTYPE_POWERPC_7400\<rparr>,
    \<lparr>af_name = Some ''ppc7450'', af_cputype = CPU_TYPE_POWERPC, af_cpusubtype = CPU_SUBTYPE_POWERPC_7450\<rparr>,
    \<lparr>af_name = Some ''ppc970'', af_cputype = CPU_TYPE_POWERPC, af_cpusubtype = CPU_SUBTYPE_POWERPC_970\<rparr>,
    \<lparr>af_name = Some ''i486'', af_cputype = CPU_TYPE_I386, af_cpusubtype = CPU_SUBTYPE_486\<rparr>,
    \<lparr>af_name = Some ''i486SX'', af_cputype = CPU_TYPE_I386, af_cpusubtype = CPU_SUBTYPE_486SX\<rparr>,
    \<lparr>af_name = Some ''pentium'', af_cputype = CPU_TYPE_I386, af_cpusubtype = CPU_SUBTYPE_PENT\<rparr>,
    \<lparr>af_name = Some ''i586'', af_cputype = CPU_TYPE_I386, af_cpusubtype = CPU_SUBTYPE_586\<rparr>,
    \<lparr>af_name = Some ''pentpro'', af_cputype = CPU_TYPE_I386, af_cpusubtype = CPU_SUBTYPE_PENTPRO\<rparr>,
    \<lparr>af_name = Some ''i686'', af_cputype = CPU_TYPE_I386, af_cpusubtype = CPU_SUBTYPE_PENTPRO\<rparr>,
    \<lparr>af_name = Some ''pentIIm3'', af_cputype = CPU_TYPE_I386, af_cpusubtype = CPU_SUBTYPE_PENTII_M3\<rparr>,
    \<lparr>af_name = Some ''pentIIm5'', af_cputype = CPU_TYPE_I386, af_cpusubtype = CPU_SUBTYPE_PENTII_M5\<rparr>,
    \<lparr>af_name = Some ''pentium4'', af_cputype = CPU_TYPE_I386, af_cpusubtype = CPU_SUBTYPE_PENTIUM_4\<rparr>,
    \<lparr>af_name = Some ''m68030'', af_cputype = CPU_TYPE_MC680x0, af_cpusubtype = CPU_SUBTYPE_MC68030_ONLY\<rparr>,
    \<lparr>af_name = Some ''m68040'', af_cputype = CPU_TYPE_MC680x0, af_cpusubtype = CPU_SUBTYPE_MC68040\<rparr>,
    \<lparr>af_name = Some ''hppa7100LC'', af_cputype = CPU_TYPE_HPPA, af_cpusubtype = CPU_SUBTYPE_HPPA_7100LC\<rparr>,
    \<lparr>af_name = Some ''veo1'', af_cputype = CPU_TYPE_VEO, af_cpusubtype = CPU_SUBTYPE_VEO_1\<rparr>,
    \<lparr>af_name = Some ''veo2'', af_cputype = CPU_TYPE_VEO, af_cpusubtype = CPU_SUBTYPE_VEO_2\<rparr>,
    \<lparr>af_name = Some ''veo3'', af_cputype = CPU_TYPE_VEO, af_cpusubtype = CPU_SUBTYPE_VEO_3\<rparr>,
    \<lparr>af_name = Some ''veo4'', af_cputype = CPU_TYPE_VEO, af_cpusubtype = CPU_SUBTYPE_VEO_4\<rparr>,
    \<lparr>af_name = Some ''armv4t'', af_cputype = CPU_TYPE_ARM, af_cpusubtype = CPU_SUBTYPE_ARM_V4T\<rparr>,
    \<lparr>af_name = Some ''armv5'', af_cputype = CPU_TYPE_ARM, af_cpusubtype = CPU_SUBTYPE_ARM_V5TEJ\<rparr>,
    \<lparr>af_name = Some ''xscale'', af_cputype = CPU_TYPE_ARM, af_cpusubtype = CPU_SUBTYPE_ARM_XSCALE\<rparr>,
    \<lparr>af_name = Some ''armv6'', af_cputype = CPU_TYPE_ARM, af_cpusubtype = CPU_SUBTYPE_ARM_V6\<rparr>,
    \<lparr>af_name = None, af_cputype = 0, af_cpusubtype = 0\<rparr>]"

text \<open>
  \<^verbatim>\<open>get_arch_from_flag\<close> returns the result code and the struct it fills in; on failure the struct
  is cleared.
\<close>

fun find_flag :: "(arch_flag \<Rightarrow> bool) \<Rightarrow> arch_flag list \<Rightarrow> arch_flag option" where
  "find_flag P [] = None"
| "find_flag P (f # fs) =
     (if af_name f = None then None else if P f then Some f else find_flag P fs)"

definition get_arch_from_flag :: "string \<Rightarrow> int \<times> arch_flag" where
  "get_arch_from_flag name =
     (case find_flag (\<lambda>f. af_name f = Some name) arch_flags of
        Some f \<Rightarrow> (1, f)
      | None \<Rightarrow> (0, \<lparr>af_name = None, af_cputype = 0, af_cpusubtype = 0\<rparr>))"

definition get_arch_flags :: "arch_flag list" where
  "get_arch_flags = arch_flags"

text \<open>The \<^verbatim>\<open>%u\<close> of \<^verbatim>\<open>sprintf\<close>.\<close>

fun decimal :: "nat \<Rightarrow> string" where
  "decimal n =
     (if n < 10 then [char_of (48 + n)] else decimal (n div 10) @ [char_of (48 + n mod 10)])"

declare decimal.simps [simp del]

definition get_arch_name_from_types :: "u32 \<Rightarrow> u32 \<Rightarrow> string" where
  "get_arch_name_from_types cputype cpusubtype =
     (case find_flag
             (\<lambda>f. af_cputype f = cputype \<and> subtype_of (af_cpusubtype f) = subtype_of cpusubtype)
             arch_flags of
        Some f \<Rightarrow> the (af_name f)
      | None \<Rightarrow> ''cputype '' @ decimal (unat cputype) @ '' cpusubtype '' @
                 decimal (unat (subtype_of cpusubtype)))"

definition get_arch_family_from_cputype :: "u32 \<Rightarrow> arch_flag option" where
  "get_arch_family_from_cputype cputype = find_flag (\<lambda>f. af_cputype f = cputype) arch_flags"

section \<open>Properties of an architecture\<close>

definition get_byte_sex_from_flag :: "arch_flag \<Rightarrow> byte_sex" where
  "get_byte_sex_from_flag flag =
     (if af_cputype flag = CPU_TYPE_MC680x0 \<or> af_cputype flag = CPU_TYPE_MC88000 \<or>
         af_cputype flag = CPU_TYPE_POWERPC \<or> af_cputype flag = CPU_TYPE_POWERPC64 \<or>
         af_cputype flag = CPU_TYPE_HPPA \<or> af_cputype flag = CPU_TYPE_SPARC \<or>
         af_cputype flag = CPU_TYPE_I860 \<or> af_cputype flag = CPU_TYPE_VEO
      then BIG_ENDIAN_BYTE_SEX
      else if af_cputype flag = CPU_TYPE_I386 \<or> af_cputype flag = CPU_TYPE_ARM
      then LITTLE_ENDIAN_BYTE_SEX
      else UNKNOWN_BYTE_SEX)"

definition get_stack_direction_from_flag :: "arch_flag \<Rightarrow> int" where
  "get_stack_direction_from_flag flag =
     (if af_cputype flag = CPU_TYPE_MC680x0 \<or> af_cputype flag = CPU_TYPE_MC88000 \<or>
         af_cputype flag = CPU_TYPE_POWERPC \<or> af_cputype flag = CPU_TYPE_I386 \<or>
         af_cputype flag = CPU_TYPE_SPARC \<or> af_cputype flag = CPU_TYPE_I860 \<or>
         af_cputype flag = CPU_TYPE_VEO \<or> af_cputype flag = CPU_TYPE_ARM
      then -1
      else if af_cputype flag = CPU_TYPE_HPPA then 1
      else 0)"

definition get_stack_addr_from_flag :: "arch_flag \<Rightarrow> u64" where
  "get_stack_addr_from_flag flag =
     (if af_cputype flag = CPU_TYPE_MC680x0 then 0x04000000
      else if af_cputype flag = CPU_TYPE_MC88000 then 0xffffe000
      else if af_cputype flag = CPU_TYPE_POWERPC \<or> af_cputype flag = CPU_TYPE_VEO \<or>
              af_cputype flag = CPU_TYPE_I386 then 0xc0000000
      else if af_cputype flag = CPU_TYPE_ARM then 0x30000000
      else if af_cputype flag = CPU_TYPE_SPARC then 0xf0000000
      else if af_cputype flag = CPU_TYPE_I860 then 0
      else if af_cputype flag = CPU_TYPE_HPPA then 0xc0000000 - 0x04000000
      else if af_cputype flag = CPU_TYPE_POWERPC64 then 0x7ffff00000000
      else if af_cputype flag = CPU_TYPE_X86_64 then 0x7fff5fc00000
      else 0)"

definition get_stack_size_from_flag :: "arch_flag \<Rightarrow> u32" where
  "get_stack_size_from_flag flag = 64 * 1024 * 1024"

definition get_segalign_from_flag :: "arch_flag \<Rightarrow> u32" where
  "get_segalign_from_flag flag =
     (if af_cputype flag = CPU_TYPE_POWERPC \<or> af_cputype flag = CPU_TYPE_POWERPC64 \<or>
         af_cputype flag = CPU_TYPE_VEO \<or> af_cputype flag = CPU_TYPE_I386 \<or>
         af_cputype flag = CPU_TYPE_X86_64 \<or> af_cputype flag = CPU_TYPE_ARM
      then 0x1000
      else 0x2000)"

abbreviation VM_PROT_READ :: u32 where "VM_PROT_READ \<equiv> 1"
abbreviation VM_PROT_WRITE :: u32 where "VM_PROT_WRITE \<equiv> 2"
abbreviation VM_PROT_EXECUTE :: u32 where "VM_PROT_EXECUTE \<equiv> 4"

definition get_segprot_from_flag :: "arch_flag \<Rightarrow> u32" where
  "get_segprot_from_flag flag =
     (if af_cputype flag = CPU_TYPE_I386 then VM_PROT_READ OR VM_PROT_WRITE
      else VM_PROT_READ OR VM_PROT_WRITE OR VM_PROT_EXECUTE)"

definition get_shared_region_size_from_flag :: "arch_flag \<Rightarrow> u32" where
  "get_shared_region_size_from_flag flag =
     (if af_cputype flag = CPU_TYPE_ARM then 0x08000000 else 0x10000000)"

definition force_cpusubtype_ALL_for_cputype :: "u32 \<Rightarrow> bool" where
  "force_cpusubtype_ALL_for_cputype cputype \<longleftrightarrow> cputype = CPU_TYPE_I386"

section \<open>Lookups in the table\<close>

lemma find_flag_Some:
  "find_flag P fs = Some f \<Longrightarrow> f \<in> set fs \<and> P f \<and> af_name f \<noteq> None"
  by (induction fs) (auto split: if_splits)

lemma find_flag_append:
  "\<forall>f \<in> set fs. af_name f \<noteq> None \<Longrightarrow>
     find_flag P (fs @ gs) = (case find_flag P fs of Some f \<Rightarrow> Some f | None \<Rightarrow> find_flag P gs)"
  by (induction fs) auto

lemma find_flag_None_iff:
  "\<forall>f \<in> set fs. af_name f \<noteq> None \<Longrightarrow> find_flag P fs = None \<longleftrightarrow> (\<forall>f \<in> set fs. \<not> P f)"
  by (induction fs) auto

text \<open>The entries before the terminator all have names, no two the same.\<close>

lemma arch_flags_names: "distinct (map af_name arch_flags)"
  by (simp add: arch_flags_def)

lemma arch_flags_butlast:
  "arch_flags = butlast arch_flags @ [\<lparr>af_name = None, af_cputype = 0, af_cpusubtype = 0\<rparr>]"
  "\<forall>f \<in> set (butlast arch_flags). af_name f \<noteq> None"
  by (simp_all add: arch_flags_def)

lemma find_arch_None_iff:
  "find_flag P arch_flags = None \<longleftrightarrow> (\<forall>f \<in> set (butlast arch_flags). \<not> P f)"
  using find_flag_append [OF arch_flags_butlast(2), of P "[\<lparr>af_name = None, af_cputype = 0, af_cpusubtype = 0\<rparr>]"]
    find_flag_None_iff [OF arch_flags_butlast(2), of P] arch_flags_butlast(1)
  by (auto split: option.splits)

lemma find_by_name:
  assumes "f \<in> set arch_flags" and "af_name f = Some n"
  shows "find_flag (\<lambda>g. af_name g = Some n) arch_flags = Some f"
proof -
  have "f \<in> set (butlast arch_flags)"
    using assms arch_flags_butlast(1) by (metis Un_iff empty_iff list.set(1,2) insert_iff set_append
        arch_flag.select_convs(1) option.distinct(1))
  then obtain g where g: "find_flag (\<lambda>g. af_name g = Some n) arch_flags = Some g"
    using find_arch_None_iff [of "\<lambda>g. af_name g = Some n"] assms by (metis not_None_eq)
  then have "g \<in> set arch_flags" and "af_name g = af_name f"
    using assms by (auto dest: find_flag_Some)
  then have "g = f"
    using arch_flags_names assms(1) by (auto simp: distinct_map inj_on_def)
  then show ?thesis using g by simp
qed

text \<open>The name made up for unknown types is longer than every name of the table.\<close>

lemma short_names: "\<forall>f \<in> set arch_flags. \<forall>n. af_name f = Some n \<longrightarrow> length n < 20"
  by (simp add: arch_flags_def)

lemma made_up_name:
  "find_flag (\<lambda>g. af_name g = Some (''cputype '' @ a @ '' cpusubtype '' @ b)) arch_flags = None"
proof (rule ccontr)
  assume "find_flag (\<lambda>g. af_name g = Some (''cputype '' @ a @ '' cpusubtype '' @ b)) arch_flags \<noteq> None"
  then obtain g where "find_flag (\<lambda>g. af_name g = Some (''cputype '' @ a @ '' cpusubtype '' @ b)) arch_flags = Some g"
    by blast
  then have "g \<in> set arch_flags" and "af_name g = Some (''cputype '' @ a @ '' cpusubtype '' @ b)"
    by (auto dest: find_flag_Some)
  then have "length (''cputype '' @ a @ '' cpusubtype '' @ b) < 20" using short_names by blast
  then show False by simp
qed

text \<open>
  Name and types of an architecture agree: looking up the name that
  \<^verbatim>\<open>get_arch_name_from_types\<close> gives returns the first entry of the table with those types when
  there is one, and fails, clearing the struct, exactly when there is none.
\<close>

theorem arch_name_round_trip:
  "get_arch_from_flag (get_arch_name_from_types cputype cpusubtype) =
     (case find_flag
             (\<lambda>f. af_cputype f = cputype \<and> subtype_of (af_cpusubtype f) = subtype_of cpusubtype)
             get_arch_flags of
        Some f \<Rightarrow> (1, f)
      | None \<Rightarrow> (0, \<lparr>af_name = None, af_cputype = 0, af_cpusubtype = 0\<rparr>))"
proof (cases "find_flag (\<lambda>f. af_cputype f = cputype \<and> subtype_of (af_cpusubtype f) = subtype_of cpusubtype) arch_flags")
  case None
  then show ?thesis
    by (simp add: get_arch_name_from_types_def get_arch_from_flag_def get_arch_flags_def
        made_up_name [simplified])
next
  case (Some f)
  then have "f \<in> set arch_flags" and "af_name f \<noteq> None" by (auto dest: find_flag_Some)
  then have "find_flag (\<lambda>g. af_name g = Some (the (af_name f))) arch_flags = Some f"
    by (auto intro: find_by_name)
  then show ?thesis
    using Some by (simp add: get_arch_name_from_types_def get_arch_from_flag_def get_arch_flags_def)
qed

text \<open>
  Every architecture of the table has a known byte order, except the three generic entries and
  the entry of x86_64: for those the routine answers \<^verbatim>\<open>UNKNOWN_BYTE_SEX\<close>.
\<close>

theorem byte_sex_of_known_archs:
  "map (\<lambda>f. the (af_name f)) (filter (\<lambda>f. get_byte_sex_from_flag f = UNKNOWN_BYTE_SEX)
     (butlast get_arch_flags)) = [''any'', ''little'', ''big'', ''x86_64'']"
  by (simp add: get_arch_flags_def arch_flags_def get_byte_sex_from_flag_def)

end
