(* ===== verification/MachO.thy ===== *)
theory MachO
  imports ByteSex
begin

text \<open>
  The structs of a Mach-O file (\<^verbatim>\<open>include/mach-o/loader.h\<close>, \<^verbatim>\<open>fat.h\<close>, \<^verbatim>\<open>nlist.h\<close>, \<^verbatim>\<open>ranlib.h\<close>) as
  records, each with the codec that gives its layout in memory, and the constants of those
  headers.  A field keeps its name, with the short name \<^verbatim>\<open>libstuff/ofile.c\<close> uses for its struct
  in front of it: \<^verbatim>\<open>st->symoff\<close> is \<open>st_symoff\<close>, \<^verbatim>\<open>sg64->vmaddr\<close> is \<open>sg64_vmaddr\<close>.  A union
  \<^verbatim>\<open>lc_str\<close> is its \<^verbatim>\<open>offset\<close> member, a nested struct its fields in place.  Signed fields
  (\<^verbatim>\<open>cpu_type_t\<close>, \<^verbatim>\<open>vm_prot_t\<close>) are words as well; where the code compares them with a sign, the
  model reads them with \<open>sint\<close>.
\<close>

section \<open>Constants\<close>

abbreviation MH_MAGIC :: u32 where "MH_MAGIC \<equiv> 0xfeedface"
abbreviation MH_CIGAM :: u32 where "MH_CIGAM \<equiv> 0xcefaedfe"
abbreviation MH_MAGIC_64 :: u32 where "MH_MAGIC_64 \<equiv> 0xfeedfacf"
abbreviation MH_CIGAM_64 :: u32 where "MH_CIGAM_64 \<equiv> 0xcffaedfe"
abbreviation FAT_MAGIC :: u32 where "FAT_MAGIC \<equiv> 0xcafebabe"
abbreviation FAT_CIGAM :: u32 where "FAT_CIGAM \<equiv> 0xbebafeca"
abbreviation LC_SEGMENT :: u32 where "LC_SEGMENT \<equiv> 1"
abbreviation LC_SYMTAB :: u32 where "LC_SYMTAB \<equiv> 2"
abbreviation LC_SYMSEG :: u32 where "LC_SYMSEG \<equiv> 3"
abbreviation LC_THREAD :: u32 where "LC_THREAD \<equiv> 4"
abbreviation LC_UNIXTHREAD :: u32 where "LC_UNIXTHREAD \<equiv> 5"
abbreviation LC_LOADFVMLIB :: u32 where "LC_LOADFVMLIB \<equiv> 6"
abbreviation LC_IDFVMLIB :: u32 where "LC_IDFVMLIB \<equiv> 7"
abbreviation LC_IDENT :: u32 where "LC_IDENT \<equiv> 8"
abbreviation LC_FVMFILE :: u32 where "LC_FVMFILE \<equiv> 9"
abbreviation LC_PREPAGE :: u32 where "LC_PREPAGE \<equiv> 10"
abbreviation LC_DYSYMTAB :: u32 where "LC_DYSYMTAB \<equiv> 0xb"
abbreviation LC_LOAD_DYLIB :: u32 where "LC_LOAD_DYLIB \<equiv> 0xc"
abbreviation LC_ID_DYLIB :: u32 where "LC_ID_DYLIB \<equiv> 0xd"
abbreviation LC_LOAD_DYLINKER :: u32 where "LC_LOAD_DYLINKER \<equiv> 0xe"
abbreviation LC_ID_DYLINKER :: u32 where "LC_ID_DYLINKER \<equiv> 0xf"
abbreviation LC_PREBOUND_DYLIB :: u32 where "LC_PREBOUND_DYLIB \<equiv> 0x10"
abbreviation LC_ROUTINES :: u32 where "LC_ROUTINES \<equiv> 0x11"
abbreviation LC_SUB_FRAMEWORK :: u32 where "LC_SUB_FRAMEWORK \<equiv> 0x12"
abbreviation LC_SUB_UMBRELLA :: u32 where "LC_SUB_UMBRELLA \<equiv> 0x13"
abbreviation LC_SUB_CLIENT :: u32 where "LC_SUB_CLIENT \<equiv> 0x14"
abbreviation LC_SUB_LIBRARY :: u32 where "LC_SUB_LIBRARY \<equiv> 0x15"
abbreviation LC_TWOLEVEL_HINTS :: u32 where "LC_TWOLEVEL_HINTS \<equiv> 0x16"
abbreviation LC_PREBIND_CKSUM :: u32 where "LC_PREBIND_CKSUM \<equiv> 0x17"
abbreviation LC_LOAD_WEAK_DYLIB :: u32 where "LC_LOAD_WEAK_DYLIB \<equiv> 0x80000018"
abbreviation LC_SEGMENT_64 :: u32 where "LC_SEGMENT_64 \<equiv> 0x19"
abbreviation LC_ROUTINES_64 :: u32 where "LC_ROUTINES_64 \<equiv> 0x1a"
abbreviation LC_UUID :: u32 where "LC_UUID \<equiv> 0x1b"
abbreviation LC_RPATH :: u32 where "LC_RPATH \<equiv> 0x8000001c"
abbreviation LC_CODE_SIGNATURE :: u32 where "LC_CODE_SIGNATURE \<equiv> 0x1d"
abbreviation LC_SEGMENT_SPLIT_INFO :: u32 where "LC_SEGMENT_SPLIT_INFO \<equiv> 0x1e"
abbreviation LC_REEXPORT_DYLIB :: u32 where "LC_REEXPORT_DYLIB \<equiv> 0x8000001f"
abbreviation LC_LAZY_LOAD_DYLIB :: u32 where "LC_LAZY_LOAD_DYLIB \<equiv> 0x20"
abbreviation LC_ENCRYPTION_INFO :: u32 where "LC_ENCRYPTION_INFO \<equiv> 0x21"

section \<open>Structs\<close>

record fat_header =
  fh_magic :: u32
  fh_nfat_arch :: u32

definition fat_header_codec :: "fat_header codec" where
  "fat_header_codec =
     \<lparr>layout = [K32, K32],
      parts = (\<lambda>x. [F32 (fh_magic x), F32 (fh_nfat_arch x)]),
      build = (\<lambda>fs. \<lparr>fh_magic = f32 (fs ! 0), fh_nfat_arch = f32 (fs ! 1)\<rparr>)\<rparr>"

record fat_arch =
  fa_cputype :: u32
  fa_cpusubtype :: u32
  fa_offset :: u32
  fa_size :: u32
  fa_align :: u32

definition fat_arch_codec :: "fat_arch codec" where
  "fat_arch_codec =
     \<lparr>layout = [K32, K32, K32, K32, K32],
      parts = (\<lambda>x. [F32 (fa_cputype x), F32 (fa_cpusubtype x), F32 (fa_offset x),
                    F32 (fa_size x), F32 (fa_align x)]),
      build = (\<lambda>fs. \<lparr>fa_cputype = f32 (fs ! 0), fa_cpusubtype = f32 (fs ! 1),
                    fa_offset = f32 (fs ! 2), fa_size = f32 (fs ! 3),
                    fa_align = f32 (fs ! 4)\<rparr>)\<rparr>"

record mach_header =
  mh_magic :: u32
  mh_cputype :: u32
  mh_cpusubtype :: u32
  mh_filetype :: u32
  mh_ncmds :: u32
  mh_sizeofcmds :: u32
  mh_flags :: u32

definition mach_header_codec :: "mach_header codec" where
  "mach_header_codec =
     \<lparr>layout = [K32, K32, K32, K32, K32, K32, K32],
      parts = (\<lambda>x. [F32 (mh_magic x), F32 (mh_cputype x), F32 (mh_cpusubtype x),
                    F32 (mh_filetype x), F32 (mh_ncmds x), F32 (mh_sizeofcmds x),
                    F32 (mh_flags x)]),
      build = (\<lambda>fs. \<lparr>mh_magic = f32 (fs ! 0), mh_cputype = f32 (fs ! 1),
                    mh_cpusubtype = f32 (fs ! 2), mh_filetype = f32 (fs ! 3),
                    mh_ncmds = f32 (fs ! 4), mh_sizeofcmds = f32 (fs ! 5),
                    mh_flags = f32 (fs ! 6)\<rparr>)\<rparr>"

record mach_header_64 =
  mh64_magic :: u32
  mh64_cputype :: u32
  mh64_cpusubtype :: u32
  mh64_filetype :: u32
  mh64_ncmds :: u32
  mh64_sizeofcmds :: u32
  mh64_flags :: u32
  mh64_reserved :: u32

definition mach_header_64_codec :: "mach_header_64 codec" where
  "mach_header_64_codec =
     \<lparr>layout = [K32, K32, K32, K32, K32, K32, K32, K32],
      parts = (\<lambda>x. [F32 (mh64_magic x), F32 (mh64_cputype x), F32 (mh64_cpusubtype x),
                    F32 (mh64_filetype x), F32 (mh64_ncmds x), F32 (mh64_sizeofcmds x),
                    F32 (mh64_flags x), F32 (mh64_reserved x)]),
      build = (\<lambda>fs. \<lparr>mh64_magic = f32 (fs ! 0), mh64_cputype = f32 (fs ! 1),
                    mh64_cpusubtype = f32 (fs ! 2), mh64_filetype = f32 (fs ! 3),
                    mh64_ncmds = f32 (fs ! 4), mh64_sizeofcmds = f32 (fs ! 5),
                    mh64_flags = f32 (fs ! 6), mh64_reserved = f32 (fs ! 7)\<rparr>)\<rparr>"

record load_command =
  lc_cmd :: u32
  lc_cmdsize :: u32

definition load_command_codec :: "load_command codec" where
  "load_command_codec =
     \<lparr>layout = [K32, K32],
      parts = (\<lambda>x. [F32 (lc_cmd x), F32 (lc_cmdsize x)]),
      build = (\<lambda>fs. \<lparr>lc_cmd = f32 (fs ! 0), lc_cmdsize = f32 (fs ! 1)\<rparr>)\<rparr>"

record segment_command =
  sg_cmd :: u32
  sg_cmdsize :: u32
  sg_segname :: "u8 list"
  sg_vmaddr :: u32
  sg_vmsize :: u32
  sg_fileoff :: u32
  sg_filesize :: u32
  sg_maxprot :: u32
  sg_initprot :: u32
  sg_nsects :: u32
  sg_flags :: u32

definition segment_command_codec :: "segment_command codec" where
  "segment_command_codec =
     \<lparr>layout = [K32, K32, K8 16, K32, K32, K32, K32, K32, K32, K32, K32],
      parts = (\<lambda>x. [F32 (sg_cmd x), F32 (sg_cmdsize x), F8 (sg_segname x),
                    F32 (sg_vmaddr x), F32 (sg_vmsize x), F32 (sg_fileoff x),
                    F32 (sg_filesize x), F32 (sg_maxprot x), F32 (sg_initprot x),
                    F32 (sg_nsects x), F32 (sg_flags x)]),
      build = (\<lambda>fs. \<lparr>sg_cmd = f32 (fs ! 0), sg_cmdsize = f32 (fs ! 1),
                    sg_segname = f8 (fs ! 2), sg_vmaddr = f32 (fs ! 3),
                    sg_vmsize = f32 (fs ! 4), sg_fileoff = f32 (fs ! 5),
                    sg_filesize = f32 (fs ! 6), sg_maxprot = f32 (fs ! 7),
                    sg_initprot = f32 (fs ! 8), sg_nsects = f32 (fs ! 9),
                    sg_flags = f32 (fs ! 10)\<rparr>)\<rparr>"

definition wf_segment_command :: "segment_command \<Rightarrow> bool" where
  "wf_segment_command x \<longleftrightarrow> length (sg_segname x) = 16"

record segment_command_64 =
  sg64_cmd :: u32
  sg64_cmdsize :: u32
  sg64_segname :: "u8 list"
  sg64_vmaddr :: u64
  sg64_vmsize :: u64
  sg64_fileoff :: u64
  sg64_filesize :: u64
  sg64_maxprot :: u32
  sg64_initprot :: u32
  sg64_nsects :: u32
  sg64_flags :: u32

definition segment_command_64_codec :: "segment_command_64 codec" where
  "segment_command_64_codec =
     \<lparr>layout = [K32, K32, K8 16, K64, K64, K64, K64, K32, K32, K32, K32],
      parts = (\<lambda>x. [F32 (sg64_cmd x), F32 (sg64_cmdsize x), F8 (sg64_segname x),
                    F64 (sg64_vmaddr x), F64 (sg64_vmsize x), F64 (sg64_fileoff x),
                    F64 (sg64_filesize x), F32 (sg64_maxprot x), F32 (sg64_initprot x),
                    F32 (sg64_nsects x), F32 (sg64_flags x)]),
      build = (\<lambda>fs. \<lparr>sg64_cmd = f32 (fs ! 0), sg64_cmdsize = f32 (fs ! 1),
                    sg64_segname = f8 (fs ! 2), sg64_vmaddr = f64 (fs ! 3),
                    sg64_vmsize = f64 (fs ! 4), sg64_fileoff = f64 (fs ! 5),
                    sg64_filesize = f64 (fs ! 6), sg64_maxprot = f32 (fs ! 7),
                    sg64_initprot = f32 (fs ! 8), sg64_nsects = f32 (fs ! 9),
                    sg64_flags = f32 (fs ! 10)\<rparr>)\<rparr>"

definition wf_segment_command_64 :: "segment_command_64 \<Rightarrow> bool" where
  "wf_segment_command_64 x \<longleftrightarrow> length (sg64_segname x) = 16"

record mach_section =
  s_sectname :: "u8 list"
  s_segname :: "u8 list"
  s_addr :: u32
  s_size :: u32
  s_offset :: u32
  s_align :: u32
  s_reloff :: u32
  s_nreloc :: u32
  s_flags :: u32
  s_reserved1 :: u32
  s_reserved2 :: u32

definition section_codec :: "mach_section codec" where
  "section_codec =
     \<lparr>layout = [K8 16, K8 16, K32, K32, K32, K32, K32, K32, K32, K32, K32],
      parts = (\<lambda>x. [F8 (s_sectname x), F8 (s_segname x), F32 (s_addr x), F32 (s_size x),
                    F32 (s_offset x), F32 (s_align x), F32 (s_reloff x), F32 (s_nreloc x),
                    F32 (s_flags x), F32 (s_reserved1 x), F32 (s_reserved2 x)]),
      build = (\<lambda>fs. \<lparr>s_sectname = f8 (fs ! 0), s_segname = f8 (fs ! 1),
                    s_addr = f32 (fs ! 2), s_size = f32 (fs ! 3), s_offset = f32 (fs ! 4),
                    s_align = f32 (fs ! 5), s_reloff = f32 (fs ! 6),
                    s_nreloc = f32 (fs ! 7), s_flags = f32 (fs ! 8),
                    s_reserved1 = f32 (fs ! 9), s_reserved2 = f32 (fs ! 10)\<rparr>)\<rparr>"

definition wf_section :: "mach_section \<Rightarrow> bool" where
  "wf_section x \<longleftrightarrow> length (s_sectname x) = 16 \<and> length (s_segname x) = 16"

record section_64 =
  s64_sectname :: "u8 list"
  s64_segname :: "u8 list"
  s64_addr :: u64
  s64_size :: u64
  s64_offset :: u32
  s64_align :: u32
  s64_reloff :: u32
  s64_nreloc :: u32
  s64_flags :: u32
  s64_reserved1 :: u32
  s64_reserved2 :: u32
  s64_reserved3 :: u32

definition section_64_codec :: "section_64 codec" where
  "section_64_codec =
     \<lparr>layout = [K8 16, K8 16, K64, K64, K32, K32, K32, K32, K32, K32, K32, K32],
      parts = (\<lambda>x. [F8 (s64_sectname x), F8 (s64_segname x), F64 (s64_addr x),
                    F64 (s64_size x), F32 (s64_offset x), F32 (s64_align x),
                    F32 (s64_reloff x), F32 (s64_nreloc x), F32 (s64_flags x),
                    F32 (s64_reserved1 x), F32 (s64_reserved2 x), F32 (s64_reserved3 x)]),
      build = (\<lambda>fs. \<lparr>s64_sectname = f8 (fs ! 0), s64_segname = f8 (fs ! 1),
                    s64_addr = f64 (fs ! 2), s64_size = f64 (fs ! 3),
                    s64_offset = f32 (fs ! 4), s64_align = f32 (fs ! 5),
                    s64_reloff = f32 (fs ! 6), s64_nreloc = f32 (fs ! 7),
                    s64_flags = f32 (fs ! 8), s64_reserved1 = f32 (fs ! 9),
                    s64_reserved2 = f32 (fs ! 10), s64_reserved3 = f32 (fs ! 11)\<rparr>)\<rparr>"

definition wf_section_64 :: "section_64 \<Rightarrow> bool" where
  "wf_section_64 x \<longleftrightarrow> length (s64_sectname x) = 16 \<and> length (s64_segname x) = 16"

record symtab_command =
  st_cmd :: u32
  st_cmdsize :: u32
  st_symoff :: u32
  st_nsyms :: u32
  st_stroff :: u32
  st_strsize :: u32

definition symtab_command_codec :: "symtab_command codec" where
  "symtab_command_codec =
     \<lparr>layout = [K32, K32, K32, K32, K32, K32],
      parts = (\<lambda>x. [F32 (st_cmd x), F32 (st_cmdsize x), F32 (st_symoff x),
                    F32 (st_nsyms x), F32 (st_stroff x), F32 (st_strsize x)]),
      build = (\<lambda>fs. \<lparr>st_cmd = f32 (fs ! 0), st_cmdsize = f32 (fs ! 1),
                    st_symoff = f32 (fs ! 2), st_nsyms = f32 (fs ! 3),
                    st_stroff = f32 (fs ! 4), st_strsize = f32 (fs ! 5)\<rparr>)\<rparr>"

record dysymtab_command =
  dyst_cmd :: u32
  dyst_cmdsize :: u32
  dyst_ilocalsym :: u32
  dyst_nlocalsym :: u32
  dyst_iextdefsym :: u32
  dyst_nextdefsym :: u32
  dyst_iundefsym :: u32
  dyst_nundefsym :: u32
  dyst_tocoff :: u32
  dyst_ntoc :: u32
  dyst_modtaboff :: u32
  dyst_nmodtab :: u32
  dyst_extrefsymoff :: u32
  dyst_nextrefsyms :: u32
  dyst_indirectsymoff :: u32
  dyst_nindirectsyms :: u32
  dyst_extreloff :: u32
  dyst_nextrel :: u32
  dyst_locreloff :: u32
  dyst_nlocrel :: u32

definition dysymtab_command_codec :: "dysymtab_command codec" where
  "dysymtab_command_codec =
     \<lparr>layout = [K32, K32, K32, K32, K32, K32, K32, K32, K32, K32, K32, K32, K32, K32, K32,
                K32, K32, K32, K32, K32],
      parts = (\<lambda>x. [F32 (dyst_cmd x), F32 (dyst_cmdsize x), F32 (dyst_ilocalsym x),
                    F32 (dyst_nlocalsym x), F32 (dyst_iextdefsym x),
                    F32 (dyst_nextdefsym x), F32 (dyst_iundefsym x),
                    F32 (dyst_nundefsym x), F32 (dyst_tocoff x), F32 (dyst_ntoc x),
                    F32 (dyst_modtaboff x), F32 (dyst_nmodtab x),
                    F32 (dyst_extrefsymoff x), F32 (dyst_nextrefsyms x),
                    F32 (dyst_indirectsymoff x), F32 (dyst_nindirectsyms x),
                    F32 (dyst_extreloff x), F32 (dyst_nextrel x), F32 (dyst_locreloff x),
                    F32 (dyst_nlocrel x)]),
      build = (\<lambda>fs. \<lparr>dyst_cmd = f32 (fs ! 0), dyst_cmdsize = f32 (fs ! 1),
                    dyst_ilocalsym = f32 (fs ! 2), dyst_nlocalsym = f32 (fs ! 3),
                    dyst_iextdefsym = f32 (fs ! 4), dyst_nextdefsym = f32 (fs ! 5),
                    dyst_iundefsym = f32 (fs ! 6), dyst_nundefsym = f32 (fs ! 7),
                    dyst_tocoff = f32 (fs ! 8), dyst_ntoc = f32 (fs ! 9),
                    dyst_modtaboff = f32 (fs ! 10), dyst_nmodtab = f32 (fs ! 11),
                    dyst_extrefsymoff = f32 (fs ! 12), dyst_nextrefsyms = f32 (fs ! 13),
                    dyst_indirectsymoff = f32 (fs ! 14),
                    dyst_nindirectsyms = f32 (fs ! 15), dyst_extreloff = f32 (fs ! 16),
                    dyst_nextrel = f32 (fs ! 17), dyst_locreloff = f32 (fs ! 18),
                    dyst_nlocrel = f32 (fs ! 19)\<rparr>)\<rparr>"

record symseg_command =
  ss_cmd :: u32
  ss_cmdsize :: u32
  ss_offset :: u32
  ss_size :: u32

definition symseg_command_codec :: "symseg_command codec" where
  "symseg_command_codec =
     \<lparr>layout = [K32, K32, K32, K32],
      parts = (\<lambda>x. [F32 (ss_cmd x), F32 (ss_cmdsize x), F32 (ss_offset x), F32 (ss_size x)]),
      build = (\<lambda>fs. \<lparr>ss_cmd = f32 (fs ! 0), ss_cmdsize = f32 (fs ! 1),
                    ss_offset = f32 (fs ! 2), ss_size = f32 (fs ! 3)\<rparr>)\<rparr>"

record fvmlib_command =
  fl_cmd :: u32
  fl_cmdsize :: u32
  fl_name_offset :: u32
  fl_minor_version :: u32
  fl_header_addr :: u32

definition fvmlib_command_codec :: "fvmlib_command codec" where
  "fvmlib_command_codec =
     \<lparr>layout = [K32, K32, K32, K32, K32],
      parts = (\<lambda>x. [F32 (fl_cmd x), F32 (fl_cmdsize x), F32 (fl_name_offset x),
                    F32 (fl_minor_version x), F32 (fl_header_addr x)]),
      build = (\<lambda>fs. \<lparr>fl_cmd = f32 (fs ! 0), fl_cmdsize = f32 (fs ! 1),
                    fl_name_offset = f32 (fs ! 2), fl_minor_version = f32 (fs ! 3),
                    fl_header_addr = f32 (fs ! 4)\<rparr>)\<rparr>"

record dylib_command =
  dl_cmd :: u32
  dl_cmdsize :: u32
  dl_name_offset :: u32
  dl_timestamp :: u32
  dl_current_version :: u32
  dl_compatibility_version :: u32

definition dylib_command_codec :: "dylib_command codec" where
  "dylib_command_codec =
     \<lparr>layout = [K32, K32, K32, K32, K32, K32],
      parts = (\<lambda>x. [F32 (dl_cmd x), F32 (dl_cmdsize x), F32 (dl_name_offset x),
                    F32 (dl_timestamp x), F32 (dl_current_version x),
                    F32 (dl_compatibility_version x)]),
      build = (\<lambda>fs. \<lparr>dl_cmd = f32 (fs ! 0), dl_cmdsize = f32 (fs ! 1),
                    dl_name_offset = f32 (fs ! 2), dl_timestamp = f32 (fs ! 3),
                    dl_current_version = f32 (fs ! 4),
                    dl_compatibility_version = f32 (fs ! 5)\<rparr>)\<rparr>"

record sub_framework_command =
  sub_cmd :: u32
  sub_cmdsize :: u32
  sub_umbrella_offset :: u32

definition sub_framework_command_codec :: "sub_framework_command codec" where
  "sub_framework_command_codec =
     \<lparr>layout = [K32, K32, K32],
      parts = (\<lambda>x. [F32 (sub_cmd x), F32 (sub_cmdsize x), F32 (sub_umbrella_offset x)]),
      build = (\<lambda>fs. \<lparr>sub_cmd = f32 (fs ! 0), sub_cmdsize = f32 (fs ! 1),
                    sub_umbrella_offset = f32 (fs ! 2)\<rparr>)\<rparr>"

record sub_umbrella_command =
  usub_cmd :: u32
  usub_cmdsize :: u32
  usub_sub_umbrella_offset :: u32

definition sub_umbrella_command_codec :: "sub_umbrella_command codec" where
  "sub_umbrella_command_codec =
     \<lparr>layout = [K32, K32, K32],
      parts = (\<lambda>x. [F32 (usub_cmd x), F32 (usub_cmdsize x), F32 (usub_sub_umbrella_offset x)]),
      build = (\<lambda>fs. \<lparr>usub_cmd = f32 (fs ! 0), usub_cmdsize = f32 (fs ! 1),
                    usub_sub_umbrella_offset = f32 (fs ! 2)\<rparr>)\<rparr>"

record sub_library_command =
  lsub_cmd :: u32
  lsub_cmdsize :: u32
  lsub_sub_library_offset :: u32

definition sub_library_command_codec :: "sub_library_command codec" where
  "sub_library_command_codec =
     \<lparr>layout = [K32, K32, K32],
      parts = (\<lambda>x. [F32 (lsub_cmd x), F32 (lsub_cmdsize x), F32 (lsub_sub_library_offset x)]),
      build = (\<lambda>fs. \<lparr>lsub_cmd = f32 (fs ! 0), lsub_cmdsize = f32 (fs ! 1),
                    lsub_sub_library_offset = f32 (fs ! 2)\<rparr>)\<rparr>"

record sub_client_command =
  csub_cmd :: u32
  csub_cmdsize :: u32
  csub_client_offset :: u32

definition sub_client_command_codec :: "sub_client_command codec" where
  "sub_client_command_codec =
     \<lparr>layout = [K32, K32, K32],
      parts = (\<lambda>x. [F32 (csub_cmd x), F32 (csub_cmdsize x), F32 (csub_client_offset x)]),
      build = (\<lambda>fs. \<lparr>csub_cmd = f32 (fs ! 0), csub_cmdsize = f32 (fs ! 1),
                    csub_client_offset = f32 (fs ! 2)\<rparr>)\<rparr>"

record prebound_dylib_command =
  pbdylib_cmd :: u32
  pbdylib_cmdsize :: u32
  pbdylib_name_offset :: u32
  pbdylib_nmodules :: u32
  pbdylib_linked_modules_offset :: u32

definition prebound_dylib_command_codec :: "prebound_dylib_command codec" where
  "prebound_dylib_command_codec =
     \<lparr>layout = [K32, K32, K32, K32, K32],
      parts = (\<lambda>x. [F32 (pbdylib_cmd x), F32 (pbdylib_cmdsize x),
                    F32 (pbdylib_name_offset x), F32 (pbdylib_nmodules x),
                    F32 (pbdylib_linked_modules_offset x)]),
      build = (\<lambda>fs. \<lparr>pbdylib_cmd = f32 (fs ! 0), pbdylib_cmdsize = f32 (fs ! 1),
                    pbdylib_name_offset = f32 (fs ! 2), pbdylib_nmodules = f32 (fs ! 3),
                    pbdylib_linked_modules_offset = f32 (fs ! 4)\<rparr>)\<rparr>"

record dylinker_command =
  dyld_cmd :: u32
  dyld_cmdsize :: u32
  dyld_name_offset :: u32

definition dylinker_command_codec :: "dylinker_command codec" where
  "dylinker_command_codec =
     \<lparr>layout = [K32, K32, K32],
      parts = (\<lambda>x. [F32 (dyld_cmd x), F32 (dyld_cmdsize x), F32 (dyld_name_offset x)]),
      build = (\<lambda>fs. \<lparr>dyld_cmd = f32 (fs ! 0), dyld_cmdsize = f32 (fs ! 1),
                    dyld_name_offset = f32 (fs ! 2)\<rparr>)\<rparr>"

record fvmfile_command =
  ff_cmd :: u32
  ff_cmdsize :: u32
  ff_name_offset :: u32
  ff_header_addr :: u32

definition fvmfile_command_codec :: "fvmfile_command codec" where
  "fvmfile_command_codec =
     \<lparr>layout = [K32, K32, K32, K32],
      parts = (\<lambda>x. [F32 (ff_cmd x), F32 (ff_cmdsize x), F32 (ff_name_offset x),
                    F32 (ff_header_addr x)]),
      build = (\<lambda>fs. \<lparr>ff_cmd = f32 (fs ! 0), ff_cmdsize = f32 (fs ! 1),
                    ff_name_offset = f32 (fs ! 2), ff_header_addr = f32 (fs ! 3)\<rparr>)\<rparr>"

record thread_command =
  ut_cmd :: u32
  ut_cmdsize :: u32

definition thread_command_codec :: "thread_command codec" where
  "thread_command_codec =
     \<lparr>layout = [K32, K32],
      parts = (\<lambda>x. [F32 (ut_cmd x), F32 (ut_cmdsize x)]),
      build = (\<lambda>fs. \<lparr>ut_cmd = f32 (fs ! 0), ut_cmdsize = f32 (fs ! 1)\<rparr>)\<rparr>"

record ident_command =
  id_cmd :: u32
  id_cmdsize :: u32

definition ident_command_codec :: "ident_command codec" where
  "ident_command_codec =
     \<lparr>layout = [K32, K32],
      parts = (\<lambda>x. [F32 (id_cmd x), F32 (id_cmdsize x)]),
      build = (\<lambda>fs. \<lparr>id_cmd = f32 (fs ! 0), id_cmdsize = f32 (fs ! 1)\<rparr>)\<rparr>"

record routines_command =
  rc_cmd :: u32
  rc_cmdsize :: u32
  rc_init_address :: u32
  rc_init_module :: u32
  rc_reserved1 :: u32
  rc_reserved2 :: u32
  rc_reserved3 :: u32
  rc_reserved4 :: u32
  rc_reserved5 :: u32
  rc_reserved6 :: u32

definition routines_command_codec :: "routines_command codec" where
  "routines_command_codec =
     \<lparr>layout = [K32, K32, K32, K32, K32, K32, K32, K32, K32, K32],
      parts = (\<lambda>x. [F32 (rc_cmd x), F32 (rc_cmdsize x), F32 (rc_init_address x),
                    F32 (rc_init_module x), F32 (rc_reserved1 x), F32 (rc_reserved2 x),
                    F32 (rc_reserved3 x), F32 (rc_reserved4 x), F32 (rc_reserved5 x),
                    F32 (rc_reserved6 x)]),
      build = (\<lambda>fs. \<lparr>rc_cmd = f32 (fs ! 0), rc_cmdsize = f32 (fs ! 1),
                    rc_init_address = f32 (fs ! 2), rc_init_module = f32 (fs ! 3),
                    rc_reserved1 = f32 (fs ! 4), rc_reserved2 = f32 (fs ! 5),
                    rc_reserved3 = f32 (fs ! 6), rc_reserved4 = f32 (fs ! 7),
                    rc_reserved5 = f32 (fs ! 8), rc_reserved6 = f32 (fs ! 9)\<rparr>)\<rparr>"

record routines_command_64 =
  rc64_cmd :: u32
  rc64_cmdsize :: u32
  rc64_init_address :: u64
  rc64_init_module :: u64
  rc64_reserved1 :: u64
  rc64_reserved2 :: u64
  rc64_reserved3 :: u64
  rc64_reserved4 :: u64
  rc64_reserved5 :: u64
  rc64_reserved6 :: u64

definition routines_command_64_codec :: "routines_command_64 codec" where
  "routines_command_64_codec =
     \<lparr>layout = [K32, K32, K64, K64, K64, K64, K64, K64, K64, K64],
      parts = (\<lambda>x. [F32 (rc64_cmd x), F32 (rc64_cmdsize x), F64 (rc64_init_address x),
                    F64 (rc64_init_module x), F64 (rc64_reserved1 x),
                    F64 (rc64_reserved2 x), F64 (rc64_reserved3 x), F64 (rc64_reserved4 x),
                    F64 (rc64_reserved5 x), F64 (rc64_reserved6 x)]),
      build = (\<lambda>fs. \<lparr>rc64_cmd = f32 (fs ! 0), rc64_cmdsize = f32 (fs ! 1),
                    rc64_init_address = f64 (fs ! 2), rc64_init_module = f64 (fs ! 3),
                    rc64_reserved1 = f64 (fs ! 4), rc64_reserved2 = f64 (fs ! 5),
                    rc64_reserved3 = f64 (fs ! 6), rc64_reserved4 = f64 (fs ! 7),
                    rc64_reserved5 = f64 (fs ! 8), rc64_reserved6 = f64 (fs ! 9)\<rparr>)\<rparr>"

record twolevel_hints_command =
  hints_cmd :: u32
  hints_cmdsize :: u32
  hints_offset :: u32
  hints_nhints :: u32

definition twolevel_hints_command_codec :: "twolevel_hints_command codec" where
  "twolevel_hints_command_codec =
     \<lparr>layout = [K32, K32, K32, K32],
      parts = (\<lambda>x. [F32 (hints_cmd x), F32 (hints_cmdsize x), F32 (hints_offset x),
                    F32 (hints_nhints x)]),
      build = (\<lambda>fs. \<lparr>hints_cmd = f32 (fs ! 0), hints_cmdsize = f32 (fs ! 1),
                    hints_offset = f32 (fs ! 2), hints_nhints = f32 (fs ! 3)\<rparr>)\<rparr>"

record prebind_cksum_command =
  cs_cmd :: u32
  cs_cmdsize :: u32
  cs_cksum :: u32

definition prebind_cksum_command_codec :: "prebind_cksum_command codec" where
  "prebind_cksum_command_codec =
     \<lparr>layout = [K32, K32, K32],
      parts = (\<lambda>x. [F32 (cs_cmd x), F32 (cs_cmdsize x), F32 (cs_cksum x)]),
      build = (\<lambda>fs. \<lparr>cs_cmd = f32 (fs ! 0), cs_cmdsize = f32 (fs ! 1),
                    cs_cksum = f32 (fs ! 2)\<rparr>)\<rparr>"

record uuid_command =
  uuid_cmd :: u32
  uuid_cmdsize :: u32
  uuid_uuid :: "u8 list"

definition uuid_command_codec :: "uuid_command codec" where
  "uuid_command_codec =
     \<lparr>layout = [K32, K32, K8 16],
      parts = (\<lambda>x. [F32 (uuid_cmd x), F32 (uuid_cmdsize x), F8 (uuid_uuid x)]),
      build = (\<lambda>fs. \<lparr>uuid_cmd = f32 (fs ! 0), uuid_cmdsize = f32 (fs ! 1),
                    uuid_uuid = f8 (fs ! 2)\<rparr>)\<rparr>"

definition wf_uuid_command :: "uuid_command \<Rightarrow> bool" where
  "wf_uuid_command x \<longleftrightarrow> length (uuid_uuid x) = 16"

record linkedit_data_command =
  ld_cmd :: u32
  ld_cmdsize :: u32
  ld_dataoff :: u32
  ld_datasize :: u32

definition linkedit_data_command_codec :: "linkedit_data_command codec" where
  "linkedit_data_command_codec =
     \<lparr>layout = [K32, K32, K32, K32],
      parts = (\<lambda>x. [F32 (ld_cmd x), F32 (ld_cmdsize x), F32 (ld_dataoff x),
                    F32 (ld_datasize x)]),
      build = (\<lambda>fs. \<lparr>ld_cmd = f32 (fs ! 0), ld_cmdsize = f32 (fs ! 1),
                    ld_dataoff = f32 (fs ! 2), ld_datasize = f32 (fs ! 3)\<rparr>)\<rparr>"

record rpath_command =
  rpath_cmd :: u32
  rpath_cmdsize :: u32
  rpath_path_offset :: u32

definition rpath_command_codec :: "rpath_command codec" where
  "rpath_command_codec =
     \<lparr>layout = [K32, K32, K32],
      parts = (\<lambda>x. [F32 (rpath_cmd x), F32 (rpath_cmdsize x), F32 (rpath_path_offset x)]),
      build = (\<lambda>fs. \<lparr>rpath_cmd = f32 (fs ! 0), rpath_cmdsize = f32 (fs ! 1),
                    rpath_path_offset = f32 (fs ! 2)\<rparr>)\<rparr>"

record encryption_info_command =
  ec_cmd :: u32
  ec_cmdsize :: u32
  ec_cryptoff :: u32
  ec_cryptsize :: u32
  ec_cryptid :: u32

definition encryption_info_command_codec :: "encryption_info_command codec" where
  "encryption_info_command_codec =
     \<lparr>layout = [K32, K32, K32, K32, K32],
      parts = (\<lambda>x. [F32 (ec_cmd x), F32 (ec_cmdsize x), F32 (ec_cryptoff x),
                    F32 (ec_cryptsize x), F32 (ec_cryptid x)]),
      build = (\<lambda>fs. \<lparr>ec_cmd = f32 (fs ! 0), ec_cmdsize = f32 (fs ! 1),
                    ec_cryptoff = f32 (fs ! 2), ec_cryptsize = f32 (fs ! 3),
                    ec_cryptid = f32 (fs ! 4)\<rparr>)\<rparr>"

record nlist =
  n_strx :: u32
  n_type :: "u8 list"
  n_sect :: "u8 list"
  n_desc :: u16
  n_value :: u32

definition nlist_codec :: "nlist codec" where
  "nlist_codec =
     \<lparr>layout = [K32, K8 1, K8 1, K16, K32],
      parts = (\<lambda>x. [F32 (n_strx x), F8 (n_type x), F8 (n_sect x), F16 (n_desc x),
                    F32 (n_value x)]),
      build = (\<lambda>fs. \<lparr>n_strx = f32 (fs ! 0), n_type = f8 (fs ! 1), n_sect = f8 (fs ! 2),
                    n_desc = f16 (fs ! 3), n_value = f32 (fs ! 4)\<rparr>)\<rparr>"

definition wf_nlist :: "nlist \<Rightarrow> bool" where
  "wf_nlist x \<longleftrightarrow> length (n_type x) = 1 \<and> length (n_sect x) = 1"

record nlist_64 =
  n64_strx :: u32
  n64_type :: "u8 list"
  n64_sect :: "u8 list"
  n64_desc :: u16
  n64_value :: u64

definition nlist_64_codec :: "nlist_64 codec" where
  "nlist_64_codec =
     \<lparr>layout = [K32, K8 1, K8 1, K16, K64],
      parts = (\<lambda>x. [F32 (n64_strx x), F8 (n64_type x), F8 (n64_sect x), F16 (n64_desc x),
                    F64 (n64_value x)]),
      build = (\<lambda>fs. \<lparr>n64_strx = f32 (fs ! 0), n64_type = f8 (fs ! 1),
                    n64_sect = f8 (fs ! 2), n64_desc = f16 (fs ! 3),
                    n64_value = f64 (fs ! 4)\<rparr>)\<rparr>"

definition wf_nlist_64 :: "nlist_64 \<Rightarrow> bool" where
  "wf_nlist_64 x \<longleftrightarrow> length (n64_type x) = 1 \<and> length (n64_sect x) = 1"

record ranlib =
  ran_strx :: u32
  ran_off :: u32

definition ranlib_codec :: "ranlib codec" where
  "ranlib_codec =
     \<lparr>layout = [K32, K32],
      parts = (\<lambda>x. [F32 (ran_strx x), F32 (ran_off x)]),
      build = (\<lambda>fs. \<lparr>ran_strx = f32 (fs ! 0), ran_off = f32 (fs ! 1)\<rparr>)\<rparr>"

record dylib_module =
  mod_module_name :: u32
  mod_iextdefsym :: u32
  mod_nextdefsym :: u32
  mod_irefsym :: u32
  mod_nrefsym :: u32
  mod_ilocalsym :: u32
  mod_nlocalsym :: u32
  mod_iextrel :: u32
  mod_nextrel :: u32
  mod_iinit_iterm :: u32
  mod_ninit_nterm :: u32
  mod_objc_module_info_addr :: u32
  mod_objc_module_info_size :: u32

definition dylib_module_codec :: "dylib_module codec" where
  "dylib_module_codec =
     \<lparr>layout = [K32, K32, K32, K32, K32, K32, K32, K32, K32, K32, K32, K32, K32],
      parts = (\<lambda>x. [F32 (mod_module_name x), F32 (mod_iextdefsym x),
                    F32 (mod_nextdefsym x), F32 (mod_irefsym x), F32 (mod_nrefsym x),
                    F32 (mod_ilocalsym x), F32 (mod_nlocalsym x), F32 (mod_iextrel x),
                    F32 (mod_nextrel x), F32 (mod_iinit_iterm x), F32 (mod_ninit_nterm x),
                    F32 (mod_objc_module_info_addr x), F32 (mod_objc_module_info_size x)]),
      build = (\<lambda>fs. \<lparr>mod_module_name = f32 (fs ! 0), mod_iextdefsym = f32 (fs ! 1),
                    mod_nextdefsym = f32 (fs ! 2), mod_irefsym = f32 (fs ! 3),
                    mod_nrefsym = f32 (fs ! 4), mod_ilocalsym = f32 (fs ! 5),
                    mod_nlocalsym = f32 (fs ! 6), mod_iextrel = f32 (fs ! 7),
                    mod_nextrel = f32 (fs ! 8), mod_iinit_iterm = f32 (fs ! 9),
                    mod_ninit_nterm = f32 (fs ! 10),
                    mod_objc_module_info_addr = f32 (fs ! 11),
                    mod_objc_module_info_size = f32 (fs ! 12)\<rparr>)\<rparr>"

record dylib_module_64 =
  mod64_module_name :: u32
  mod64_iextdefsym :: u32
  mod64_nextdefsym :: u32
  mod64_irefsym :: u32
  mod64_nrefsym :: u32
  mod64_ilocalsym :: u32
  mod64_nlocalsym :: u32
  mod64_iextrel :: u32
  mod64_nextrel :: u32
  mod64_iinit_iterm :: u32
  mod64_ninit_nterm :: u32
  mod64_objc_module_info_size :: u32
  mod64_objc_module_info_addr :: u64

definition dylib_module_64_codec :: "dylib_module_64 codec" where
  "dylib_module_64_codec =
     \<lparr>layout = [K32, K32, K32, K32, K32, K32, K32, K32, K32, K32, K32, K32, K64],
      parts = (\<lambda>x. [F32 (mod64_module_name x), F32 (mod64_iextdefsym x),
                    F32 (mod64_nextdefsym x), F32 (mod64_irefsym x), F32 (mod64_nrefsym x),
                    F32 (mod64_ilocalsym x), F32 (mod64_nlocalsym x),
                    F32 (mod64_iextrel x), F32 (mod64_nextrel x),
                    F32 (mod64_iinit_iterm x), F32 (mod64_ninit_nterm x),
                    F32 (mod64_objc_module_info_size x), F64 (mod64_objc_module_info_addr x)]),
      build = (\<lambda>fs. \<lparr>mod64_module_name = f32 (fs ! 0), mod64_iextdefsym = f32 (fs ! 1),
                    mod64_nextdefsym = f32 (fs ! 2), mod64_irefsym = f32 (fs ! 3),
                    mod64_nrefsym = f32 (fs ! 4), mod64_ilocalsym = f32 (fs ! 5),
                    mod64_nlocalsym = f32 (fs ! 6), mod64_iextrel = f32 (fs ! 7),
                    mod64_nextrel = f32 (fs ! 8), mod64_iinit_iterm = f32 (fs ! 9),
                    mod64_ninit_nterm = f32 (fs ! 10),
                    mod64_objc_module_info_size = f32 (fs ! 11),
                    mod64_objc_module_info_addr = f64 (fs ! 12)\<rparr>)\<rparr>"

record dylib_table_of_contents =
  toc_symbol_index :: u32
  toc_module_index :: u32

definition dylib_table_of_contents_codec :: "dylib_table_of_contents codec" where
  "dylib_table_of_contents_codec =
     \<lparr>layout = [K32, K32],
      parts = (\<lambda>x. [F32 (toc_symbol_index x), F32 (toc_module_index x)]),
      build = (\<lambda>fs. \<lparr>toc_symbol_index = f32 (fs ! 0), toc_module_index = f32 (fs ! 1)\<rparr>)\<rparr>"

text \<open>How a list of kinds takes a decoded field list apart.\<close>

lemma kind_of_K8 [simp]: "kind_of f = K8 n \<longleftrightarrow> (\<exists>bs. f = F8 bs \<and> length bs = n)"
  by (cases f) auto

lemma kind_of_K16 [simp]: "kind_of f = K16 \<longleftrightarrow> (\<exists>w. f = F16 w)"
  by (cases f) auto

lemma kind_of_K32 [simp]: "kind_of f = K32 \<longleftrightarrow> (\<exists>w. f = F32 w)"
  by (cases f) auto

lemma kind_of_K64 [simp]: "kind_of f = K64 \<longleftrightarrow> (\<exists>w. f = F64 w)"
  by (cases f) auto

end
