(* ===== verification/BestArch.thy ===== *)
theory BestArch
  imports Arch MachO
begin

text \<open>
  \<^verbatim>\<open>libstuff/best_arch.c\<close>: choosing the slice of a fat file for a processor
  (\<^verbatim>\<open>cpusubtype_findbestarch\<close>), merging the subtypes of linked objects (\<^verbatim>\<open>cpusubtype_combine\<close>) and
  deciding what a processor can run (\<^verbatim>\<open>cpusubtype_execute\<close>).  Each is one definition per
  processor family and one that dispatches, as the \<^verbatim>\<open>switch\<close> on the type does.  A pointer into
  the array of slices is its index.
\<close>

section \<open>Choosing a slice\<close>

text \<open>The loops that return the first slice that satisfies a condition.\<close>

fun first_arch :: "(fat_arch \<Rightarrow> bool) \<Rightarrow> fat_arch list \<Rightarrow> nat option" where
  "first_arch P [] = None"
| "first_arch P (a # as) = (if P a then Some 0 else map_option Suc (first_arch P as))"

text \<open>One loop after the other: the first that returns decides.\<close>

fun first_some :: "'a option list \<Rightarrow> 'a option" where
  "first_some [] = None"
| "first_some (Some x # xs) = Some x"
| "first_some (None # xs) = first_some xs"

text \<open>The condition of most loops: the type is that of the host and the masked subtype is \<open>s\<close>.\<close>

definition arch_is :: "u32 \<Rightarrow> u32 \<Rightarrow> fat_arch \<Rightarrow> bool" where
  "arch_is cputype s a \<longleftrightarrow> fa_cputype a = cputype \<and> subtype_of (fa_cpusubtype a) = s"

definition loop_for :: "u32 \<Rightarrow> fat_arch list \<Rightarrow> u32 \<Rightarrow> nat option" where
  "loop_for cputype fat_archs s = first_arch (arch_is cputype s) fat_archs"

definition findbest_POWERPC64 :: "u32 \<Rightarrow> u32 \<Rightarrow> fat_arch list \<Rightarrow> nat option" where
  "findbest_POWERPC64 cputype cpusubtype fat_archs =
     (let s = subtype_of cpusubtype; loop = loop_for cputype fat_archs
      in first_some
           ((if s = CPU_SUBTYPE_POWERPC_ALL \<or> s = CPU_SUBTYPE_POWERPC_970
             then [loop CPU_SUBTYPE_POWERPC_970] else []) @
            [loop CPU_SUBTYPE_POWERPC_ALL]))"

definition findbest_X86_64 :: "u32 \<Rightarrow> u32 \<Rightarrow> fat_arch list \<Rightarrow> nat option" where
  "findbest_X86_64 cputype cpusubtype fat_archs = loop_for cputype fat_archs CPU_SUBTYPE_I386_ALL"

text \<open>The family and model packed into an Intel subtype.\<close>

definition CPU_SUBTYPE_INTEL_FAMILY :: "u32 \<Rightarrow> u32" where
  "CPU_SUBTYPE_INTEL_FAMILY x = x AND 15"

definition CPU_SUBTYPE_INTEL_MODEL :: "u32 \<Rightarrow> u32" where
  "CPU_SUBTYPE_INTEL_MODEL x = drop_bit 4 x"

abbreviation CPU_SUBTYPE_INTEL_FAMILY_MAX :: u32 where "CPU_SUBTYPE_INTEL_FAMILY_MAX \<equiv> 15"
abbreviation LONG_MAX :: u32 where "LONG_MAX \<equiv> 0x7fffffff"

text \<open>
  The last resort of the i386 case: the lowest family among the slices of the type, and in it the
  first slice with the lowest model.
\<close>

fun lowest_family :: "u32 \<Rightarrow> u32 \<Rightarrow> fat_arch list \<Rightarrow> u32" where
  "lowest_family cputype low [] = low"
| "lowest_family cputype low (a # as) =
     (if fa_cputype a \<noteq> cputype then lowest_family cputype low as
      else if CPU_SUBTYPE_INTEL_FAMILY (subtype_of (fa_cpusubtype a)) < low
      then lowest_family cputype (CPU_SUBTYPE_INTEL_FAMILY (subtype_of (fa_cpusubtype a))) as
      else lowest_family cputype low as)"

fun lowest_index :: "u32 \<Rightarrow> u32 \<Rightarrow> u32 \<Rightarrow> int \<Rightarrow> nat \<Rightarrow> fat_arch list \<Rightarrow> int" where
  "lowest_index cputype family lowest_model index i [] = index"
| "lowest_index cputype family lowest_model index i (a # as) =
     (if fa_cputype a \<noteq> cputype then lowest_index cputype family lowest_model index (Suc i) as
      else if CPU_SUBTYPE_INTEL_FAMILY (subtype_of (fa_cpusubtype a)) = family \<and>
              CPU_SUBTYPE_INTEL_MODEL (subtype_of (fa_cpusubtype a)) < lowest_model
      then lowest_index cputype family
             (CPU_SUBTYPE_INTEL_MODEL (subtype_of (fa_cpusubtype a))) (int i) (Suc i) as
      else lowest_index cputype family lowest_model index (Suc i) as)"

definition findbest_I386 :: "u32 \<Rightarrow> u32 \<Rightarrow> fat_arch list \<Rightarrow> nat option" where
  "findbest_I386 cputype cpusubtype fat_archs =
     (let s = subtype_of cpusubtype; loop = loop_for cputype fat_archs
      in case first_some
           ((if s = CPU_SUBTYPE_I386_ALL \<or> s = CPU_SUBTYPE_486 then []
             else (if s = CPU_SUBTYPE_PENT \<or> s = CPU_SUBTYPE_486SX then []
                   else [loop CPU_SUBTYPE_PENT]) @ [loop CPU_SUBTYPE_486]) @
            [loop CPU_SUBTYPE_I386_ALL, loop CPU_SUBTYPE_486, loop CPU_SUBTYPE_486SX,
             loop CPU_SUBTYPE_586]) of
           Some i \<Rightarrow> Some i
         | None \<Rightarrow>
             (let family = lowest_family cputype (CPU_SUBTYPE_INTEL_FAMILY_MAX + 1) fat_archs
              in if family = CPU_SUBTYPE_INTEL_FAMILY_MAX + 1 then None
                 else Some (nat (lowest_index cputype family LONG_MAX (-1) 0 fat_archs))))"

definition findbest_MC680x0 :: "u32 \<Rightarrow> u32 \<Rightarrow> fat_arch list \<Rightarrow> nat option" where
  "findbest_MC680x0 cputype cpusubtype fat_archs =
     (let loop = loop_for cputype fat_archs
      in first_some
           ([loop CPU_SUBTYPE_MC680x0_ALL] @
            (if subtype_of cpusubtype = CPU_SUBTYPE_MC680x0_ALL
             then [loop CPU_SUBTYPE_MC68040, loop CPU_SUBTYPE_MC68030_ONLY] else [])))"

definition findbest_POWERPC :: "u32 \<Rightarrow> u32 \<Rightarrow> fat_arch list \<Rightarrow> nat option" where
  "findbest_POWERPC cputype cpusubtype fat_archs =
     (let s = subtype_of cpusubtype; loop = loop_for cputype fat_archs;
          from_970 = s = CPU_SUBTYPE_POWERPC_ALL \<or> s = CPU_SUBTYPE_POWERPC_970;
          from_7450 = from_970 \<or> s = CPU_SUBTYPE_POWERPC_7450 \<or> s = CPU_SUBTYPE_POWERPC_7400;
          from_750 = from_7450 \<or> s = CPU_SUBTYPE_POWERPC_750 \<or> s = CPU_SUBTYPE_POWERPC_604e \<or>
            s = CPU_SUBTYPE_POWERPC_604 \<or> s = CPU_SUBTYPE_POWERPC_603ev \<or>
            s = CPU_SUBTYPE_POWERPC_603e \<or> s = CPU_SUBTYPE_POWERPC_603
      in first_some
           ((if from_970 then [loop CPU_SUBTYPE_POWERPC_970] else []) @
            (if from_7450 then [loop CPU_SUBTYPE_POWERPC_7450, loop CPU_SUBTYPE_POWERPC_7400] else []) @
            (if from_750
             then [loop CPU_SUBTYPE_POWERPC_750, loop CPU_SUBTYPE_POWERPC_604e,
                   loop CPU_SUBTYPE_POWERPC_604, loop CPU_SUBTYPE_POWERPC_603ev,
                   loop CPU_SUBTYPE_POWERPC_603e, loop CPU_SUBTYPE_POWERPC_603] else []) @
            [loop CPU_SUBTYPE_POWERPC_ALL]))"

definition findbest_VEO :: "u32 \<Rightarrow> u32 \<Rightarrow> fat_arch list \<Rightarrow> nat option" where
  "findbest_VEO cputype cpusubtype fat_archs =
     (let s = subtype_of cpusubtype; loop = loop_for cputype fat_archs;
          from_1 = s = CPU_SUBTYPE_VEO_1 \<or> s = CPU_SUBTYPE_VEO_3
      in first_some
           ((if from_1 then [loop CPU_SUBTYPE_VEO_2] else []) @
            (if from_1 \<or> s = CPU_SUBTYPE_VEO_4
             then [loop CPU_SUBTYPE_VEO_3, loop CPU_SUBTYPE_VEO_2] else [])))"

text \<open>The ARM loops compare the subtypes unmasked.\<close>

definition arm_loop :: "u32 \<Rightarrow> fat_arch list \<Rightarrow> u32 \<Rightarrow> nat option" where
  "arm_loop cputype fat_archs s =
     first_arch (\<lambda>a. fa_cputype a = cputype \<and> fa_cpusubtype a = s) fat_archs"

definition findbest_ARM :: "u32 \<Rightarrow> u32 \<Rightarrow> fat_arch list \<Rightarrow> nat option" where
  "findbest_ARM cputype cpusubtype fat_archs =
     (let loop = arm_loop cputype fat_archs
      in first_some
           ((if cpusubtype = CPU_SUBTYPE_ARM_ALL \<or> cpusubtype = CPU_SUBTYPE_ARM_V6
             then [loop CPU_SUBTYPE_ARM_V6] else []) @
            (if cpusubtype = CPU_SUBTYPE_ARM_ALL \<or> cpusubtype = CPU_SUBTYPE_ARM_V6 \<or>
                cpusubtype = CPU_SUBTYPE_ARM_V5TEJ
             then [loop CPU_SUBTYPE_ARM_V5TEJ] else []) @
            (if cpusubtype = CPU_SUBTYPE_ARM_ALL \<or> cpusubtype = CPU_SUBTYPE_ARM_XSCALE
             then [loop CPU_SUBTYPE_ARM_XSCALE] else []) @
            [loop CPU_SUBTYPE_ARM_V4T, loop CPU_SUBTYPE_ARM_ALL]))"

definition cpusubtype_findbestarch :: "u32 \<Rightarrow> u32 \<Rightarrow> fat_arch list \<Rightarrow> nat option" where
  "cpusubtype_findbestarch cputype cpusubtype fat_archs =
     (case loop_for cputype fat_archs (subtype_of cpusubtype) of
        Some i \<Rightarrow> Some i
      | None \<Rightarrow>
          if cputype = CPU_TYPE_POWERPC64 then findbest_POWERPC64 cputype cpusubtype fat_archs
          else if cputype = CPU_TYPE_X86_64 then findbest_X86_64 cputype cpusubtype fat_archs
          else if cputype = CPU_TYPE_I386 then findbest_I386 cputype cpusubtype fat_archs
          else if cputype = CPU_TYPE_MC680x0 then findbest_MC680x0 cputype cpusubtype fat_archs
          else if cputype = CPU_TYPE_POWERPC then findbest_POWERPC cputype cpusubtype fat_archs
          else if cputype = CPU_TYPE_VEO then findbest_VEO cputype cpusubtype fat_archs
          else if cputype = CPU_TYPE_MC88000 then loop_for cputype fat_archs CPU_SUBTYPE_MC88000_ALL
          else if cputype = CPU_TYPE_I860 then loop_for cputype fat_archs CPU_SUBTYPE_I860_ALL
          else if cputype = CPU_TYPE_HPPA then loop_for cputype fat_archs CPU_SUBTYPE_HPPA_ALL
          else if cputype = CPU_TYPE_SPARC then loop_for cputype fat_archs CPU_SUBTYPE_SPARC_ALL
          else if cputype = CPU_TYPE_ARM then findbest_ARM cputype cpusubtype fat_archs
          else None)"

section \<open>Merging subtypes\<close>

text \<open>\<^verbatim>\<open>(cpu_subtype_t)-1\<close>: the subtypes cannot be combined.\<close>

abbreviation CANNOT_COMBINE :: u32 where "CANNOT_COMBINE \<equiv> 0xffffffff"

definition combine_MC680x0 :: "u32 \<Rightarrow> u32 \<Rightarrow> u32" where
  "combine_MC680x0 cpusubtype1 cpusubtype2 =
     (let s1 = subtype_of cpusubtype1; s2 = subtype_of cpusubtype2
      in if s1 \<noteq> CPU_SUBTYPE_MC680x0_ALL \<and> s1 \<noteq> CPU_SUBTYPE_MC68030_ONLY \<and> s1 \<noteq> CPU_SUBTYPE_MC68040
         then CANNOT_COMBINE
         else if s2 \<noteq> CPU_SUBTYPE_MC680x0_ALL \<and> s2 \<noteq> CPU_SUBTYPE_MC68030_ONLY \<and> s2 \<noteq> CPU_SUBTYPE_MC68040
         then CANNOT_COMBINE
         else if s1 = CPU_SUBTYPE_MC68030_ONLY \<and> s2 = CPU_SUBTYPE_MC68040 then CANNOT_COMBINE
         else if s1 = CPU_SUBTYPE_MC68040 \<and> s2 = CPU_SUBTYPE_MC68030_ONLY then CANNOT_COMBINE
         else if s1 = CPU_SUBTYPE_MC68030_ONLY \<or> s2 = CPU_SUBTYPE_MC68030_ONLY
         then CPU_SUBTYPE_MC68030_ONLY
         else if s1 = CPU_SUBTYPE_MC68040 \<or> s2 = CPU_SUBTYPE_MC68040 then CPU_SUBTYPE_MC68040
         else CANNOT_COMBINE)"

definition combine_POWERPC :: "u32 \<Rightarrow> u32 \<Rightarrow> u32" where
  "combine_POWERPC cpusubtype1 cpusubtype2 =
     (let s1 = subtype_of cpusubtype1; s2 = subtype_of cpusubtype2
      in if s1 = CPU_SUBTYPE_POWERPC_ALL then cpusubtype2
         else if s2 = CPU_SUBTYPE_POWERPC_ALL then cpusubtype1
         else if s1 = CPU_SUBTYPE_POWERPC_601 \<or> s2 = CPU_SUBTYPE_POWERPC_601
         then CPU_SUBTYPE_POWERPC_601
         else if s1 > s2 then cpusubtype1 else cpusubtype2)"

definition combine_POWERPC64 :: "u32 \<Rightarrow> u32 \<Rightarrow> u32" where
  "combine_POWERPC64 cpusubtype1 cpusubtype2 =
     (let s1 = subtype_of cpusubtype1; s2 = subtype_of cpusubtype2
      in if s1 = CPU_SUBTYPE_POWERPC_ALL then cpusubtype2
         else if s2 = CPU_SUBTYPE_POWERPC_ALL then cpusubtype1
         else if s1 > s2 then cpusubtype1 else cpusubtype2)"

definition combine_VEO :: "u32 \<Rightarrow> u32 \<Rightarrow> u32" where
  "combine_VEO cpusubtype1 cpusubtype2 =
     (let s1 = subtype_of cpusubtype1; s2 = subtype_of cpusubtype2
      in if s1 = CPU_SUBTYPE_VEO_1 \<and> s2 = CPU_SUBTYPE_VEO_2 then CPU_SUBTYPE_VEO_1
         else if s1 = CPU_SUBTYPE_VEO_2 \<and> s2 = CPU_SUBTYPE_VEO_1 then CPU_SUBTYPE_VEO_1
         else if s1 = CPU_SUBTYPE_VEO_3 \<and> s2 = CPU_SUBTYPE_VEO_2 then CPU_SUBTYPE_VEO_3
         else if s1 = CPU_SUBTYPE_VEO_2 \<and> s2 = CPU_SUBTYPE_VEO_3 then CPU_SUBTYPE_VEO_3
         else if s1 = CPU_SUBTYPE_VEO_4 \<and> (s2 = CPU_SUBTYPE_VEO_2 \<or> s2 = CPU_SUBTYPE_VEO_3)
         then CPU_SUBTYPE_VEO_4
         else if (s1 = CPU_SUBTYPE_VEO_2 \<or> s1 = CPU_SUBTYPE_VEO_3) \<and> s2 = CPU_SUBTYPE_VEO_4
         then CPU_SUBTYPE_VEO_4
         else CANNOT_COMBINE)"

definition combine_MC88000 :: "u32 \<Rightarrow> u32 \<Rightarrow> u32" where
  "combine_MC88000 cpusubtype1 cpusubtype2 =
     (let s1 = subtype_of cpusubtype1; s2 = subtype_of cpusubtype2
      in if s1 \<noteq> CPU_SUBTYPE_MC88000_ALL \<and> s1 \<noteq> CPU_SUBTYPE_MC88110 then CANNOT_COMBINE
         else if s2 \<noteq> CPU_SUBTYPE_MC88000_ALL \<and> s2 \<noteq> CPU_SUBTYPE_MC88110 then CANNOT_COMBINE
         else if s1 = CPU_SUBTYPE_MC88110 \<or> s2 = CPU_SUBTYPE_MC88110 then CPU_SUBTYPE_MC88110
         else CANNOT_COMBINE)"

definition combine_I860 :: "u32 \<Rightarrow> u32 \<Rightarrow> u32" where
  "combine_I860 cpusubtype1 cpusubtype2 =
     (let s1 = subtype_of cpusubtype1; s2 = subtype_of cpusubtype2
      in if s1 \<noteq> CPU_SUBTYPE_I860_ALL \<and> s1 \<noteq> CPU_SUBTYPE_I860_860 then CANNOT_COMBINE
         else if s2 \<noteq> CPU_SUBTYPE_I860_ALL \<and> s2 \<noteq> CPU_SUBTYPE_I860_860 then CANNOT_COMBINE
         else if s1 = CPU_SUBTYPE_I860_860 \<or> s2 = CPU_SUBTYPE_I860_860 then CPU_SUBTYPE_I860_860
         else CANNOT_COMBINE)"

definition combine_HPPA :: "u32 \<Rightarrow> u32 \<Rightarrow> u32" where
  "combine_HPPA cpusubtype1 cpusubtype2 =
     (let s1 = subtype_of cpusubtype1; s2 = subtype_of cpusubtype2
      in if s1 \<noteq> CPU_SUBTYPE_HPPA_ALL \<and> s1 \<noteq> CPU_SUBTYPE_HPPA_7100LC then CANNOT_COMBINE
         else if s2 \<noteq> CPU_SUBTYPE_HPPA_ALL \<and> s2 \<noteq> CPU_SUBTYPE_HPPA_7100LC then CANNOT_COMBINE
         else CPU_SUBTYPE_HPPA_7100LC)"

definition combine_ARM :: "u32 \<Rightarrow> u32 \<Rightarrow> u32" where
  "combine_ARM cpusubtype1 cpusubtype2 =
     (let s1 = subtype_of cpusubtype1; s2 = subtype_of cpusubtype2
      in if s1 = CPU_SUBTYPE_ARM_ALL then cpusubtype2
         else if s2 = CPU_SUBTYPE_ARM_ALL then cpusubtype1
         else if s1 = CPU_SUBTYPE_ARM_V6 then
           (if s2 = CPU_SUBTYPE_ARM_XSCALE then CANNOT_COMBINE else CPU_SUBTYPE_ARM_V6)
         else if s1 = CPU_SUBTYPE_ARM_XSCALE then
           (if s2 = CPU_SUBTYPE_ARM_V6 \<or> s2 = CPU_SUBTYPE_ARM_V5TEJ then CANNOT_COMBINE
            else CPU_SUBTYPE_ARM_XSCALE)
         else if s1 = CPU_SUBTYPE_ARM_V5TEJ then
           (if s2 = CPU_SUBTYPE_ARM_XSCALE then CANNOT_COMBINE
            else if s2 = CPU_SUBTYPE_ARM_V6 then CPU_SUBTYPE_ARM_V6
            else CPU_SUBTYPE_ARM_V5TEJ)
         else if s1 = CPU_SUBTYPE_ARM_V4T then s2
         else CANNOT_COMBINE)"

definition cpusubtype_combine :: "u32 \<Rightarrow> u32 \<Rightarrow> u32 \<Rightarrow> u32" where
  "cpusubtype_combine cputype cpusubtype1 cpusubtype2 =
     (if cputype = CPU_TYPE_I386 \<or> cputype = CPU_TYPE_X86_64 then CPU_SUBTYPE_I386_ALL
      else if subtype_of cpusubtype1 = subtype_of cpusubtype2 then cpusubtype1
      else if cputype = CPU_TYPE_MC680x0 then combine_MC680x0 cpusubtype1 cpusubtype2
      else if cputype = CPU_TYPE_POWERPC then combine_POWERPC cpusubtype1 cpusubtype2
      else if cputype = CPU_TYPE_POWERPC64 then combine_POWERPC64 cpusubtype1 cpusubtype2
      else if cputype = CPU_TYPE_VEO then combine_VEO cpusubtype1 cpusubtype2
      else if cputype = CPU_TYPE_MC88000 then combine_MC88000 cpusubtype1 cpusubtype2
      else if cputype = CPU_TYPE_I860 then combine_I860 cpusubtype1 cpusubtype2
      else if cputype = CPU_TYPE_HPPA then combine_HPPA cpusubtype1 cpusubtype2
      else if cputype = CPU_TYPE_SPARC then CANNOT_COMBINE
      else if cputype = CPU_TYPE_ARM then combine_ARM cpusubtype1 cpusubtype2
      else CANNOT_COMBINE)"

section \<open>What a host can run\<close>

definition execute_POWERPC :: "u32 \<Rightarrow> u32 \<Rightarrow> bool" where
  "execute_POWERPC host_cpusubtype exec_cpusubtype =
     (let host = subtype_of host_cpusubtype; exec = subtype_of exec_cpusubtype;
          common = [CPU_SUBTYPE_POWERPC_750, CPU_SUBTYPE_POWERPC_620, CPU_SUBTYPE_POWERPC_604e,
            CPU_SUBTYPE_POWERPC_604, CPU_SUBTYPE_POWERPC_603ev, CPU_SUBTYPE_POWERPC_603e,
            CPU_SUBTYPE_POWERPC_603, CPU_SUBTYPE_POWERPC_602, CPU_SUBTYPE_POWERPC_ALL]
      in if host = CPU_SUBTYPE_POWERPC_970 then
           exec \<in> set ([CPU_SUBTYPE_POWERPC_970, CPU_SUBTYPE_POWERPC_7450,
                         CPU_SUBTYPE_POWERPC_7400] @ common)
         else if host = CPU_SUBTYPE_POWERPC_7450 \<or> host = CPU_SUBTYPE_POWERPC_7400 then
           exec \<in> set ([CPU_SUBTYPE_POWERPC_7450, CPU_SUBTYPE_POWERPC_7400] @ common)
         else if host \<in> set [CPU_SUBTYPE_POWERPC_750, CPU_SUBTYPE_POWERPC_620,
                   CPU_SUBTYPE_POWERPC_604e, CPU_SUBTYPE_POWERPC_604, CPU_SUBTYPE_POWERPC_603ev,
                   CPU_SUBTYPE_POWERPC_603e, CPU_SUBTYPE_POWERPC_603, CPU_SUBTYPE_POWERPC_602] then
           exec \<in> set common
         else if host = CPU_SUBTYPE_POWERPC_601 then
           exec \<in> set (CPU_SUBTYPE_POWERPC_601 # common)
         else exec = CPU_SUBTYPE_POWERPC_ALL)"

definition execute_I386 :: "u32 \<Rightarrow> bool" where
  "execute_I386 exec_cpusubtype =
     (subtype_of exec_cpusubtype \<in>
        set [CPU_SUBTYPE_I386_ALL, CPU_SUBTYPE_486, CPU_SUBTYPE_486SX, CPU_SUBTYPE_586,
             CPU_SUBTYPE_PENTPRO, CPU_SUBTYPE_PENTII_M3, CPU_SUBTYPE_PENTII_M5,
             CPU_SUBTYPE_PENTIUM_4])"

definition execute_MC680x0 :: "u32 \<Rightarrow> u32 \<Rightarrow> bool" where
  "execute_MC680x0 host_cpusubtype exec_cpusubtype =
     (let host = subtype_of host_cpusubtype; exec = subtype_of exec_cpusubtype
      in if host = CPU_SUBTYPE_MC68040 then
           exec = CPU_SUBTYPE_MC68040 \<or> exec = CPU_SUBTYPE_MC680x0_ALL
         else if host = CPU_SUBTYPE_MC68030 then
           exec = CPU_SUBTYPE_MC680x0_ALL \<or> exec = CPU_SUBTYPE_MC68030_ONLY
         else exec = CPU_SUBTYPE_MC680x0_ALL)"

definition execute_MC88000 :: "u32 \<Rightarrow> u32 \<Rightarrow> bool" where
  "execute_MC88000 host_cpusubtype exec_cpusubtype =
     (let host = subtype_of host_cpusubtype; exec = subtype_of exec_cpusubtype
      in if host = CPU_SUBTYPE_MC88110 then
           exec = CPU_SUBTYPE_MC88110 \<or> exec = CPU_SUBTYPE_MC88000_ALL
         else exec = CPU_SUBTYPE_MC88000_ALL)"

definition execute_HPPA :: "u32 \<Rightarrow> u32 \<Rightarrow> bool" where
  "execute_HPPA host_cpusubtype exec_cpusubtype =
     (let host = subtype_of host_cpusubtype; exec = subtype_of exec_cpusubtype
      in if host = CPU_SUBTYPE_HPPA_7100LC then
           exec = CPU_SUBTYPE_HPPA_ALL \<or> exec = CPU_SUBTYPE_HPPA_7100LC
         else if host = CPU_SUBTYPE_HPPA_7100 then exec = CPU_SUBTYPE_HPPA_ALL
         else exec = CPU_SUBTYPE_HPPA_ALL)"

definition execute_ARM :: "u32 \<Rightarrow> u32 \<Rightarrow> bool" where
  "execute_ARM host_cpusubtype exec_cpusubtype =
     (if host_cpusubtype = CPU_SUBTYPE_ARM_V6 then
        exec_cpusubtype \<in> set [CPU_SUBTYPE_ARM_ALL, CPU_SUBTYPE_ARM_V4T, CPU_SUBTYPE_ARM_V5TEJ,
                                CPU_SUBTYPE_ARM_V6]
      else if host_cpusubtype = CPU_SUBTYPE_ARM_V5TEJ then
        exec_cpusubtype \<in> set [CPU_SUBTYPE_ARM_ALL, CPU_SUBTYPE_ARM_V5TEJ, CPU_SUBTYPE_ARM_V4T]
      else if host_cpusubtype = CPU_SUBTYPE_ARM_XSCALE then
        exec_cpusubtype \<in> set [CPU_SUBTYPE_ARM_ALL, CPU_SUBTYPE_ARM_XSCALE, CPU_SUBTYPE_ARM_V4T]
      else if host_cpusubtype = CPU_SUBTYPE_ARM_V4T then
        exec_cpusubtype \<in> set [CPU_SUBTYPE_ARM_ALL, CPU_SUBTYPE_ARM_V4T]
      else exec_cpusubtype = CPU_SUBTYPE_ARM_ALL)"

definition cpusubtype_execute :: "u32 \<Rightarrow> u32 \<Rightarrow> u32 \<Rightarrow> bool" where
  "cpusubtype_execute host_cputype host_cpusubtype exec_cpusubtype =
     (if subtype_of host_cpusubtype = subtype_of exec_cpusubtype then True
      else if host_cputype = CPU_TYPE_POWERPC then execute_POWERPC host_cpusubtype exec_cpusubtype
      else if host_cputype = CPU_TYPE_I386 then execute_I386 exec_cpusubtype
      else if host_cputype = CPU_TYPE_MC680x0 then execute_MC680x0 host_cpusubtype exec_cpusubtype
      else if host_cputype = CPU_TYPE_MC88000 then execute_MC88000 host_cpusubtype exec_cpusubtype
      else if host_cputype = CPU_TYPE_HPPA then execute_HPPA host_cpusubtype exec_cpusubtype
      else if host_cputype = CPU_TYPE_SPARC then subtype_of exec_cpusubtype = CPU_SUBTYPE_SPARC_ALL
      else if host_cputype = CPU_TYPE_ARM then execute_ARM host_cpusubtype exec_cpusubtype
      else False)"

section \<open>The loops\<close>

lemma first_arch_SomeD:
  "first_arch P as = Some i \<Longrightarrow> i < length as \<and> P (as ! i) \<and> (\<forall>j < i. \<not> P (as ! j))"
proof (induction as arbitrary: i)
  case (Cons a as)
  show ?case
  proof (cases "P a")
    case True
    then show ?thesis using Cons.prems by auto
  next
    case False
    then obtain k where "first_arch P as = Some k" and "i = Suc k" using Cons.prems by auto
    then show ?thesis
      using Cons.IH [of k] False by (auto simp: less_Suc_eq_0_disj)
  qed
qed simp

lemma first_arch_None_iff: "first_arch P as = None \<longleftrightarrow> (\<forall>a \<in> set as. \<not> P a)"
  by (induction as) auto

lemma first_some_SomeD: "first_some xs = Some x \<Longrightarrow> Some x \<in> set xs"
  by (induction xs rule: first_some.induct) auto

lemma first_some_None_iff: "first_some xs = None \<longleftrightarrow> (\<forall>x \<in> set xs. x = None)"
  by (induction xs rule: first_some.induct) auto

lemma first_some_append:
  "first_some (xs @ ys) = (case first_some xs of Some x \<Rightarrow> Some x | None \<Rightarrow> first_some ys)"
  by (induction xs rule: first_some.induct) auto

lemma loop_for_SomeD:
  "loop_for ct as s = Some i \<Longrightarrow> i < length as \<and> arch_is ct s (as ! i) \<and> (\<forall>j < i. \<not> arch_is ct s (as ! j))"
  by (auto simp: loop_for_def dest: first_arch_SomeD)

lemma loop_for_None_iff: "loop_for ct as s = None \<longleftrightarrow> (\<forall>a \<in> set as. \<not> arch_is ct s a)"
  by (simp add: loop_for_def first_arch_None_iff)

lemma arm_loop_SomeD:
  "arm_loop ct as s = Some i \<Longrightarrow> i < length as \<and> fa_cputype (as ! i) = ct \<and> fa_cpusubtype (as ! i) = s"
  by (auto simp: arm_loop_def dest: first_arch_SomeD)

text \<open>The subtypes a run of loops can choose from.\<close>

lemma first_some_loops:
  assumes "first_some (map (loop_for ct as) ss) = Some i"
  shows "i < length as \<and> (\<exists>s \<in> set ss. arch_is ct s (as ! i))"
  using assms by (auto dest!: first_some_SomeD loop_for_SomeD [OF sym])

lemma first_some_arm_loops:
  assumes "first_some (map (arm_loop ct as) ss) = Some i"
  shows "i < length as \<and> fa_cputype (as ! i) = ct \<and> fa_cpusubtype (as ! i) \<in> set ss"
  using assms by (auto dest!: first_some_SomeD arm_loop_SomeD [OF sym])

section \<open>The order of preference\<close>

text \<open>
  What the comments of the routine promise: per type and host subtype, the masked subtypes that
  are looked for, most preferred first.
\<close>

definition preferences :: "u32 \<Rightarrow> u32 \<Rightarrow> u32 list" where
  "preferences cputype s =
     (if cputype = CPU_TYPE_POWERPC64 then
        (if s = CPU_SUBTYPE_POWERPC_ALL \<or> s = CPU_SUBTYPE_POWERPC_970
         then [CPU_SUBTYPE_POWERPC_970] else []) @ [CPU_SUBTYPE_POWERPC_ALL]
      else if cputype = CPU_TYPE_X86_64 then [CPU_SUBTYPE_X86_64_ALL]
      else if cputype = CPU_TYPE_MC680x0 then
        CPU_SUBTYPE_MC680x0_ALL #
        (if s = CPU_SUBTYPE_MC680x0_ALL then [CPU_SUBTYPE_MC68040, CPU_SUBTYPE_MC68030_ONLY] else [])
      else if cputype = CPU_TYPE_POWERPC then
        (let order = [CPU_SUBTYPE_POWERPC_970, CPU_SUBTYPE_POWERPC_7450, CPU_SUBTYPE_POWERPC_7400,
               CPU_SUBTYPE_POWERPC_750, CPU_SUBTYPE_POWERPC_604e, CPU_SUBTYPE_POWERPC_604,
               CPU_SUBTYPE_POWERPC_603ev, CPU_SUBTYPE_POWERPC_603e, CPU_SUBTYPE_POWERPC_603,
               CPU_SUBTYPE_POWERPC_ALL]
         in if s = CPU_SUBTYPE_POWERPC_ALL \<or> s = CPU_SUBTYPE_POWERPC_970 then order
            else if s \<in> {CPU_SUBTYPE_POWERPC_7450, CPU_SUBTYPE_POWERPC_7400} then drop 1 order
            else if s \<in> set order then drop 3 order
            else [CPU_SUBTYPE_POWERPC_ALL])
      else if cputype = CPU_TYPE_VEO then
        (if s = CPU_SUBTYPE_VEO_1 \<or> s = CPU_SUBTYPE_VEO_3 then [CPU_SUBTYPE_VEO_2, CPU_SUBTYPE_VEO_3]
         else if s = CPU_SUBTYPE_VEO_4 then [CPU_SUBTYPE_VEO_3, CPU_SUBTYPE_VEO_2] else [])
      else if cputype = CPU_TYPE_MC88000 then [CPU_SUBTYPE_MC88000_ALL]
      else if cputype = CPU_TYPE_I860 then [CPU_SUBTYPE_I860_ALL]
      else if cputype = CPU_TYPE_HPPA then [CPU_SUBTYPE_HPPA_ALL]
      else if cputype = CPU_TYPE_SPARC then [CPU_SUBTYPE_SPARC_ALL]
      else [])"

lemma first_some_repeat: "first_some [x, y, x] = first_some [x, y]"
  by (cases x; cases y) simp_all

lemma first_some_single [simp]: "first_some [x] = x"
  by (cases x) simp_all

lemma first_some_Cons: "first_some (x # xs) = (case x of Some i \<Rightarrow> Some i | None \<Rightarrow> first_some xs)"
  by (cases x) simp_all

lemma preferences_POWERPC64:
  "findbest_POWERPC64 ct c as = first_some (map (loop_for ct as) (preferences CPU_TYPE_POWERPC64 (subtype_of c)))"
  by (simp add: findbest_POWERPC64_def preferences_def Let_def)

lemma preferences_MC680x0:
  "findbest_MC680x0 ct c as = first_some (map (loop_for ct as) (preferences CPU_TYPE_MC680x0 (subtype_of c)))"
  by (simp add: findbest_MC680x0_def preferences_def Let_def)

lemma preferences_POWERPC:
  "findbest_POWERPC ct c as = first_some (map (loop_for ct as) (preferences CPU_TYPE_POWERPC (subtype_of c)))"
  by (simp add: findbest_POWERPC_def preferences_def Let_def)

lemma preferences_VEO:
  "findbest_VEO ct c as = first_some (map (loop_for ct as) (preferences CPU_TYPE_VEO (subtype_of c)))"
  by (simp add: findbest_VEO_def preferences_def Let_def first_some_repeat)

lemmas preferences_simps =
  preferences_POWERPC64 preferences_MC680x0 preferences_POWERPC preferences_VEO findbest_X86_64_def

lemma preferences_other:
  "preferences CPU_TYPE_X86_64 s = [CPU_SUBTYPE_X86_64_ALL]"
  "preferences CPU_TYPE_MC88000 s = [CPU_SUBTYPE_MC88000_ALL]"
  "preferences CPU_TYPE_I860 s = [CPU_SUBTYPE_I860_ALL]"
  "preferences CPU_TYPE_HPPA s = [CPU_SUBTYPE_HPPA_ALL]"
  "preferences CPU_TYPE_SPARC s = [CPU_SUBTYPE_SPARC_ALL]"
  by (simp_all add: preferences_def)

definition cpu_types :: "u32 list" where
  "cpu_types = [CPU_TYPE_POWERPC64, CPU_TYPE_X86_64, CPU_TYPE_I386, CPU_TYPE_MC680x0,
     CPU_TYPE_POWERPC, CPU_TYPE_VEO, CPU_TYPE_MC88000, CPU_TYPE_I860, CPU_TYPE_HPPA,
     CPU_TYPE_SPARC, CPU_TYPE_ARM]"

lemma preferences_unknown: "ct \<notin> set cpu_types \<Longrightarrow> preferences ct s = []"
  by (simp add: preferences_def cpu_types_def)

lemma findbest_by_preference:
  assumes "cputype \<noteq> CPU_TYPE_I386" and "cputype \<noteq> CPU_TYPE_ARM"
  shows "cpusubtype_findbestarch cputype cpusubtype as =
     first_some (map (loop_for cputype as)
       (subtype_of cpusubtype # preferences cputype (subtype_of cpusubtype)))"
proof (cases "cputype \<in> set cpu_types")
  case True
  then consider "cputype = CPU_TYPE_POWERPC64" | "cputype = CPU_TYPE_X86_64"
    | "cputype = CPU_TYPE_MC680x0" | "cputype = CPU_TYPE_POWERPC" | "cputype = CPU_TYPE_VEO"
    | "cputype = CPU_TYPE_MC88000" | "cputype = CPU_TYPE_I860" | "cputype = CPU_TYPE_HPPA"
    | "cputype = CPU_TYPE_SPARC"
    using assms by (auto simp: cpu_types_def)
  then show ?thesis
    by cases (simp_all add: cpusubtype_findbestarch_def preferences_simps preferences_other
        first_some_Cons [where xs = "map f xs" for f xs] split: option.split)
next
  case False
  then show ?thesis
    by (simp add: preferences_unknown first_some_Cons cpusubtype_findbestarch_def)
      (simp add: cpu_types_def split: option.splits)
qed

section \<open>The i386 and ARM cases\<close>

lemma lowest_family_le: "lowest_family ct low as \<le> low"
proof (induction ct low as rule: lowest_family.induct)
  case (2 ct low a as)
  then show ?case by (auto intro: order.trans [OF _ less_imp_le])
qed simp

lemma lowest_family_cases:
  "lowest_family ct low as = low \<or>
   (\<exists>a \<in> set as. fa_cputype a = ct \<and>
      CPU_SUBTYPE_INTEL_FAMILY (subtype_of (fa_cpusubtype a)) = lowest_family ct low as)"
  by (induction ct low as rule: lowest_family.induct) auto

lemma lowest_family_least:
  "a \<in> set as \<Longrightarrow> fa_cputype a = ct \<Longrightarrow>
     lowest_family ct low as \<le> CPU_SUBTYPE_INTEL_FAMILY (subtype_of (fa_cpusubtype a))"
  by (induction ct low as rule: lowest_family.induct)
    (auto intro: lowest_family_le order.trans [OF lowest_family_le])

lemma INTEL_FAMILY_le: "CPU_SUBTYPE_INTEL_FAMILY x \<le> CPU_SUBTYPE_INTEL_FAMILY_MAX"
  unfolding CPU_SUBTYPE_INTEL_FAMILY_def by (rule word_and_le1)

lemma INTEL_MODEL_less: "CPU_SUBTYPE_INTEL_MODEL x < LONG_MAX"
proof -
  have "unat (CPU_SUBTYPE_INTEL_MODEL x) = unat x div 16"
    by (simp add: CPU_SUBTYPE_INTEL_MODEL_def drop_bit_eq_div unat_div)
  moreover have "unat x < 2 ^ 32" using unsigned_less [of x] by simp
  ultimately show ?thesis by (simp add: word_less_nat_alt)
qed

definition intel_of :: "u32 \<Rightarrow> u32 \<Rightarrow> fat_arch \<Rightarrow> bool" where
  "intel_of ct fam a \<longleftrightarrow>
     fa_cputype a = ct \<and> CPU_SUBTYPE_INTEL_FAMILY (subtype_of (fa_cpusubtype a)) = fam"

definition at_index :: "(fat_arch \<Rightarrow> bool) \<Rightarrow> nat \<Rightarrow> fat_arch list \<Rightarrow> int \<Rightarrow> bool" where
  "at_index P i as r \<longleftrightarrow> (\<exists>k < length as. r = int (i + k) \<and> P (as ! k))"

lemma at_index_Cons: "at_index P (Suc i) as r \<Longrightarrow> at_index P i (a # as) r"
  unfolding at_index_def by (elim exE conjE) (rule exI [where x = "Suc k" for k], simp)

lemma at_index_here: "P a \<Longrightarrow> at_index P i (a # as) (int i)"
  unfolding at_index_def by (rule exI [where x = 0]) simp

lemma lowest_index_step:
  "lowest_index ct fam m idx i (a # as) =
     (if intel_of ct fam a \<and> CPU_SUBTYPE_INTEL_MODEL (subtype_of (fa_cpusubtype a)) < m
      then lowest_index ct fam (CPU_SUBTYPE_INTEL_MODEL (subtype_of (fa_cpusubtype a))) (int i) (Suc i) as
      else lowest_index ct fam m idx (Suc i) as)"
  by (simp add: intel_of_def)

lemma lowest_index_keeps:
  "lowest_index ct fam m idx i as = idx \<or> at_index (intel_of ct fam) i as (lowest_index ct fam m idx i as)"
proof (induction as arbitrary: m idx i)
  case (Cons a as)
  let ?m = "CPU_SUBTYPE_INTEL_MODEL (subtype_of (fa_cpusubtype a))"
  show ?case
    using Cons.IH [of m idx "Suc i"] Cons.IH [of ?m "int i" "Suc i"]
    unfolding lowest_index_step by (auto intro: at_index_Cons at_index_here)
qed simp

lemma lowest_index_found:
  assumes "\<exists>a \<in> set as. intel_of ct fam a \<and> CPU_SUBTYPE_INTEL_MODEL (subtype_of (fa_cpusubtype a)) < m"
  shows "at_index (intel_of ct fam) i as (lowest_index ct fam m idx i as)"
  using assms
proof (induction as arbitrary: m idx i)
  case (Cons a as)
  let ?m = "CPU_SUBTYPE_INTEL_MODEL (subtype_of (fa_cpusubtype a))"
  show ?case
  proof (cases "intel_of ct fam a \<and> ?m < m")
    case True
    then show ?thesis
      using lowest_index_keeps [of ct fam ?m "int i" "Suc i" as]
      unfolding lowest_index_step by (auto intro: at_index_Cons at_index_here)
  next
    case False
    then have "at_index (intel_of ct fam) (Suc i) as (lowest_index ct fam m idx (Suc i) as)"
      using Cons.prems by (intro Cons.IH) auto
    then show ?thesis using False unfolding lowest_index_step by (auto intro: at_index_Cons)
  qed
qed simp

text \<open>The last resort of the i386 case finds a slice whenever there is one of the type.\<close>

lemma lowest_index_in_bounds:
  assumes "lowest_family ct (CPU_SUBTYPE_INTEL_FAMILY_MAX + 1) as \<noteq> CPU_SUBTYPE_INTEL_FAMILY_MAX + 1"
  defines "r \<equiv> nat (lowest_index ct (lowest_family ct (CPU_SUBTYPE_INTEL_FAMILY_MAX + 1) as) LONG_MAX (-1) 0 as)"
  shows "r < length as \<and> fa_cputype (as ! r) = ct"
proof -
  let ?fam = "lowest_family ct (CPU_SUBTYPE_INTEL_FAMILY_MAX + 1) as"
  obtain a where "a \<in> set as" and "intel_of ct ?fam a"
    using lowest_family_cases [of ct "CPU_SUBTYPE_INTEL_FAMILY_MAX + 1" as] assms(1)
    by (auto simp: intel_of_def)
  then have "at_index (intel_of ct ?fam) 0 as (lowest_index ct ?fam LONG_MAX (-1) 0 as)"
    using INTEL_MODEL_less by (intro lowest_index_found) blast
  then show ?thesis by (auto simp: at_index_def intel_of_def r_def)
qed

lemma lowest_family_found:
  assumes "a \<in> set as" and "fa_cputype a = ct"
  shows "lowest_family ct (CPU_SUBTYPE_INTEL_FAMILY_MAX + 1) as \<noteq> CPU_SUBTYPE_INTEL_FAMILY_MAX + 1"
proof
  assume "lowest_family ct (CPU_SUBTYPE_INTEL_FAMILY_MAX + 1) as = CPU_SUBTYPE_INTEL_FAMILY_MAX + 1"
  then have "CPU_SUBTYPE_INTEL_FAMILY_MAX + 1 \<le> CPU_SUBTYPE_INTEL_FAMILY (subtype_of (fa_cpusubtype a))"
    using lowest_family_least [OF assms, of "CPU_SUBTYPE_INTEL_FAMILY_MAX + 1"] by simp
  also have "\<dots> \<le> CPU_SUBTYPE_INTEL_FAMILY_MAX" by (rule INTEL_FAMILY_le)
  finally show False by simp
qed

lemma findbest_I386_in_bounds:
  assumes "findbest_I386 ct c as = Some i"
  shows "i < length as \<and> fa_cputype (as ! i) = ct"
  using assms lowest_index_in_bounds [of ct as]
  by (auto simp: findbest_I386_def Let_def arch_is_def split: if_splits option.splits
      dest!: first_some_SomeD loop_for_SomeD [OF sym])

lemma findbest_I386_total:
  assumes "a \<in> set as" and "fa_cputype a = ct"
  shows "findbest_I386 ct c as \<noteq> None"
  using lowest_family_found [OF assms] by (auto simp: findbest_I386_def Let_def split: option.splits)

definition arm_preferences :: "u32 \<Rightarrow> u32 list" where
  "arm_preferences c =
     (if c = CPU_SUBTYPE_ARM_ALL
      then [CPU_SUBTYPE_ARM_V6, CPU_SUBTYPE_ARM_V5TEJ, CPU_SUBTYPE_ARM_XSCALE]
      else if c = CPU_SUBTYPE_ARM_V6 then [CPU_SUBTYPE_ARM_V6, CPU_SUBTYPE_ARM_V5TEJ]
      else if c = CPU_SUBTYPE_ARM_V5TEJ then [CPU_SUBTYPE_ARM_V5TEJ]
      else if c = CPU_SUBTYPE_ARM_XSCALE then [CPU_SUBTYPE_ARM_XSCALE] else []) @
     [CPU_SUBTYPE_ARM_V4T, CPU_SUBTYPE_ARM_ALL]"

lemma findbest_ARM_by_preference:
  "findbest_ARM ct c as = first_some (map (arm_loop ct as) (arm_preferences c))"
  by (simp add: findbest_ARM_def arm_preferences_def Let_def)

lemma findbest_ARM_in_bounds:
  "findbest_ARM ct c as = Some i \<Longrightarrow>
     i < length as \<and> fa_cputype (as ! i) = ct \<and> fa_cpusubtype (as ! i) \<in> set (arm_preferences c)"
  by (simp add: findbest_ARM_by_preference first_some_arm_loops)

section \<open>What the choice guarantees\<close>

lemma findbest_loops:
  assumes "cpusubtype_findbestarch ct c as = Some i"
    and "ct \<noteq> CPU_TYPE_I386" and "ct \<noteq> CPU_TYPE_ARM"
  shows "i < length as \<and> fa_cputype (as ! i) = ct \<and>
    subtype_of (fa_cpusubtype (as ! i)) \<in> set (subtype_of c # preferences ct (subtype_of c))"
proof -
  have "first_some (map (loop_for ct as) (subtype_of c # preferences ct (subtype_of c))) = Some i"
    using assms(1) unfolding findbest_by_preference [OF assms(2,3)] .
  from first_some_loops [OF this] show ?thesis by (auto simp: arch_is_def)
qed

lemma findbest_of_type:
  assumes "cpusubtype_findbestarch ct c as = Some i"
  shows "i < length as \<and> fa_cputype (as ! i) = ct"
proof (cases "ct = CPU_TYPE_I386 \<or> ct = CPU_TYPE_ARM")
  case True
  then show ?thesis
    using assms by (auto simp: cpusubtype_findbestarch_def arch_is_def split: option.splits
        dest: loop_for_SomeD findbest_I386_in_bounds findbest_ARM_in_bounds)
next
  case False
  then show ?thesis using findbest_loops [OF assms] by simp
qed

lemma findbest_exact:
  assumes "loop_for ct as (subtype_of c) = Some i"
  shows "cpusubtype_findbestarch ct c as = Some i"
  using assms by (simp add: cpusubtype_findbestarch_def)

lemma execute_preferences_POWERPC:
  "s \<noteq> CPU_SUBTYPE_POWERPC_ALL \<Longrightarrow> t \<in> set (preferences CPU_TYPE_POWERPC s) \<Longrightarrow>
     subtype_of h = s \<Longrightarrow> subtype_of e = t \<Longrightarrow> cpusubtype_execute CPU_TYPE_POWERPC h e"
  by (auto simp: preferences_def cpusubtype_execute_def execute_POWERPC_def Let_def split: if_splits)

lemma execute_preferences_other:
  "ct \<in> {CPU_TYPE_MC88000, CPU_TYPE_HPPA, CPU_TYPE_SPARC} \<or>
     ct = CPU_TYPE_MC680x0 \<and> s \<noteq> CPU_SUBTYPE_MC680x0_ALL \<Longrightarrow>
     t \<in> set (preferences ct s) \<Longrightarrow> subtype_of h = s \<Longrightarrow> subtype_of e = t \<Longrightarrow>
     cpusubtype_execute ct h e"
  by (auto simp: preferences_def cpusubtype_execute_def execute_MC88000_def execute_HPPA_def
      execute_MC680x0_def Let_def split: if_splits)

text \<open>The hosts for which a choice is certain to run.\<close>

definition runnable_host :: "u32 \<Rightarrow> u32 \<Rightarrow> bool" where
  "runnable_host cputype cpusubtype \<longleftrightarrow>
     cputype = CPU_TYPE_POWERPC \<and> subtype_of cpusubtype \<noteq> CPU_SUBTYPE_POWERPC_ALL \<or>
     cputype = CPU_TYPE_MC680x0 \<and> subtype_of cpusubtype \<noteq> CPU_SUBTYPE_MC680x0_ALL \<or>
     cputype \<in> {CPU_TYPE_MC88000, CPU_TYPE_HPPA, CPU_TYPE_SPARC} \<or>
     cputype = CPU_TYPE_ARM \<and>
       cpusubtype \<in> {CPU_SUBTYPE_ARM_V4T, CPU_SUBTYPE_ARM_V5TEJ, CPU_SUBTYPE_ARM_XSCALE, CPU_SUBTYPE_ARM_V6}"

lemma findbest_ARM_executes:
  assumes "findbest_ARM CPU_TYPE_ARM c as = Some i"
    and "c \<in> {CPU_SUBTYPE_ARM_V4T, CPU_SUBTYPE_ARM_V5TEJ, CPU_SUBTYPE_ARM_XSCALE, CPU_SUBTYPE_ARM_V6}"
  shows "cpusubtype_execute CPU_TYPE_ARM c (fa_cpusubtype (as ! i))"
  using findbest_ARM_in_bounds [OF assms(1)] assms(2)
  by (auto simp: arm_preferences_def cpusubtype_execute_def execute_ARM_def)

text \<open>
  C34: A slice with the host's own type and subtype is always found, and the first one of them is
  the answer.
\<close>

theorem findbestarch_exact_match:
  assumes "\<exists>a \<in> set fat_archs. fa_cputype a = cputype \<and> subtype_of (fa_cpusubtype a) = subtype_of cpusubtype"
  shows "\<exists>i < length fat_archs. cpusubtype_findbestarch cputype cpusubtype fat_archs = Some i \<and>
    fa_cputype (fat_archs ! i) = cputype \<and>
    subtype_of (fa_cpusubtype (fat_archs ! i)) = subtype_of cpusubtype \<and>
    (\<forall>j < i. \<not> (fa_cputype (fat_archs ! j) = cputype \<and>
      subtype_of (fa_cpusubtype (fat_archs ! j)) = subtype_of cpusubtype))"
proof -
  obtain i where "loop_for cputype fat_archs (subtype_of cpusubtype) = Some i"
    using assms loop_for_None_iff [of cputype fat_archs "subtype_of cpusubtype"]
    by (auto simp: arch_is_def)
  then show ?thesis
    using loop_for_SomeD findbest_exact by (fastforce simp: arch_is_def)
qed


definition slice :: "u32 \<Rightarrow> u32 \<Rightarrow> fat_arch" where
  "slice cputype cpusubtype =
     \<lparr>fa_cputype = cputype, fa_cpusubtype = cpusubtype, fa_offset = 0, fa_size = 0, fa_align = 0\<rparr>"

theorem findbestarch_exact_match_witness:
  "\<exists>i < length [slice CPU_TYPE_ARM 0, slice CPU_TYPE_POWERPC 0x80000009].
     cpusubtype_findbestarch CPU_TYPE_POWERPC 9
       [slice CPU_TYPE_ARM 0, slice CPU_TYPE_POWERPC 0x80000009] = Some i"
  using findbestarch_exact_match
    [of "[slice CPU_TYPE_ARM 0, slice CPU_TYPE_POWERPC 0x80000009]" CPU_TYPE_POWERPC 9]
  by (auto simp: slice_def)


section \<open>What merging guarantees\<close>

definition known_subtypes :: "u32 \<Rightarrow> u32 list" where
  "known_subtypes cputype =
     (if cputype = CPU_TYPE_POWERPC then
        [CPU_SUBTYPE_POWERPC_ALL, CPU_SUBTYPE_POWERPC_602, CPU_SUBTYPE_POWERPC_603,
         CPU_SUBTYPE_POWERPC_603e, CPU_SUBTYPE_POWERPC_603ev, CPU_SUBTYPE_POWERPC_604,
         CPU_SUBTYPE_POWERPC_604e, CPU_SUBTYPE_POWERPC_620, CPU_SUBTYPE_POWERPC_750,
         CPU_SUBTYPE_POWERPC_7400, CPU_SUBTYPE_POWERPC_7450, CPU_SUBTYPE_POWERPC_970]
      else if cputype = CPU_TYPE_MC680x0 then
        [CPU_SUBTYPE_MC680x0_ALL, CPU_SUBTYPE_MC68040, CPU_SUBTYPE_MC68030_ONLY]
      else if cputype = CPU_TYPE_MC88000 then [CPU_SUBTYPE_MC88000_ALL, CPU_SUBTYPE_MC88110]
      else if cputype = CPU_TYPE_HPPA then [CPU_SUBTYPE_HPPA_ALL, CPU_SUBTYPE_HPPA_7100LC]
      else if cputype = CPU_TYPE_SPARC then [CPU_SUBTYPE_SPARC_ALL]
      else if cputype = CPU_TYPE_ARM then
        [CPU_SUBTYPE_ARM_ALL, CPU_SUBTYPE_ARM_V4T, CPU_SUBTYPE_ARM_V5TEJ, CPU_SUBTYPE_ARM_XSCALE,
         CPU_SUBTYPE_ARM_V6]
      else [])"

definition ppc_class :: "u32 \<Rightarrow> nat" where
  "ppc_class s =
     (if s = CPU_SUBTYPE_POWERPC_970 then 3
      else if s = CPU_SUBTYPE_POWERPC_7450 \<or> s = CPU_SUBTYPE_POWERPC_7400 then 2 else 1)"

lemma execute_ppc_class:
  "e \<in> set (known_subtypes CPU_TYPE_POWERPC) \<Longrightarrow> e \<noteq> CPU_SUBTYPE_POWERPC_ALL \<Longrightarrow>
     cpusubtype_execute CPU_TYPE_POWERPC h e \<longleftrightarrow>
       subtype_of h \<in> set (CPU_SUBTYPE_POWERPC_601 # tl (known_subtypes CPU_TYPE_POWERPC)) \<and>
       ppc_class e \<le> ppc_class (subtype_of h)"
  by (simp only: known_subtypes_def set_simps insert_iff empty_iff simp_thms if_True)
    (elim disjE; auto simp: cpusubtype_execute_def execute_POWERPC_def ppc_class_def Let_def)

lemma execute_ppc_ALL: "cpusubtype_execute CPU_TYPE_POWERPC h CPU_SUBTYPE_POWERPC_ALL"
  by (simp add: cpusubtype_execute_def execute_POWERPC_def)

lemma combine_ppc:
  "\<forall>s1 \<in> set (known_subtypes CPU_TYPE_POWERPC). \<forall>s2 \<in> set (known_subtypes CPU_TYPE_POWERPC).
     (let c = cpusubtype_combine CPU_TYPE_POWERPC s1 s2
      in c \<in> set (known_subtypes CPU_TYPE_POWERPC) \<and>
         (c = CPU_SUBTYPE_POWERPC_ALL \<longrightarrow> s1 = CPU_SUBTYPE_POWERPC_ALL \<and> s2 = CPU_SUBTYPE_POWERPC_ALL) \<and>
         ppc_class s1 \<le> ppc_class c \<and> ppc_class s2 \<le> ppc_class c)"
  by (simp add: known_subtypes_def cpusubtype_combine_def combine_POWERPC_def ppc_class_def)

lemma combine_executes_ppc:
  assumes known: "s1 \<in> set (known_subtypes CPU_TYPE_POWERPC)" "s2 \<in> set (known_subtypes CPU_TYPE_POWERPC)"
    and run: "cpusubtype_execute CPU_TYPE_POWERPC h (cpusubtype_combine CPU_TYPE_POWERPC s1 s2)"
  shows "cpusubtype_execute CPU_TYPE_POWERPC h s1 \<and> cpusubtype_execute CPU_TYPE_POWERPC h s2"
proof -
  let ?c = "cpusubtype_combine CPU_TYPE_POWERPC s1 s2"
  have c: "?c \<in> set (known_subtypes CPU_TYPE_POWERPC)"
    "?c = CPU_SUBTYPE_POWERPC_ALL \<Longrightarrow> s1 = CPU_SUBTYPE_POWERPC_ALL \<and> s2 = CPU_SUBTYPE_POWERPC_ALL"
    "ppc_class s1 \<le> ppc_class ?c" "ppc_class s2 \<le> ppc_class ?c"
    using bspec [OF bspec [OF combine_ppc known(1)] known(2)] unfolding Let_def by (elim conjE, simp)+
  show ?thesis
  proof (cases "?c = CPU_SUBTYPE_POWERPC_ALL")
    case True
    then show ?thesis using c(2) execute_ppc_ALL by simp
  next
    case False
    then have h: "subtype_of h \<in> set (CPU_SUBTYPE_POWERPC_601 # tl (known_subtypes CPU_TYPE_POWERPC))"
      and le: "ppc_class ?c \<le> ppc_class (subtype_of h)"
      using run execute_ppc_class [OF c(1) False] by simp_all
    have runs: "cpusubtype_execute CPU_TYPE_POWERPC h s"
      if "s \<in> set (known_subtypes CPU_TYPE_POWERPC)" and "ppc_class s \<le> ppc_class ?c" for s
    proof (cases "s = CPU_SUBTYPE_POWERPC_ALL")
      case False
      show ?thesis
        unfolding execute_ppc_class [OF that(1) False] using h order.trans [OF that(2) le] by (rule conjI)
    qed (simp add: execute_ppc_ALL)
    show ?thesis using runs [OF known(1) c(3)] runs [OF known(2) c(4)] by (rule conjI)
  qed
qed

lemma combine_executes_MC680x0:
  "\<forall>s1 \<in> set (known_subtypes CPU_TYPE_MC680x0). \<forall>s2 \<in> set (known_subtypes CPU_TYPE_MC680x0).
     cpusubtype_combine CPU_TYPE_MC680x0 s1 s2 = CANNOT_COMBINE \<or>
     (cpusubtype_execute CPU_TYPE_MC680x0 h (cpusubtype_combine CPU_TYPE_MC680x0 s1 s2) \<longrightarrow>
        cpusubtype_execute CPU_TYPE_MC680x0 h s1 \<and> cpusubtype_execute CPU_TYPE_MC680x0 h s2)"
  by (simp add: known_subtypes_def cpusubtype_combine_def combine_MC680x0_def)
    (auto simp: cpusubtype_execute_def execute_MC680x0_def Let_def)

lemma combine_executes_MC88000:
  "\<forall>s1 \<in> set (known_subtypes CPU_TYPE_MC88000). \<forall>s2 \<in> set (known_subtypes CPU_TYPE_MC88000).
     cpusubtype_execute CPU_TYPE_MC88000 h (cpusubtype_combine CPU_TYPE_MC88000 s1 s2) \<longrightarrow>
       cpusubtype_execute CPU_TYPE_MC88000 h s1 \<and> cpusubtype_execute CPU_TYPE_MC88000 h s2"
  by (simp add: known_subtypes_def cpusubtype_combine_def combine_MC88000_def)
    (auto simp: cpusubtype_execute_def execute_MC88000_def Let_def)

lemma combine_executes_HPPA:
  "\<forall>s1 \<in> set (known_subtypes CPU_TYPE_HPPA). \<forall>s2 \<in> set (known_subtypes CPU_TYPE_HPPA).
     cpusubtype_execute CPU_TYPE_HPPA h (cpusubtype_combine CPU_TYPE_HPPA s1 s2) \<longrightarrow>
       cpusubtype_execute CPU_TYPE_HPPA h s1 \<and> cpusubtype_execute CPU_TYPE_HPPA h s2"
  by (simp add: known_subtypes_def cpusubtype_combine_def combine_HPPA_def)
    (auto simp: cpusubtype_execute_def execute_HPPA_def Let_def)

lemma combine_executes_SPARC:
  "\<forall>s1 \<in> set (known_subtypes CPU_TYPE_SPARC). \<forall>s2 \<in> set (known_subtypes CPU_TYPE_SPARC).
     cpusubtype_execute CPU_TYPE_SPARC h s1 \<and> cpusubtype_execute CPU_TYPE_SPARC h s2"
  by (simp add: known_subtypes_def cpusubtype_execute_def)

lemma combine_executes_ARM:
  "subtype_of h = h \<Longrightarrow>
   \<forall>s1 \<in> set (known_subtypes CPU_TYPE_ARM). \<forall>s2 \<in> set (known_subtypes CPU_TYPE_ARM).
     cpusubtype_combine CPU_TYPE_ARM s1 s2 = CANNOT_COMBINE \<or>
     (cpusubtype_execute CPU_TYPE_ARM h (cpusubtype_combine CPU_TYPE_ARM s1 s2) \<longrightarrow>
        cpusubtype_execute CPU_TYPE_ARM h s1 \<and> cpusubtype_execute CPU_TYPE_ARM h s2)"
  by (simp add: known_subtypes_def cpusubtype_combine_def combine_ARM_def)
    (auto simp: cpusubtype_execute_def execute_ARM_def)



text \<open>
  Equal subtypes merge to the first of them, except for Intel, where every merge is the ALL
  subtype.
\<close>

lemma combine_same:
  "subtype_of s = subtype_of t \<Longrightarrow>
     cpusubtype_combine cputype s t =
       (if cputype = CPU_TYPE_I386 \<or> cputype = CPU_TYPE_X86_64 then CPU_SUBTYPE_I386_ALL else s)"
  by (simp add: cpusubtype_combine_def)

text \<open>
  For the known subtypes of a processor family, whether two subtypes merge and what they merge
  to does not depend on their order.
\<close>

theorem combine_commutes:
  assumes "cpusubtype1 \<in> set (known_subtypes cputype)" and "cpusubtype2 \<in> set (known_subtypes cputype)"
  shows "cpusubtype_combine cputype cpusubtype1 cpusubtype2 = cpusubtype_combine cputype cpusubtype2 cpusubtype1"
proof -
  consider "cputype = CPU_TYPE_POWERPC" | "cputype = CPU_TYPE_MC680x0" | "cputype = CPU_TYPE_MC88000"
    | "cputype = CPU_TYPE_HPPA" | "cputype = CPU_TYPE_SPARC" | "cputype = CPU_TYPE_ARM"
    using assms(1) by (auto simp: known_subtypes_def split: if_splits)
  then have "\<forall>s1 \<in> set (known_subtypes cputype). \<forall>s2 \<in> set (known_subtypes cputype).
      cpusubtype_combine cputype s1 s2 = cpusubtype_combine cputype s2 s1"
    by cases (simp_all add: known_subtypes_def cpusubtype_combine_def combine_POWERPC_def
        combine_MC680x0_def combine_MC88000_def combine_HPPA_def combine_ARM_def)
  then show ?thesis using assms by simp
qed

theorem combine_commutes_witness:
  "cpusubtype_combine CPU_TYPE_ARM CPU_SUBTYPE_ARM_V6 CPU_SUBTYPE_ARM_V4T =
   cpusubtype_combine CPU_TYPE_ARM CPU_SUBTYPE_ARM_V4T CPU_SUBTYPE_ARM_V6"
  using combine_commutes [of CPU_SUBTYPE_ARM_V6 CPU_TYPE_ARM CPU_SUBTYPE_ARM_V4T]
  by (simp add: known_subtypes_def)

end
