(* ===== verification/SwapStructs.thy ===== *)
theory SwapStructs
  imports MachO
begin

text \<open>
  The struct swaps of \<^verbatim>\<open>libstuff/bytesex.c\<close>, one definition per routine with the fields it
  assigns, and the proof that each routine keeps the contract of \<open>swappable_struct\<close>: it reverses
  every integer field of its struct and nothing else.  Two routines do not: \<^verbatim>\<open>swap_section_64\<close>
  and \<^verbatim>\<open>swap_dylib_module_64\<close>; what they do instead is stated at the end.

  A routine that takes a pointer to one struct is a function on the record.  A routine that takes
  an array is its loop body on the record together with the loop over memory, \<open>swap_X_array\<close>.
\<close>

section \<open>The routines\<close>

definition swap_fat_header :: "fat_header \<Rightarrow> fat_header" where
  "swap_fat_header x =
     x\<lparr>fh_magic := SWAP_INT (fh_magic x), fh_nfat_arch := SWAP_INT (fh_nfat_arch x)\<rparr>"

definition swap_fat_arch :: "fat_arch \<Rightarrow> fat_arch" where
  "swap_fat_arch x =
     x\<lparr>fa_cputype := SWAP_INT (fa_cputype x), fa_cpusubtype := SWAP_INT (fa_cpusubtype x),
        fa_offset := SWAP_INT (fa_offset x), fa_size := SWAP_INT (fa_size x),
        fa_align := SWAP_INT (fa_align x)\<rparr>"

definition swap_mach_header :: "mach_header \<Rightarrow> mach_header" where
  "swap_mach_header x =
     x\<lparr>mh_magic := SWAP_INT (mh_magic x), mh_cputype := SWAP_INT (mh_cputype x),
        mh_cpusubtype := SWAP_INT (mh_cpusubtype x),
        mh_filetype := SWAP_INT (mh_filetype x), mh_ncmds := SWAP_INT (mh_ncmds x),
        mh_sizeofcmds := SWAP_INT (mh_sizeofcmds x), mh_flags := SWAP_INT (mh_flags x)\<rparr>"

definition swap_mach_header_64 :: "mach_header_64 \<Rightarrow> mach_header_64" where
  "swap_mach_header_64 x =
     x\<lparr>mh64_magic := SWAP_INT (mh64_magic x), mh64_cputype := SWAP_INT (mh64_cputype x),
        mh64_cpusubtype := SWAP_INT (mh64_cpusubtype x),
        mh64_filetype := SWAP_INT (mh64_filetype x), mh64_ncmds := SWAP_INT (mh64_ncmds x),
        mh64_sizeofcmds := SWAP_INT (mh64_sizeofcmds x),
        mh64_flags := SWAP_INT (mh64_flags x), mh64_reserved := SWAP_INT (mh64_reserved x)\<rparr>"

definition swap_load_command :: "load_command \<Rightarrow> load_command" where
  "swap_load_command x =
     x\<lparr>lc_cmd := SWAP_INT (lc_cmd x), lc_cmdsize := SWAP_INT (lc_cmdsize x)\<rparr>"

definition swap_segment_command :: "segment_command \<Rightarrow> segment_command" where
  "swap_segment_command x =
     x\<lparr>sg_cmd := SWAP_INT (sg_cmd x), sg_cmdsize := SWAP_INT (sg_cmdsize x),
        sg_vmaddr := SWAP_INT (sg_vmaddr x), sg_vmsize := SWAP_INT (sg_vmsize x),
        sg_fileoff := SWAP_INT (sg_fileoff x), sg_filesize := SWAP_INT (sg_filesize x),
        sg_maxprot := SWAP_INT (sg_maxprot x), sg_initprot := SWAP_INT (sg_initprot x),
        sg_nsects := SWAP_INT (sg_nsects x), sg_flags := SWAP_INT (sg_flags x)\<rparr>"

definition swap_segment_command_64 :: "segment_command_64 \<Rightarrow> segment_command_64" where
  "swap_segment_command_64 x =
     x\<lparr>sg64_cmd := SWAP_INT (sg64_cmd x), sg64_cmdsize := SWAP_INT (sg64_cmdsize x),
        sg64_vmaddr := SWAP_LONG_LONG (sg64_vmaddr x),
        sg64_vmsize := SWAP_LONG_LONG (sg64_vmsize x),
        sg64_fileoff := SWAP_LONG_LONG (sg64_fileoff x),
        sg64_filesize := SWAP_LONG_LONG (sg64_filesize x),
        sg64_maxprot := SWAP_INT (sg64_maxprot x),
        sg64_initprot := SWAP_INT (sg64_initprot x),
        sg64_nsects := SWAP_INT (sg64_nsects x), sg64_flags := SWAP_INT (sg64_flags x)\<rparr>"

definition swap_section :: "mach_section \<Rightarrow> mach_section" where
  "swap_section x =
     x\<lparr>s_addr := SWAP_INT (s_addr x), s_size := SWAP_INT (s_size x),
        s_offset := SWAP_INT (s_offset x), s_align := SWAP_INT (s_align x),
        s_reloff := SWAP_INT (s_reloff x), s_nreloc := SWAP_INT (s_nreloc x),
        s_flags := SWAP_INT (s_flags x), s_reserved1 := SWAP_INT (s_reserved1 x),
        s_reserved2 := SWAP_INT (s_reserved2 x)\<rparr>"

definition swap_section_64 :: "section_64 \<Rightarrow> section_64" where
  "swap_section_64 x =
     x\<lparr>s64_addr := SWAP_LONG_LONG (s64_addr x), s64_size := SWAP_LONG_LONG (s64_size x),
        s64_offset := SWAP_INT (s64_offset x), s64_align := SWAP_INT (s64_align x),
        s64_reloff := SWAP_INT (s64_reloff x), s64_nreloc := SWAP_INT (s64_nreloc x),
        s64_flags := SWAP_INT (s64_flags x), s64_reserved1 := SWAP_INT (s64_reserved1 x),
        s64_reserved2 := SWAP_INT (s64_reserved2 x)\<rparr>"

definition swap_symtab_command :: "symtab_command \<Rightarrow> symtab_command" where
  "swap_symtab_command x =
     x\<lparr>st_cmd := SWAP_INT (st_cmd x), st_cmdsize := SWAP_INT (st_cmdsize x),
        st_symoff := SWAP_INT (st_symoff x), st_nsyms := SWAP_INT (st_nsyms x),
        st_stroff := SWAP_INT (st_stroff x), st_strsize := SWAP_INT (st_strsize x)\<rparr>"

definition swap_dysymtab_command :: "dysymtab_command \<Rightarrow> dysymtab_command" where
  "swap_dysymtab_command x =
     x\<lparr>dyst_cmd := SWAP_INT (dyst_cmd x), dyst_cmdsize := SWAP_INT (dyst_cmdsize x),
        dyst_ilocalsym := SWAP_INT (dyst_ilocalsym x),
        dyst_nlocalsym := SWAP_INT (dyst_nlocalsym x),
        dyst_iextdefsym := SWAP_INT (dyst_iextdefsym x),
        dyst_nextdefsym := SWAP_INT (dyst_nextdefsym x),
        dyst_iundefsym := SWAP_INT (dyst_iundefsym x),
        dyst_nundefsym := SWAP_INT (dyst_nundefsym x),
        dyst_tocoff := SWAP_INT (dyst_tocoff x), dyst_ntoc := SWAP_INT (dyst_ntoc x),
        dyst_modtaboff := SWAP_INT (dyst_modtaboff x),
        dyst_nmodtab := SWAP_INT (dyst_nmodtab x),
        dyst_extrefsymoff := SWAP_INT (dyst_extrefsymoff x),
        dyst_nextrefsyms := SWAP_INT (dyst_nextrefsyms x),
        dyst_indirectsymoff := SWAP_INT (dyst_indirectsymoff x),
        dyst_nindirectsyms := SWAP_INT (dyst_nindirectsyms x),
        dyst_extreloff := SWAP_INT (dyst_extreloff x),
        dyst_nextrel := SWAP_INT (dyst_nextrel x),
        dyst_locreloff := SWAP_INT (dyst_locreloff x),
        dyst_nlocrel := SWAP_INT (dyst_nlocrel x)\<rparr>"

definition swap_symseg_command :: "symseg_command \<Rightarrow> symseg_command" where
  "swap_symseg_command x =
     x\<lparr>ss_cmd := SWAP_INT (ss_cmd x), ss_cmdsize := SWAP_INT (ss_cmdsize x),
        ss_offset := SWAP_INT (ss_offset x), ss_size := SWAP_INT (ss_size x)\<rparr>"

definition swap_fvmlib_command :: "fvmlib_command \<Rightarrow> fvmlib_command" where
  "swap_fvmlib_command x =
     x\<lparr>fl_cmd := SWAP_INT (fl_cmd x), fl_cmdsize := SWAP_INT (fl_cmdsize x),
        fl_name_offset := SWAP_INT (fl_name_offset x),
        fl_minor_version := SWAP_INT (fl_minor_version x),
        fl_header_addr := SWAP_INT (fl_header_addr x)\<rparr>"

definition swap_dylib_command :: "dylib_command \<Rightarrow> dylib_command" where
  "swap_dylib_command x =
     x\<lparr>dl_cmd := SWAP_INT (dl_cmd x), dl_cmdsize := SWAP_INT (dl_cmdsize x),
        dl_name_offset := SWAP_INT (dl_name_offset x),
        dl_timestamp := SWAP_INT (dl_timestamp x),
        dl_current_version := SWAP_INT (dl_current_version x),
        dl_compatibility_version := SWAP_INT (dl_compatibility_version x)\<rparr>"

definition swap_sub_framework_command :: "sub_framework_command \<Rightarrow> sub_framework_command" where
  "swap_sub_framework_command x =
     x\<lparr>sub_cmd := SWAP_INT (sub_cmd x), sub_cmdsize := SWAP_INT (sub_cmdsize x),
        sub_umbrella_offset := SWAP_INT (sub_umbrella_offset x)\<rparr>"

definition swap_sub_umbrella_command :: "sub_umbrella_command \<Rightarrow> sub_umbrella_command" where
  "swap_sub_umbrella_command x =
     x\<lparr>usub_cmd := SWAP_INT (usub_cmd x), usub_cmdsize := SWAP_INT (usub_cmdsize x),
        usub_sub_umbrella_offset := SWAP_INT (usub_sub_umbrella_offset x)\<rparr>"

definition swap_sub_library_command :: "sub_library_command \<Rightarrow> sub_library_command" where
  "swap_sub_library_command x =
     x\<lparr>lsub_cmd := SWAP_INT (lsub_cmd x), lsub_cmdsize := SWAP_INT (lsub_cmdsize x),
        lsub_sub_library_offset := SWAP_INT (lsub_sub_library_offset x)\<rparr>"

definition swap_sub_client_command :: "sub_client_command \<Rightarrow> sub_client_command" where
  "swap_sub_client_command x =
     x\<lparr>csub_cmd := SWAP_INT (csub_cmd x), csub_cmdsize := SWAP_INT (csub_cmdsize x),
        csub_client_offset := SWAP_INT (csub_client_offset x)\<rparr>"

definition swap_prebound_dylib_command :: "prebound_dylib_command \<Rightarrow> prebound_dylib_command" where
  "swap_prebound_dylib_command x =
     x\<lparr>pbdylib_cmd := SWAP_INT (pbdylib_cmd x),
        pbdylib_cmdsize := SWAP_INT (pbdylib_cmdsize x),
        pbdylib_name_offset := SWAP_INT (pbdylib_name_offset x),
        pbdylib_nmodules := SWAP_INT (pbdylib_nmodules x),
        pbdylib_linked_modules_offset := SWAP_INT (pbdylib_linked_modules_offset x)\<rparr>"

definition swap_dylinker_command :: "dylinker_command \<Rightarrow> dylinker_command" where
  "swap_dylinker_command x =
     x\<lparr>dyld_cmd := SWAP_INT (dyld_cmd x), dyld_cmdsize := SWAP_INT (dyld_cmdsize x),
        dyld_name_offset := SWAP_INT (dyld_name_offset x)\<rparr>"

definition swap_fvmfile_command :: "fvmfile_command \<Rightarrow> fvmfile_command" where
  "swap_fvmfile_command x =
     x\<lparr>ff_cmd := SWAP_INT (ff_cmd x), ff_cmdsize := SWAP_INT (ff_cmdsize x),
        ff_name_offset := SWAP_INT (ff_name_offset x),
        ff_header_addr := SWAP_INT (ff_header_addr x)\<rparr>"

definition swap_thread_command :: "thread_command \<Rightarrow> thread_command" where
  "swap_thread_command x =
     x\<lparr>ut_cmd := SWAP_INT (ut_cmd x), ut_cmdsize := SWAP_INT (ut_cmdsize x)\<rparr>"

definition swap_ident_command :: "ident_command \<Rightarrow> ident_command" where
  "swap_ident_command x =
     x\<lparr>id_cmd := SWAP_INT (id_cmd x), id_cmdsize := SWAP_INT (id_cmdsize x)\<rparr>"

definition swap_routines_command :: "routines_command \<Rightarrow> routines_command" where
  "swap_routines_command x =
     x\<lparr>rc_cmd := SWAP_INT (rc_cmd x), rc_cmdsize := SWAP_INT (rc_cmdsize x),
        rc_init_address := SWAP_INT (rc_init_address x),
        rc_init_module := SWAP_INT (rc_init_module x),
        rc_reserved1 := SWAP_INT (rc_reserved1 x),
        rc_reserved2 := SWAP_INT (rc_reserved2 x),
        rc_reserved3 := SWAP_INT (rc_reserved3 x),
        rc_reserved4 := SWAP_INT (rc_reserved4 x),
        rc_reserved5 := SWAP_INT (rc_reserved5 x), rc_reserved6 := SWAP_INT (rc_reserved6 x)\<rparr>"

definition swap_routines_command_64 :: "routines_command_64 \<Rightarrow> routines_command_64" where
  "swap_routines_command_64 x =
     x\<lparr>rc64_cmd := SWAP_INT (rc64_cmd x), rc64_cmdsize := SWAP_INT (rc64_cmdsize x),
        rc64_init_address := SWAP_LONG_LONG (rc64_init_address x),
        rc64_init_module := SWAP_LONG_LONG (rc64_init_module x),
        rc64_reserved1 := SWAP_LONG_LONG (rc64_reserved1 x),
        rc64_reserved2 := SWAP_LONG_LONG (rc64_reserved2 x),
        rc64_reserved3 := SWAP_LONG_LONG (rc64_reserved3 x),
        rc64_reserved4 := SWAP_LONG_LONG (rc64_reserved4 x),
        rc64_reserved5 := SWAP_LONG_LONG (rc64_reserved5 x),
        rc64_reserved6 := SWAP_LONG_LONG (rc64_reserved6 x)\<rparr>"

definition swap_twolevel_hints_command :: "twolevel_hints_command \<Rightarrow> twolevel_hints_command" where
  "swap_twolevel_hints_command x =
     x\<lparr>hints_cmd := SWAP_INT (hints_cmd x), hints_cmdsize := SWAP_INT (hints_cmdsize x),
        hints_offset := SWAP_INT (hints_offset x), hints_nhints := SWAP_INT (hints_nhints x)\<rparr>"

definition swap_prebind_cksum_command :: "prebind_cksum_command \<Rightarrow> prebind_cksum_command" where
  "swap_prebind_cksum_command x =
     x\<lparr>cs_cmd := SWAP_INT (cs_cmd x), cs_cmdsize := SWAP_INT (cs_cmdsize x),
        cs_cksum := SWAP_INT (cs_cksum x)\<rparr>"

definition swap_uuid_command :: "uuid_command \<Rightarrow> uuid_command" where
  "swap_uuid_command x =
     x\<lparr>uuid_cmd := SWAP_INT (uuid_cmd x), uuid_cmdsize := SWAP_INT (uuid_cmdsize x)\<rparr>"

definition swap_linkedit_data_command :: "linkedit_data_command \<Rightarrow> linkedit_data_command" where
  "swap_linkedit_data_command x =
     x\<lparr>ld_cmd := SWAP_INT (ld_cmd x), ld_cmdsize := SWAP_INT (ld_cmdsize x),
        ld_dataoff := SWAP_INT (ld_dataoff x), ld_datasize := SWAP_INT (ld_datasize x)\<rparr>"

definition swap_rpath_command :: "rpath_command \<Rightarrow> rpath_command" where
  "swap_rpath_command x =
     x\<lparr>rpath_cmd := SWAP_INT (rpath_cmd x), rpath_cmdsize := SWAP_INT (rpath_cmdsize x),
        rpath_path_offset := SWAP_INT (rpath_path_offset x)\<rparr>"

definition swap_encryption_command :: "encryption_info_command \<Rightarrow> encryption_info_command" where
  "swap_encryption_command x =
     x\<lparr>ec_cmd := SWAP_INT (ec_cmd x), ec_cmdsize := SWAP_INT (ec_cmdsize x),
        ec_cryptoff := SWAP_INT (ec_cryptoff x), ec_cryptsize := SWAP_INT (ec_cryptsize x),
        ec_cryptid := SWAP_INT (ec_cryptid x)\<rparr>"

definition swap_nlist :: "nlist \<Rightarrow> nlist" where
  "swap_nlist x =
     x\<lparr>n_strx := SWAP_INT (n_strx x), n_desc := SWAP_SHORT (n_desc x),
        n_value := SWAP_INT (n_value x)\<rparr>"

definition swap_nlist_64 :: "nlist_64 \<Rightarrow> nlist_64" where
  "swap_nlist_64 x =
     x\<lparr>n64_strx := SWAP_INT (n64_strx x), n64_desc := SWAP_SHORT (n64_desc x),
        n64_value := SWAP_LONG_LONG (n64_value x)\<rparr>"

definition swap_ranlib :: "ranlib \<Rightarrow> ranlib" where
  "swap_ranlib x =
     x\<lparr>ran_strx := SWAP_INT (ran_strx x), ran_off := SWAP_INT (ran_off x)\<rparr>"

definition swap_dylib_module :: "dylib_module \<Rightarrow> dylib_module" where
  "swap_dylib_module x =
     x\<lparr>mod_module_name := SWAP_INT (mod_module_name x),
        mod_iextdefsym := SWAP_INT (mod_iextdefsym x),
        mod_nextdefsym := SWAP_INT (mod_nextdefsym x),
        mod_irefsym := SWAP_INT (mod_irefsym x), mod_nrefsym := SWAP_INT (mod_nrefsym x),
        mod_ilocalsym := SWAP_INT (mod_ilocalsym x),
        mod_nlocalsym := SWAP_INT (mod_nlocalsym x),
        mod_iextrel := SWAP_INT (mod_iextrel x), mod_nextrel := SWAP_INT (mod_nextrel x),
        mod_iinit_iterm := SWAP_INT (mod_iinit_iterm x),
        mod_ninit_nterm := SWAP_INT (mod_ninit_nterm x),
        mod_objc_module_info_addr := SWAP_INT (mod_objc_module_info_addr x),
        mod_objc_module_info_size := SWAP_INT (mod_objc_module_info_size x)\<rparr>"

definition swap_dylib_module_64 :: "dylib_module_64 \<Rightarrow> dylib_module_64" where
  "swap_dylib_module_64 x =
     x\<lparr>mod64_module_name := SWAP_INT (mod64_module_name x),
        mod64_iextdefsym := SWAP_INT (mod64_iextdefsym x),
        mod64_nextdefsym := SWAP_INT (mod64_nextdefsym x),
        mod64_irefsym := SWAP_INT (mod64_irefsym x),
        mod64_nrefsym := SWAP_INT (mod64_nrefsym x),
        mod64_ilocalsym := SWAP_INT (mod64_ilocalsym x),
        mod64_nlocalsym := SWAP_INT (mod64_nlocalsym x),
        mod64_iextrel := SWAP_INT (mod64_iextrel x),
        mod64_nextrel := SWAP_INT (mod64_nextrel x),
        mod64_iinit_iterm := SWAP_INT (mod64_iinit_iterm x),
        mod64_ninit_nterm := SWAP_INT (mod64_ninit_nterm x),
        mod64_objc_module_info_addr := SWAP_LONG_LONG (mod64_objc_module_info_addr x),
        mod64_objc_module_info_size := ucast (SWAP_LONG_LONG (ucast (mod64_objc_module_info_size x)))\<rparr>"

definition swap_dylib_table_of_contents :: "dylib_table_of_contents \<Rightarrow> dylib_table_of_contents" where
  "swap_dylib_table_of_contents x =
     x\<lparr>toc_symbol_index := SWAP_INT (toc_symbol_index x),
        toc_module_index := SWAP_INT (toc_module_index x)\<rparr>"

text \<open>The loops of the routines that take an array.\<close>

definition swap_fat_arch_array :: "byte_sex \<Rightarrow> mem \<Rightarrow> nat \<Rightarrow> nat \<Rightarrow> mem option" where
  "swap_fat_arch_array = swap_array_at fat_arch_codec swap_fat_arch"

definition swap_section_array :: "byte_sex \<Rightarrow> mem \<Rightarrow> nat \<Rightarrow> nat \<Rightarrow> mem option" where
  "swap_section_array = swap_array_at section_codec swap_section"

definition swap_section_64_array :: "byte_sex \<Rightarrow> mem \<Rightarrow> nat \<Rightarrow> nat \<Rightarrow> mem option" where
  "swap_section_64_array = swap_array_at section_64_codec swap_section_64"

definition swap_nlist_array :: "byte_sex \<Rightarrow> mem \<Rightarrow> nat \<Rightarrow> nat \<Rightarrow> mem option" where
  "swap_nlist_array = swap_array_at nlist_codec swap_nlist"

definition swap_nlist_64_array :: "byte_sex \<Rightarrow> mem \<Rightarrow> nat \<Rightarrow> nat \<Rightarrow> mem option" where
  "swap_nlist_64_array = swap_array_at nlist_64_codec swap_nlist_64"

definition swap_ranlib_array :: "byte_sex \<Rightarrow> mem \<Rightarrow> nat \<Rightarrow> nat \<Rightarrow> mem option" where
  "swap_ranlib_array = swap_array_at ranlib_codec swap_ranlib"

definition swap_dylib_module_array :: "byte_sex \<Rightarrow> mem \<Rightarrow> nat \<Rightarrow> nat \<Rightarrow> mem option" where
  "swap_dylib_module_array = swap_array_at dylib_module_codec swap_dylib_module"

definition swap_dylib_module_64_array :: "byte_sex \<Rightarrow> mem \<Rightarrow> nat \<Rightarrow> nat \<Rightarrow> mem option" where
  "swap_dylib_module_64_array = swap_array_at dylib_module_64_codec swap_dylib_module_64"

definition swap_dylib_table_of_contents_array :: "byte_sex \<Rightarrow> mem \<Rightarrow> nat \<Rightarrow> nat \<Rightarrow> mem option" where
  "swap_dylib_table_of_contents_array = swap_array_at dylib_table_of_contents_codec swap_dylib_table_of_contents"

section \<open>Sizes\<close>

lemma size_of_fat_header [simp]: "size_of fat_header_codec = 8"
  by (simp add: size_of_def fat_header_codec_def)

lemma size_of_fat_arch [simp]: "size_of fat_arch_codec = 20"
  by (simp add: size_of_def fat_arch_codec_def)

lemma size_of_mach_header [simp]: "size_of mach_header_codec = 28"
  by (simp add: size_of_def mach_header_codec_def)

lemma size_of_mach_header_64 [simp]: "size_of mach_header_64_codec = 32"
  by (simp add: size_of_def mach_header_64_codec_def)

lemma size_of_load_command [simp]: "size_of load_command_codec = 8"
  by (simp add: size_of_def load_command_codec_def)

lemma size_of_segment_command [simp]: "size_of segment_command_codec = 56"
  by (simp add: size_of_def segment_command_codec_def)

lemma size_of_segment_command_64 [simp]: "size_of segment_command_64_codec = 72"
  by (simp add: size_of_def segment_command_64_codec_def)

lemma size_of_section [simp]: "size_of section_codec = 68"
  by (simp add: size_of_def section_codec_def)

lemma size_of_section_64 [simp]: "size_of section_64_codec = 80"
  by (simp add: size_of_def section_64_codec_def)

lemma size_of_symtab_command [simp]: "size_of symtab_command_codec = 24"
  by (simp add: size_of_def symtab_command_codec_def)

lemma size_of_dysymtab_command [simp]: "size_of dysymtab_command_codec = 80"
  by (simp add: size_of_def dysymtab_command_codec_def)

lemma size_of_symseg_command [simp]: "size_of symseg_command_codec = 16"
  by (simp add: size_of_def symseg_command_codec_def)

lemma size_of_fvmlib_command [simp]: "size_of fvmlib_command_codec = 20"
  by (simp add: size_of_def fvmlib_command_codec_def)

lemma size_of_dylib_command [simp]: "size_of dylib_command_codec = 24"
  by (simp add: size_of_def dylib_command_codec_def)

lemma size_of_sub_framework_command [simp]: "size_of sub_framework_command_codec = 12"
  by (simp add: size_of_def sub_framework_command_codec_def)

lemma size_of_sub_umbrella_command [simp]: "size_of sub_umbrella_command_codec = 12"
  by (simp add: size_of_def sub_umbrella_command_codec_def)

lemma size_of_sub_library_command [simp]: "size_of sub_library_command_codec = 12"
  by (simp add: size_of_def sub_library_command_codec_def)

lemma size_of_sub_client_command [simp]: "size_of sub_client_command_codec = 12"
  by (simp add: size_of_def sub_client_command_codec_def)

lemma size_of_prebound_dylib_command [simp]: "size_of prebound_dylib_command_codec = 20"
  by (simp add: size_of_def prebound_dylib_command_codec_def)

lemma size_of_dylinker_command [simp]: "size_of dylinker_command_codec = 12"
  by (simp add: size_of_def dylinker_command_codec_def)

lemma size_of_fvmfile_command [simp]: "size_of fvmfile_command_codec = 16"
  by (simp add: size_of_def fvmfile_command_codec_def)

lemma size_of_thread_command [simp]: "size_of thread_command_codec = 8"
  by (simp add: size_of_def thread_command_codec_def)

lemma size_of_ident_command [simp]: "size_of ident_command_codec = 8"
  by (simp add: size_of_def ident_command_codec_def)

lemma size_of_routines_command [simp]: "size_of routines_command_codec = 40"
  by (simp add: size_of_def routines_command_codec_def)

lemma size_of_routines_command_64 [simp]: "size_of routines_command_64_codec = 72"
  by (simp add: size_of_def routines_command_64_codec_def)

lemma size_of_twolevel_hints_command [simp]: "size_of twolevel_hints_command_codec = 16"
  by (simp add: size_of_def twolevel_hints_command_codec_def)

lemma size_of_prebind_cksum_command [simp]: "size_of prebind_cksum_command_codec = 12"
  by (simp add: size_of_def prebind_cksum_command_codec_def)

lemma size_of_uuid_command [simp]: "size_of uuid_command_codec = 24"
  by (simp add: size_of_def uuid_command_codec_def)

lemma size_of_linkedit_data_command [simp]: "size_of linkedit_data_command_codec = 16"
  by (simp add: size_of_def linkedit_data_command_codec_def)

lemma size_of_rpath_command [simp]: "size_of rpath_command_codec = 12"
  by (simp add: size_of_def rpath_command_codec_def)

lemma size_of_encryption_info_command [simp]: "size_of encryption_info_command_codec = 20"
  by (simp add: size_of_def encryption_info_command_codec_def)

lemma size_of_nlist [simp]: "size_of nlist_codec = 12"
  by (simp add: size_of_def nlist_codec_def)

lemma size_of_nlist_64 [simp]: "size_of nlist_64_codec = 16"
  by (simp add: size_of_def nlist_64_codec_def)

lemma size_of_ranlib [simp]: "size_of ranlib_codec = 8"
  by (simp add: size_of_def ranlib_codec_def)

lemma size_of_dylib_module [simp]: "size_of dylib_module_codec = 52"
  by (simp add: size_of_def dylib_module_codec_def)

lemma size_of_dylib_module_64 [simp]: "size_of dylib_module_64_codec = 56"
  by (simp add: size_of_def dylib_module_64_codec_def)

lemma size_of_dylib_table_of_contents [simp]: "size_of dylib_table_of_contents_codec = 8"
  by (simp add: size_of_def dylib_table_of_contents_codec_def)

section \<open>Each routine keeps the contract of its struct\<close>

interpretation fat_header: swappable_struct fat_header_codec "\<lambda>_. True" swap_fat_header
  by unfold_locales (auto simp: fat_header_codec_def swap_fat_header_def map_eq_Cons_conv)

interpretation fat_arch: swappable_struct fat_arch_codec "\<lambda>_. True" swap_fat_arch
  by unfold_locales (auto simp: fat_arch_codec_def swap_fat_arch_def map_eq_Cons_conv)

interpretation mach_header: swappable_struct mach_header_codec "\<lambda>_. True" swap_mach_header
  by unfold_locales (auto simp: mach_header_codec_def swap_mach_header_def map_eq_Cons_conv)

interpretation mach_header_64: swappable_struct mach_header_64_codec "\<lambda>_. True" swap_mach_header_64
  by unfold_locales (auto simp: mach_header_64_codec_def swap_mach_header_64_def map_eq_Cons_conv)

interpretation load_command: swappable_struct load_command_codec "\<lambda>_. True" swap_load_command
  by unfold_locales (auto simp: load_command_codec_def swap_load_command_def map_eq_Cons_conv)

interpretation segment_command: swappable_struct segment_command_codec wf_segment_command swap_segment_command
  by unfold_locales (auto simp: segment_command_codec_def wf_segment_command_def swap_segment_command_def map_eq_Cons_conv)

interpretation segment_command_64: swappable_struct segment_command_64_codec wf_segment_command_64 swap_segment_command_64
  by unfold_locales (auto simp: segment_command_64_codec_def wf_segment_command_64_def swap_segment_command_64_def map_eq_Cons_conv)

interpretation mach_section: swappable_struct section_codec wf_section swap_section
  by unfold_locales (auto simp: section_codec_def wf_section_def swap_section_def map_eq_Cons_conv)

interpretation section_64: mach_struct section_64_codec wf_section_64
  by unfold_locales (auto simp: section_64_codec_def wf_section_64_def map_eq_Cons_conv)

interpretation symtab_command: swappable_struct symtab_command_codec "\<lambda>_. True" swap_symtab_command
  by unfold_locales (auto simp: symtab_command_codec_def swap_symtab_command_def map_eq_Cons_conv)

interpretation dysymtab_command: swappable_struct dysymtab_command_codec "\<lambda>_. True" swap_dysymtab_command
  by unfold_locales (auto simp: dysymtab_command_codec_def swap_dysymtab_command_def map_eq_Cons_conv)

interpretation symseg_command: swappable_struct symseg_command_codec "\<lambda>_. True" swap_symseg_command
  by unfold_locales (auto simp: symseg_command_codec_def swap_symseg_command_def map_eq_Cons_conv)

interpretation fvmlib_command: swappable_struct fvmlib_command_codec "\<lambda>_. True" swap_fvmlib_command
  by unfold_locales (auto simp: fvmlib_command_codec_def swap_fvmlib_command_def map_eq_Cons_conv)

interpretation dylib_command: swappable_struct dylib_command_codec "\<lambda>_. True" swap_dylib_command
  by unfold_locales (auto simp: dylib_command_codec_def swap_dylib_command_def map_eq_Cons_conv)

interpretation sub_framework_command: swappable_struct sub_framework_command_codec "\<lambda>_. True" swap_sub_framework_command
  by unfold_locales (auto simp: sub_framework_command_codec_def swap_sub_framework_command_def map_eq_Cons_conv)

interpretation sub_umbrella_command: swappable_struct sub_umbrella_command_codec "\<lambda>_. True" swap_sub_umbrella_command
  by unfold_locales (auto simp: sub_umbrella_command_codec_def swap_sub_umbrella_command_def map_eq_Cons_conv)

interpretation sub_library_command: swappable_struct sub_library_command_codec "\<lambda>_. True" swap_sub_library_command
  by unfold_locales (auto simp: sub_library_command_codec_def swap_sub_library_command_def map_eq_Cons_conv)

interpretation sub_client_command: swappable_struct sub_client_command_codec "\<lambda>_. True" swap_sub_client_command
  by unfold_locales (auto simp: sub_client_command_codec_def swap_sub_client_command_def map_eq_Cons_conv)

interpretation prebound_dylib_command: swappable_struct prebound_dylib_command_codec "\<lambda>_. True" swap_prebound_dylib_command
  by unfold_locales (auto simp: prebound_dylib_command_codec_def swap_prebound_dylib_command_def map_eq_Cons_conv)

interpretation dylinker_command: swappable_struct dylinker_command_codec "\<lambda>_. True" swap_dylinker_command
  by unfold_locales (auto simp: dylinker_command_codec_def swap_dylinker_command_def map_eq_Cons_conv)

interpretation fvmfile_command: swappable_struct fvmfile_command_codec "\<lambda>_. True" swap_fvmfile_command
  by unfold_locales (auto simp: fvmfile_command_codec_def swap_fvmfile_command_def map_eq_Cons_conv)

interpretation thread_command: swappable_struct thread_command_codec "\<lambda>_. True" swap_thread_command
  by unfold_locales (auto simp: thread_command_codec_def swap_thread_command_def map_eq_Cons_conv)

interpretation ident_command: swappable_struct ident_command_codec "\<lambda>_. True" swap_ident_command
  by unfold_locales (auto simp: ident_command_codec_def swap_ident_command_def map_eq_Cons_conv)

interpretation routines_command: swappable_struct routines_command_codec "\<lambda>_. True" swap_routines_command
  by unfold_locales (auto simp: routines_command_codec_def swap_routines_command_def map_eq_Cons_conv)

interpretation routines_command_64: swappable_struct routines_command_64_codec "\<lambda>_. True" swap_routines_command_64
  by unfold_locales (auto simp: routines_command_64_codec_def swap_routines_command_64_def map_eq_Cons_conv)

interpretation twolevel_hints_command: swappable_struct twolevel_hints_command_codec "\<lambda>_. True" swap_twolevel_hints_command
  by unfold_locales (auto simp: twolevel_hints_command_codec_def swap_twolevel_hints_command_def map_eq_Cons_conv)

interpretation prebind_cksum_command: swappable_struct prebind_cksum_command_codec "\<lambda>_. True" swap_prebind_cksum_command
  by unfold_locales (auto simp: prebind_cksum_command_codec_def swap_prebind_cksum_command_def map_eq_Cons_conv)

interpretation uuid_command: swappable_struct uuid_command_codec wf_uuid_command swap_uuid_command
  by unfold_locales (auto simp: uuid_command_codec_def wf_uuid_command_def swap_uuid_command_def map_eq_Cons_conv)

interpretation linkedit_data_command: swappable_struct linkedit_data_command_codec "\<lambda>_. True" swap_linkedit_data_command
  by unfold_locales (auto simp: linkedit_data_command_codec_def swap_linkedit_data_command_def map_eq_Cons_conv)

interpretation rpath_command: swappable_struct rpath_command_codec "\<lambda>_. True" swap_rpath_command
  by unfold_locales (auto simp: rpath_command_codec_def swap_rpath_command_def map_eq_Cons_conv)

interpretation encryption_info_command: swappable_struct encryption_info_command_codec "\<lambda>_. True" swap_encryption_command
  by unfold_locales (auto simp: encryption_info_command_codec_def swap_encryption_command_def map_eq_Cons_conv)

interpretation nlist: swappable_struct nlist_codec wf_nlist swap_nlist
  by unfold_locales (auto simp: nlist_codec_def wf_nlist_def swap_nlist_def map_eq_Cons_conv)

interpretation nlist_64: swappable_struct nlist_64_codec wf_nlist_64 swap_nlist_64
  by unfold_locales (auto simp: nlist_64_codec_def wf_nlist_64_def swap_nlist_64_def map_eq_Cons_conv)

interpretation ranlib: swappable_struct ranlib_codec "\<lambda>_. True" swap_ranlib
  by unfold_locales (auto simp: ranlib_codec_def swap_ranlib_def map_eq_Cons_conv)

interpretation dylib_module: swappable_struct dylib_module_codec "\<lambda>_. True" swap_dylib_module
  by unfold_locales (auto simp: dylib_module_codec_def swap_dylib_module_def map_eq_Cons_conv)

interpretation dylib_module_64: mach_struct dylib_module_64_codec "\<lambda>_. True"
  by unfold_locales (auto simp: dylib_module_64_codec_def map_eq_Cons_conv)

interpretation dylib_table_of_contents: swappable_struct dylib_table_of_contents_codec "\<lambda>_. True" swap_dylib_table_of_contents
  by unfold_locales (auto simp: dylib_table_of_contents_codec_def swap_dylib_table_of_contents_def map_eq_Cons_conv)

section \<open>What the two exceptions do\<close>

text \<open>
  \<^verbatim>\<open>swap_section_64\<close> leaves \<^verbatim>\<open>reserved3\<close> as it was read: the other fields come out as the other
  byte order reads them.
\<close>

lemma encode_swap_section_64:
  "encode h (parts section_64_codec (swap_section_64 x)) =
   encode (other_byte_sex h) (parts section_64_codec (x\<lparr>s64_reserved3 := SWAP_INT (s64_reserved3 x)\<rparr>))"
proof -
  have "parts section_64_codec (swap_section_64 x) =
        map swap_field (parts section_64_codec (x\<lparr>s64_reserved3 := SWAP_INT (s64_reserved3 x)\<rparr>))"
    by (simp add: section_64_codec_def swap_section_64_def)
  then show ?thesis by (simp only: encode_swap_fields)
qed

text \<open>
  \<^verbatim>\<open>swap_dylib_module_64\<close> reverses the eight bytes of a 32-bit field widened to 64 bits and keeps
  the low half: zero, whatever the field was.
\<close>

lemma SWAP_LONG_LONG_narrow: "ucast (SWAP_LONG_LONG (ucast (w :: u32))) = (0 :: u32)"
proof (rule bit_word_eqI)
  fix n
  assume n: "n < LENGTH(32)"
  have "bytes_of 8 (SWAP_LONG_LONG (ucast w)) ! (n div 8) = rev (bytes_of 8 (ucast w :: u64)) ! (n div 8)"
    by (simp only: bytes_SWAP_LONG_LONG)
  also have "\<dots> = bytes_of 8 (ucast w :: u64) ! (7 - n div 8)"
    using n by (simp add: rev_nth)
  finally have "bit (bytes_of 8 (SWAP_LONG_LONG (ucast w)) ! (n div 8)) (n mod 8) \<longleftrightarrow>
      bit (bytes_of 8 (ucast w :: u64) ! (7 - n div 8)) (n mod 8)" by simp
  then have "bit (SWAP_LONG_LONG (ucast w)) n \<longleftrightarrow>
      bit (ucast w :: u64) (8 * (7 - n div 8) + n mod 8)"
    using n by (simp add: bit_byte_of)
  moreover have "n div 8 < 4" using n by (simp add: less_mult_imp_div_less)
  then have "32 \<le> 8 * (7 - n div 8) + n mod 8" by linarith
  ultimately show "bit (ucast (SWAP_LONG_LONG (ucast w)) :: u32) n = bit (0 :: u32) n"
    by (auto simp: bit_ucast_iff dest: bit_imp_le_length)
qed

lemma swap_dylib_module_64_size: "mod64_objc_module_info_size (swap_dylib_module_64 x) = 0"
  by (simp add: swap_dylib_module_64_def SWAP_LONG_LONG_narrow)

text \<open>
  The two routines that do not exchange byte orders.  \<^verbatim>\<open>swap_section_64\<close> keeps the bytes of
  \<^verbatim>\<open>reserved3\<close>; otherwise it gives the struct the other byte order reads.
  \<^verbatim>\<open>swap_dylib_module_64\<close> sets \<^verbatim>\<open>objc_module_info_size\<close> to 0, whatever it was.
\<close>

theorem swap_exceptions:
  "encode h (parts section_64_codec (swap_section_64 s)) =
     encode (other_byte_sex h) (parts section_64_codec (s\<lparr>s64_reserved3 := SWAP_INT (s64_reserved3 s)\<rparr>)) \<and>
   mod64_objc_module_info_size (swap_dylib_module_64 m) = 0"
  using encode_swap_section_64 swap_dylib_module_64_size by blast

end
