(* ===== verification/SwapBits.thy ===== *)
theory SwapBits
  imports SwapStructs
begin

text \<open>
  The structs with bit-fields of \<^verbatim>\<open>libstuff/bytesex.c\<close>: relocation entries (plain and
  scattered), two-level hints, references of a dynamic library, and the plain words of the
  indirect symbol table.  A compiler for a little endian machine allocates the first bit-field of
  a struct at the low end of its word, one for a big endian machine at the high end; the swap
  routines reach the fields of the other machine through a struct that declares them in reverse.
\<close>

section \<open>Bit-fields\<close>

text \<open>Fields of given widths from the low end of a word upwards.\<close>

fun pack_low :: "(nat \<times> u32) list \<Rightarrow> u32" where
  "pack_low [] = 0"
| "pack_low ((n, v) # fs) = take_bit n v OR push_bit n (pack_low fs)"

fun unpack_low :: "nat list \<Rightarrow> u32 \<Rightarrow> u32 list" where
  "unpack_low [] w = []"
| "unpack_low (n # ns) w = take_bit n w # unpack_low ns (drop_bit n w)"

text \<open>The word of a struct whose bit-fields are declared in the order of the list.\<close>

definition pack :: "byte_sex \<Rightarrow> (nat \<times> u32) list \<Rightarrow> u32" where
  "pack h fs = pack_low (if h = BIG_ENDIAN_BYTE_SEX then rev fs else fs)"

definition unpack :: "byte_sex \<Rightarrow> nat list \<Rightarrow> u32 \<Rightarrow> u32 list" where
  "unpack h ns w =
     (if h = BIG_ENDIAN_BYTE_SEX then rev (unpack_low (rev ns) w) else unpack_low ns w)"

lemma length_unpack_low [simp]: "length (unpack_low ns w) = length ns"
  by (induction ns arbitrary: w) simp_all

lemma length_unpack [simp]: "length (unpack h ns w) = length ns"
  by (simp add: unpack_def)

lemma bit_pack_low_high: "bit (pack_low fs) k \<Longrightarrow> k < sum_list (map fst fs)"
  by (induction fs arbitrary: k) (auto simp: bit_or_iff bit_take_bit_iff bit_push_bit_iff, fastforce+)

lemma pack_unpack_low: "pack_low (zip ns (unpack_low ns w)) = take_bit (sum_list ns) w"
proof (induction ns arbitrary: w)
  case (Cons n ns)
  show ?case
    by (rule bit_word_eqI)
      (auto simp: Cons.IH bit_or_iff bit_take_bit_iff bit_push_bit_iff bit_drop_bit_eq)
qed simp

lemma unpack_pack_low:
  assumes "sum_list (map fst fs) \<le> 32"
  shows "unpack_low (map fst fs) (pack_low fs) = map (\<lambda>(n, v). take_bit n v) fs"
  using assms
proof (induction fs)
  case (Cons f fs)
  obtain n v where f: "f = (n, v)" by force
  have "take_bit n (pack_low (f # fs)) = take_bit n v"
    by (rule bit_word_eqI) (auto simp: f bit_or_iff bit_take_bit_iff bit_push_bit_iff)
  moreover have "drop_bit n (pack_low (f # fs)) = pack_low fs"
  proof (rule bit_word_eqI)
    fix k
    assume k: "k < LENGTH(32)"
    show "bit (drop_bit n (pack_low (f # fs))) k = bit (pack_low fs) k"
      using Cons.prems bit_pack_low_high [of fs k]
      by (auto simp: f bit_drop_bit_eq bit_or_iff bit_take_bit_iff bit_push_bit_iff
          dest: bit_imp_le_length)
  qed
  ultimately show ?case using Cons by (simp add: f)
qed simp

text \<open>
  A struct with its fields in reverse order on one machine is the struct with its fields in order
  on the other.
\<close>

lemma pack_rev: "pack h (rev fs) = pack (other_byte_sex h) fs"
  by (auto simp: pack_def other_byte_sex_def)

lemma unpack_rev: "rev (unpack h (rev ns) w) = unpack (other_byte_sex h) ns w"
  by (auto simp: unpack_def other_byte_sex_def)

lemma unpack_pack:
  assumes "sum_list (map fst fs) \<le> 32"
  shows "unpack h (map fst fs) (pack h fs) = map (\<lambda>(n, v). take_bit n v) fs"
  using unpack_pack_low [of fs] unpack_pack_low [of "rev fs"] assms
  by (simp add: unpack_def pack_def rev_map [symmetric])

lemma pack_unpack:
  assumes "sum_list ns = 32"
  shows "pack h (zip ns (unpack h ns w)) = w"
proof -
  have "zip (rev ns) (unpack_low (rev ns) w) = rev (zip ns (rev (unpack_low (rev ns) w)))"
    by (simp add: zip_rev [symmetric])
  then show ?thesis
    using pack_unpack_low [of ns w] pack_unpack_low [of "rev ns" w] assms
    by (simp add: pack_def unpack_def take_bit_word_eq_self)
qed

section \<open>Words in memory\<close>

definition word_codec :: "u32 codec" where
  "word_codec = \<lparr>layout = [K32], parts = (\<lambda>w. [F32 w]), build = (\<lambda>fs. f32 (fs ! 0))\<rparr>"

lemma size_of_word [simp]: "size_of word_codec = 4"
  by (simp add: size_of_def word_codec_def)

definition swap_indirect_symbols :: "byte_sex \<Rightarrow> mem \<Rightarrow> nat \<Rightarrow> nat \<Rightarrow> mem option" where
  "swap_indirect_symbols = swap_array_at word_codec SWAP_INT"

interpretation word32: swappable_struct word_codec "\<lambda>_. True" SWAP_INT
  by unfold_locales (auto simp: word_codec_def map_eq_Cons_conv)

section \<open>Two-level hints\<close>

text \<open>The field widths of \<^verbatim>\<open>struct twolevel_hint\<close>: \<^verbatim>\<open>isub_image:8, itoc:24\<close>.\<close>

definition hint_widths :: "nat list" where "hint_widths = [8, 24]"

text \<open>
  One round of the loop of \<^verbatim>\<open>swap_twolevel_hint\<close> on host \<open>h\<close>: the word of the hint as the host
  reads it, before and after.
\<close>

definition swap_twolevel_hint :: "byte_sex \<Rightarrow> byte_sex \<Rightarrow> u32 \<Rightarrow> u32" where
  "swap_twolevel_hint h target_byte_sex hint =
     (if target_byte_sex = get_host_byte_sex h then
        (let shint = unpack h [24, 8] (SWAP_INT hint)
         in pack h [(8, shint ! 1), (24, shint ! 0)])
      else
        (let f = unpack h [8, 24] hint
         in SWAP_INT (pack h [(24, f ! 1), (8, f ! 0)])))"

definition swap_twolevel_hint_array ::
  "byte_sex \<Rightarrow> byte_sex \<Rightarrow> mem \<Rightarrow> nat \<Rightarrow> nat \<Rightarrow> mem option" where
  "swap_twolevel_hint_array h target_byte_sex = swap_array_at word_codec (swap_twolevel_hint h target_byte_sex) h"

section \<open>References of a dynamic library\<close>

text \<open>\<^verbatim>\<open>struct dylib_reference\<close>: \<^verbatim>\<open>isym:24, flags:8\<close>.\<close>

definition reference_widths :: "nat list" where "reference_widths = [24, 8]"

definition swap_dylib_reference :: "byte_sex \<Rightarrow> byte_sex \<Rightarrow> u32 \<Rightarrow> u32" where
  "swap_dylib_reference h target_byte_sex ref =
     (if target_byte_sex = get_host_byte_sex h then
        (let sref = unpack h [8, 24] (SWAP_INT ref)
         in pack h [(24, sref ! 1), (8, sref ! 0)])
      else
        (let f = unpack h [24, 8] ref
         in SWAP_INT (pack h [(8, f ! 1), (24, f ! 0)])))"

definition swap_dylib_reference_array ::
  "byte_sex \<Rightarrow> byte_sex \<Rightarrow> mem \<Rightarrow> nat \<Rightarrow> nat \<Rightarrow> mem option" where
  "swap_dylib_reference_array h target_byte_sex = swap_array_at word_codec (swap_dylib_reference h target_byte_sex) h"

section \<open>Relocation entries\<close>

text \<open>
  \<^verbatim>\<open>struct relocation_info\<close> is a word \<^verbatim>\<open>r_address\<close> and a word of the bit-fields
  \<^verbatim>\<open>r_symbolnum:24, r_pcrel:1, r_length:2, r_extern:1, r_type:4\<close>; a scattered entry is recognised
  by the high bit of its first word, and its second word is \<^verbatim>\<open>r_value\<close>.
\<close>

record relocation_info =
  r_address :: u32
  r_word :: u32

definition relocation_info_codec :: "relocation_info codec" where
  "relocation_info_codec =
     \<lparr>layout = [K32, K32], parts = (\<lambda>x. [F32 (r_address x), F32 (r_word x)]),
      build = (\<lambda>fs. \<lparr>r_address = f32 (fs ! 0), r_word = f32 (fs ! 1)\<rparr>)\<rparr>"

lemma size_of_relocation_info [simp]: "size_of relocation_info_codec = 8"
  by (simp add: size_of_def relocation_info_codec_def)

definition reloc_widths :: "nat list" where "reloc_widths = [24, 1, 2, 1, 4]"

abbreviation R_SCATTERED :: u32 where "R_SCATTERED \<equiv> 0x80000000"

definition swap_relocation_info ::
  "byte_sex \<Rightarrow> byte_sex \<Rightarrow> relocation_info \<Rightarrow> relocation_info" where
  "swap_relocation_info h target_byte_sex r =
     (let to_host_byte_sex = (target_byte_sex = get_host_byte_sex h);
          scattered =
            (if to_host_byte_sex then SWAP_INT (r_address r) AND R_SCATTERED \<noteq> 0
             else r_address r AND R_SCATTERED \<noteq> 0)
      in if \<not> scattered then
           (if to_host_byte_sex then
              (let sr = unpack h [4, 1, 2, 1, 24] (SWAP_INT (r_word r))
               in \<lparr>r_address = SWAP_INT (r_address r),
                   r_word = pack h [(24, sr ! 4), (1, sr ! 3), (2, sr ! 2), (1, sr ! 1), (4, sr ! 0)]\<rparr>)
            else
              (let f = unpack h [24, 1, 2, 1, 4] (r_word r)
               in \<lparr>r_address = SWAP_INT (r_address r),
                   r_word = SWAP_INT (pack h [(4, f ! 4), (1, f ! 3), (2, f ! 2), (1, f ! 1), (24, f ! 0)])\<rparr>))
         else r\<lparr>r_address := SWAP_INT (r_address r), r_word := SWAP_INT (r_word r)\<rparr>)"

definition swap_relocation_info_array ::
  "byte_sex \<Rightarrow> byte_sex \<Rightarrow> mem \<Rightarrow> nat \<Rightarrow> nat \<Rightarrow> mem option" where
  "swap_relocation_info_array h target_byte_sex =
     swap_array_at relocation_info_codec (swap_relocation_info h target_byte_sex) h"

section \<open>What the swaps mean\<close>

text \<open>
  The bit-field round that every routine above performs, in its general form: \<open>ns\<close> are the widths
  of the struct as the host declares it.
\<close>

definition swap_fields_to_host :: "byte_sex \<Rightarrow> nat list \<Rightarrow> u32 \<Rightarrow> u32" where
  "swap_fields_to_host h ns w = pack h (zip ns (rev (unpack h (rev ns) (SWAP_INT w))))"

definition swap_fields_from_host :: "byte_sex \<Rightarrow> nat list \<Rightarrow> u32 \<Rightarrow> u32" where
  "swap_fields_from_host h ns w = SWAP_INT (pack h (rev (zip ns (unpack h ns w))))"

text \<open>
  The other machine reads the same four bytes as \<open>SWAP_INT w\<close>; the host then sees the fields the
  other machine saw, and the other way round.
\<close>

lemma take_bit_unpack_low:
  "map (\<lambda>(n, v). take_bit n v) (zip ns (unpack_low ns w)) = unpack_low ns w"
  by (induction ns arbitrary: w) simp_all

lemma take_bit_unpack: "map (\<lambda>(n, v). take_bit n v) (zip ns (unpack h ns w)) = unpack h ns w"
proof (cases "h = BIG_ENDIAN_BYTE_SEX")
  case True
  have "zip ns (rev (unpack_low (rev ns) w)) = rev (zip (rev ns) (unpack_low (rev ns) w))"
    by (simp add: zip_rev [symmetric])
  then show ?thesis
    using True take_bit_unpack_low [of "rev ns" w] by (simp add: unpack_def rev_map [symmetric])
qed (simp add: unpack_def take_bit_unpack_low)

lemma fields_to_host:
  assumes "sum_list ns \<le> 32"
  shows "unpack h ns (swap_fields_to_host h ns w) = unpack (other_byte_sex h) ns (SWAP_INT w)"
  using unpack_pack [of "zip ns (unpack (other_byte_sex h) ns (SWAP_INT w))" h] assms
  by (simp add: swap_fields_to_host_def unpack_rev take_bit_unpack)

lemma fields_from_host:
  assumes "sum_list ns \<le> 32"
  shows "unpack (other_byte_sex h) ns (SWAP_INT (swap_fields_from_host h ns w)) = unpack h ns w"
  using unpack_pack [of "zip ns (unpack h ns w)" "other_byte_sex h"] assms
  by (simp add: swap_fields_from_host_def pack_rev take_bit_unpack)

lemma fields_round_trip:
  assumes "sum_list ns = 32"
  shows "swap_fields_from_host h ns (swap_fields_to_host h ns w) = w"
proof -
  have "swap_fields_from_host h ns (swap_fields_to_host h ns w) =
        SWAP_INT (pack (other_byte_sex h) (zip ns (unpack (other_byte_sex h) ns (SWAP_INT w))))"
    using assms by (simp add: swap_fields_from_host_def pack_rev fields_to_host)
  then show ?thesis using assms by (simp add: pack_unpack)
qed

text \<open>The routines of the file are instances of that round.\<close>

lemma unpack_two: "\<exists>a b. unpack h [m, n] w = [a, b]"
  using length_unpack [of h "[m, n]" w] by (auto simp: length_Suc_conv simp del: length_unpack)

lemma swap_twolevel_hint_eq:
  "swap_twolevel_hint h t w =
     (if t = get_host_byte_sex h then swap_fields_to_host h hint_widths w
      else swap_fields_from_host h hint_widths w)"
  using unpack_two [of h 24 8 "SWAP_INT w"] unpack_two [of h 8 24 w]
  by (auto simp: swap_twolevel_hint_def swap_fields_to_host_def swap_fields_from_host_def hint_widths_def)

lemma swap_dylib_reference_eq:
  "swap_dylib_reference h t w =
     (if t = get_host_byte_sex h then swap_fields_to_host h reference_widths w
      else swap_fields_from_host h reference_widths w)"
  using unpack_two [of h 8 24 "SWAP_INT w"] unpack_two [of h 24 8 w]
  by (auto simp: swap_dylib_reference_def swap_fields_to_host_def swap_fields_from_host_def
      reference_widths_def)

lemma unpack_five: "\<exists>a b c d e. unpack h [i, j, k, m, n] w = [a, b, c, d, e]"
  using length_unpack [of h "[i, j, k, m, n]" w]
  by (auto simp: length_Suc_conv simp del: length_unpack)

lemma swap_relocation_info_eq:
  "swap_relocation_info h t r =
     (if t = get_host_byte_sex h then
        \<lparr>r_address = SWAP_INT (r_address r),
         r_word = (if SWAP_INT (r_address r) AND R_SCATTERED = 0
                   then swap_fields_to_host h reloc_widths (r_word r) else SWAP_INT (r_word r))\<rparr>
      else
        \<lparr>r_address = SWAP_INT (r_address r),
         r_word = (if r_address r AND R_SCATTERED = 0
                   then swap_fields_from_host h reloc_widths (r_word r) else SWAP_INT (r_word r))\<rparr>)"
  using unpack_five [of h 4 1 2 1 24 "SWAP_INT (r_word r)"] unpack_five [of h 24 1 2 1 4 "r_word r"]
  by (cases r)
    (auto simp: swap_relocation_info_def Let_def swap_fields_to_host_def swap_fields_from_host_def
      reloc_widths_def)

text \<open>
  The meaning of an entry as a machine of byte order \<open>h\<close> reads it: its address and its fields, or
  its two words when it is scattered.
\<close>

definition reloc_view :: "byte_sex \<Rightarrow> relocation_info \<Rightarrow> u32 \<times> u32 list" where
  "reloc_view h r =
     (r_address r,
      if r_address r AND R_SCATTERED = 0 then unpack h reloc_widths (r_word r) else [r_word r])"

definition other_reading :: "relocation_info \<Rightarrow> relocation_info" where
  "other_reading r = \<lparr>r_address = SWAP_INT (r_address r), r_word = SWAP_INT (r_word r)\<rparr>"

lemma widths_32:
  "sum_list hint_widths = 32" "sum_list reference_widths = 32" "sum_list reloc_widths = 32"
  by (simp_all add: hint_widths_def reference_widths_def reloc_widths_def)

lemma other_byte_sex_neq [simp]: "other_byte_sex t \<noteq> t" "t \<noteq> other_byte_sex t"
  by (auto simp: other_byte_sex_def)

text \<open>
  C38: Swapping a relocation entry to the host gives the host the address and the bit-fields (or
  the two words of a scattered entry) that the other machine reads in the same bytes; swapping
  from the host gives the other machine what the host read; and the second undoes the first.  This
  holds for either byte order of the host and for entries of both forms.
\<close>

theorem swap_relocation_info_meaning:
  "reloc_view h (swap_relocation_info h (get_host_byte_sex h) r) =
     reloc_view (other_byte_sex h) (other_reading r) \<and>
   reloc_view (other_byte_sex h)
     (other_reading (swap_relocation_info h (other_byte_sex (get_host_byte_sex h)) r)) =
     reloc_view h r \<and>
   swap_relocation_info h (other_byte_sex (get_host_byte_sex h))
     (swap_relocation_info h (get_host_byte_sex h) r) = r"
  by (cases r) (auto simp: swap_relocation_info_eq reloc_view_def other_reading_def widths_32
      fields_to_host fields_from_host fields_round_trip)

text \<open>
  The same for the two-level hints and the references of a dynamic library: after the swap
  the host reads in each bit-field what the other machine read there, and conversely, and the two
  directions are inverse to each other.
\<close>

theorem swap_hint_reference_meaning:
  "unpack h hint_widths (swap_twolevel_hint h (get_host_byte_sex h) w) =
     unpack (other_byte_sex h) hint_widths (SWAP_INT w) \<and>
   unpack (other_byte_sex h) hint_widths
     (SWAP_INT (swap_twolevel_hint h (other_byte_sex (get_host_byte_sex h)) w)) =
     unpack h hint_widths w \<and>
   swap_twolevel_hint h (other_byte_sex (get_host_byte_sex h))
     (swap_twolevel_hint h (get_host_byte_sex h) w) = w \<and>
   unpack h reference_widths (swap_dylib_reference h (get_host_byte_sex h) w) =
     unpack (other_byte_sex h) reference_widths (SWAP_INT w) \<and>
   unpack (other_byte_sex h) reference_widths
     (SWAP_INT (swap_dylib_reference h (other_byte_sex (get_host_byte_sex h)) w)) =
     unpack h reference_widths w \<and>
   swap_dylib_reference h (other_byte_sex (get_host_byte_sex h))
     (swap_dylib_reference h (get_host_byte_sex h) w) = w"
  by (simp add: swap_twolevel_hint_eq swap_dylib_reference_eq widths_32
      fields_to_host fields_from_host fields_round_trip)

end
