(* ===== verification/ThreadState.thy ===== *)
theory ThreadState
  imports SwapBits
begin

text \<open>
  The thread states of the processors the tools know (\<^verbatim>\<open>include/mach/*/thread_status.h\<close>,
  \<^verbatim>\<open>usr_include/mach/*\<close>) and their swap routines in \<^verbatim>\<open>libstuff/bytesex.c\<close>.  A thread state is
  the declaration of its struct, a list of field names with kind and number of elements, and its
  value the list of its fields; a swap routine is the list of the fields it assigns, in the order
  of the code, or, where the struct has bit-fields, the function the code computes.
\<close>

section \<open>Structs by declaration\<close>

type_synonym decl = "(string \<times> kind \<times> nat) list"

definition kinds_of :: "decl \<Rightarrow> kind list" where
  "kinds_of d = concat (map (\<lambda>(n, k, c). replicate c k) d)"

definition names_of :: "decl \<Rightarrow> string list" where
  "names_of d = concat (map (\<lambda>(n, k, c). replicate c n) d)"

text \<open>The assignments \<^verbatim>\<open>p->f = SWAP_x(p->f)\<close> (for each element, where \<^verbatim>\<open>f\<close> is an array).\<close>

definition swap_named :: "decl \<Rightarrow> string list \<Rightarrow> field list \<Rightarrow> field list" where
  "swap_named d ns fs = map2 (\<lambda>n f. if n \<in> set ns then swap_field f else f) (names_of d) fs"

text \<open>An assignment to the fields of one name.\<close>

definition update_named :: "decl \<Rightarrow> string \<Rightarrow> (field \<Rightarrow> field) \<Rightarrow> field list \<Rightarrow> field list" where
  "update_named d n g fs = map2 (\<lambda>m f. if m = n then g f else f) (names_of d) fs"

fun on_word :: "(u32 \<Rightarrow> u32) \<Rightarrow> field \<Rightarrow> field" where
  "on_word g (F32 w) = F32 (g w)"
| "on_word g f = f"

fun on_half :: "(u16 \<Rightarrow> u16) \<Rightarrow> field \<Rightarrow> field" where
  "on_half g (F16 w) = F16 (g w)"
| "on_half g f = f"

text \<open>The codec of a struct known by its declaration.\<close>

definition raw_codec :: "kind list \<Rightarrow> field list codec" where
  "raw_codec ks = \<lparr>layout = ks, parts = (\<lambda>fs. fs), build = (\<lambda>fs. fs)\<rparr>"

definition decl_size :: "decl \<Rightarrow> nat" where
  "decl_size d = sum_list (map (\<lambda>(n, k, c). c * kind_size k) d)"

lemma layout_size_kinds_of [simp]: "layout_size (kinds_of d) = decl_size d"
  by (induction d) (auto simp: kinds_of_def decl_size_def layout_size_def sum_list_replicate)

lemma size_of_raw [simp]: "size_of (raw_codec (kinds_of d)) = decl_size d"
  by (simp add: size_of_def raw_codec_def)

interpretation raw: mach_struct "raw_codec ks" "\<lambda>fs. map kind_of fs = ks" for ks
  by unfold_locales (auto simp: raw_codec_def)

section \<open>Copying bit-fields\<close>

text \<open>
  A word of bit-fields by name, unnamed bits with the empty name.  \<open>copy_bits\<close> assigns fields of
  the word \<open>sw\<close> of one declaration to fields of the word \<open>dw\<close> of another, as a run of
  assignments \<^verbatim>\<open>d.x = s.y\<close> does: a field that is not assigned keeps its bits.
\<close>

type_synonym bits = "(string \<times> nat) list"

definition get_bits :: "byte_sex \<Rightarrow> bits \<Rightarrow> u32 \<Rightarrow> string \<Rightarrow> u32" where
  "get_bits h d w n =
     (case map_of (zip (map fst d) (unpack h (map snd d) w)) n of Some v \<Rightarrow> v | None \<Rightarrow> 0)"

definition copy_bits :: "byte_sex \<Rightarrow> bits \<Rightarrow> u32 \<Rightarrow> bits \<Rightarrow> u32 \<Rightarrow> (string \<times> string) list \<Rightarrow> u32" where
  "copy_bits h sd sw dd dw pairs =
     pack h (zip (map snd dd)
       (map2 (\<lambda>n old. case map_of pairs n of Some s \<Rightarrow> get_bits h sd sw s | None \<Rightarrow> old)
          (map fst dd) (unpack h (map snd dd) dw)))"

text \<open>
  The two directions of the swap routines.  To the host: the word is copied to a struct \<open>sd\<close> with
  the fields in reverse, swapped there, and its fields are assigned to the host's struct.  From
  the host: the host's fields are assigned to a local struct, whose remaining bits are whatever
  the stack held (\<open>junk\<close>), and the swapped word is copied back.
\<close>

definition bits_to_host :: "byte_sex \<Rightarrow> bits \<Rightarrow> bits \<Rightarrow> (string \<times> string) list \<Rightarrow> u32 \<Rightarrow> u32" where
  "bits_to_host h sd td pairs w = copy_bits h sd (SWAP_INT w) td w pairs"

definition bits_from_host :: "byte_sex \<Rightarrow> bits \<Rightarrow> bits \<Rightarrow> (string \<times> string) list \<Rightarrow> u32 \<Rightarrow> u32 \<Rightarrow> u32" where
  "bits_from_host h sd td pairs junk w = SWAP_INT (copy_bits h td w sd junk pairs)"

definition half_to_host :: "byte_sex \<Rightarrow> bits \<Rightarrow> bits \<Rightarrow> (string \<times> string) list \<Rightarrow> u16 \<Rightarrow> u16" where
  "half_to_host h sd td pairs w =
     ucast (copy_bits h sd (ucast (SWAP_SHORT w)) td (ucast w) pairs)"

definition half_from_host :: "byte_sex \<Rightarrow> bits \<Rightarrow> bits \<Rightarrow> (string \<times> string) list \<Rightarrow> u32 \<Rightarrow> u16 \<Rightarrow> u16" where
  "half_from_host h sd td pairs junk w =
     SWAP_SHORT (ucast (copy_bits h td (ucast w) sd junk pairs))"

abbreviation same :: "string list \<Rightarrow> (string \<times> string) list" where
  "same ns \<equiv> map (\<lambda>n. (n, n)) ns"

section \<open>The structs and their routines\<close>

definition m68k_thread_state_regs :: decl where
  "m68k_thread_state_regs =
     [(''dreg'', K32, 8), (''areg'', K32, 8), (''pad0'', K16, 1), (''sr'', K16, 1),
      (''pc'', K32, 1)]"

definition swap_m68k_thread_state_regs :: "field list \<Rightarrow> field list" where
  "swap_m68k_thread_state_regs =
     swap_named m68k_thread_state_regs
       [''dreg'', ''areg'', ''pad0'', ''sr'', ''pc'']"

definition m68k_thread_state_user_reg :: decl where
  "m68k_thread_state_user_reg =
     [(''user_reg'', K32, 1)]"

definition swap_m68k_thread_state_user_reg :: "field list \<Rightarrow> field list" where
  "swap_m68k_thread_state_user_reg =
     swap_named m68k_thread_state_user_reg
       [''user_reg'']"

definition ppc_thread_state_t :: decl where
  "ppc_thread_state_t =
     [(''srr0'', K32, 1), (''srr1'', K32, 1), (''r0'', K32, 1), (''r1'', K32, 1),
      (''r2'', K32, 1), (''r3'', K32, 1), (''r4'', K32, 1), (''r5'', K32, 1),
      (''r6'', K32, 1), (''r7'', K32, 1), (''r8'', K32, 1), (''r9'', K32, 1),
      (''r10'', K32, 1), (''r11'', K32, 1), (''r12'', K32, 1), (''r13'', K32, 1),
      (''r14'', K32, 1), (''r15'', K32, 1), (''r16'', K32, 1), (''r17'', K32, 1),
      (''r18'', K32, 1), (''r19'', K32, 1), (''r20'', K32, 1), (''r21'', K32, 1),
      (''r22'', K32, 1), (''r23'', K32, 1), (''r24'', K32, 1), (''r25'', K32, 1),
      (''r26'', K32, 1), (''r27'', K32, 1), (''r28'', K32, 1), (''r29'', K32, 1),
      (''r30'', K32, 1), (''r31'', K32, 1), (''cr'', K32, 1), (''xer'', K32, 1),
      (''lr'', K32, 1), (''ctr'', K32, 1), (''mq'', K32, 1), (''vrsave'', K32, 1)]"

definition swap_ppc_thread_state_t :: "field list \<Rightarrow> field list" where
  "swap_ppc_thread_state_t =
     swap_named ppc_thread_state_t
       [''srr0'', ''srr1'', ''r0'', ''r1'', ''r2'', ''r3'', ''r4'', ''r5'', ''r6'', ''r7'',
        ''r8'', ''r9'', ''r10'', ''r11'', ''r12'', ''r13'', ''r14'', ''r15'', ''r16'',
        ''r17'', ''r18'', ''r19'', ''r20'', ''r21'', ''r22'', ''r23'', ''r24'', ''r25'',
        ''r26'', ''r27'', ''r28'', ''r29'', ''r30'', ''r31'', ''cr'', ''xer'', ''lr'',
        ''ctr'', ''mq'', ''vrsave'']"

definition ppc_thread_state64_t :: decl where
  "ppc_thread_state64_t =
     [(''srr0'', K64, 1), (''srr1'', K64, 1), (''r0'', K64, 1), (''r1'', K64, 1),
      (''r2'', K64, 1), (''r3'', K64, 1), (''r4'', K64, 1), (''r5'', K64, 1),
      (''r6'', K64, 1), (''r7'', K64, 1), (''r8'', K64, 1), (''r9'', K64, 1),
      (''r10'', K64, 1), (''r11'', K64, 1), (''r12'', K64, 1), (''r13'', K64, 1),
      (''r14'', K64, 1), (''r15'', K64, 1), (''r16'', K64, 1), (''r17'', K64, 1),
      (''r18'', K64, 1), (''r19'', K64, 1), (''r20'', K64, 1), (''r21'', K64, 1),
      (''r22'', K64, 1), (''r23'', K64, 1), (''r24'', K64, 1), (''r25'', K64, 1),
      (''r26'', K64, 1), (''r27'', K64, 1), (''r28'', K64, 1), (''r29'', K64, 1),
      (''r30'', K64, 1), (''r31'', K64, 1), (''cr'', K32, 1), (''xer'', K64, 1),
      (''lr'', K64, 1), (''ctr'', K64, 1), (''vrsave'', K32, 1)]"

definition swap_ppc_thread_state64_t :: "field list \<Rightarrow> field list" where
  "swap_ppc_thread_state64_t =
     swap_named ppc_thread_state64_t
       [''srr0'', ''srr1'', ''r0'', ''r1'', ''r2'', ''r3'', ''r4'', ''r5'', ''r6'', ''r7'',
        ''r8'', ''r9'', ''r10'', ''r11'', ''r12'', ''r13'', ''r14'', ''r15'', ''r16'',
        ''r17'', ''r18'', ''r19'', ''r20'', ''r21'', ''r22'', ''r23'', ''r24'', ''r25'',
        ''r26'', ''r27'', ''r28'', ''r29'', ''r30'', ''r31'', ''cr'', ''xer'', ''lr'',
        ''ctr'', ''vrsave'']"

definition ppc_float_state_t :: decl where
  "ppc_float_state_t =
     [(''fpregs'', K64, 32), (''fpscr_pad'', K32, 1), (''fpscr'', K32, 1)]"

definition swap_ppc_float_state_t :: "field list \<Rightarrow> field list" where
  "swap_ppc_float_state_t =
     swap_named ppc_float_state_t
       [''fpregs'', ''fpscr_pad'', ''fpscr'']"

definition ppc_exception_state_t :: decl where
  "ppc_exception_state_t =
     [(''dar'', K32, 1), (''dsisr'', K32, 1), (''exception'', K32, 1), (''pad0'', K32, 1),
      (''pad1'', K32, 4)]"

definition swap_ppc_exception_state_t :: "field list \<Rightarrow> field list" where
  "swap_ppc_exception_state_t =
     swap_named ppc_exception_state_t
       [''dar'', ''dsisr'', ''exception'', ''pad0'', ''pad1'']"

definition m88k_thread_state_grf_t :: decl where
  "m88k_thread_state_grf_t =
     [(''r1'', K32, 1), (''r2'', K32, 1), (''r3'', K32, 1), (''r4'', K32, 1),
      (''r5'', K32, 1), (''r6'', K32, 1), (''r7'', K32, 1), (''r8'', K32, 1),
      (''r9'', K32, 1), (''r10'', K32, 1), (''r11'', K32, 1), (''r12'', K32, 1),
      (''r13'', K32, 1), (''r14'', K32, 1), (''r15'', K32, 1), (''r16'', K32, 1),
      (''r17'', K32, 1), (''r18'', K32, 1), (''r19'', K32, 1), (''r20'', K32, 1),
      (''r21'', K32, 1), (''r22'', K32, 1), (''r23'', K32, 1), (''r24'', K32, 1),
      (''r25'', K32, 1), (''r26'', K32, 1), (''r27'', K32, 1), (''r28'', K32, 1),
      (''r29'', K32, 1), (''r30'', K32, 1), (''r31'', K32, 1), (''xip'', K32, 1),
      (''xip_in_bd'', K32, 1), (''nip'', K32, 1)]"

definition swap_m88k_thread_state_grf_t :: "field list \<Rightarrow> field list" where
  "swap_m88k_thread_state_grf_t =
     swap_named m88k_thread_state_grf_t
       [''r1'', ''r2'', ''r3'', ''r4'', ''r5'', ''r6'', ''r7'', ''r8'', ''r9'', ''r10'',
        ''r11'', ''r12'', ''r13'', ''r14'', ''r15'', ''r16'', ''r17'', ''r18'', ''r19'',
        ''r20'', ''r21'', ''r22'', ''r23'', ''r24'', ''r25'', ''r26'', ''r27'', ''r28'',
        ''r29'', ''r30'', ''r31'', ''xip'', ''xip_in_bd'', ''nip'']"

definition m88k_thread_state_user_t :: decl where
  "m88k_thread_state_user_t =
     [(''user'', K32, 1)]"

definition swap_m88k_thread_state_user_t :: "field list \<Rightarrow> field list" where
  "swap_m88k_thread_state_user_t =
     swap_named m88k_thread_state_user_t
       [''user'']"

definition i860_thread_state_regs :: decl where
  "i860_thread_state_regs =
     [(''ireg'', K32, 31), (''freg'', K32, 30), (''psr'', K32, 1), (''epsr'', K32, 1),
      (''db'', K32, 1), (''pc'', K32, 1), (''_padding_'', K32, 1), (''Mres3'', K64, 1),
      (''Ares3'', K64, 1), (''Mres2'', K64, 1), (''Ares2'', K64, 1), (''Mres1'', K64, 1),
      (''Ares1'', K64, 1), (''Ires1'', K64, 1), (''Lres3m'', K64, 1), (''Lres2m'', K64, 1),
      (''Lres1m'', K64, 1), (''KR'', K64, 1), (''KI'', K64, 1), (''T'', K64, 1),
      (''Fsr3'', K32, 1), (''Fsr2'', K32, 1), (''Fsr1'', K32, 1), (''Mergelo32'', K32, 1),
      (''Mergehi32'', K32, 1)]"

definition swap_i860_thread_state_regs :: "field list \<Rightarrow> field list" where
  "swap_i860_thread_state_regs =
     swap_named i860_thread_state_regs
       [''ireg'', ''freg'', ''psr'', ''epsr'', ''db'', ''pc'', ''_padding_'', ''Mres3'',
        ''Ares3'', ''Mres2'', ''Ares2'', ''Mres1'', ''Ares1'', ''Ires1'', ''Lres3m'',
        ''Lres2m'', ''Lres1m'', ''KR'', ''KI'', ''T'', ''Fsr3'', ''Fsr2'', ''Fsr1'',
        ''Mergelo32'', ''Mergehi32'']"

definition i386_thread_state_t :: decl where
  "i386_thread_state_t =
     [(''eax'', K32, 1), (''ebx'', K32, 1), (''ecx'', K32, 1), (''edx'', K32, 1),
      (''edi'', K32, 1), (''esi'', K32, 1), (''ebp'', K32, 1), (''esp'', K32, 1),
      (''ss'', K32, 1), (''eflags'', K32, 1), (''eip'', K32, 1), (''cs'', K32, 1),
      (''ds'', K32, 1), (''es'', K32, 1), (''fs'', K32, 1), (''gs'', K32, 1)]"

definition swap_i386_thread_state :: "field list \<Rightarrow> field list" where
  "swap_i386_thread_state =
     swap_named i386_thread_state_t
       [''eax'', ''ebx'', ''ecx'', ''edx'', ''edi'', ''esi'', ''ebp'', ''esp'', ''ss'',
        ''eflags'', ''eip'', ''cs'', ''ds'', ''es'', ''fs'', ''gs'']"

definition x86_thread_state64_t :: decl where
  "x86_thread_state64_t =
     [(''rax'', K64, 1), (''rbx'', K64, 1), (''rcx'', K64, 1), (''rdx'', K64, 1),
      (''rdi'', K64, 1), (''rsi'', K64, 1), (''rbp'', K64, 1), (''rsp'', K64, 1),
      (''r8'', K64, 1), (''r9'', K64, 1), (''r10'', K64, 1), (''r11'', K64, 1),
      (''r12'', K64, 1), (''r13'', K64, 1), (''r14'', K64, 1), (''r15'', K64, 1),
      (''rip'', K64, 1), (''rflags'', K64, 1), (''cs'', K64, 1), (''fs'', K64, 1),
      (''gs'', K64, 1)]"

definition swap_x86_thread_state64 :: "field list \<Rightarrow> field list" where
  "swap_x86_thread_state64 =
     swap_named x86_thread_state64_t
       [''rax'', ''rbx'', ''rcx'', ''rdx'', ''rdi'', ''rsi'', ''rbp'', ''rsp'', ''rflags'',
        ''rip'', ''r8'', ''r9'', ''r10'', ''r11'', ''r12'', ''r13'', ''r14'', ''r15'',
        ''cs'', ''fs'', ''gs'']"

definition i386_exception_state_t :: decl where
  "i386_exception_state_t =
     [(''trapno'', K32, 1), (''err'', K32, 1), (''faultvaddr'', K32, 1)]"

definition swap_i386_exception_state :: "field list \<Rightarrow> field list" where
  "swap_i386_exception_state =
     swap_named i386_exception_state_t
       [''trapno'', ''err'', ''faultvaddr'']"

definition x86_exception_state64_t :: decl where
  "x86_exception_state64_t =
     [(''trapno'', K32, 1), (''err'', K32, 1), (''faultvaddr'', K64, 1)]"

definition swap_x86_exception_state64 :: "field list \<Rightarrow> field list" where
  "swap_x86_exception_state64 =
     swap_named x86_exception_state64_t
       [''trapno'', ''err'', ''faultvaddr'']"

definition x86_debug_state32_t :: decl where
  "x86_debug_state32_t =
     [(''dr0'', K32, 1), (''dr1'', K32, 1), (''dr2'', K32, 1), (''dr3'', K32, 1),
      (''dr4'', K32, 1), (''dr5'', K32, 1), (''dr6'', K32, 1), (''dr7'', K32, 1)]"

definition swap_x86_debug_state32 :: "field list \<Rightarrow> field list" where
  "swap_x86_debug_state32 =
     swap_named x86_debug_state32_t
       [''dr0'', ''dr1'', ''dr2'', ''dr3'', ''dr4'', ''dr5'', ''dr6'', ''dr7'']"

definition x86_debug_state64_t :: decl where
  "x86_debug_state64_t =
     [(''dr0'', K64, 1), (''dr1'', K64, 1), (''dr2'', K64, 1), (''dr3'', K64, 1),
      (''dr4'', K64, 1), (''dr5'', K64, 1), (''dr6'', K64, 1), (''dr7'', K64, 1)]"

definition swap_x86_debug_state64 :: "field list \<Rightarrow> field list" where
  "swap_x86_debug_state64 =
     swap_named x86_debug_state64_t
       [''dr0'', ''dr1'', ''dr2'', ''dr3'', ''dr4'', ''dr5'', ''dr6'', ''dr7'']"

definition x86_state_hdr :: decl where
  "x86_state_hdr =
     [(''flavor'', K32, 1), (''count'', K32, 1)]"

definition swap_x86_state_hdr :: "field list \<Rightarrow> field list" where
  "swap_x86_state_hdr =
     swap_named x86_state_hdr
       [''flavor'', ''count'']"

definition hp_pa_integer_thread_state :: decl where
  "hp_pa_integer_thread_state =
     [(''ts_gr1'', K32, 1), (''ts_gr2'', K32, 1), (''ts_gr3'', K32, 1),
      (''ts_gr4'', K32, 1), (''ts_gr5'', K32, 1), (''ts_gr6'', K32, 1),
      (''ts_gr7'', K32, 1), (''ts_gr8'', K32, 1), (''ts_gr9'', K32, 1),
      (''ts_gr10'', K32, 1), (''ts_gr11'', K32, 1), (''ts_gr12'', K32, 1),
      (''ts_gr13'', K32, 1), (''ts_gr14'', K32, 1), (''ts_gr15'', K32, 1),
      (''ts_gr16'', K32, 1), (''ts_gr17'', K32, 1), (''ts_gr18'', K32, 1),
      (''ts_gr19'', K32, 1), (''ts_gr20'', K32, 1), (''ts_gr21'', K32, 1),
      (''ts_gr22'', K32, 1), (''ts_gr23'', K32, 1), (''ts_gr24'', K32, 1),
      (''ts_gr25'', K32, 1), (''ts_gr26'', K32, 1), (''ts_gr27'', K32, 1),
      (''ts_gr28'', K32, 1), (''ts_gr29'', K32, 1), (''ts_gr30'', K32, 1),
      (''ts_gr31'', K32, 1), (''ts_sr0'', K32, 1), (''ts_sr1'', K32, 1),
      (''ts_sr2'', K32, 1), (''ts_sr3'', K32, 1), (''ts_sar'', K32, 1)]"

definition swap_hppa_integer_thread_state :: "field list \<Rightarrow> field list" where
  "swap_hppa_integer_thread_state =
     swap_named hp_pa_integer_thread_state
       [''ts_gr1'', ''ts_gr2'', ''ts_gr3'', ''ts_gr4'', ''ts_gr5'', ''ts_gr6'', ''ts_gr7'',
        ''ts_gr8'', ''ts_gr9'', ''ts_gr10'', ''ts_gr11'', ''ts_gr12'', ''ts_gr13'',
        ''ts_gr14'', ''ts_gr15'', ''ts_gr16'', ''ts_gr17'', ''ts_gr18'', ''ts_gr19'',
        ''ts_gr20'', ''ts_gr21'', ''ts_gr22'', ''ts_gr23'', ''ts_gr24'', ''ts_gr25'',
        ''ts_gr26'', ''ts_gr27'', ''ts_gr28'', ''ts_gr29'', ''ts_gr30'', ''ts_gr31'',
        ''ts_sr0'', ''ts_sr1'', ''ts_sr2'', ''ts_sr3'', ''ts_sar'']"

definition hp_pa_frame_thread_state :: decl where
  "hp_pa_frame_thread_state =
     [(''ts_pcsq_front'', K32, 1), (''ts_pcsq_back'', K32, 1), (''ts_pcoq_front'', K32, 1),
      (''ts_pcoq_back'', K32, 1), (''ts_psw'', K32, 1), (''ts_unaligned_faults'', K32, 1),
      (''ts_fault_address'', K32, 1), (''ts_step_range_start'', K32, 1),
      (''ts_step_range_stop'', K32, 1), (''ts_alignment_trap_reflect'', K32, 1),
      (''ts_execution_trap_reflect'', K32, 1)]"

definition swap_hppa_frame_thread_state :: "field list \<Rightarrow> field list" where
  "swap_hppa_frame_thread_state =
     swap_named hp_pa_frame_thread_state
       [''ts_pcsq_front'', ''ts_pcsq_back'', ''ts_pcoq_front'', ''ts_pcoq_back'',
        ''ts_psw'', ''ts_unaligned_faults'', ''ts_fault_address'', ''ts_step_range_start'',
        ''ts_step_range_stop'']"

definition hp_pa_fp_thread_state :: decl where
  "hp_pa_fp_thread_state =
     [(''ts_fp0'', K64, 1), (''ts_fp1'', K64, 1), (''ts_fp2'', K64, 1),
      (''ts_fp3'', K64, 1), (''ts_fp4'', K64, 1), (''ts_fp5'', K64, 1),
      (''ts_fp6'', K64, 1), (''ts_fp7'', K64, 1), (''ts_fp8'', K64, 1),
      (''ts_fp9'', K64, 1), (''ts_fp10'', K64, 1), (''ts_fp11'', K64, 1),
      (''ts_fp12'', K64, 1), (''ts_fp13'', K64, 1), (''ts_fp14'', K64, 1),
      (''ts_fp15'', K64, 1), (''ts_fp16'', K64, 1), (''ts_fp17'', K64, 1),
      (''ts_fp18'', K64, 1), (''ts_fp19'', K64, 1), (''ts_fp20'', K64, 1),
      (''ts_fp21'', K64, 1), (''ts_fp22'', K64, 1), (''ts_fp23'', K64, 1),
      (''ts_fp24'', K64, 1), (''ts_fp25'', K64, 1), (''ts_fp26'', K64, 1),
      (''ts_fp27'', K64, 1), (''ts_fp28'', K64, 1), (''ts_fp29'', K64, 1),
      (''ts_fp30'', K64, 1), (''ts_fp31'', K64, 1)]"

definition swap_hppa_fp_thread_state :: "field list \<Rightarrow> field list" where
  "swap_hppa_fp_thread_state =
     swap_named hp_pa_fp_thread_state
       [''ts_fp0'', ''ts_fp1'', ''ts_fp2'', ''ts_fp3'', ''ts_fp4'', ''ts_fp5'', ''ts_fp6'',
        ''ts_fp7'', ''ts_fp8'', ''ts_fp9'', ''ts_fp10'', ''ts_fp11'', ''ts_fp12'',
        ''ts_fp13'', ''ts_fp14'', ''ts_fp15'', ''ts_fp16'', ''ts_fp17'', ''ts_fp18'',
        ''ts_fp19'', ''ts_fp20'', ''ts_fp21'', ''ts_fp22'', ''ts_fp23'', ''ts_fp24'',
        ''ts_fp25'', ''ts_fp26'', ''ts_fp27'', ''ts_fp28'', ''ts_fp29'', ''ts_fp30'',
        ''ts_fp31'']"

definition arm_thread_state_t :: decl where
  "arm_thread_state_t =
     [(''r0'', K32, 1), (''r1'', K32, 1), (''r2'', K32, 1), (''r3'', K32, 1),
      (''r4'', K32, 1), (''r5'', K32, 1), (''r6'', K32, 1), (''r7'', K32, 1),
      (''r8'', K32, 1), (''r9'', K32, 1), (''r10'', K32, 1), (''r11'', K32, 1),
      (''r12'', K32, 1), (''r13'', K32, 1), (''r14'', K32, 1), (''r15'', K32, 1),
      (''r16'', K32, 1)]"

definition swap_arm_thread_state_t :: "field list \<Rightarrow> field list" where
  "swap_arm_thread_state_t =
     swap_named arm_thread_state_t
       [''r0'', ''r1'', ''r2'', ''r3'', ''r4'', ''r5'', ''r6'', ''r7'', ''r8'', ''r9'',
        ''r10'', ''r11'', ''r12'', ''r13'', ''r14'', ''r15'']"

text \<open>
  The 68882 state: each register is three words, which the routine swaps and also exchanges end
  for end.
\<close>

definition m68k_thread_state_68882 :: decl where
  "m68k_thread_state_68882 =
     [(''regs'', K32, 24), (''cr'', K32, 1), (''sr'', K32, 1), (''iar'', K32, 1), (''state'', K32, 1)]"

definition swap_m68k_thread_state_68882 :: "field list \<Rightarrow> field list" where
  "swap_m68k_thread_state_68882 fs =
     concat (map (\<lambda>i. [swap_field (fs ! (3 * i + 2)), swap_field (fs ! (3 * i + 1)),
                        swap_field (fs ! (3 * i))]) [0..<8]) @
     map swap_field (drop 24 fs)"

text \<open>
  The floating point registers of the 88000, a struct padded to a multiple of 16 bytes, and its
  status and control words.
\<close>

definition m88k_thread_state_xrf_t :: decl where
  "m88k_thread_state_xrf_t =
     [(''x1'', K32, 4), (''x2'', K32, 4), (''x3'', K32, 4), (''x4'', K32, 4),
      (''x5'', K32, 4), (''x6'', K32, 4), (''x7'', K32, 4), (''x8'', K32, 4),
      (''x9'', K32, 4), (''x10'', K32, 4), (''x11'', K32, 4), (''x12'', K32, 4),
      (''x13'', K32, 4), (''x14'', K32, 4), (''x15'', K32, 4), (''x16'', K32, 4),
      (''x17'', K32, 4), (''x18'', K32, 4), (''x19'', K32, 4), (''x20'', K32, 4),
      (''x21'', K32, 4), (''x22'', K32, 4), (''x23'', K32, 4), (''x24'', K32, 4),
      (''x25'', K32, 4), (''x26'', K32, 4), (''x27'', K32, 4), (''x28'', K32, 4),
      (''x29'', K32, 4), (''x30'', K32, 4), (''x31'', K32, 4), (''fpsr'', K32, 1),
      (''fpcr'', K32, 1), ([], K8 8, 1)]"

definition m88k_fpsr :: bits where
  "m88k_fpsr =
     [([], 15), (''xmod'', 1), ([], 11), (''afinv'', 1), (''afdvz'', 1), (''afunf'', 1),
      (''afovf'', 1), (''afinx'', 1)]"

definition swapped_m88k_fpsr :: bits where
  "swapped_m88k_fpsr =
     [(''afinx'', 1), (''afovf'', 1), (''afunf'', 1), (''afdvz'', 1), (''afinv'', 1), ([], 11),
      (''xmod'', 1), ([], 15)]"

definition fpsr_names :: "string list" where
  "fpsr_names = [''afinx'', ''afovf'', ''afunf'', ''afdvz'', ''afinv'', ''xmod'']"

definition m88k_fpcr :: bits where
  "m88k_fpcr =
     [([], 16), (''rm'', 2), ([], 9), (''efinv'', 1), (''efdvz'', 1), (''efunf'', 1),
      (''efovf'', 1), (''efinx'', 1)]"

definition swapped_m88k_fpcr :: bits where
  "swapped_m88k_fpcr =
     [(''efinx'', 1), (''efovf'', 1), (''efunf'', 1), (''efdvz'', 1), (''efinv'', 1), ([], 9),
      (''rm'', 2), ([], 16)]"

definition fpcr_names :: "string list" where
  "fpcr_names = [''efinx'', ''efovf'', ''efunf'', ''efdvz'', ''efinv'', ''rm'']"

definition swap_m88k_thread_state_xrf_t ::
  "byte_sex \<Rightarrow> byte_sex \<Rightarrow> (nat \<Rightarrow> u32) \<Rightarrow> field list \<Rightarrow> field list" where
  "swap_m88k_thread_state_xrf_t h target_byte_sex junk fs =
     (let fs = swap_named m88k_thread_state_xrf_t
       [''x1'', ''x2'', ''x3'', ''x4'', ''x5'', ''x6'', ''x7'', ''x8'', ''x9'', ''x10'',
        ''x11'', ''x12'', ''x13'', ''x14'', ''x15'', ''x16'', ''x17'', ''x18'', ''x19'',
        ''x20'', ''x21'', ''x22'', ''x23'', ''x24'', ''x25'', ''x26'', ''x27'', ''x28'',
        ''x29'', ''x30'', ''x31''] fs
      in if target_byte_sex = get_host_byte_sex h then
           update_named m88k_thread_state_xrf_t ''fpcr''
             (on_word (bits_to_host h swapped_m88k_fpcr m88k_fpcr (same fpcr_names)))
             (update_named m88k_thread_state_xrf_t ''fpsr''
               (on_word (bits_to_host h swapped_m88k_fpsr m88k_fpsr (same fpsr_names))) fs)
         else
           update_named m88k_thread_state_xrf_t ''fpcr''
             (on_word (bits_from_host h swapped_m88k_fpcr m88k_fpcr (same fpcr_names) (junk 1)))
             (update_named m88k_thread_state_xrf_t ''fpsr''
               (on_word (bits_from_host h swapped_m88k_fpsr m88k_fpsr (same fpsr_names) (junk 0))) fs))"

text \<open>The 88110's implementation specific state.\<close>

definition m88110_thread_state_impl_t :: decl where
  "m88110_thread_state_impl_t =
     [(''data_bp[0].addr'', K32, 1), (''data_bp[0].ctrl'', K32, 1), (''data_bp[1].addr'', K32, 1),
      (''data_bp[1].ctrl'', K32, 1), (''psr'', K32, 1), ([], K8 12, 1),
      (''intermediate_result'', K32, 4), (''fp_trap_status'', K32, 1), ([], K8 12, 1)]"

definition m88110_bp_ctrl :: bits where
  "m88110_bp_ctrl = [([], 3), (''rw'', 1), (''rwm'', 1), ([], 14), (''addr_match'', 12), (''v'', 1)]"

definition swapped_m88110_bp_ctrl :: bits where
  "swapped_m88110_bp_ctrl =
     [(''v'', 1), (''addr_match'', 12), ([], 14), (''rwm'', 1), (''rw'', 1), ([], 3)]"

definition bp_ctrl_names :: "string list" where
  "bp_ctrl_names = [''v'', ''addr_match'', ''rwm'', ''rw'']"

definition m88110_psr :: bits where
  "m88110_psr =
     [(''supr'', 1), (''le'', 1), (''se'', 1), (''c'', 1), ([], 1), (''sgn_imd'', 1), (''sm'', 1),
      ([], 1), (''trace'', 1), ([], 18), (''sfu2dis'', 1), (''sfu1dis'', 1), (''mxm_dis'', 1), ([], 2)]"

definition swapped_m88110_psr :: bits where
  "swapped_m88110_psr =
     [([], 2), (''mxm_dis'', 1), (''sfu1dis'', 1), ([], 19), (''trace'', 1), ([], 1), (''sm'', 1),
      (''sgn_imd'', 1), ([], 1), (''c'', 1), (''se'', 1), (''le'', 1), (''supr'', 1)]"

definition m88110_psr_names :: "string list" where
  "m88110_psr_names =
     [''mxm_dis'', ''sfu1dis'', ''trace'', ''sm'', ''sgn_imd'', ''c'', ''se'', ''le'', ''supr'']"

definition m88110_fp_trap_status :: bits where
  "m88110_fp_trap_status =
     [([], 16), (''iresult_size'', 2), ([], 5), (''sfu1_disabled'', 1), ([], 1), (''unimp'', 1),
      (''priv'', 1), (''efinv'', 1), (''efdvz'', 1), (''efunf'', 1), (''efovf'', 1), (''efinx'', 1)]"

definition swapped_m88110_fp_trap_status :: bits where
  "swapped_m88110_fp_trap_status =
     [(''efinx'', 1), (''efovf'', 1), (''efunf'', 1), (''efdvz'', 1), (''efinv'', 1), (''priv'', 1),
      (''unimp'', 1), ([], 1), (''sfu1_disabled'', 1), ([], 5), (''iresult_size'', 2), ([], 16)]"

definition fp_trap_status_names :: "string list" where
  "fp_trap_status_names =
     [''efinx'', ''efovf'', ''efunf'', ''efdvz'', ''efinv'', ''priv'', ''unimp'', ''sfu1_disabled'',
      ''iresult_size'']"

definition swap_m88110_thread_state_impl_t ::
  "byte_sex \<Rightarrow> byte_sex \<Rightarrow> (nat \<Rightarrow> u32) \<Rightarrow> field list \<Rightarrow> field list" where
  "swap_m88110_thread_state_impl_t h target_byte_sex junk fs =
     (let d = m88110_thread_state_impl_t;
          fs = swap_named d [''data_bp[0].addr'', ''data_bp[1].addr'', ''intermediate_result''] fs;
          bits = (\<lambda>sd td ns j.
            if target_byte_sex = get_host_byte_sex h then on_word (bits_to_host h sd td (same ns))
            else on_word (bits_from_host h sd td (same ns) (junk j)))
      in update_named d ''fp_trap_status''
           (bits swapped_m88110_fp_trap_status m88110_fp_trap_status fp_trap_status_names 2)
           (update_named d ''psr'' (bits swapped_m88110_psr m88110_psr m88110_psr_names 1)
             (update_named d ''data_bp[1].ctrl'' (bits swapped_m88110_bp_ctrl m88110_bp_ctrl bp_ctrl_names 0)
               (update_named d ''data_bp[0].ctrl''
                 (bits swapped_m88110_bp_ctrl m88110_bp_ctrl bp_ctrl_names 0) fs))))"

text \<open>The i386 and x86_64 floating point states: control and status words of 16 bits.\<close>

definition i386_float_state :: decl where
  "i386_float_state =
     [(''fpu_reserved'', K32, 2), (''fpu_fcw'', K16, 1), (''fpu_fsw'', K16, 1),
      (''fpu_ftw'', K8 1, 1), (''fpu_rsrv1'', K8 1, 1), (''fpu_fop'', K16, 1),
      (''fpu_ip'', K32, 1), (''fpu_cs'', K16, 1), (''fpu_rsrv2'', K16, 1),
      (''fpu_dp'', K32, 1), (''fpu_ds'', K16, 1), (''fpu_rsrv3'', K16, 1),
      (''fpu_mxcsr'', K32, 1), (''fpu_mxcsrmask'', K32, 1), (''fpu_stmm0'', K8 16, 1),
      (''fpu_stmm1'', K8 16, 1), (''fpu_stmm2'', K8 16, 1), (''fpu_stmm3'', K8 16, 1),
      (''fpu_stmm4'', K8 16, 1), (''fpu_stmm5'', K8 16, 1), (''fpu_stmm6'', K8 16, 1),
      (''fpu_stmm7'', K8 16, 1), (''fpu_xmm0'', K8 16, 1), (''fpu_xmm1'', K8 16, 1),
      (''fpu_xmm2'', K8 16, 1), (''fpu_xmm3'', K8 16, 1), (''fpu_xmm4'', K8 16, 1),
      (''fpu_xmm5'', K8 16, 1), (''fpu_xmm6'', K8 16, 1), (''fpu_xmm7'', K8 16, 1),
      (''fpu_rsrv4'', K8 224, 1), (''fpu_reserved1'', K32, 1)]"

definition x86_float_state64_t :: decl where
  "x86_float_state64_t =
     [(''fpu_reserved'', K32, 2), (''fpu_fcw'', K16, 1), (''fpu_fsw'', K16, 1),
      (''fpu_ftw'', K8 1, 1), (''fpu_rsrv1'', K8 1, 1), (''fpu_fop'', K16, 1),
      (''fpu_ip'', K32, 1), (''fpu_cs'', K16, 1), (''fpu_rsrv2'', K16, 1),
      (''fpu_dp'', K32, 1), (''fpu_ds'', K16, 1), (''fpu_rsrv3'', K16, 1),
      (''fpu_mxcsr'', K32, 1), (''fpu_mxcsrmask'', K32, 1), (''fpu_stmm0'', K8 16, 1),
      (''fpu_stmm1'', K8 16, 1), (''fpu_stmm2'', K8 16, 1), (''fpu_stmm3'', K8 16, 1),
      (''fpu_stmm4'', K8 16, 1), (''fpu_stmm5'', K8 16, 1), (''fpu_stmm6'', K8 16, 1),
      (''fpu_stmm7'', K8 16, 1), (''fpu_xmm0'', K8 16, 1), (''fpu_xmm1'', K8 16, 1),
      (''fpu_xmm2'', K8 16, 1), (''fpu_xmm3'', K8 16, 1), (''fpu_xmm4'', K8 16, 1),
      (''fpu_xmm5'', K8 16, 1), (''fpu_xmm6'', K8 16, 1), (''fpu_xmm7'', K8 16, 1),
      (''fpu_xmm8'', K8 16, 1), (''fpu_xmm9'', K8 16, 1), (''fpu_xmm10'', K8 16, 1),
      (''fpu_xmm11'', K8 16, 1), (''fpu_xmm12'', K8 16, 1), (''fpu_xmm13'', K8 16, 1),
      (''fpu_xmm14'', K8 16, 1), (''fpu_xmm15'', K8 16, 1), (''fpu_rsrv4'', K8 96, 1),
      (''fpu_reserved1'', K32, 1)]"

definition fp_control :: bits where
  "fp_control =
     [(''invalid'', 1), (''denorm'', 1), (''zdiv'', 1), (''ovrfl'', 1), (''undfl'', 1), (''precis'', 1),
      ([], 2), (''pc'', 2), (''rc'', 2), ([], 1), ([], 3)]"

definition swapped_fp_control :: bits where
  "swapped_fp_control =
     [([], 3), ([], 1), (''rc'', 2), (''pc'', 2), ([], 2), (''precis'', 1), (''undfl'', 1),
      (''ovrfl'', 1), (''zdiv'', 1), (''denorm'', 1), (''invalid'', 1)]"

definition fp_control_names :: "string list" where
  "fp_control_names = [''rc'', ''pc'', ''precis'', ''undfl'', ''ovrfl'', ''zdiv'', ''denorm'', ''invalid'']"

definition fp_status :: bits where
  "fp_status =
     [(''invalid'', 1), (''denorm'', 1), (''zdiv'', 1), (''ovrfl'', 1), (''undfl'', 1), (''precis'', 1),
      (''stkflt'', 1), (''errsumm'', 1), (''c0'', 1), (''c1'', 1), (''c2'', 1), (''tos'', 3), (''c3'', 1),
      (''busy'', 1)]"

definition swapped_fp_status :: bits where
  "swapped_fp_status =
     [(''busy'', 1), (''c3'', 1), (''tos'', 3), (''c2'', 1), (''c1'', 1), (''c0'', 1), (''errsumm'', 1),
      (''stkflt'', 1), (''precis'', 1), (''undfl'', 1), (''ovrfl'', 1), (''zdiv'', 1), (''denorm'', 1),
      (''invalid'', 1)]"

definition fp_status_names :: "string list" where
  "fp_status_names =
     [''busy'', ''c3'', ''tos'', ''c2'', ''c1'', ''c0'', ''errsumm'', ''stkflt'', ''precis'', ''undfl'',
      ''ovrfl'', ''zdiv'', ''denorm'', ''invalid'']"

definition swap_i386_float_state ::
  "byte_sex \<Rightarrow> byte_sex \<Rightarrow> (nat \<Rightarrow> u32) \<Rightarrow> field list \<Rightarrow> field list" where
  "swap_i386_float_state h target_byte_sex junk fs =
     (let d = i386_float_state;
          fs = swap_named d
       [''fpu_reserved'', ''fpu_fop'', ''fpu_ip'', ''fpu_cs'', ''fpu_rsrv2'', ''fpu_dp'',
        ''fpu_ds'', ''fpu_rsrv3'', ''fpu_mxcsr'', ''fpu_mxcsrmask'', ''fpu_reserved1''] fs;
          bits = (\<lambda>sd td ns j.
            if target_byte_sex = get_host_byte_sex h then on_half (half_to_host h sd td (same ns))
            else on_half (half_from_host h sd td (same ns) (junk j)))
      in update_named d ''fpu_fsw'' (bits swapped_fp_status fp_status fp_status_names 1)
           (update_named d ''fpu_fcw'' (bits swapped_fp_control fp_control fp_control_names 0) fs))"

definition swap_x86_float_state64 ::
  "byte_sex \<Rightarrow> byte_sex \<Rightarrow> (nat \<Rightarrow> u32) \<Rightarrow> field list \<Rightarrow> field list" where
  "swap_x86_float_state64 h target_byte_sex junk fs =
     (let d = x86_float_state64_t;
          fs = swap_named d
       [''fpu_reserved'', ''fpu_fop'', ''fpu_ip'', ''fpu_cs'', ''fpu_rsrv2'', ''fpu_dp'',
        ''fpu_ds'', ''fpu_rsrv3'', ''fpu_mxcsr'', ''fpu_mxcsrmask'', ''fpu_reserved1''] fs;
          bits = (\<lambda>sd td ns j.
            if target_byte_sex = get_host_byte_sex h then on_half (half_to_host h sd td (same ns))
            else on_half (half_from_host h sd td (same ns) (junk j)))
      in update_named d ''fpu_fsw'' (bits swapped_fp_status fp_status fp_status_names 1)
           (update_named d ''fpu_fcw'' (bits swapped_fp_control fp_control fp_control_names 0) fs))"

text \<open>
  SPARC.  The routine assigns \<^verbatim>\<open>psr_bits.et\<close> from the field \<^verbatim>\<open>ver\<close> and the other way round, and
  of the 16 entries of the floating point queue swaps the first two.
\<close>

definition sparc_thread_state_regs :: decl where
  "sparc_thread_state_regs =
     [(''r_psr'', K32, 1), (''r_pc'', K32, 1), (''r_npc'', K32, 1), (''r_y'', K32, 1),
      (''r_g1'', K32, 1), (''r_g2'', K32, 1), (''r_g3'', K32, 1), (''r_g4'', K32, 1),
      (''r_g5'', K32, 1), (''r_g6'', K32, 1), (''r_g7'', K32, 1), (''r_o0'', K32, 1),
      (''r_o1'', K32, 1), (''r_o2'', K32, 1), (''r_o3'', K32, 1), (''r_o4'', K32, 1),
      (''r_o5'', K32, 1), (''r_o6'', K32, 1), (''r_o7'', K32, 1)]"

definition p_status :: bits where
  "p_status =
     [(''impl'', 4), (''ver'', 4), (''icc'', 4), (''reserved'', 6), (''ec'', 1), (''ef'', 1), (''pil'', 4),
      (''s'', 1), (''ps'', 1), (''et'', 1), (''cwp'', 5)]"

definition swapped_psr :: bits where
  "swapped_psr =
     [(''cwp'', 5), (''et'', 1), (''ps'', 1), (''s'', 1), (''pil'', 4), (''ef'', 1), (''ec'', 1),
      (''reserved'', 6), (''icc'', 4), (''ver'', 4), (''impl'', 4)]"

definition psr_names :: "string list" where
  "psr_names = [''cwp'', ''ps'', ''s'', ''pil'', ''ef'', ''ec'', ''reserved'', ''icc'']"

definition swap_sparc_thread_state_regs ::
  "byte_sex \<Rightarrow> byte_sex \<Rightarrow> (nat \<Rightarrow> u32) \<Rightarrow> field list \<Rightarrow> field list" where
  "swap_sparc_thread_state_regs h target_byte_sex junk fs =
     (let d = sparc_thread_state_regs;
          fs = swap_named d
       [''r_pc'', ''r_npc'', ''r_y'', ''r_g1'', ''r_g2'', ''r_g3'', ''r_g4'', ''r_g5'',
        ''r_g6'', ''r_g7'', ''r_o0'', ''r_o1'', ''r_o2'', ''r_o3'', ''r_o4'', ''r_o5'',
        ''r_o6'', ''r_o7''] fs
      in update_named d ''r_psr''
           (on_word
             (if target_byte_sex = get_host_byte_sex h then
                bits_to_host h swapped_psr p_status
                  (same psr_names @ [(''et'', ''ver''), (''impl'', ''impl'')])
              else
                bits_from_host h swapped_psr p_status
                  (same psr_names @ [(''ver'', ''et''), (''impl'', ''impl'')]) (junk 0))) fs)"

definition sparc_thread_state_fpu :: decl where
  "sparc_thread_state_fpu =
     [(''Fpu_dregs'', K64, 16), (''Fpu_fsr'', K32, 1), (''Fpu_flags'', K32, 1), (''Fpu_extra'', K32, 1),
      (''Fpu_qcnt'', K32, 1), (''Fpu_q[0]'', K64, 1), (''Fpu_q[1]'', K64, 1), (''Fpu_q[2..15]'', K64, 14)]"

definition f_status :: bits where
  "f_status =
     [(''rd'', 2), (''rp'', 2), (''tem'', 5), (''res'', 6), (''ftt'', 3), (''qne'', 1), (''pr'', 1),
      (''fcc'', 2), (''aexc'', 5), (''cexc'', 5)]"

definition swapped_fsr :: bits where
  "swapped_fsr =
     [(''cexc'', 5), (''aexc'', 5), (''fcc'', 2), (''pr'', 1), (''qne'', 1), (''ftt'', 3), (''res'', 6),
      (''tem'', 5), (''rp'', 2), (''rd'', 2)]"

definition fsr_names :: "string list" where
  "fsr_names = [''rd'', ''rp'', ''tem'', ''res'', ''ftt'', ''qne'', ''pr'', ''fcc'', ''aexc'', ''cexc'']"

definition swap_sparc_thread_state_fpu ::
  "byte_sex \<Rightarrow> byte_sex \<Rightarrow> (nat \<Rightarrow> u32) \<Rightarrow> field list \<Rightarrow> field list" where
  "swap_sparc_thread_state_fpu h target_byte_sex junk fs =
     (let d = sparc_thread_state_fpu;
          fs = swap_named d [''Fpu_dregs'', ''Fpu_q[0]'', ''Fpu_q[1]'', ''Fpu_flags'', ''Fpu_extra'', ''Fpu_qcnt''] fs
      in update_named d ''Fpu_fsr''
           (on_word
             (if target_byte_sex = get_host_byte_sex h then
                bits_to_host h swapped_fsr f_status (same fsr_names)
              else bits_from_host h swapped_fsr f_status (same fsr_names) (junk 0))) fs)"

section \<open>Sizes\<close>

lemma decl_sizes:
  "decl_size m68k_thread_state_regs = 72" "decl_size m68k_thread_state_68882 = 112"
  "decl_size m68k_thread_state_user_reg = 4" "decl_size ppc_thread_state_t = 160"
  "decl_size ppc_thread_state64_t = 304" "decl_size ppc_float_state_t = 264"
  "decl_size ppc_exception_state_t = 32" "decl_size m88k_thread_state_grf_t = 136"
  "decl_size m88k_thread_state_xrf_t = 512" "decl_size m88k_thread_state_user_t = 4"
  "decl_size m88110_thread_state_impl_t = 64" "decl_size i860_thread_state_regs = 388"
  "decl_size i386_thread_state_t = 64" "decl_size i386_float_state = 524"
  "decl_size i386_exception_state_t = 12" "decl_size x86_thread_state64_t = 168"
  "decl_size x86_float_state64_t = 524" "decl_size hp_pa_integer_thread_state = 144"
  "decl_size hp_pa_frame_thread_state = 44" "decl_size hp_pa_fp_thread_state = 256"
  "decl_size sparc_thread_state_regs = 76" "decl_size sparc_thread_state_fpu = 272"
  "decl_size arm_thread_state_t = 68"
  by (simp_all add: decl_size_def m68k_thread_state_regs_def m68k_thread_state_68882_def
      m68k_thread_state_user_reg_def ppc_thread_state_t_def ppc_thread_state64_t_def
      ppc_float_state_t_def ppc_exception_state_t_def m88k_thread_state_grf_t_def
      m88k_thread_state_xrf_t_def m88k_thread_state_user_t_def m88110_thread_state_impl_t_def
      i860_thread_state_regs_def i386_thread_state_t_def i386_float_state_def
      i386_exception_state_t_def x86_thread_state64_t_def x86_float_state64_t_def
      hp_pa_integer_thread_state_def hp_pa_frame_thread_state_def hp_pa_fp_thread_state_def
      sparc_thread_state_regs_def sparc_thread_state_fpu_def arm_thread_state_t_def)

section \<open>The routines that swap every field\<close>

text \<open>A list of assigned fields is complete when it names every field that is not characters.\<close>

definition complete_for :: "decl \<Rightarrow> string list \<Rightarrow> bool" where
  "complete_for d ns \<longleftrightarrow>
     list_all (\<lambda>(n, k, c). case k of K8 _ \<Rightarrow> True | _ \<Rightarrow> n \<in> set ns) d"

lemma length_names_of: "length (names_of d) = length (kinds_of d)"
  by (induction d) (auto simp: names_of_def kinds_of_def)

lemma zip_names_kinds:
  "(n, k) \<in> set (zip (names_of d) (kinds_of d)) \<Longrightarrow> \<exists>c. (n, k, c) \<in> set d"
proof (induction d)
  case (Cons e d)
  obtain m l c where e: "e = (m, l, c)" using prod_cases3 by blast
  have "zip (names_of (e # d)) (kinds_of (e # d)) =
        zip (replicate c m) (replicate c l) @ zip (names_of d) (kinds_of d)"
    by (simp add: e names_of_def kinds_of_def)
  then show ?case using Cons by (auto simp: e zip_replicate)
qed (simp add: names_of_def)

lemma swap_named_complete:
  assumes "complete_for d ns" and "map kind_of fs = kinds_of d"
  shows "swap_named d ns fs = map swap_field fs"
proof (rule nth_equalityI)
  have len: "length fs = length (names_of d)"
    using assms(2) by (metis length_map length_names_of)
  then show "length (swap_named d ns fs) = length (map swap_field fs)"
    by (simp add: swap_named_def)
  fix i
  assume "i < length (swap_named d ns fs)"
  then have i: "i < length (names_of d)" "i < length fs" using len by (simp_all add: swap_named_def)
  let ?n = "names_of d ! i" and ?k = "kind_of (fs ! i)"
  have "?k = kinds_of d ! i" using assms(2) i by (metis nth_map)
  then have "(?n, ?k) \<in> set (zip (names_of d) (kinds_of d))"
    using i by (auto simp: set_zip length_names_of intro!: exI [of _ i])
  then obtain c where "(?n, ?k, c) \<in> set d" using zip_names_kinds by blast
  then have "(case ?k of K8 _ \<Rightarrow> True | _ \<Rightarrow> ?n \<in> set ns)"
    using assms(1) by (auto simp: complete_for_def list_all_iff)
  then have "?n \<in> set ns \<or> swap_field (fs ! i) = fs ! i"
    by (cases "fs ! i") auto
  then show "swap_named d ns fs ! i = map swap_field fs ! i"
    using i by (auto simp: swap_named_def)
qed

lemma swappable_named:
  assumes "complete_for d ns"
  shows "swappable_struct (raw_codec (kinds_of d)) (\<lambda>fs. map kind_of fs = kinds_of d) (swap_named d ns)"
  by unfold_locales (simp add: raw_codec_def swap_named_complete assms)

interpretation m68k_thread_state_regs: swappable_struct
  "raw_codec (kinds_of m68k_thread_state_regs)" "\<lambda>fs. map kind_of fs = kinds_of m68k_thread_state_regs" swap_m68k_thread_state_regs
  unfolding swap_m68k_thread_state_regs_def
  by (rule swappable_named) (simp add: complete_for_def m68k_thread_state_regs_def)

interpretation m68k_thread_state_user_reg: swappable_struct
  "raw_codec (kinds_of m68k_thread_state_user_reg)" "\<lambda>fs. map kind_of fs = kinds_of m68k_thread_state_user_reg" swap_m68k_thread_state_user_reg
  unfolding swap_m68k_thread_state_user_reg_def
  by (rule swappable_named) (simp add: complete_for_def m68k_thread_state_user_reg_def)

interpretation ppc_thread_state_t: swappable_struct
  "raw_codec (kinds_of ppc_thread_state_t)" "\<lambda>fs. map kind_of fs = kinds_of ppc_thread_state_t" swap_ppc_thread_state_t
  unfolding swap_ppc_thread_state_t_def
  by (rule swappable_named) (simp add: complete_for_def ppc_thread_state_t_def)

interpretation ppc_thread_state64_t: swappable_struct
  "raw_codec (kinds_of ppc_thread_state64_t)" "\<lambda>fs. map kind_of fs = kinds_of ppc_thread_state64_t" swap_ppc_thread_state64_t
  unfolding swap_ppc_thread_state64_t_def
  by (rule swappable_named) (simp add: complete_for_def ppc_thread_state64_t_def)

interpretation ppc_float_state_t: swappable_struct
  "raw_codec (kinds_of ppc_float_state_t)" "\<lambda>fs. map kind_of fs = kinds_of ppc_float_state_t" swap_ppc_float_state_t
  unfolding swap_ppc_float_state_t_def
  by (rule swappable_named) (simp add: complete_for_def ppc_float_state_t_def)

interpretation ppc_exception_state_t: swappable_struct
  "raw_codec (kinds_of ppc_exception_state_t)" "\<lambda>fs. map kind_of fs = kinds_of ppc_exception_state_t" swap_ppc_exception_state_t
  unfolding swap_ppc_exception_state_t_def
  by (rule swappable_named) (simp add: complete_for_def ppc_exception_state_t_def)

interpretation m88k_thread_state_grf_t: swappable_struct
  "raw_codec (kinds_of m88k_thread_state_grf_t)" "\<lambda>fs. map kind_of fs = kinds_of m88k_thread_state_grf_t" swap_m88k_thread_state_grf_t
  unfolding swap_m88k_thread_state_grf_t_def
  by (rule swappable_named) (simp add: complete_for_def m88k_thread_state_grf_t_def)

interpretation m88k_thread_state_user_t: swappable_struct
  "raw_codec (kinds_of m88k_thread_state_user_t)" "\<lambda>fs. map kind_of fs = kinds_of m88k_thread_state_user_t" swap_m88k_thread_state_user_t
  unfolding swap_m88k_thread_state_user_t_def
  by (rule swappable_named) (simp add: complete_for_def m88k_thread_state_user_t_def)

interpretation i860_thread_state_regs: swappable_struct
  "raw_codec (kinds_of i860_thread_state_regs)" "\<lambda>fs. map kind_of fs = kinds_of i860_thread_state_regs" swap_i860_thread_state_regs
  unfolding swap_i860_thread_state_regs_def
  by (rule swappable_named) (simp add: complete_for_def i860_thread_state_regs_def)

interpretation i386_thread_state_t: swappable_struct
  "raw_codec (kinds_of i386_thread_state_t)" "\<lambda>fs. map kind_of fs = kinds_of i386_thread_state_t" swap_i386_thread_state
  unfolding swap_i386_thread_state_def
  by (rule swappable_named) (simp add: complete_for_def i386_thread_state_t_def)

interpretation x86_thread_state64_t: swappable_struct
  "raw_codec (kinds_of x86_thread_state64_t)" "\<lambda>fs. map kind_of fs = kinds_of x86_thread_state64_t" swap_x86_thread_state64
  unfolding swap_x86_thread_state64_def
  by (rule swappable_named) (simp add: complete_for_def x86_thread_state64_t_def)

interpretation i386_exception_state_t: swappable_struct
  "raw_codec (kinds_of i386_exception_state_t)" "\<lambda>fs. map kind_of fs = kinds_of i386_exception_state_t" swap_i386_exception_state
  unfolding swap_i386_exception_state_def
  by (rule swappable_named) (simp add: complete_for_def i386_exception_state_t_def)

interpretation x86_exception_state64_t: swappable_struct
  "raw_codec (kinds_of x86_exception_state64_t)" "\<lambda>fs. map kind_of fs = kinds_of x86_exception_state64_t" swap_x86_exception_state64
  unfolding swap_x86_exception_state64_def
  by (rule swappable_named) (simp add: complete_for_def x86_exception_state64_t_def)

interpretation x86_debug_state32_t: swappable_struct
  "raw_codec (kinds_of x86_debug_state32_t)" "\<lambda>fs. map kind_of fs = kinds_of x86_debug_state32_t" swap_x86_debug_state32
  unfolding swap_x86_debug_state32_def
  by (rule swappable_named) (simp add: complete_for_def x86_debug_state32_t_def)

interpretation x86_debug_state64_t: swappable_struct
  "raw_codec (kinds_of x86_debug_state64_t)" "\<lambda>fs. map kind_of fs = kinds_of x86_debug_state64_t" swap_x86_debug_state64
  unfolding swap_x86_debug_state64_def
  by (rule swappable_named) (simp add: complete_for_def x86_debug_state64_t_def)

interpretation x86_state_hdr: swappable_struct
  "raw_codec (kinds_of x86_state_hdr)" "\<lambda>fs. map kind_of fs = kinds_of x86_state_hdr" swap_x86_state_hdr
  unfolding swap_x86_state_hdr_def
  by (rule swappable_named) (simp add: complete_for_def x86_state_hdr_def)

interpretation hp_pa_integer_thread_state: swappable_struct
  "raw_codec (kinds_of hp_pa_integer_thread_state)" "\<lambda>fs. map kind_of fs = kinds_of hp_pa_integer_thread_state" swap_hppa_integer_thread_state
  unfolding swap_hppa_integer_thread_state_def
  by (rule swappable_named) (simp add: complete_for_def hp_pa_integer_thread_state_def)

interpretation hp_pa_fp_thread_state: swappable_struct
  "raw_codec (kinds_of hp_pa_fp_thread_state)" "\<lambda>fs. map kind_of fs = kinds_of hp_pa_fp_thread_state" swap_hppa_fp_thread_state
  unfolding swap_hppa_fp_thread_state_def
  by (rule swappable_named) (simp add: complete_for_def hp_pa_fp_thread_state_def)

text \<open>
  The 18 complete routines: the bytes of the swapped state in one byte order are the bytes of the
  state in the other.  \<open>state_ok d fs\<close> says that \<open>fs\<close> is a state of the declaration \<open>d\<close>.
\<close>

definition state_ok :: "decl \<Rightarrow> field list \<Rightarrow> bool" where
  "state_ok d fs \<longleftrightarrow> map kind_of fs = kinds_of d"

definition complete_states :: "(decl \<times> (field list \<Rightarrow> field list)) list" where
  "complete_states =
     [(m68k_thread_state_regs, swap_m68k_thread_state_regs),
      (m68k_thread_state_user_reg, swap_m68k_thread_state_user_reg),
      (ppc_thread_state_t, swap_ppc_thread_state_t),
      (ppc_thread_state64_t, swap_ppc_thread_state64_t),
      (ppc_float_state_t, swap_ppc_float_state_t),
      (ppc_exception_state_t, swap_ppc_exception_state_t),
      (m88k_thread_state_grf_t, swap_m88k_thread_state_grf_t),
      (m88k_thread_state_user_t, swap_m88k_thread_state_user_t),
      (i860_thread_state_regs, swap_i860_thread_state_regs),
      (i386_thread_state_t, swap_i386_thread_state),
      (x86_thread_state64_t, swap_x86_thread_state64),
      (i386_exception_state_t, swap_i386_exception_state),
      (x86_exception_state64_t, swap_x86_exception_state64),
      (x86_debug_state32_t, swap_x86_debug_state32),
      (x86_debug_state64_t, swap_x86_debug_state64),
      (x86_state_hdr, swap_x86_state_hdr),
      (hp_pa_integer_thread_state, swap_hppa_integer_thread_state),
      (hp_pa_fp_thread_state, swap_hppa_fp_thread_state)]"

lemma complete_states_swap:
  "(d, swap) \<in> set complete_states \<Longrightarrow> state_ok d fs \<Longrightarrow> swap fs = map swap_field fs"
  unfolding complete_states_def state_ok_def
  by (simp only: set_simps insert_iff prod.inject empty_iff simp_thms, elim disjE conjE; hypsubst;
      simp only: swap_m68k_thread_state_regs_def swap_m68k_thread_state_user_reg_def swap_ppc_thread_state_t_def swap_ppc_thread_state64_t_def swap_ppc_float_state_t_def swap_ppc_exception_state_t_def swap_m88k_thread_state_grf_t_def swap_m88k_thread_state_user_t_def swap_i860_thread_state_regs_def swap_i386_thread_state_def swap_x86_thread_state64_def swap_i386_exception_state_def swap_x86_exception_state64_def swap_x86_debug_state32_def swap_x86_debug_state64_def swap_x86_state_hdr_def swap_hppa_integer_thread_state_def swap_hppa_fp_thread_state_def;
      rule swap_named_complete; simp add: complete_for_def m68k_thread_state_regs_def m68k_thread_state_user_reg_def ppc_thread_state_t_def ppc_thread_state64_t_def ppc_float_state_t_def ppc_exception_state_t_def m88k_thread_state_grf_t_def m88k_thread_state_user_t_def i860_thread_state_regs_def i386_thread_state_t_def x86_thread_state64_t_def i386_exception_state_t_def x86_exception_state64_t_def x86_debug_state32_t_def x86_debug_state64_t_def x86_state_hdr_def hp_pa_integer_thread_state_def hp_pa_fp_thread_state_def)

text \<open>
  C40: Every thread state routine that has only plain registers to swap, 18 of them, turns a state
  into the one whose bytes the other byte order reads as the original: the encoding of the swapped
  state in a byte order is the encoding of the state in the other.
\<close>

theorem thread_state_swaps:
  assumes "(d, swap) \<in> set complete_states" and "state_ok d fs"
  shows "encode h (swap fs) = encode (other_byte_sex h) fs \<and> swap (swap fs) = fs \<and>
    state_ok d (swap fs)"
proof -
  have "swap fs = map swap_field fs" using complete_states_swap assms by blast
  moreover from this have "state_ok d (swap fs)" using assms(2) by (simp add: state_ok_def comp_def)
  ultimately show ?thesis
    using complete_states_swap [OF assms(1), of "swap fs"] by (simp add: encode_swap_fields comp_def)
qed

theorem thread_state_swaps_witness:
  "encode BIG_ENDIAN_BYTE_SEX (swap_i386_exception_state [F32 1, F32 2, F32 3]) =
   [1, 0, 0, 0, 2, 0, 0, 0, 3, 0, 0, 0]"
proof -
  have "state_ok i386_exception_state_t [F32 1, F32 2, F32 3]"
    by (simp add: state_ok_def kinds_of_def i386_exception_state_t_def)
  moreover have "(i386_exception_state_t, swap_i386_exception_state) \<in> set complete_states"
    by (simp add: complete_states_def)
  ultimately have "encode BIG_ENDIAN_BYTE_SEX (swap_i386_exception_state [F32 1, F32 2, F32 3]) =
      encode LITTLE_ENDIAN_BYTE_SEX [F32 1, F32 2, F32 3]"
    using thread_state_swaps [of i386_exception_state_t swap_i386_exception_state "[F32 1, F32 2, F32 3]"
        BIG_ENDIAN_BYTE_SEX]
    by (simp add: other_byte_sex_def)
  then show ?thesis by (simp add: order_bytes_def bytes_of_def upt_4 drop_bit_eq_div)
qed

text \<open>
  Two routines are not complete: a field of the struct is never assigned.  The ARM routine leaves
  \<^verbatim>\<open>r16\<close>, the HP-PA frame routine the two trap flags.
\<close>

lemma swap_arm_r16:
  "state_ok arm_thread_state_t fs \<Longrightarrow> swap_arm_thread_state_t fs ! 16 = fs ! 16"
proof -
  assume "state_ok arm_thread_state_t fs"
  then have "length fs = 17"
    by (auto simp: state_ok_def kinds_of_def arm_thread_state_t_def dest: arg_cong [of _ _ length])
  then show ?thesis
    by (simp add: swap_arm_thread_state_t_def swap_named_def names_of_def arm_thread_state_t_def)
qed

lemma swap_hppa_frame_flags:
  "state_ok hp_pa_frame_thread_state fs \<Longrightarrow>
     swap_hppa_frame_thread_state fs ! 9 = fs ! 9 \<and> swap_hppa_frame_thread_state fs ! 10 = fs ! 10"
proof -
  assume "state_ok hp_pa_frame_thread_state fs"
  then have "length fs = 11"
    by (auto simp: state_ok_def kinds_of_def hp_pa_frame_thread_state_def dest: arg_cong [of _ _ length])
  then show ?thesis
    by (simp add: swap_hppa_frame_thread_state_def swap_named_def names_of_def hp_pa_frame_thread_state_def)
qed

section \<open>What copying bit-fields means\<close>

text \<open>A name that stands for one field of a declaration.\<close>

definition names_one :: "bits \<Rightarrow> string \<Rightarrow> bool" where
  "names_one d n \<longleftrightarrow> length (filter (\<lambda>e. fst e = n) d) = 1"

lemma names_one_index:
  assumes "names_one d n"
  shows "\<exists>i < length d. fst (d ! i) = n \<and> (\<forall>j < length d. fst (d ! j) = n \<longrightarrow> j = i)"
proof -
  have "card {i. i < length d \<and> fst (d ! i) = n} = 1"
    using assms by (simp add: names_one_def length_filter_conv_card)
  then obtain i where "{i. i < length d \<and> fst (d ! i) = n} = {i}" by (auto simp: card_1_singleton_iff)
  then show ?thesis by (intro exI [of _ i]) blast
qed

lemma map_of_zip_first:
  assumes "length xs = length ys" and "i < length xs" and "xs ! i = n" and "\<forall>j < i. xs ! j \<noteq> n"
  shows "map_of (zip xs ys) n = Some (ys ! i)"
  using assms
proof (induction xs ys arbitrary: i rule: list_induct2)
  case (Cons x xs y ys)
  show ?case
  proof (cases i)
    case 0
    then show ?thesis using Cons.prems by simp
  next
    case (Suc k)
    have "x \<noteq> n" using Cons.prems(3) Suc by auto
    moreover have "\<forall>j < k. xs ! j \<noteq> n" using Cons.prems(3) Suc by auto
    moreover have "map_of (zip xs ys) n = Some (ys ! k)"
      using Cons.prems(1,2) Suc \<open>\<forall>j < k. xs ! j \<noteq> n\<close> by (intro Cons.IH) simp_all
    ultimately show ?thesis using Suc by simp
  qed
qed simp

lemma get_bits_index:
  assumes "i < length d" and "fst (d ! i) = n" and u: "\<And>j. j < length d \<Longrightarrow> fst (d ! j) = n \<Longrightarrow> j = i"
  shows "get_bits h d w n = unpack h (map snd d) w ! i"
proof -
  have "\<forall>j < i. map fst d ! j \<noteq> n"
  proof (intro allI impI notI)
    fix j
    assume "j < i" and "map fst d ! j = n"
    then show False using u [of j] assms(1) by (simp add: less_not_refl2)
  qed
  then have "map_of (zip (map fst d) (unpack h (map snd d) w)) n = Some (unpack h (map snd d) w ! i)"
    using assms(1,2) by (intro map_of_zip_first) simp_all
  then show ?thesis by (simp add: get_bits_def)
qed

text \<open>The reversed declaration names the fields of the other machine's word.\<close>

lemma get_bits_rev:
  assumes "names_one d n"
  shows "get_bits h (rev d) w n = get_bits (other_byte_sex h) d w n"
proof -
  obtain i where i: "i < length d" "fst (d ! i) = n"
    and u: "\<And>j. j < length d \<Longrightarrow> fst (d ! j) = n \<Longrightarrow> j = i"
    using names_one_index [OF assms] by blast
  have r: "get_bits h (rev d) w n = unpack h (map snd (rev d)) w ! (length d - 1 - i)"
  proof (rule get_bits_index)
    show "length d - 1 - i < length (rev d)" "fst (rev d ! (length d - 1 - i)) = n"
      using i by (auto simp: rev_nth)
  next
    fix j
    assume "j < length (rev d)" and "fst (rev d ! j) = n"
    then have "length d - 1 - j = i" using u [of "length d - 1 - j"] by (simp add: rev_nth)
    then show "j = length d - 1 - i" using \<open>j < length (rev d)\<close> by simp
  qed
  have "unpack (other_byte_sex h) (map snd d) w ! i = rev (unpack h (rev (map snd d)) w) ! i"
    by (simp add: unpack_rev)
  also have "\<dots> = unpack h (map snd (rev d)) w ! (length d - 1 - i)"
    using i by (simp add: rev_nth rev_map)
  finally show ?thesis using r get_bits_index [OF i u] by simp
qed

lemma unpack_nth_take_bit:
  "i < length ns \<Longrightarrow> take_bit (ns ! i) (unpack h ns w ! i) = unpack h ns w ! i"
proof -
  assume i: "i < length ns"
  have "map (\<lambda>(n, v). take_bit n v) (zip ns (unpack h ns w)) ! i = unpack h ns w ! i"
    by (simp only: take_bit_unpack)
  then show ?thesis using i by simp
qed

text \<open>A field assigned by \<open>copy_bits\<close> has the value of its source, any other the value it had.\<close>

lemma get_copy_bits:
  assumes "names_one dd n" and "sum_list (map snd dd) \<le> 32" and "map_of pairs n = Some s"
    and "\<And>i. i < length dd \<Longrightarrow> fst (dd ! i) = n \<Longrightarrow> take_bit (snd (dd ! i)) (get_bits h sd sw s) = get_bits h sd sw s"
  shows "get_bits h dd (copy_bits h sd sw dd dw pairs) n = get_bits h sd sw s"
proof -
  obtain i where i: "i < length dd" "fst (dd ! i) = n"
    and u: "\<And>j. j < length dd \<Longrightarrow> fst (dd ! j) = n \<Longrightarrow> j = i"
    using names_one_index [OF assms(1)] by blast
  define vs where "vs = map2 (\<lambda>n old. case map_of pairs n of Some s \<Rightarrow> get_bits h sd sw s | None \<Rightarrow> old)
      (map fst dd) (unpack h (map snd dd) dw)"
  have len: "length vs = length dd" by (simp add: vs_def)
  have "unpack h (map snd dd) (copy_bits h sd sw dd dw pairs) =
        map (\<lambda>(n, v). take_bit n v) (zip (map snd dd) vs)"
    using unpack_pack [of "zip (map snd dd) vs" h] assms(2) len by (simp add: copy_bits_def vs_def)
  then have "unpack h (map snd dd) (copy_bits h sd sw dd dw pairs) ! i = take_bit (snd (dd ! i)) (vs ! i)"
    using i len by simp
  also have "vs ! i = get_bits h sd sw s" using i assms(3) by (simp add: vs_def)
  finally show ?thesis using get_bits_index [OF i u] assms(4) i by simp
qed

lemma map_of_same: "n \<in> set ns \<Longrightarrow> map_of (same ns) n = Some n"
  by (induction ns) auto

lemma get_bits_fits:
  assumes "names_one d n" and "i < length d" and "fst (d ! i) = n"
  shows "take_bit (snd (d ! i)) (get_bits h d w n) = get_bits h d w n"
proof -
  obtain k where k: "k < length d" "fst (d ! k) = n"
    and u: "\<And>j. j < length d \<Longrightarrow> fst (d ! j) = n \<Longrightarrow> j = k"
    using names_one_index [OF assms(1)] by blast
  then have "i = k" using assms by blast
  then show ?thesis
    using get_bits_index [OF k u] unpack_nth_take_bit [of k "map snd d" h w] k by simp
qed

lemma names_one_rev: "names_one (rev d) n = names_one d n"
  by (simp add: names_one_def rev_filter [symmetric])

lemma get_bits_to_host:
  assumes "names_one d n" and "n \<in> set ns" and "sum_list (map snd d) \<le> 32"
  shows "get_bits h d (bits_to_host h (rev d) d (same ns) w) n = get_bits (other_byte_sex h) d (SWAP_INT w) n"
proof -
  have "get_bits h d (bits_to_host h (rev d) d (same ns) w) n = get_bits h (rev d) (SWAP_INT w) n"
    unfolding bits_to_host_def using assms
    by (intro get_copy_bits) (auto simp: map_of_same get_bits_rev get_bits_fits)
  then show ?thesis using assms by (simp add: get_bits_rev)
qed

lemma get_bits_from_host:
  assumes "names_one d n" and "n \<in> set ns" and "sum_list (map snd d) \<le> 32"
  shows "get_bits (other_byte_sex h) d (SWAP_INT (bits_from_host h (rev d) d (same ns) junk w)) n = get_bits h d w n"
proof -
  have fits: "take_bit (snd (rev d ! i)) (get_bits h d w n) = get_bits h d w n"
    if "i < length (rev d)" and "fst (rev d ! i) = n" for i
    using get_bits_fits [OF assms(1), of "length d - 1 - i" h w] that by (simp add: rev_nth)
  have "get_bits h (rev d) (copy_bits h d w (rev d) junk (same ns)) n = get_bits h d w n"
    using assms fits
    by (intro get_copy_bits) (auto simp: map_of_same names_one_rev rev_map [symmetric])
  then show ?thesis using assms by (simp add: bits_from_host_def get_bits_rev [symmetric])
qed

text \<open>The words of the thread states whose routines go field by field.\<close>

definition status_words :: "(bits \<times> bits \<times> string list) list" where
  "status_words =
     [(m88k_fpsr, swapped_m88k_fpsr, fpsr_names), (m88k_fpcr, swapped_m88k_fpcr, fpcr_names),
      (m88110_bp_ctrl, swapped_m88110_bp_ctrl, bp_ctrl_names),
      (m88110_fp_trap_status, swapped_m88110_fp_trap_status, fp_trap_status_names),
      (f_status, swapped_fsr, fsr_names)]"

lemma status_words_ok:
  "(d, sd, ns) \<in> set status_words \<Longrightarrow>
     sd = rev d \<and> sum_list (map snd d) = 32 \<and> list_all (names_one d) ns"
  unfolding status_words_def
  by (simp only: set_simps insert_iff prod.inject empty_iff simp_thms, elim disjE conjE; hypsubst;
      simp add: names_one_def m88k_fpsr_def swapped_m88k_fpsr_def fpsr_names_def m88k_fpcr_def
        swapped_m88k_fpcr_def fpcr_names_def m88110_bp_ctrl_def swapped_m88110_bp_ctrl_def
        bp_ctrl_names_def m88110_fp_trap_status_def swapped_m88110_fp_trap_status_def
        fp_trap_status_names_def f_status_def swapped_fsr_def fsr_names_def)

text \<open>
  In the status words of the 88000 and SPARC floating point states, every bit-field the swap
  routine names reads after a swap to the host as the other machine read it, and after a swap from
  the host the other machine reads what the host read, whatever the unassigned bits hold.
\<close>

theorem status_word_swaps:
  assumes "(d, swapped_d, ns) \<in> set status_words" and "n \<in> set ns"
  shows "get_bits h d (bits_to_host h swapped_d d (same ns) w) n =
           get_bits (other_byte_sex h) d (SWAP_INT w) n \<and>
         get_bits (other_byte_sex h) d (SWAP_INT (bits_from_host h swapped_d d (same ns) junk w)) n =
           get_bits h d w n"
proof -
  have "swapped_d = rev d" and "sum_list (map snd d) \<le> 32" and "names_one d n"
    using status_words_ok [OF assms(1)] assms(2) by (auto simp: list_all_iff)
  then show ?thesis using assms(2) by (simp only: get_bits_to_host get_bits_from_host simp_thms)
qed

theorem status_word_swaps_witness:
  "get_bits LITTLE_ENDIAN_BYTE_SEX f_status
     (bits_to_host LITTLE_ENDIAN_BYTE_SEX swapped_fsr f_status (same fsr_names) 0x41) ''rd'' =
   get_bits BIG_ENDIAN_BYTE_SEX f_status (SWAP_INT 0x41) ''rd''"
  using status_word_swaps [of f_status swapped_fsr fsr_names "''rd''" LITTLE_ENDIAN_BYTE_SEX "0x41"]
  by (simp add: status_words_def fsr_names_def other_byte_sex_def)

end
