(* ===== verification/OFile.thy ===== *)
theory OFile
  imports ThreadState Arch
begin

text \<open>
  The state of \<^verbatim>\<open>struct ofile\<close> (\<^verbatim>\<open>include/stuff/ofile.h\<close>) that the checks of
  \<^verbatim>\<open>libstuff/ofile.c\<close> use, the outcome of a check, and the checks of fat files:
  \<^verbatim>\<open>check_fat\<close> and \<^verbatim>\<open>check_fat_object_in_archive\<close>.
\<close>

section \<open>Outcomes\<close>

text \<open>
  A check succeeds, reports an error, or reads or writes outside the memory it was given.  The
  code has no such third outcome: there it is undefined behaviour.
\<close>

datatype ('e, 'a) check = CHECK_GOOD 'a | CHECK_BAD 'e | FAULT

fun and_then :: "('e, 'a) check \<Rightarrow> ('a \<Rightarrow> ('e, 'b) check) \<Rightarrow> ('e, 'b) check" where
  "and_then (CHECK_GOOD x) f = f x"
| "and_then (CHECK_BAD e) f = CHECK_BAD e"
| "and_then FAULT f = FAULT"

definition or_fault :: "'a option \<Rightarrow> ('e, 'a) check" where
  "or_fault x = (case x of Some y \<Rightarrow> CHECK_GOOD y | None \<Rightarrow> FAULT)"

text \<open>What a successful check gives; examples compute it.\<close>

fun good :: "('e, 'a) check \<Rightarrow> 'a" where
  "good (CHECK_GOOD x) = x"

fun is_good :: "('e, 'a) check \<Rightarrow> bool" where
  "is_good (CHECK_GOOD x) \<longleftrightarrow> True"
| "is_good _ \<longleftrightarrow> False"

lemma is_goodD: "is_good c \<Longrightarrow> c = CHECK_GOOD (good c)"
  and is_good_pairD: "is_good d \<Longrightarrow> d = CHECK_GOOD (fst (good d), snd (good d))"
  by (cases c; simp) (cases d; simp)

text \<open>A run of tests \<^verbatim>\<open>if(c){ error(e); return(CHECK_BAD); }\<close>.\<close>

fun first_error :: "(bool \<times> 'e) list \<Rightarrow> 'e option" where
  "first_error [] = None"
| "first_error ((c, e) # ts) = (if c then Some e else first_error ts)"

lemma first_error_None_iff: "first_error ts = None \<longleftrightarrow> (\<forall>(c, e) \<in> set ts. \<not> c)"
  by (induction ts rule: first_error.induct) auto

lemma and_then_GOOD_iff:
  "and_then r f = CHECK_GOOD y \<longleftrightarrow> (\<exists>x. r = CHECK_GOOD x \<and> f x = CHECK_GOOD y)"
  by (cases r) auto

lemma or_fault_GOOD_iff [simp]: "or_fault x = CHECK_GOOD y \<longleftrightarrow> x = Some y"
  by (auto simp: or_fault_def split: option.splits)

lemma or_fault_not_BAD [simp]: "or_fault x \<noteq> CHECK_BAD e"
  by (auto simp: or_fault_def split: option.splits)

section \<open>The file\<close>

datatype ofile_type = OFILE_UNKNOWN | OFILE_FAT | OFILE_ARCHIVE | OFILE_Mach_O

text \<open>
  \<open>file_addr\<close> is the mapped file and \<open>object_addr\<close> the memory from the start of the current object
  to the end of the mapping; \<open>mh32\<close> says that \<^verbatim>\<open>ofile->mh\<close> is not null, so the object is a 32-bit
  one.  The array \<open>fat_archs\<close> is a list.
\<close>

record ofile =
  file_addr :: mem
  file_size :: u32
  file_type :: ofile_type
  fat_header_of :: fat_header
  fat_archs :: "fat_arch list"
  narch :: nat
  member_offset :: u32
  member_size :: u32
  object_addr :: mem
  object_size :: u32
  object_byte_sex :: byte_sex
  mh32 :: bool
  headers_swapped :: bool
  mh_cputype_of :: u32
  mh_cpusubtype_of :: u32
  mh_filetype_of :: u32

section \<open>Fat files\<close>

abbreviation MAXSECTALIGN :: u32 where "MAXSECTALIGN \<equiv> 15"

datatype fat_error =
  Not_the_file_type
| Zero_architectures
| Arch_past_end u32 u32
| Arch_align_too_large u32 u32 u32
| Arch_not_aligned u32 u32 u32 u32
| Arch_too_small u32 u32
| Arch_bad_magic u32 u32
| Two_of_the_same u32 u32

text \<open>The tests on one slice of a fat file whose contents are \<open>size\<close> bytes.\<close>

definition fat_arch_tests :: "u32 \<Rightarrow> fat_arch \<Rightarrow> (bool \<times> fat_error) list" where
  "fat_arch_tests fsize a =
     (let ct = fa_cputype a; st = subtype_of (fa_cpusubtype a)
      in [(fa_offset a + fa_size a > fsize, Arch_past_end ct st),
          (fa_align a > MAXSECTALIGN, Arch_align_too_large (fa_align a) ct st),
          (fa_offset a mod push_bit (unat (fa_align a)) 1 \<noteq> 0,
             Arch_not_aligned (fa_offset a) ct st (fa_align a))])"

text \<open>The loop over the first \<open>n\<close> slices.\<close>

fun check_archs :: "(fat_arch \<Rightarrow> (fat_error, unit) check) \<Rightarrow> fat_arch list \<Rightarrow> nat \<Rightarrow> (fat_error, unit) check" where
  "check_archs P as 0 = CHECK_GOOD ()"
| "check_archs P [] (Suc n) = FAULT"
| "check_archs P (a # as) (Suc n) = and_then (P a) (\<lambda>_. check_archs P as n)"

text \<open>The loop that looks for two slices of the same architecture.\<close>

definition same_arch :: "fat_arch \<Rightarrow> fat_arch \<Rightarrow> bool" where
  "same_arch a b \<longleftrightarrow>
     fa_cputype a = fa_cputype b \<and> subtype_of (fa_cpusubtype a) = subtype_of (fa_cpusubtype b)"

definition check_not_same :: "fat_arch \<Rightarrow> fat_arch \<Rightarrow> (fat_error, unit) check" where
  "check_not_same a b =
     (if same_arch a b then CHECK_BAD (Two_of_the_same (fa_cputype a) (subtype_of (fa_cpusubtype a)))
      else CHECK_GOOD ())"

fun check_distinct :: "fat_arch list \<Rightarrow> nat \<Rightarrow> (fat_error, unit) check" where
  "check_distinct as 0 = CHECK_GOOD ()"
| "check_distinct [] (Suc n) = FAULT"
| "check_distinct (a # as) (Suc n) =
     and_then (check_archs (check_not_same a) as n) (\<lambda>_. check_distinct as n)"

definition verdict_of :: "(bool \<times> 'e) list \<Rightarrow> ('e, unit) check" where
  "verdict_of ts = (case first_error ts of Some e \<Rightarrow> CHECK_BAD e | None \<Rightarrow> CHECK_GOOD ())"

definition check_fat :: "ofile \<Rightarrow> (fat_error, unit) check" where
  "check_fat ofile =
     (if file_type ofile \<noteq> OFILE_FAT then CHECK_BAD Not_the_file_type
      else if fh_nfat_arch (fat_header_of ofile) = 0 then CHECK_BAD Zero_architectures
      else and_then
        (check_archs (\<lambda>a. verdict_of (fat_arch_tests (file_size ofile) a)) (fat_archs ofile)
           (unat (fh_nfat_arch (fat_header_of ofile))))
        (\<lambda>_. check_distinct (fat_archs ofile) (unat (fh_nfat_arch (fat_header_of ofile)))))"

text \<open>
  A fat file that is a member of an archive: the same, against the size of the member, and every
  slice must start with the magic number of an object file, read from the mapped file.
\<close>

definition check_object_magic :: "byte_sex \<Rightarrow> ofile \<Rightarrow> fat_arch \<Rightarrow> (fat_error, unit) check" where
  "check_object_magic h ofile a =
     (let ct = fa_cputype a; st = subtype_of (fa_cpusubtype a)
      in if fa_size a < 28 then CHECK_BAD (Arch_too_small ct st)
         else case load word_codec h (file_addr ofile) (unat (member_offset ofile + fa_offset a)) of
           None \<Rightarrow> FAULT
         | Some magic \<Rightarrow>
             if magic = MH_MAGIC \<or> magic = SWAP_INT MH_MAGIC then CHECK_GOOD ()
             else if magic = MH_MAGIC_64 \<or> magic = SWAP_INT MH_MAGIC_64 then CHECK_GOOD ()
             else CHECK_BAD (Arch_bad_magic ct st))"

definition check_fat_object_in_archive :: "byte_sex \<Rightarrow> ofile \<Rightarrow> (fat_error, unit) check" where
  "check_fat_object_in_archive h ofile =
     (if file_type ofile \<noteq> OFILE_ARCHIVE then CHECK_BAD Not_the_file_type
      else if fh_nfat_arch (fat_header_of ofile) = 0 then CHECK_BAD Zero_architectures
      else and_then
        (check_archs
           (\<lambda>a. and_then (verdict_of (fat_arch_tests (member_size ofile) a))
                  (\<lambda>_. check_object_magic h ofile a))
           (fat_archs ofile) (unat (fh_nfat_arch (fat_header_of ofile))))
        (\<lambda>_. check_distinct (fat_archs ofile) (unat (fh_nfat_arch (fat_header_of ofile)))))"

section \<open>What an accepted fat file is\<close>

lemma verdict_GOOD_iff: "verdict_of ts = CHECK_GOOD () \<longleftrightarrow> (\<forall>(c, e) \<in> set ts. \<not> c)"
  unfolding verdict_of_def first_error_None_iff [symmetric] by (auto split: option.splits)

lemma check_archs_GOOD_iff:
  "check_archs P as n = CHECK_GOOD () \<longleftrightarrow>
     n \<le> length as \<and> (\<forall>a \<in> set (take n as). P a = CHECK_GOOD ())"
  by (induction P as n rule: check_archs.induct) (auto simp: and_then_GOOD_iff)

text \<open>No two of the first \<open>n\<close> slices have the same architecture.\<close>

fun all_different :: "fat_arch list \<Rightarrow> bool" where
  "all_different [] = True"
| "all_different (a # as) \<longleftrightarrow> (\<forall>b \<in> set as. \<not> same_arch a b) \<and> all_different as"

lemma check_distinct_GOOD_iff:
  "check_distinct as n = CHECK_GOOD () \<longleftrightarrow> n \<le> length as \<and> all_different (take n as)"
  by (induction as n rule: check_distinct.induct)
    (auto simp: and_then_GOOD_iff check_archs_GOOD_iff check_not_same_def)

lemma all_different_iff:
  "all_different as \<longleftrightarrow> (\<forall>i < length as. \<forall>j < length as. i \<noteq> j \<longrightarrow> \<not> same_arch (as ! i) (as ! j))"
proof (induction as)
  case (Cons a as)
  have sym: "same_arch x a = same_arch a x" for x by (auto simp: same_arch_def)
  show ?case
    using Cons.IH by (auto simp: All_less_Suc2 all_set_conv_all_nth sym)
qed simp

text \<open>The tests in the numbers of the file, with the wrap of the 32-bit sum written out.\<close>

definition arch_in_file :: "nat \<Rightarrow> fat_arch \<Rightarrow> bool" where
  "arch_in_file fsize a \<longleftrightarrow>
     (unat (fa_offset a) + unat (fa_size a)) mod 2 ^ 32 \<le> fsize \<and>
     fa_align a \<le> MAXSECTALIGN \<and> 2 ^ unat (fa_align a) dvd unat (fa_offset a)"

lemma align_power: "a \<le> MAXSECTALIGN \<Longrightarrow> unat (push_bit (unat a) 1 :: u32) = 2 ^ unat a"
proof -
  assume "a \<le> MAXSECTALIGN"
  then have a: "unat a \<le> 15" by (simp add: word_le_nat_alt)
  then have "(2::nat) ^ unat a \<le> 2 ^ 15" by (rule power_increasing) simp
  then show ?thesis using a by (subst unsigned_push_bit_eq) (simp add: take_bit_nat_eq_self)
qed

lemma fat_arch_tests_iff:
  "(\<forall>(c, e) \<in> set (fat_arch_tests fsize a). \<not> c) \<longleftrightarrow> arch_in_file (unat fsize) a"
proof -
  let ?aligned = "2 ^ unat (fa_align a) dvd unat (fa_offset a)"
  have aligned: "(fa_offset a mod push_bit (unat (fa_align a)) 1 \<noteq> 0) = (\<not> ?aligned)"
    if "fa_align a \<le> MAXSECTALIGN"
    by (simp only: unat_eq_0 [symmetric] unat_mod align_power [OF that] mod_eq_0_iff_dvd)
  have sum: "fa_offset a + fa_size a > fsize \<longleftrightarrow>
      \<not> (unat (fa_offset a) + unat (fa_size a)) mod 2 ^ 32 \<le> unat fsize"
    by (simp add: word_less_nat_alt unat_word_ariths not_le)
  have tests: "(\<forall>(c, e) \<in> set (fat_arch_tests fsize a). \<not> c) \<longleftrightarrow>
      \<not> fa_offset a + fa_size a > fsize \<and> \<not> fa_align a > MAXSECTALIGN \<and>
      \<not> (fa_offset a mod push_bit (unat (fa_align a)) 1 \<noteq> 0)"
    by (simp only: fat_arch_tests_def Let_def list.set ball_simps case_prod_conv simp_thms)
  show ?thesis
  proof (cases "fa_align a \<le> MAXSECTALIGN")
    case True
    then have "\<not> fa_align a > MAXSECTALIGN" by (simp only: not_less)
    then show ?thesis
      unfolding tests sum aligned [OF True] arch_in_file_def using True by (simp only: simp_thms)
  next
    case False
    then have "fa_align a > MAXSECTALIGN" by (simp only: not_le)
    then show ?thesis
      unfolding tests arch_in_file_def using False by (simp only: simp_thms)
  qed
qed

text \<open>
  C7: \<^verbatim>\<open>check_fat\<close> accepts a file exactly when it is a fat file with at least one slice, all of
  them present, each of which is aligned to its power of two of at most \<^verbatim>\<open>2^15\<close> and ends, by its
  32-bit sum, within the file, and no two of which have the same architecture.
\<close>

theorem check_fat_accepts:
  "check_fat ofile = CHECK_GOOD () \<longleftrightarrow>
     (let n = unat (fh_nfat_arch (fat_header_of ofile)); as = take n (fat_archs ofile)
      in file_type ofile = OFILE_FAT \<and> 0 < n \<and> n \<le> length (fat_archs ofile) \<and>
         list_all (arch_in_file (unat (file_size ofile))) as \<and> all_different as)"
  by (auto simp: check_fat_def and_then_GOOD_iff check_archs_GOOD_iff check_distinct_GOOD_iff
      verdict_GOOD_iff fat_arch_tests_iff list_all_iff unat_gt_0 Let_def)

text \<open>
  When no slice's offset plus size reaches \<^verbatim>\<open>2^32\<close>, an accepted fat file has every slice
  inside the file, on its alignment, and two different slices have different architectures.
\<close>

theorem check_fat_sound:
  assumes "check_fat ofile = CHECK_GOOD ()"
    and "i < unat (fh_nfat_arch (fat_header_of ofile))" and "j < unat (fh_nfat_arch (fat_header_of ofile))"
    and "unat (fa_offset (fat_archs ofile ! i)) + unat (fa_size (fat_archs ofile ! i)) < 2 ^ 32"
  shows "unat (fa_offset (fat_archs ofile ! i)) + unat (fa_size (fat_archs ofile ! i)) \<le> unat (file_size ofile) \<and>
    2 ^ unat (fa_align (fat_archs ofile ! i)) dvd unat (fa_offset (fat_archs ofile ! i)) \<and>
    (same_arch (fat_archs ofile ! i) (fat_archs ofile ! j) \<longrightarrow> i = j)"
proof -
  define n where "n = unat (fh_nfat_arch (fat_header_of ofile))"
  have "n \<le> length (fat_archs ofile)"
    and in_file: "list_all (arch_in_file (unat (file_size ofile))) (take n (fat_archs ofile))"
    and diff: "all_different (take n (fat_archs ofile))"
    using assms(1)
    by (auto simp: check_fat_def and_then_GOOD_iff check_archs_GOOD_iff check_distinct_GOOD_iff
        verdict_GOOD_iff fat_arch_tests_iff list_all_iff n_def split: if_splits)
  then have "arch_in_file (unat (file_size ofile)) (fat_archs ofile ! i)"
    using assms(2) by (auto simp: list_all_length n_def)
  moreover have "same_arch (fat_archs ofile ! i) (fat_archs ofile ! j) \<Longrightarrow> i = j"
  proof -
    have "\<forall>i < n. \<forall>j < n. i \<noteq> j \<longrightarrow> \<not> same_arch (fat_archs ofile ! i) (fat_archs ofile ! j)"
      using diff \<open>n \<le> length (fat_archs ofile)\<close> by (simp add: all_different_iff)
    then show "same_arch (fat_archs ofile ! i) (fat_archs ofile ! j) \<Longrightarrow> i = j"
      using assms(2,3) by (auto simp: n_def)
  qed
  ultimately show ?thesis using assms(4) by (simp add: arch_in_file_def)
qed

text \<open>A file of two slices, and one whose second slice wraps.\<close>

definition fat_file :: "fat_arch list \<Rightarrow> u32 \<Rightarrow> ofile" where
  "fat_file archs fsize =
     \<lparr>file_addr = [], file_size = fsize, file_type = OFILE_FAT,
      fat_header_of = \<lparr>fh_magic = FAT_MAGIC, fh_nfat_arch = of_nat (length archs)\<rparr>,
      fat_archs = archs, narch = 0, member_offset = 0, member_size = 0, object_addr = [],
      object_size = 0, object_byte_sex = UNKNOWN_BYTE_SEX, mh32 = True, headers_swapped = False,
      mh_cputype_of = 0, mh_cpusubtype_of = 0, mh_filetype_of = 0\<rparr>"

definition two_slices :: "u32 \<Rightarrow> fat_arch list" where
  "two_slices off =
     [\<lparr>fa_cputype = CPU_TYPE_I386, fa_cpusubtype = CPU_SUBTYPE_I386_ALL, fa_offset = 0x1000,
       fa_size = 0x200, fa_align = 12\<rparr>,
      \<lparr>fa_cputype = CPU_TYPE_POWERPC, fa_cpusubtype = CPU_SUBTYPE_POWERPC_ALL, fa_offset = off,
       fa_size = 0x2000, fa_align = 12\<rparr>]"

lemma two_slices_accepted:
  "check_fat (fat_file (two_slices 0x2000) 0x4000) = CHECK_GOOD ()"
  by (simp add: check_fat_accepts fat_file_def two_slices_def arch_in_file_def same_arch_def dvd_eq_mod_eq_0)

theorem check_fat_sound_witness:
  "unat (fa_offset (two_slices 0x2000 ! 1)) + unat (fa_size (two_slices 0x2000 ! 1)) \<le> 0x4000"
  using check_fat_sound [OF two_slices_accepted, of 1 0]
  by (simp add: fat_file_def two_slices_def)

text \<open>
  The 32-bit sum of the test wraps: \<^verbatim>\<open>check_fat\<close> accepts a file of four pages with a slice
  that starts one page below \<^verbatim>\<open>2^32\<close>.
\<close>

theorem check_fat_wraps:
  "check_fat (fat_file (two_slices 0xfffff000) 0x4000) = CHECK_GOOD () \<and>
   unat (fa_offset (two_slices 0xfffff000 ! 1)) > 0x4000"
  by (simp add: check_fat_accepts fat_file_def two_slices_def arch_in_file_def same_arch_def dvd_eq_mod_eq_0)

end
