(* ===== verification/CheckThreads.thy ===== *)
theory CheckThreads
  imports OFile
begin

text \<open>
  What the cases of \<^verbatim>\<open>check_Mach_O\<close> (\<^verbatim>\<open>libstuff/ofile.c\<close>) share: its parameters, its error reports,
  reading a struct that is swapped in place first, and the check of the thread commands.
\<close>

section \<open>Parameters and errors\<close>

text \<open>
  The variables of \<^verbatim>\<open>check_Mach_O\<close> that its load command loop only reads.  Offsets are relative
  to the start of the object; \<open>load_commands\<close> is where the commands start.
\<close>

record check_params =
  cp_host :: byte_sex
  cp_swapped :: bool
  cp_size :: u32
  load_commands :: nat
  sizeofcmds :: u32
  cp_cputype :: u32
  load_command_multiple :: u32
  sizeof_nlist :: u32
  sizeof_dylib_module :: u32

text \<open>
  The reports of \<^verbatim>\<open>Mach_O_error\<close>.  The strings name the load command and the field the message
  names; a number is the index of the load command, the section or the flavor.
\<close>

datatype mach_o_error =
  Commands_past_end
| Fat_cputype_mismatch nat
| Cmdsize_not_multiple nat u32
| Command_past_end nat
| Cmdsize_zero nat
| Inconsistent_cmdsize string nat
| Incorrect_cmdsize string nat
| Too_small_cmdsize string nat
| More_than_one string
| Field_past_end string string nat
| Section_past_end string string nat nat
| Not_a_multiple string string nat
| Count_wrong string nat string nat
| Unknown_flavor nat string nat
| Unknown_cputype string nat
| Unknown_command nat
| Dysymtab_without_symtab
| Symbols_past_end string
| Init_module_past_end string
| Hints_differ
| Inconsistent_sizeofcmds

text \<open>An error leaves the memory as far as it has been swapped.\<close>

type_synonym 'a mo_check = "(mach_o_error \<times> mem, 'a) check"

definition tests :: "mem \<Rightarrow> (bool \<times> mach_o_error) list \<Rightarrow> unit mo_check" where
  "tests m ts = (case first_error ts of Some e \<Rightarrow> CHECK_BAD (e, m) | None \<Rightarrow> CHECK_GOOD ())"

lemma tests_GOOD_iff [simp]: "tests m ts = CHECK_GOOD u \<longleftrightarrow> (\<forall>(c, e) \<in> set ts. \<not> c)"
  unfolding tests_def first_error_None_iff [symmetric] by (auto split: option.splits)

section \<open>Reading a struct\<close>

text \<open>
  \<^verbatim>\<open>p = (struct X *)lc; if(swapped) swap_X(p, host_byte_sex);\<close> and then the struct as the host
  reads it.  A struct that does not lie in memory is a \<open>FAULT\<close>.
\<close>

definition read_struct ::
  "'a codec \<Rightarrow> ('a \<Rightarrow> 'a) \<Rightarrow> bool \<Rightarrow> byte_sex \<Rightarrow> mem \<Rightarrow> nat \<Rightarrow> (mem \<times> 'a) mo_check" where
  "read_struct C swap swapped h m off =
     or_fault (case (if swapped then swap_at C swap h m off else Some m) of
        None \<Rightarrow> None
      | Some m' \<Rightarrow> map_option (\<lambda>x. (m', x)) (load C h m' off))"

definition take_struct ::
  "'a codec \<Rightarrow> ('a \<Rightarrow> 'a) \<Rightarrow> check_params \<Rightarrow> mem \<Rightarrow> nat \<Rightarrow> (mem \<times> 'a) mo_check" where
  "take_struct C swap cp m off = read_struct C swap (cp_swapped cp) (cp_host cp) m off"

definition take_word :: "check_params \<Rightarrow> mem \<Rightarrow> nat \<Rightarrow> (mem \<times> u32) mo_check" where
  "take_word = take_struct word_codec SWAP_INT"

section \<open>Thread commands\<close>

text \<open>
  What is known of a flavor: the declaration of its state, the name of its count in the error
  report, and its swap routine; or, for the i860, that the state is passed over.
\<close>

type_synonym thread_swap = "byte_sex \<Rightarrow> byte_sex \<Rightarrow> (nat \<Rightarrow> u32) \<Rightarrow> field list \<Rightarrow> field list"

datatype flavor_rule = Checked string decl thread_swap | Skipped

definition plain :: "(field list \<Rightarrow> field list) \<Rightarrow> thread_swap" where
  "plain f = (\<lambda>h target junk fs. f fs)"

definition state_count :: "decl \<Rightarrow> u32" where
  "state_count d = of_nat (decl_size d div 4)"

text \<open>The flavors known for each \<^verbatim>\<open>cputype\<close>, the cases of the ten inner switches.\<close>

definition MC680x0_flavors :: "(u32 \<times> flavor_rule) list" where
  "MC680x0_flavors =
     [(1, Checked ''M68K_THREAD_STATE_REGS'' m68k_thread_state_regs (plain swap_m68k_thread_state_regs)),
      (2, Checked ''M68K_THREAD_STATE_68882'' m68k_thread_state_68882 (plain swap_m68k_thread_state_68882)),
      (3, Checked ''M68K_THREAD_STATE_USER_REG'' m68k_thread_state_user_reg
      (plain swap_m68k_thread_state_user_reg))]"

definition POWERPC_flavors :: "(u32 \<times> flavor_rule) list" where
  "POWERPC_flavors =
     [(1, Checked ''PPC_THREAD_STATE'' ppc_thread_state_t (plain swap_ppc_thread_state_t))]"

definition POWERPC64_flavors :: "(u32 \<times> flavor_rule) list" where
  "POWERPC64_flavors =
     [(5, Checked ''PPC_THREAD_STATE64'' ppc_thread_state64_t (plain swap_ppc_thread_state64_t))]"

definition MC88000_flavors :: "(u32 \<times> flavor_rule) list" where
  "MC88000_flavors =
     [(1, Checked ''M88K_THREAD_STATE_GRF'' m88k_thread_state_grf_t (plain swap_m88k_thread_state_grf_t)),
      (2, Checked ''M88K_THREAD_STATE_XRF'' m88k_thread_state_xrf_t swap_m88k_thread_state_xrf_t),
      (3, Checked ''M88K_THREAD_STATE_USER'' m88k_thread_state_user_t (plain swap_m88k_thread_state_user_t)),
      (4, Checked ''M88110_THREAD_STATE_IMPL'' m88110_thread_state_impl_t swap_m88110_thread_state_impl_t)]"

definition I860_flavors :: "(u32 \<times> flavor_rule) list" where
  "I860_flavors =
     [(4, Skipped)]"

definition I386_flavors :: "(u32 \<times> flavor_rule) list" where
  "I386_flavors =
     [(1, Checked ''i386_THREAD_STATE'' i386_thread_state_t (plain swap_i386_thread_state)),
      (0xffffffff, Checked ''i386_THREAD_STATE'' i386_thread_state_t (plain swap_i386_thread_state)),
      (2, Checked ''i386_FLOAT_STATE'' i386_float_state swap_i386_float_state),
      (3, Checked ''I386_EXCEPTION_STATE'' i386_exception_state_t (plain swap_i386_exception_state))]"

definition X86_64_flavors :: "(u32 \<times> flavor_rule) list" where
  "X86_64_flavors =
     [(4, Checked ''x86_THREAD_STATE64'' x86_thread_state64_t (plain swap_x86_thread_state64))]"

definition HPPA_flavors :: "(u32 \<times> flavor_rule) list" where
  "HPPA_flavors =
     [(1, Checked ''HPPA_INTEGER_THREAD_STATE'' hp_pa_integer_thread_state
      (plain swap_hppa_integer_thread_state)),
      (2, Checked ''HPPA_FRAME_THREAD_STATE'' hp_pa_frame_thread_state (plain swap_hppa_frame_thread_state)),
      (3, Checked ''HPPA_FP_THREAD_STATE'' hp_pa_fp_thread_state (plain swap_hppa_fp_thread_state))]"

definition SPARC_flavors :: "(u32 \<times> flavor_rule) list" where
  "SPARC_flavors =
     [(1, Checked ''SPARC_THREAD_STATE_REGS'' sparc_thread_state_regs swap_sparc_thread_state_regs),
      (2, Checked ''SPARC_THREAD_STATE_FPU'' sparc_thread_state_fpu swap_sparc_thread_state_fpu)]"

definition ARM_flavors :: "(u32 \<times> flavor_rule) list" where
  "ARM_flavors =
     [(1, Checked ''ARM_THREAD_STATE'' arm_thread_state_t (plain swap_arm_thread_state_t))]"

text \<open>The test on the \<^verbatim>\<open>cputype\<close>; \<open>None\<close> is one it does not know.\<close>

definition check_flavors :: "u32 \<Rightarrow> (u32 \<times> flavor_rule) list option" where
  "check_flavors cputype =
     (if cputype = CPU_TYPE_MC680x0 then Some MC680x0_flavors
      else if cputype = CPU_TYPE_POWERPC \<or> cputype = CPU_TYPE_VEO then Some POWERPC_flavors
      else if cputype = CPU_TYPE_POWERPC64 then Some POWERPC64_flavors
      else if cputype = CPU_TYPE_MC88000 then Some MC88000_flavors
      else if cputype = CPU_TYPE_I860 then Some I860_flavors
      else if cputype = CPU_TYPE_I386 then Some I386_flavors
      else if cputype = CPU_TYPE_X86_64 then Some X86_64_flavors
      else if cputype = CPU_TYPE_HPPA then Some HPPA_flavors
      else if cputype = CPU_TYPE_SPARC then Some SPARC_flavors
      else if cputype = CPU_TYPE_ARM then Some ARM_flavors
      else None)"

lemmas flavors_defs =
  MC680x0_flavors_def
  POWERPC_flavors_def
  POWERPC64_flavors_def
  MC88000_flavors_def
  I860_flavors_def
  I386_flavors_def
  X86_64_flavors_def
  HPPA_flavors_def
  SPARC_flavors_def
  ARM_flavors_def

text \<open>
  The loop \<^verbatim>\<open>while(state < p)\<close> over the flavors of a thread command: flavor and count, swapped in
  place when the object is of the other byte order, then the state.  The step over a state of an
  unknown flavor is \<^verbatim>\<open>count * sizeof(long)\<close>, a 32-bit product.  The swap routines are only called
  with the host's byte order as the target, so what an uninitialised local holds does not matter.
\<close>

function check_states ::
  "check_params \<Rightarrow> (u32 \<times> flavor_rule) list \<Rightarrow> string \<Rightarrow> nat \<Rightarrow> nat \<Rightarrow> nat \<Rightarrow> mem \<Rightarrow> nat \<Rightarrow> mem mo_check" where
  "check_states cp table name i p nflavor m state =
     (if state < p then
        (case take_word cp m state of
           CHECK_BAD e \<Rightarrow> CHECK_BAD e
         | FAULT \<Rightarrow> FAULT
         | CHECK_GOOD (m, flavor) \<Rightarrow>
         (case take_word cp m (state + 4) of
            CHECK_BAD e \<Rightarrow> CHECK_BAD e
          | FAULT \<Rightarrow> FAULT
          | CHECK_GOOD (m, count) \<Rightarrow>
          (case map_of table flavor of
             Some (Checked state_name d swap) \<Rightarrow>
               if count \<noteq> state_count d then CHECK_BAD (Count_wrong state_name nflavor name i, m)
               else
                 (case (if cp_swapped cp
                        then swap_at (raw_codec (kinds_of d))
                               (swap (cp_host cp) (get_host_byte_sex (cp_host cp)) (\<lambda>_. 0))
                               (cp_host cp) m (state + 8)
                        else Some m) of
                    None \<Rightarrow> FAULT
                  | Some m \<Rightarrow>
                      check_states cp table name i p (Suc nflavor) m (state + 8 + decl_size d))
           | Some Skipped \<Rightarrow>
               check_states cp table name i p (Suc nflavor) m (state + 8 + unat (count * 4))
           | None \<Rightarrow>
               if cp_swapped cp then CHECK_BAD (Unknown_flavor nflavor name i, m)
               else check_states cp table name i p (Suc nflavor) m (state + 8 + unat (count * 4)))))
      else CHECK_GOOD m)"
  by pat_completeness auto

termination check_states
  by (relation "measure (\<lambda>(cp, table, name, i, p, nflavor, m, state). p - state)") auto

declare check_states.simps [simp del]

text \<open>\<^verbatim>\<open>case LC_UNIXTHREAD: case LC_THREAD:\<close>\<close>

definition check_thread :: "check_params \<Rightarrow> nat \<Rightarrow> nat \<Rightarrow> mem \<Rightarrow> mem mo_check" where
  "check_thread cp i lc m =
     and_then (take_struct thread_command_codec swap_thread_command cp m lc)
       (\<lambda>(m, ut).
          let name = (if ut_cmd ut = LC_UNIXTHREAD then ''LC_UNIXTHREAD'' else ''LC_THREAD'')
          in case check_flavors (cp_cputype cp) of
               Some table \<Rightarrow>
                 check_states cp table name i (lc + unat (ut_cmdsize ut)) 0 m (lc + 8)
             | None \<Rightarrow> and_then (tests m [(cp_swapped cp, Unknown_cputype name i)]) (\<lambda>_. CHECK_GOOD m))"

end
