(* ===== verification/CheckMachO.thy ===== *)
theory CheckMachO
  imports CheckThreads
begin

text \<open>
  \<^verbatim>\<open>check_Mach_O\<close> of \<^verbatim>\<open>libstuff/ofile.c\<close>: the pass over the load commands of an object file that
  checks them to the level that they can be parsed, swapping them to the byte order of the host
  when the object has the other.  One definition per \<^verbatim>\<open>case\<close> of its \<^verbatim>\<open>switch\<close>, the dispatch, the
  loop, the tests after the loop, and the routine itself.  Then \<^verbatim>\<open>check_dylib_module\<close>.

  Sums and products are those of the code, in 32 bits where the operands are (\<^verbatim>\<open>unsigned long\<close>
  and \<^verbatim>\<open>uint32_t\<close>), in 64 bits where one of them is a \<^verbatim>\<open>uint64_t\<close>.  Pointers are offsets from the
  start of the object, as numbers: pointer arithmetic does not wrap.
\<close>

section \<open>The state of the loop\<close>

text \<open>
  The memory, and the variables that remember a load command: each is the offset of the command
  it points to, or \<open>None\<close> for \<^verbatim>\<open>NULL\<close>.
\<close>

record check_state =
  cs_mem :: mem
  cs_st :: "nat option"
  cs_dyst :: "nat option"
  cs_rc :: "nat option"
  cs_rc64 :: "nat option"
  cs_hints :: "nat option"
  cs_code_sig :: "nat option"
  cs_split_info :: "nat option"
  cs_cs :: "nat option"
  cs_uuid :: "nat option"

abbreviation S_ZEROFILL :: u32 where "S_ZEROFILL \<equiv> 1"

section \<open>Segments\<close>

definition section_tests :: "u32 \<Rightarrow> nat \<Rightarrow> nat \<Rightarrow> mach_section \<Rightarrow> (bool \<times> mach_o_error) list" where
  "section_tests sz i j s =
     [(s_flags s \<noteq> S_ZEROFILL \<and> s_offset s > sz, Section_past_end ''LC_SEGMENT'' ''offset'' j i),
      (s_flags s \<noteq> S_ZEROFILL \<and> s_offset s + s_size s > sz,
         Section_past_end ''LC_SEGMENT'' ''offset + size'' j i),
      (s_reloff s > sz, Section_past_end ''LC_SEGMENT'' ''reloff'' j i),
      (s_reloff s + s_nreloc s * 8 > sz, Section_past_end ''LC_SEGMENT'' ''reloff + nreloc'' j i)]"

fun check_sections :: "check_params \<Rightarrow> nat \<Rightarrow> mem \<Rightarrow> nat \<Rightarrow> nat \<Rightarrow> nat \<Rightarrow> unit mo_check" where
  "check_sections cp i m s j 0 = CHECK_GOOD ()"
| "check_sections cp i m s j (Suc n) =
     and_then (or_fault (load section_codec (cp_host cp) m s))
       (\<lambda>x. and_then (tests m (section_tests (cp_size cp) i j x))
         (\<lambda>_. check_sections cp i m (s + 68) (Suc j) n))"

definition check_LC_SEGMENT :: "check_params \<Rightarrow> nat \<Rightarrow> nat \<Rightarrow> check_state \<Rightarrow> check_state mo_check" where
  "check_LC_SEGMENT cp i lc cs =
     and_then (take_struct segment_command_codec swap_segment_command cp (cs_mem cs) lc)
       (\<lambda>(m, sg). and_then
          (tests m
             [(sg_cmdsize sg \<noteq> 56 + sg_nsects sg * 68, Inconsistent_cmdsize ''LC_SEGMENT'' i),
              (sg_fileoff sg > cp_size cp, Field_past_end ''LC_SEGMENT'' ''fileoff'' i),
              (sg_fileoff sg + sg_filesize sg > cp_size cp,
                 Field_past_end ''LC_SEGMENT'' ''fileoff + filesize'' i)])
          (\<lambda>_. and_then
             (or_fault
                (if cp_swapped cp
                 then swap_section_array (cp_host cp) m (lc + 56) (unat (sg_nsects sg)) else Some m))
             (\<lambda>m. and_then (check_sections cp i m (lc + 56) 0 (unat (sg_nsects sg)))
                (\<lambda>_. CHECK_GOOD (cs\<lparr>cs_mem := m\<rparr>)))))"

text \<open>
  The loop over the sections of a 64-bit segment advances \<^verbatim>\<open>s\<close>, not \<^verbatim>\<open>s64\<close>: every round looks at
  the first section.
\<close>

definition section_64_tests :: "u32 \<Rightarrow> nat \<Rightarrow> nat \<Rightarrow> section_64 \<Rightarrow> (bool \<times> mach_o_error) list" where
  "section_64_tests sz i j s =
     [(s64_flags s \<noteq> S_ZEROFILL \<and> s64_offset s > sz,
         Section_past_end ''LC_SEGMENT_64'' ''offset'' j i),
      (s64_flags s \<noteq> S_ZEROFILL \<and> ucast (s64_offset s) + s64_size s > ucast sz,
         Section_past_end ''LC_SEGMENT_64'' ''offset + size'' j i),
      (s64_reloff s > sz, Section_past_end ''LC_SEGMENT_64'' ''reloff'' j i),
      (s64_reloff s + s64_nreloc s * 8 > sz,
         Section_past_end ''LC_SEGMENT_64'' ''reloff + nreloc'' j i)]"

fun check_sections_64 :: "check_params \<Rightarrow> nat \<Rightarrow> mem \<Rightarrow> nat \<Rightarrow> nat \<Rightarrow> nat \<Rightarrow> unit mo_check" where
  "check_sections_64 cp i m s64 j 0 = CHECK_GOOD ()"
| "check_sections_64 cp i m s64 j (Suc n) =
     and_then (or_fault (load section_64_codec (cp_host cp) m s64))
       (\<lambda>x. and_then (tests m (section_64_tests (cp_size cp) i j x))
         (\<lambda>_. check_sections_64 cp i m s64 (Suc j) n))"

definition check_LC_SEGMENT_64 :: "check_params \<Rightarrow> nat \<Rightarrow> nat \<Rightarrow> check_state \<Rightarrow> check_state mo_check" where
  "check_LC_SEGMENT_64 cp i lc cs =
     and_then (take_struct segment_command_64_codec swap_segment_command_64 cp (cs_mem cs) lc)
       (\<lambda>(m, sg64). and_then
          (tests m
             [(sg64_cmdsize sg64 \<noteq> 72 + sg64_nsects sg64 * 80, Inconsistent_cmdsize ''LC_SEGMENT_64'' i),
              (sg64_fileoff sg64 > ucast (cp_size cp), Field_past_end ''LC_SEGMENT_64'' ''fileoff'' i),
              (sg64_fileoff sg64 + sg64_filesize sg64 > ucast (cp_size cp),
                 Field_past_end ''LC_SEGMENT_64'' ''fileoff + filesize'' i)])
          (\<lambda>_. and_then
             (or_fault
                (if cp_swapped cp
                 then swap_section_64_array (cp_host cp) m (lc + 72) (unat (sg64_nsects sg64)) else Some m))
             (\<lambda>m. and_then (check_sections_64 cp i m (lc + 72) 0 (unat (sg64_nsects sg64)))
                (\<lambda>_. CHECK_GOOD (cs\<lparr>cs_mem := m\<rparr>)))))"

section \<open>Symbol tables\<close>

definition symtab_tests :: "check_params \<Rightarrow> nat \<Rightarrow> symtab_command \<Rightarrow> (bool \<times> mach_o_error) list" where
  "symtab_tests cp i st =
     [(st_cmdsize st \<noteq> 24, Incorrect_cmdsize ''LC_SYMTAB'' i),
      (st_symoff st > cp_size cp, Field_past_end ''LC_SYMTAB'' ''symoff'' i),
      (st_symoff st + st_nsyms st * sizeof_nlist cp > cp_size cp,
         Field_past_end ''LC_SYMTAB'' ''symoff + nsyms'' i),
      (st_stroff st > cp_size cp, Field_past_end ''LC_SYMTAB'' ''stroff'' i),
      (st_stroff st + st_strsize st > cp_size cp, Field_past_end ''LC_SYMTAB'' ''stroff + strsize'' i)]"

definition check_LC_SYMTAB :: "check_params \<Rightarrow> nat \<Rightarrow> nat \<Rightarrow> check_state \<Rightarrow> check_state mo_check" where
  "check_LC_SYMTAB cp i lc cs =
     and_then (tests (cs_mem cs) [(cs_st cs \<noteq> None, More_than_one ''LC_SYMTAB'')])
       (\<lambda>_. and_then (take_struct symtab_command_codec swap_symtab_command cp (cs_mem cs) lc)
         (\<lambda>(m, st). and_then (tests m (symtab_tests cp i st))
           (\<lambda>_. CHECK_GOOD (cs\<lparr>cs_mem := m, cs_st := Some lc\<rparr>))))"

text \<open>One table of the dynamic symbol table: its offset, and its offset plus its size.\<close>

definition table_tests :: "string \<Rightarrow> string \<Rightarrow> nat \<Rightarrow> u32 \<Rightarrow> u32 \<Rightarrow> u32 \<Rightarrow> (bool \<times> mach_o_error) list" where
  "table_tests cmd field i sz off bytes =
     [(off > sz, Field_past_end cmd field i),
      (off + bytes > sz, Field_past_end cmd (field @ '' + size'') i)]"

definition dysymtab_tests :: "check_params \<Rightarrow> nat \<Rightarrow> dysymtab_command \<Rightarrow> (bool \<times> mach_o_error) list" where
  "dysymtab_tests cp i dyst =
     (let table = table_tests ''LC_DYSYMTAB''
      in [(dyst_cmdsize dyst \<noteq> 80, Incorrect_cmdsize ''LC_DYSYMTAB'' i)] @
         table ''tocoff'' i (cp_size cp) (dyst_tocoff dyst) (dyst_ntoc dyst * 8) @
         table ''modtaboff'' i (cp_size cp) (dyst_modtaboff dyst) (dyst_nmodtab dyst * sizeof_dylib_module cp) @
         table ''extrefsymoff'' i (cp_size cp) (dyst_extrefsymoff dyst) (dyst_nextrefsyms dyst * 4) @
         table ''indirectsymoff'' i (cp_size cp) (dyst_indirectsymoff dyst) (dyst_nindirectsyms dyst * 4) @
         table ''extreloff'' i (cp_size cp) (dyst_extreloff dyst) (dyst_nextrel dyst * 8) @
         table ''locreloff'' i (cp_size cp) (dyst_locreloff dyst) (dyst_nlocrel dyst * 8))"

definition check_LC_DYSYMTAB :: "check_params \<Rightarrow> nat \<Rightarrow> nat \<Rightarrow> check_state \<Rightarrow> check_state mo_check" where
  "check_LC_DYSYMTAB cp i lc cs =
     and_then (tests (cs_mem cs) [(cs_dyst cs \<noteq> None, More_than_one ''LC_DYSYMTAB'')])
       (\<lambda>_. and_then (take_struct dysymtab_command_codec swap_dysymtab_command cp (cs_mem cs) lc)
         (\<lambda>(m, dyst). and_then (tests m (dysymtab_tests cp i dyst))
           (\<lambda>_. CHECK_GOOD (cs\<lparr>cs_mem := m, cs_dyst := Some lc\<rparr>))))"

definition check_LC_ROUTINES :: "check_params \<Rightarrow> nat \<Rightarrow> nat \<Rightarrow> check_state \<Rightarrow> check_state mo_check" where
  "check_LC_ROUTINES cp i lc cs =
     and_then (tests (cs_mem cs) [(cs_rc cs \<noteq> None, More_than_one ''LC_ROUTINES'')])
       (\<lambda>_. and_then (take_struct routines_command_codec swap_routines_command cp (cs_mem cs) lc)
         (\<lambda>(m, rc). and_then (tests m [(rc_cmdsize rc \<noteq> 40, Incorrect_cmdsize ''LC_ROUTINES'' i)])
           (\<lambda>_. CHECK_GOOD (cs\<lparr>cs_mem := m, cs_rc := Some lc\<rparr>))))"

definition check_LC_ROUTINES_64 :: "check_params \<Rightarrow> nat \<Rightarrow> nat \<Rightarrow> check_state \<Rightarrow> check_state mo_check" where
  "check_LC_ROUTINES_64 cp i lc cs =
     and_then (tests (cs_mem cs) [(cs_rc64 cs \<noteq> None, More_than_one ''LC_ROUTINES_64'')])
       (\<lambda>_. and_then (take_struct routines_command_64_codec swap_routines_command_64 cp (cs_mem cs) lc)
         (\<lambda>(m, rc64). and_then (tests m [(rc64_cmdsize rc64 \<noteq> 72, Incorrect_cmdsize ''LC_ROUTINES_64'' i)])
           (\<lambda>_. CHECK_GOOD (cs\<lparr>cs_mem := m, cs_rc64 := Some lc\<rparr>))))"

definition check_LC_TWOLEVEL_HINTS :: "check_params \<Rightarrow> nat \<Rightarrow> nat \<Rightarrow> check_state \<Rightarrow> check_state mo_check" where
  "check_LC_TWOLEVEL_HINTS cp i lc cs =
     and_then (tests (cs_mem cs) [(cs_hints cs \<noteq> None, More_than_one ''LC_TWOLEVEL_HINTS'')])
       (\<lambda>_. and_then (take_struct twolevel_hints_command_codec swap_twolevel_hints_command cp (cs_mem cs) lc)
         (\<lambda>(m, hints). and_then
            (tests m
               ([(hints_cmdsize hints \<noteq> 16, Incorrect_cmdsize ''LC_TWOLEVEL_HINTS'' i)] @
                table_tests ''LC_TWOLEVEL_HINTS'' ''offset'' i (cp_size cp) (hints_offset hints)
                  (hints_nhints hints * 4)))
            (\<lambda>_. CHECK_GOOD (cs\<lparr>cs_mem := m, cs_hints := Some lc\<rparr>))))"

section \<open>Link edit data\<close>

definition check_LC_CODE_SIGNATURE :: "check_params \<Rightarrow> nat \<Rightarrow> nat \<Rightarrow> check_state \<Rightarrow> check_state mo_check" where
  "check_LC_CODE_SIGNATURE cp i lc cs =
     and_then (tests (cs_mem cs) [(cs_code_sig cs \<noteq> None, More_than_one ''LC_CODE_SIGNATURE'')])
       (\<lambda>_. and_then (take_struct linkedit_data_command_codec swap_linkedit_data_command cp (cs_mem cs) lc)
         (\<lambda>(m, ld). and_then
            (tests m
               ([(ld_cmdsize ld \<noteq> 16, Incorrect_cmdsize ''LC_CODE_SIGNATURE'' i)] @
                table_tests ''LC_CODE_SIGNATURE'' ''dataoff'' i (cp_size cp) (ld_dataoff ld) (ld_datasize ld)))
            (\<lambda>_. CHECK_GOOD (cs\<lparr>cs_mem := m, cs_code_sig := Some lc\<rparr>))))"

definition check_LC_SEGMENT_SPLIT_INFO :: "check_params \<Rightarrow> nat \<Rightarrow> nat \<Rightarrow> check_state \<Rightarrow> check_state mo_check" where
  "check_LC_SEGMENT_SPLIT_INFO cp i lc cs =
     and_then (tests (cs_mem cs) [(cs_split_info cs \<noteq> None, More_than_one ''LC_SEGMENT_SPLIT_INFO'')])
       (\<lambda>_. and_then (take_struct linkedit_data_command_codec swap_linkedit_data_command cp (cs_mem cs) lc)
         (\<lambda>(m, ld). and_then
            (tests m
               ([(ld_cmdsize ld \<noteq> 16, Incorrect_cmdsize ''LC_SEGMENT_SPLIT_INFO'' i)] @
                table_tests ''LC_SEGMENT_SPLIT_INFO'' ''dataoff'' i (cp_size cp) (ld_dataoff ld) (ld_datasize ld) @
                [(ld_datasize ld mod load_command_multiple cp \<noteq> 0,
                    Not_a_multiple ''LC_SEGMENT_SPLIT_INFO'' ''datasize'' i)]))
            (\<lambda>_. CHECK_GOOD (cs\<lparr>cs_mem := m, cs_split_info := Some lc\<rparr>))))"

definition check_LC_ENCRYPTION_INFO :: "check_params \<Rightarrow> nat \<Rightarrow> nat \<Rightarrow> check_state \<Rightarrow> check_state mo_check" where
  "check_LC_ENCRYPTION_INFO cp i lc cs =
     and_then (take_struct encryption_info_command_codec swap_encryption_command cp (cs_mem cs) lc)
       (\<lambda>(m, ec). and_then
          (tests m
             ([(ec_cmdsize ec \<noteq> 20, Incorrect_cmdsize ''LC_ENCRYPTION_INFO'' i)] @
              table_tests ''LC_ENCRYPTION_INFO'' ''cryptoff'' i (cp_size cp) (ec_cryptoff ec) (ec_cryptsize ec)))
          (\<lambda>_. CHECK_GOOD (cs\<lparr>cs_mem := m\<rparr>)))"

definition check_LC_PREBIND_CKSUM :: "check_params \<Rightarrow> nat \<Rightarrow> nat \<Rightarrow> check_state \<Rightarrow> check_state mo_check" where
  "check_LC_PREBIND_CKSUM cp i lc cs =
     and_then (tests (cs_mem cs) [(cs_cs cs \<noteq> None, More_than_one ''LC_PREBIND_CKSUM'')])
       (\<lambda>_. and_then (take_struct prebind_cksum_command_codec swap_prebind_cksum_command cp (cs_mem cs) lc)
         (\<lambda>(m, c). and_then (tests m [(cs_cmdsize c \<noteq> 12, Incorrect_cmdsize ''LC_PREBIND_CKSUM'' i)])
           (\<lambda>_. CHECK_GOOD (cs\<lparr>cs_mem := m, cs_cs := Some lc\<rparr>))))"

definition check_LC_UUID :: "check_params \<Rightarrow> nat \<Rightarrow> nat \<Rightarrow> check_state \<Rightarrow> check_state mo_check" where
  "check_LC_UUID cp i lc cs =
     and_then (tests (cs_mem cs) [(cs_uuid cs \<noteq> None, More_than_one ''LC_UUID'')])
       (\<lambda>_. and_then (take_struct uuid_command_codec swap_uuid_command cp (cs_mem cs) lc)
         (\<lambda>(m, u). and_then (tests m [(uuid_cmdsize u \<noteq> 24, Incorrect_cmdsize ''LC_UUID'' i)])
           (\<lambda>_. CHECK_GOOD (cs\<lparr>cs_mem := m, cs_uuid := Some lc\<rparr>))))"

text \<open>The message of the second test of \<^verbatim>\<open>LC_SYMSEG\<close> names \<^verbatim>\<open>LC_SYMTAB\<close>.\<close>

definition check_LC_SYMSEG :: "check_params \<Rightarrow> nat \<Rightarrow> nat \<Rightarrow> check_state \<Rightarrow> check_state mo_check" where
  "check_LC_SYMSEG cp i lc cs =
     and_then (take_struct symseg_command_codec swap_symseg_command cp (cs_mem cs) lc)
       (\<lambda>(m, ss). and_then
          (tests m
             [(ss_cmdsize ss \<noteq> 16, Incorrect_cmdsize ''LC_SYMSEG'' i),
              (ss_offset ss > cp_size cp, Field_past_end ''LC_SYMSEG'' ''offset'' i),
              (ss_offset ss + ss_size ss > cp_size cp, Field_past_end ''LC_SYMTAB'' ''offset + size'' i)])
          (\<lambda>_. CHECK_GOOD (cs\<lparr>cs_mem := m\<rparr>)))"

section \<open>Libraries and linkers\<close>

text \<open>\<^verbatim>\<open>case LC_IDFVMLIB: case LC_LOADFVMLIB:\<close>\<close>

definition check_LC_FVMLIB :: "check_params \<Rightarrow> nat \<Rightarrow> nat \<Rightarrow> check_state \<Rightarrow> check_state mo_check" where
  "check_LC_FVMLIB cp i lc cs =
     and_then (take_struct fvmlib_command_codec swap_fvmlib_command cp (cs_mem cs) lc)
       (\<lambda>(m, fl).
          let name = (if fl_cmd fl = LC_IDFVMLIB then ''LC_IDFVMLIB'' else ''LC_LOADFVMLIB'') in and_then
          (tests m
             [(fl_cmdsize fl < 20, Too_small_cmdsize name i),
              (fl_name_offset fl \<ge> fl_cmdsize fl, Field_past_end name ''name.offset'' i)])
          (\<lambda>_. CHECK_GOOD (cs\<lparr>cs_mem := m\<rparr>)))"

text \<open>The label \<^verbatim>\<open>check_dylib_command\<close>, reached from five cases that set \<^verbatim>\<open>cmd_name\<close>.\<close>

definition check_dylib_command :: "string \<Rightarrow> check_params \<Rightarrow> nat \<Rightarrow> nat \<Rightarrow> check_state \<Rightarrow> check_state mo_check" where
  "check_dylib_command cmd_name cp i lc cs =
     and_then (take_struct dylib_command_codec swap_dylib_command cp (cs_mem cs) lc)
       (\<lambda>(m, dl). and_then
          (tests m
             [(dl_cmdsize dl < 24, Too_small_cmdsize cmd_name i),
              (dl_name_offset dl \<ge> dl_cmdsize dl, Field_past_end cmd_name ''name.offset'' i)])
          (\<lambda>_. CHECK_GOOD (cs\<lparr>cs_mem := m\<rparr>)))"

definition check_LC_SUB_FRAMEWORK :: "check_params \<Rightarrow> nat \<Rightarrow> nat \<Rightarrow> check_state \<Rightarrow> check_state mo_check" where
  "check_LC_SUB_FRAMEWORK cp i lc cs =
     and_then (take_struct sub_framework_command_codec swap_sub_framework_command cp (cs_mem cs) lc)
       (\<lambda>(m, sub). and_then
          (tests m
             [(sub_cmdsize sub < 12, Too_small_cmdsize ''LC_SUB_FRAMEWORK'' i),
              (sub_umbrella_offset sub \<ge> sub_cmdsize sub, Field_past_end ''LC_SUB_FRAMEWORK'' ''umbrella.offset'' i)])
          (\<lambda>_. CHECK_GOOD (cs\<lparr>cs_mem := m\<rparr>)))"

definition check_LC_SUB_UMBRELLA :: "check_params \<Rightarrow> nat \<Rightarrow> nat \<Rightarrow> check_state \<Rightarrow> check_state mo_check" where
  "check_LC_SUB_UMBRELLA cp i lc cs =
     and_then (take_struct sub_umbrella_command_codec swap_sub_umbrella_command cp (cs_mem cs) lc)
       (\<lambda>(m, usub). and_then
          (tests m
             [(usub_cmdsize usub < 12, Too_small_cmdsize ''LC_SUB_UMBRELLA'' i),
              (usub_sub_umbrella_offset usub \<ge> usub_cmdsize usub, Field_past_end ''LC_SUB_UMBRELLA'' ''sub_umbrella.offset'' i)])
          (\<lambda>_. CHECK_GOOD (cs\<lparr>cs_mem := m\<rparr>)))"

definition check_LC_SUB_LIBRARY :: "check_params \<Rightarrow> nat \<Rightarrow> nat \<Rightarrow> check_state \<Rightarrow> check_state mo_check" where
  "check_LC_SUB_LIBRARY cp i lc cs =
     and_then (take_struct sub_library_command_codec swap_sub_library_command cp (cs_mem cs) lc)
       (\<lambda>(m, lsub). and_then
          (tests m
             [(lsub_cmdsize lsub < 12, Too_small_cmdsize ''LC_SUB_LIBRARY'' i),
              (lsub_sub_library_offset lsub \<ge> lsub_cmdsize lsub, Field_past_end ''LC_SUB_LIBRARY'' ''sub_library.offset'' i)])
          (\<lambda>_. CHECK_GOOD (cs\<lparr>cs_mem := m\<rparr>)))"

definition check_LC_SUB_CLIENT :: "check_params \<Rightarrow> nat \<Rightarrow> nat \<Rightarrow> check_state \<Rightarrow> check_state mo_check" where
  "check_LC_SUB_CLIENT cp i lc cs =
     and_then (take_struct sub_client_command_codec swap_sub_client_command cp (cs_mem cs) lc)
       (\<lambda>(m, csub). and_then
          (tests m
             [(csub_cmdsize csub < 12, Too_small_cmdsize ''LC_SUB_CLIENT'' i),
              (csub_client_offset csub \<ge> csub_cmdsize csub, Field_past_end ''LC_SUB_CLIENT'' ''client.offset'' i)])
          (\<lambda>_. CHECK_GOOD (cs\<lparr>cs_mem := m\<rparr>)))"

text \<open>
  The size test is against the 24 bytes of a \<^verbatim>\<open>struct dylib_command\<close>, not the 20 of a
  \<^verbatim>\<open>struct prebound_dylib_command\<close>.
\<close>

definition check_LC_PREBOUND_DYLIB :: "check_params \<Rightarrow> nat \<Rightarrow> nat \<Rightarrow> check_state \<Rightarrow> check_state mo_check" where
  "check_LC_PREBOUND_DYLIB cp i lc cs =
     and_then (take_struct prebound_dylib_command_codec swap_prebound_dylib_command cp (cs_mem cs) lc)
       (\<lambda>(m, pbdylib). and_then
          (tests m
             [(pbdylib_cmdsize pbdylib < 24, Too_small_cmdsize ''LC_PREBIND_DYLIB'' i),
              (pbdylib_name_offset pbdylib \<ge> pbdylib_cmdsize pbdylib, Field_past_end ''LC_PREBIND_DYLIB'' ''name.offset'' i),
              (pbdylib_linked_modules_offset pbdylib \<ge> pbdylib_cmdsize pbdylib, Field_past_end ''LC_PREBIND_DYLIB'' ''linked_modules.offset'' i)])
          (\<lambda>_. CHECK_GOOD (cs\<lparr>cs_mem := m\<rparr>)))"

text \<open>\<^verbatim>\<open>case LC_ID_DYLINKER: case LC_LOAD_DYLINKER:\<close>\<close>

definition check_LC_DYLINKER :: "check_params \<Rightarrow> nat \<Rightarrow> nat \<Rightarrow> check_state \<Rightarrow> check_state mo_check" where
  "check_LC_DYLINKER cp i lc cs =
     and_then (take_struct dylinker_command_codec swap_dylinker_command cp (cs_mem cs) lc)
       (\<lambda>(m, dyld).
          let name = (if dyld_cmd dyld = LC_ID_DYLINKER then ''LC_ID_DYLINKER'' else ''LC_LOAD_DYLINKER'') in and_then
          (tests m
             [(dyld_cmdsize dyld < 12, Too_small_cmdsize name i),
              (dyld_name_offset dyld \<ge> dyld_cmdsize dyld, Field_past_end name ''name.offset'' i)])
          (\<lambda>_. CHECK_GOOD (cs\<lparr>cs_mem := m\<rparr>)))"

section \<open>Threads, identification and paths\<close>

definition check_LC_THREAD :: "check_params \<Rightarrow> nat \<Rightarrow> nat \<Rightarrow> check_state \<Rightarrow> check_state mo_check" where
  "check_LC_THREAD cp i lc cs =
     and_then (check_thread cp i lc (cs_mem cs)) (\<lambda>m. CHECK_GOOD (cs\<lparr>cs_mem := m\<rparr>))"

definition check_LC_IDENT :: "check_params \<Rightarrow> nat \<Rightarrow> nat \<Rightarrow> check_state \<Rightarrow> check_state mo_check" where
  "check_LC_IDENT cp i lc cs =
     and_then (take_struct ident_command_codec swap_ident_command cp (cs_mem cs) lc)
       (\<lambda>(m, d). and_then
          (tests m
             [(lc + unat (id_cmdsize d) > load_commands cp + unat (sizeofcmds cp),
                 Field_past_end ''LC_IDENT'' ''cmdsize'' i)])
          (\<lambda>_. CHECK_GOOD (cs\<lparr>cs_mem := m\<rparr>)))"

definition check_LC_RPATH :: "check_params \<Rightarrow> nat \<Rightarrow> nat \<Rightarrow> check_state \<Rightarrow> check_state mo_check" where
  "check_LC_RPATH cp i lc cs =
     and_then (take_struct rpath_command_codec swap_rpath_command cp (cs_mem cs) lc)
       (\<lambda>(m, rpath). and_then
          (tests m
             [(rpath_cmdsize rpath < 12, Too_small_cmdsize ''LC_RPATH'' i),
              (rpath_path_offset rpath \<ge> rpath_cmdsize rpath, Field_past_end ''LC_RPATH'' ''path.offset'' i)])
          (\<lambda>_. CHECK_GOOD (cs\<lparr>cs_mem := m\<rparr>)))"

section \<open>The switch\<close>

definition check_command :: "u32 \<Rightarrow> check_params \<Rightarrow> nat \<Rightarrow> nat \<Rightarrow> check_state \<Rightarrow> check_state mo_check" where
  "check_command cmd cp i lc cs =
     (if cmd = LC_SEGMENT then check_LC_SEGMENT cp i lc cs
      else if cmd = LC_SEGMENT_64 then check_LC_SEGMENT_64 cp i lc cs
      else if cmd = LC_SYMTAB then check_LC_SYMTAB cp i lc cs
      else if cmd = LC_DYSYMTAB then check_LC_DYSYMTAB cp i lc cs
      else if cmd = LC_ROUTINES then check_LC_ROUTINES cp i lc cs
      else if cmd = LC_ROUTINES_64 then check_LC_ROUTINES_64 cp i lc cs
      else if cmd = LC_TWOLEVEL_HINTS then check_LC_TWOLEVEL_HINTS cp i lc cs
      else if cmd = LC_CODE_SIGNATURE then check_LC_CODE_SIGNATURE cp i lc cs
      else if cmd = LC_SEGMENT_SPLIT_INFO then check_LC_SEGMENT_SPLIT_INFO cp i lc cs
      else if cmd = LC_ENCRYPTION_INFO then check_LC_ENCRYPTION_INFO cp i lc cs
      else if cmd = LC_PREBIND_CKSUM then check_LC_PREBIND_CKSUM cp i lc cs
      else if cmd = LC_UUID then check_LC_UUID cp i lc cs
      else if cmd = LC_SYMSEG then check_LC_SYMSEG cp i lc cs
      else if cmd = LC_IDFVMLIB \<or> cmd = LC_LOADFVMLIB then check_LC_FVMLIB cp i lc cs
      else if cmd = LC_ID_DYLIB then check_dylib_command ''LC_ID_DYLIB'' cp i lc cs
      else if cmd = LC_LOAD_DYLIB then check_dylib_command ''LC_LOAD_DYLIB'' cp i lc cs
      else if cmd = LC_LOAD_WEAK_DYLIB then check_dylib_command ''LC_LOAD_WEAK_DYLIB'' cp i lc cs
      else if cmd = LC_REEXPORT_DYLIB then check_dylib_command ''LC_REEXPORT_DYLIB'' cp i lc cs
      else if cmd = LC_LAZY_LOAD_DYLIB then check_dylib_command ''LC_LAZY_LOAD_DYLIB'' cp i lc cs
      else if cmd = LC_SUB_FRAMEWORK then check_LC_SUB_FRAMEWORK cp i lc cs
      else if cmd = LC_SUB_UMBRELLA then check_LC_SUB_UMBRELLA cp i lc cs
      else if cmd = LC_SUB_LIBRARY then check_LC_SUB_LIBRARY cp i lc cs
      else if cmd = LC_SUB_CLIENT then check_LC_SUB_CLIENT cp i lc cs
      else if cmd = LC_PREBOUND_DYLIB then check_LC_PREBOUND_DYLIB cp i lc cs
      else if cmd = LC_ID_DYLINKER \<or> cmd = LC_LOAD_DYLINKER then check_LC_DYLINKER cp i lc cs
      else if cmd = LC_UNIXTHREAD \<or> cmd = LC_THREAD then check_LC_THREAD cp i lc cs
      else if cmd = LC_IDENT then check_LC_IDENT cp i lc cs
      else if cmd = LC_RPATH then check_LC_RPATH cp i lc cs
      else CHECK_BAD (Unknown_command i, cs_mem cs))"

section \<open>The loop\<close>

text \<open>
  One round at load command \<open>i\<close>: the command is copied and the copy swapped; the tests on its
  size; the switch; the step to the next command.
\<close>

definition check_one ::
  "check_params \<Rightarrow> nat \<Rightarrow> nat \<Rightarrow> check_state \<Rightarrow> (nat \<times> check_state) mo_check" where
  "check_one cp i lc cs =
     and_then (or_fault (load load_command_codec (cp_host cp) (cs_mem cs) lc))
       (\<lambda>l0. let l = (if cp_swapped cp then swap_load_command l0 else l0);
                 stop = load_commands cp + unat (sizeofcmds cp)
             in and_then
                  (tests (cs_mem cs)
                     [(lc_cmdsize l mod load_command_multiple cp \<noteq> 0,
                         Cmdsize_not_multiple i (load_command_multiple cp)),
                      (lc + unat (lc_cmdsize l) > stop, Command_past_end i),
                      (lc_cmdsize l = 0, Cmdsize_zero i)])
                  (\<lambda>_. and_then (check_command (lc_cmd l) cp i lc cs)
                     (\<lambda>cs. and_then
                        (tests (cs_mem cs) [(lc + unat (lc_cmdsize l) > stop, Command_past_end (i + 1))])
                        (\<lambda>_. CHECK_GOOD (lc + unat (lc_cmdsize l), cs)))))"

text \<open>The rounds from load command \<open>i\<close> on, of which \<open>n\<close> are left.\<close>

fun check_all :: "check_params \<Rightarrow> nat \<Rightarrow> nat \<Rightarrow> nat \<Rightarrow> check_state \<Rightarrow> (nat \<times> check_state) mo_check" where
  "check_all cp 0 i lc cs = CHECK_GOOD (lc, cs)"
| "check_all cp (Suc n) i lc cs =
     and_then (check_one cp i lc cs) (\<lambda>(lc, cs). check_all cp n (Suc i) lc cs)"

section \<open>The tests after the loop\<close>

text \<open>One group of symbols of the dynamic symbol table against the number of symbols.\<close>

definition group_tests :: "string \<Rightarrow> u32 \<Rightarrow> u32 \<Rightarrow> u32 \<Rightarrow> (bool \<times> mach_o_error) list" where
  "group_tests field first n nsyms =
     [(n \<noteq> 0 \<and> first > nsyms, Symbols_past_end field),
      (n \<noteq> 0 \<and> first + n > nsyms, Symbols_past_end (field @ '' + count''))]"

definition symbols_tests :: "symtab_command \<Rightarrow> dysymtab_command \<Rightarrow> (bool \<times> mach_o_error) list" where
  "symbols_tests st dyst =
     group_tests ''ilocalsym'' (dyst_ilocalsym dyst) (dyst_nlocalsym dyst) (st_nsyms st) @
     group_tests ''iextdefsym'' (dyst_iextdefsym dyst) (dyst_nextdefsym dyst) (st_nsyms st) @
     group_tests ''iundefsym'' (dyst_iundefsym dyst) (dyst_nundefsym dyst) (st_nsyms st)"

text \<open>A test on a remembered load command, if there is one.\<close>

definition if_remembered ::
  "'a codec \<Rightarrow> check_params \<Rightarrow> mem \<Rightarrow> nat option \<Rightarrow> ('a \<Rightarrow> (bool \<times> mach_o_error) list) \<Rightarrow> unit mo_check" where
  "if_remembered C cp m p ts =
     (case p of None \<Rightarrow> CHECK_GOOD ()
      | Some off \<Rightarrow> and_then (or_fault (load C (cp_host cp) m off)) (\<lambda>x. tests m (ts x)))"

definition check_remembered :: "check_params \<Rightarrow> check_state \<Rightarrow> unit mo_check" where
  "check_remembered cp cs =
     (let m = cs_mem cs
      in case cs_st cs of
           None \<Rightarrow> tests m [(cs_dyst cs \<noteq> None, Dysymtab_without_symtab)]
         | Some st_off \<Rightarrow>
         (case cs_dyst cs of
            None \<Rightarrow> CHECK_GOOD ()
          | Some dyst_off \<Rightarrow>
              and_then (or_fault (load symtab_command_codec (cp_host cp) m st_off)) (\<lambda>st.
              and_then (or_fault (load dysymtab_command_codec (cp_host cp) m dyst_off)) (\<lambda>dyst.
              and_then (tests m (symbols_tests st dyst)) (\<lambda>_.
              and_then (if_remembered routines_command_codec cp m (cs_rc cs)
                (\<lambda>rc. [(rc_init_module rc > dyst_nmodtab dyst, Init_module_past_end ''LC_ROUTINES'')])) (\<lambda>_.
              and_then (if_remembered routines_command_64_codec cp m (cs_rc64 cs)
                (\<lambda>rc64. [(rc64_init_module rc64 > ucast (dyst_nmodtab dyst),
                   Init_module_past_end ''LC_ROUTINES_64'')])) (\<lambda>_.
              if_remembered twolevel_hints_command_codec cp m (cs_hints cs)
                (\<lambda>hints. [(hints_nhints hints \<noteq> dyst_nundefsym dyst, Hints_differ)]))))))))"

section \<open>The routine\<close>

text \<open>What the routine takes from the header, of 32 or 64 bits.\<close>

record object_header =
  oh_size :: nat
  oh_cputype :: u32
  oh_cpusubtype :: u32
  oh_filetype :: u32
  oh_ncmds :: u32
  oh_sizeofcmds :: u32
  oh_multiple :: u32
  oh_nlist :: u32
  oh_module :: u32

definition header_32 :: "mach_header \<Rightarrow> object_header" where
  "header_32 mh =
     \<lparr>oh_size = 28, oh_cputype = mh_cputype mh, oh_cpusubtype = mh_cpusubtype mh,
      oh_filetype = mh_filetype mh, oh_ncmds = mh_ncmds mh, oh_sizeofcmds = mh_sizeofcmds mh,
      oh_multiple = 4, oh_nlist = 12, oh_module = 52\<rparr>"

definition header_64 :: "mach_header_64 \<Rightarrow> object_header" where
  "header_64 mh64 =
     \<lparr>oh_size = 32, oh_cputype = mh64_cputype mh64, oh_cpusubtype = mh64_cpusubtype mh64,
      oh_filetype = mh64_filetype mh64, oh_ncmds = mh64_ncmds mh64,
      oh_sizeofcmds = mh64_sizeofcmds mh64, oh_multiple = 8, oh_nlist = 16, oh_module = 56\<rparr>"

definition take_header :: "bool \<Rightarrow> bool \<Rightarrow> byte_sex \<Rightarrow> mem \<Rightarrow> (mem \<times> object_header) mo_check" where
  "take_header is32 swapped h m =
     (if is32
      then and_then (read_struct mach_header_codec swap_mach_header swapped h m 0)
             (\<lambda>(m, mh). CHECK_GOOD (m, header_32 mh))
      else and_then (read_struct mach_header_64_codec swap_mach_header_64 swapped h m 0)
             (\<lambda>(m, mh64). CHECK_GOOD (m, header_64 mh64)))"

definition start_state :: "mem \<Rightarrow> check_state" where
  "start_state m =
     \<lparr>cs_mem = m, cs_st = None, cs_dyst = None, cs_rc = None, cs_rc64 = None, cs_hints = None,
      cs_code_sig = None, cs_split_info = None, cs_cs = None, cs_uuid = None\<rparr>"

definition params_of :: "bool \<Rightarrow> byte_sex \<Rightarrow> u32 \<Rightarrow> object_header \<Rightarrow> check_params" where
  "params_of swapped h sz oh =
     \<lparr>cp_host = h, cp_swapped = swapped, cp_size = sz, load_commands = oh_size oh,
      sizeofcmds = oh_sizeofcmds oh, cp_cputype = oh_cputype oh, load_command_multiple = oh_multiple oh,
      sizeof_nlist = oh_nlist oh, sizeof_dylib_module = oh_module oh\<rparr>"

text \<open>
  The load commands of a header: the loop from the first of them, the tests on what it
  remembered, and the test that the commands fill \<^verbatim>\<open>sizeofcmds\<close>.
\<close>

definition check_commands :: "check_params \<Rightarrow> nat \<Rightarrow> mem \<Rightarrow> check_state mo_check" where
  "check_commands cp n m =
     and_then (check_all cp n 0 (load_commands cp) (start_state m)) (\<lambda>(lc, cs).
     and_then (check_remembered cp cs) (\<lambda>_.
     and_then (tests (cs_mem cs)
       [(load_commands cp + unat (sizeofcmds cp) \<noteq> lc, Inconsistent_sizeofcmds)]) (\<lambda>_.
     CHECK_GOOD cs)))"

text \<open>An error or a fault leaves the \<^verbatim>\<open>ofile\<close> as far as it has been changed.\<close>

fun on_object :: "ofile \<Rightarrow> 'a mo_check \<Rightarrow> (mach_o_error \<times> ofile, 'a) check" where
  "on_object ofile (CHECK_GOOD x) = CHECK_GOOD x"
| "on_object ofile (CHECK_BAD (e, m)) = CHECK_BAD (e, ofile\<lparr>object_addr := m\<rparr>)"
| "on_object ofile FAULT = FAULT"

text \<open>
  \<^verbatim>\<open>ofile->load_commands\<close> is always the address after the header.  The field \<open>mh32\<close> is
  \<^verbatim>\<open>ofile->mh != NULL\<close>.
\<close>

definition check_Mach_O :: "byte_sex \<Rightarrow> ofile \<Rightarrow> (mach_o_error \<times> ofile, ofile) check" where
  "check_Mach_O h ofile =
     (let host = get_host_byte_sex h;
          swapped = (host \<noteq> object_byte_sex ofile)
      in and_then (on_object ofile (take_header (mh32 ofile) swapped host (object_addr ofile)))
           (\<lambda>(m, oh). let ofile = ofile\<lparr>object_addr := m\<rparr> in
       and_then (on_object ofile
         (tests m [(oh_sizeofcmds oh + of_nat (oh_size oh) > object_size ofile, Commands_past_end)]))
           (\<lambda>_. let ofile = ofile\<lparr>mh_cputype_of := oh_cputype oh, mh_cpusubtype_of := oh_cpusubtype oh,
                     mh_filetype_of := oh_filetype oh\<rparr> in
       and_then
         (if file_type ofile = OFILE_FAT
          then if narch ofile < length (fat_archs ofile)
               then on_object ofile
                 (tests m [(fa_cputype (fat_archs ofile ! narch ofile) \<noteq> mh_cputype_of ofile,
                    Fat_cputype_mismatch (narch ofile))])
               else FAULT
          else CHECK_GOOD ())
           (\<lambda>_.
       and_then (on_object ofile
         (check_commands (params_of swapped host (object_size ofile) oh) (unat (oh_ncmds oh)) m))
           (\<lambda>cs. CHECK_GOOD (ofile\<lparr>object_addr := cs_mem cs,
              headers_swapped := headers_swapped ofile \<or> swapped\<rparr>))))))"

end
