(* ===== verification/CheckFrame.thy ===== *)
theory CheckFrame
  imports CheckMachO
begin

text \<open>
  What the cases of \<^verbatim>\<open>check_Mach_O\<close> do to memory.  Every case changes bytes only from its load
  command on, and none at all when the object has the byte order of the host; it leaves the first
  two words of the command as the host reads them.
\<close>

section \<open>Frames\<close>

definition changes_from :: "nat \<Rightarrow> mem \<Rightarrow> mem \<Rightarrow> bool" where
  "changes_from off m m' \<longleftrightarrow> length m' = length m \<and> take off m' = take off m"

lemma changes_from_refl [simp]: "changes_from off m m"
  by (simp add: changes_from_def)

lemma changes_from_trans: "changes_from off m m1 \<Longrightarrow> changes_from off m1 m2 \<Longrightarrow> changes_from off m m2"
  by (simp add: changes_from_def)

lemma changes_from_mono: "changes_from off m m' \<Longrightarrow> a \<le> off \<Longrightarrow> changes_from a m m'"
  unfolding changes_from_def by (metis min.absorb1 take_take)

lemma changes_from_get: "changes_from off m m' \<Longrightarrow> a + n \<le> off \<Longrightarrow> get_bytes m' a n = get_bytes m a n"
proof (rule get_bytes_cong)
  assume c: "changes_from off m m'" and le: "a + n \<le> off"
  then show "length m' = length m" by (simp add: changes_from_def)
  fix i
  assume "a \<le> i" and "i < a + n"
  then have "i < off" using le by simp
  then have "m' ! i = take off m' ! i" and "m ! i = take off m ! i" by simp_all
  then show "m' ! i = m ! i" using c by (simp add: changes_from_def)
qed

lemma changes_from_load:
  "changes_from off m m' \<Longrightarrow> a + size_of C \<le> off \<Longrightarrow> load C h m' a = load C h m a"
  by (simp add: load_def changes_from_get)

lemma put_bytes_changes:
  "off + length bs \<le> length m \<Longrightarrow> changes_from off m (put_bytes m off bs)"
  by (simp add: changes_from_def put_bytes_def)

context mach_struct
begin

lemma store_changes: "load C h m off = Some x \<Longrightarrow> wf y \<Longrightarrow> changes_from off m (store C h' m off y)"
  by (auto simp: store_def kinds_parts size_of_def intro!: put_bytes_changes dest!: load_bound)

lemma swap_at_changes:
  assumes "\<And>x. wf x \<Longrightarrow> wf (f x)" and "swap_at C f h m off = Some m'"
  shows "changes_from off m m'"
  using assms by (auto simp: swap_at_def store_changes load_wf)

lemma swap_array_changes:
  assumes "\<And>x. wf x \<Longrightarrow> wf (f x)"
  shows "swap_array_at C f h m off n = Some m' \<Longrightarrow> changes_from off m m'"
proof (induction n arbitrary: m off)
  case (Suc n)
  then obtain m1 where m1: "swap_at C f h m off = Some m1"
    and rest: "swap_array_at C f h m1 (off + size_of C) n = Some m'"
    by (auto split: option.splits)
  have "changes_from off m1 m'"
    using changes_from_mono [OF Suc.IH [OF rest]] by simp
  then show ?case
    using changes_from_trans swap_at_changes [OF assms m1] by blast
qed simp

end

section \<open>Structs that start with a load command\<close>

definition starts_command :: "'a codec \<Rightarrow> bool" where
  "starts_command C \<longleftrightarrow> (\<exists>ks. layout C = K32 # K32 # ks)"

lemma starts_command_codecs:
  "starts_command load_command_codec" "starts_command segment_command_codec"
  "starts_command segment_command_64_codec" "starts_command symtab_command_codec"
  "starts_command dysymtab_command_codec" "starts_command symseg_command_codec"
  "starts_command fvmlib_command_codec" "starts_command dylib_command_codec"
  "starts_command sub_framework_command_codec" "starts_command sub_umbrella_command_codec"
  "starts_command sub_library_command_codec" "starts_command sub_client_command_codec"
  "starts_command prebound_dylib_command_codec" "starts_command dylinker_command_codec"
  "starts_command thread_command_codec" "starts_command ident_command_codec"
  "starts_command routines_command_codec" "starts_command routines_command_64_codec"
  "starts_command twolevel_hints_command_codec" "starts_command prebind_cksum_command_codec"
  "starts_command uuid_command_codec" "starts_command linkedit_data_command_codec"
  "starts_command rpath_command_codec" "starts_command encryption_info_command_codec"
  by (simp_all add: starts_command_def load_command_codec_def segment_command_codec_def
      segment_command_64_codec_def symtab_command_codec_def dysymtab_command_codec_def
      symseg_command_codec_def fvmlib_command_codec_def dylib_command_codec_def
      sub_framework_command_codec_def sub_umbrella_command_codec_def sub_library_command_codec_def
      sub_client_command_codec_def prebound_dylib_command_codec_def dylinker_command_codec_def
      thread_command_codec_def ident_command_codec_def routines_command_codec_def
      routines_command_64_codec_def twolevel_hints_command_codec_def prebind_cksum_command_codec_def
      uuid_command_codec_def linkedit_data_command_codec_def rpath_command_codec_def
      encryption_info_command_codec_def)

text \<open>The first two words of a struct's bytes, in either byte order.\<close>

lemma load_command_bytes:
  "load load_command_codec h m off =
     map_option (\<lambda>bs. \<lparr>lc_cmd = word_of (order_bytes h (take 4 bs)),
                       lc_cmdsize = word_of (order_bytes h (take 4 (drop 4 bs)))\<rparr>) (get_bytes m off 8)"
  by (simp add: load_def load_command_codec_def size_of_def)

lemma get_bytes_prefix:
  "get_bytes m off n = Some bs \<Longrightarrow> k \<le> n \<Longrightarrow> get_bytes m off k = Some (take k bs)"
  by (auto simp: get_bytes_def split: if_splits)

lemma field_K32: "kind_of f = K32 \<longleftrightarrow> (\<exists>w. f = F32 w)"
  by (cases f) auto

lemma load_command_of_words:
  assumes "get_bytes m off n = Some (encode h (F32 a # F32 b # fs))"
  shows "load load_command_codec h m off = Some \<lparr>lc_cmd = a, lc_cmdsize = b\<rparr>"
proof -
  have "n = length (encode h (F32 a # F32 b # fs))" using get_bytes_length [OF assms] by simp
  then have "8 \<le> n" by simp
  then show ?thesis
    using get_bytes_prefix [OF assms \<open>8 \<le> n\<close>] by (simp add: load_command_bytes word_of_bytes_of)
qed

context mach_struct
begin

lemma get_bytes_parts:
  assumes "load C h m off = Some x"
  shows "get_bytes m off (size_of C) = Some (encode h (parts C x))"
proof -
  from assms obtain bs where bs: "get_bytes m off (size_of C) = Some bs"
    and x: "x = build C (decode h (layout C) bs)"
    by (auto simp: load_def)
  then have "length bs = layout_size (layout C)" by (auto simp: size_of_def dest: get_bytes_length)
  then show ?thesis by (simp add: bs x parts_build encode_decode)
qed

end

context swappable_struct
begin

lemma swap_at_command:
  assumes "starts_command C" and "swap_at C swap h m off = Some m'"
  shows "load load_command_codec h m' off = map_option swap_load_command (load load_command_codec h m off)"
proof -
  from assms(2) obtain x where x: "load C h m off = Some x" and m': "m' = store C h m off (swap x)"
    by (auto simp: swap_at_def)
  obtain ks where "layout C = K32 # K32 # ks" using assms(1) by (auto simp: starts_command_def)
  then have "map kind_of (parts C x) = K32 # K32 # ks" using kinds_parts [OF load_wf [OF x]] by simp
  then obtain a b fs where parts: "parts C x = F32 a # F32 b # fs"
    by (auto simp: map_eq_Cons_conv field_K32)
  have "load C h m' off = Some (swap x)"
    using load_store [OF load_bound [OF x] wf_swap [OF load_wf [OF x]]] by (simp add: m')
  then have "get_bytes m' off (size_of C) =
      Some (encode h (F32 (SWAP_INT a) # F32 (SWAP_INT b) # map swap_field fs))"
    using get_bytes_parts [of h m' off "swap x"] parts_swap [OF load_wf [OF x]] by (simp add: parts)
  moreover have "get_bytes m off (size_of C) = Some (encode h (F32 a # F32 b # fs))"
    using get_bytes_parts [OF x] by (simp only: parts)
  ultimately show ?thesis
    by (simp only: load_command_of_words option.map swap_load_command_def) simp
qed

end

section \<open>What a case does to memory\<close>

text \<open>
  The contract of a case: from memory \<open>m\<close> to memory \<open>m'\<close>, at the load command \<open>lc\<close>.
\<close>

definition as_host :: "check_params \<Rightarrow> load_command \<Rightarrow> load_command" where
  "as_host cp l = (if cp_swapped cp then swap_load_command l else l)"

definition command_frame :: "check_params \<Rightarrow> nat \<Rightarrow> mem \<Rightarrow> mem \<Rightarrow> bool" where
  "command_frame cp lc m m' \<longleftrightarrow>
     changes_from lc m m' \<and> (\<not> cp_swapped cp \<longrightarrow> m' = m) \<and>
     load load_command_codec (cp_host cp) m' lc =
       map_option (as_host cp) (load load_command_codec (cp_host cp) m lc)"

lemma as_host_native: "\<not> cp_swapped cp \<Longrightarrow> map_option (as_host cp) x = x"
  by (cases x) (simp_all add: as_host_def)

text \<open>What follows the swap of the command itself touches only bytes after its first eight.\<close>

definition tail_frame :: "check_params \<Rightarrow> nat \<Rightarrow> mem \<Rightarrow> mem \<Rightarrow> bool" where
  "tail_frame cp off m m' \<longleftrightarrow> changes_from off m m' \<and> (\<not> cp_swapped cp \<longrightarrow> m' = m)"

lemma tail_frame_refl [simp]: "tail_frame cp off m m"
  by (simp add: tail_frame_def)

lemma tail_frame_trans:
  "tail_frame cp off m m1 \<Longrightarrow> tail_frame cp off' m1 m' \<Longrightarrow> off \<le> off' \<Longrightarrow> tail_frame cp off m m'"
  unfolding tail_frame_def using changes_from_trans changes_from_mono by metis

lemma command_then_tail:
  assumes "command_frame cp lc m m1" and "tail_frame cp off m1 m'" and "lc + 8 \<le> off"
  shows "command_frame cp lc m m'"
proof -
  have "changes_from (lc + 8) m1 m'"
    using assms(2,3) changes_from_mono by (auto simp: tail_frame_def)
  then have "load load_command_codec (cp_host cp) m' lc = load load_command_codec (cp_host cp) m1 lc"
    using changes_from_load [of "lc + 8" m1 m' lc load_command_codec] by simp
  moreover have "changes_from lc m m'"
    using assms changes_from_trans changes_from_mono [of off m1 m' lc]
    by (auto simp: command_frame_def tail_frame_def)
  ultimately show ?thesis using assms by (auto simp: command_frame_def tail_frame_def)
qed

lemma take_struct_GOOD:
  "take_struct C swap cp m off = CHECK_GOOD (m', x) \<longleftrightarrow>
     (if cp_swapped cp then swap_at C swap (cp_host cp) m off = Some m' else m' = m) \<and>
     load C (cp_host cp) m' off = Some x"
  by (auto simp: take_struct_def read_struct_def split: option.splits)

context swappable_struct
begin

lemma take_tail: "take_struct C swap cp m off = CHECK_GOOD (m', x) \<Longrightarrow> tail_frame cp off m m'"
  using swap_at_changes [of swap] wf_swap
  by (auto simp: take_struct_GOOD tail_frame_def split: if_splits)

lemma take_frame:
  assumes "starts_command C" and "take_struct C swap cp m lc = CHECK_GOOD (m', x)"
  shows "command_frame cp lc m m'"
proof (cases "cp_swapped cp")
  case True
  then show ?thesis
    using take_tail [OF assms(2)] swap_at_command [OF assms(1), of "cp_host cp" m lc m'] assms(2)
    by (simp add: command_frame_def tail_frame_def take_struct_GOOD as_host_def [abs_def])
next
  case False
  then show ?thesis
    using assms(2) by (simp add: command_frame_def take_struct_GOOD as_host_native)
qed

end

lemmas take_frames =
  segment_command.take_frame [OF starts_command_codecs(2)]
  segment_command_64.take_frame [OF starts_command_codecs(3)]
  symtab_command.take_frame [OF starts_command_codecs(4)]
  dysymtab_command.take_frame [OF starts_command_codecs(5)]
  symseg_command.take_frame [OF starts_command_codecs(6)]
  fvmlib_command.take_frame [OF starts_command_codecs(7)]
  dylib_command.take_frame [OF starts_command_codecs(8)]
  sub_framework_command.take_frame [OF starts_command_codecs(9)]
  sub_umbrella_command.take_frame [OF starts_command_codecs(10)]
  sub_library_command.take_frame [OF starts_command_codecs(11)]
  sub_client_command.take_frame [OF starts_command_codecs(12)]
  prebound_dylib_command.take_frame [OF starts_command_codecs(13)]
  dylinker_command.take_frame [OF starts_command_codecs(14)]
  thread_command.take_frame [OF starts_command_codecs(15)]
  ident_command.take_frame [OF starts_command_codecs(16)]
  routines_command.take_frame [OF starts_command_codecs(17)]
  routines_command_64.take_frame [OF starts_command_codecs(18)]
  twolevel_hints_command.take_frame [OF starts_command_codecs(19)]
  prebind_cksum_command.take_frame [OF starts_command_codecs(20)]
  uuid_command.take_frame [OF starts_command_codecs(21)]
  linkedit_data_command.take_frame [OF starts_command_codecs(22)]
  rpath_command.take_frame [OF starts_command_codecs(23)]
  encryption_info_command.take_frame [OF starts_command_codecs(24)]

section \<open>Sections and thread states\<close>

lemma sections_frame:
  assumes "(if cp_swapped cp then swap_section_array h m off n else Some m) = Some m'"
  shows "tail_frame cp off m m'"
  using assms mach_section.swap_array_changes [of swap_section] mach_section.wf_swap
  by (auto simp: tail_frame_def swap_section_array_def split: if_splits)

lemma wf_swap_section_64: "wf_section_64 x \<Longrightarrow> wf_section_64 (swap_section_64 x)"
  by (simp add: wf_section_64_def swap_section_64_def)

lemma sections_64_frame:
  assumes "(if cp_swapped cp then swap_section_64_array h m off n else Some m) = Some m'"
  shows "tail_frame cp off m m'"
  using assms section_64.swap_array_changes [of swap_section_64] wf_swap_section_64
  by (auto simp: tail_frame_def swap_section_64_array_def split: if_splits)

text \<open>Every thread state routine turns a state of its declaration into one.\<close>

definition keeps_kinds :: "decl \<Rightarrow> (field list \<Rightarrow> field list) \<Rightarrow> bool" where
  "keeps_kinds d f \<longleftrightarrow> (\<forall>fs. map kind_of fs = kinds_of d \<longrightarrow> map kind_of (f fs) = kinds_of d)"

lemma map2_keeps:
  assumes "map kind_of fs = kinds_of d" and "\<And>n f. kind_of (g n f) = kind_of f"
  shows "map kind_of (map2 g (names_of d) fs) = kinds_of d"
proof -
  have "length fs = length (names_of d)" using assms(1) by (metis length_map length_names_of)
  then have "map kind_of (map2 g (names_of d) fs) = map kind_of fs"
    by (intro nth_equalityI) (simp_all add: assms(2))
  then show ?thesis using assms(1) by simp
qed

lemma kind_of_on_word [simp]: "kind_of (on_word g f) = kind_of f"
  by (cases f) simp_all

lemma kind_of_on_half [simp]: "kind_of (on_half g f) = kind_of f"
  by (cases f) simp_all

lemma swap_named_keeps: "map kind_of fs = kinds_of d \<Longrightarrow> map kind_of (swap_named d ns fs) = kinds_of d"
  unfolding swap_named_def by (rule map2_keeps) simp_all

lemma update_named_keeps:
  "map kind_of fs = kinds_of d \<Longrightarrow> (\<And>f. kind_of (g f) = kind_of f) \<Longrightarrow>
     map kind_of (update_named d n g fs) = kinds_of d"
  unfolding update_named_def by (rule map2_keeps) simp_all

lemma swap_m68k_thread_state_68882_keeps: "keeps_kinds m68k_thread_state_68882 swap_m68k_thread_state_68882"
  unfolding keeps_kinds_def
proof (intro allI impI)
  fix fs
  have ks: "kinds_of m68k_thread_state_68882 = replicate 28 K32"
    by (simp add: kinds_of_def m68k_thread_state_68882_def numeral_eq_Suc)
  assume "map kind_of fs = kinds_of m68k_thread_state_68882"
  then have fs: "map kind_of fs = replicate 28 K32" by (simp only: ks)
  then have "length fs = 28" by (metis length_map length_replicate)
  then have k: "kind_of (fs ! i) = K32" if "i < 28" for i
    using fs that by (metis nth_map nth_replicate)
  have "map kind_of (drop 24 fs) = replicate 4 K32" by (simp add: drop_map [symmetric] fs)
  then have "map kind_of (swap_m68k_thread_state_68882 fs) = replicate 24 K32 @ replicate 4 K32"
    by (simp add: swap_m68k_thread_state_68882_def upt_8 k comp_def numeral_eq_Suc)
  also have "\<dots> = replicate 28 K32" by (simp add: replicate_add [symmetric])
  finally show "map kind_of (swap_m68k_thread_state_68882 fs) = kinds_of m68k_thread_state_68882"
    by (simp only: ks)
qed

lemma routines_keep:
  "keeps_kinds m68k_thread_state_regs swap_m68k_thread_state_regs"
  "keeps_kinds m68k_thread_state_user_reg swap_m68k_thread_state_user_reg"
  "keeps_kinds ppc_thread_state_t swap_ppc_thread_state_t"
  "keeps_kinds ppc_thread_state64_t swap_ppc_thread_state64_t"
  "keeps_kinds m88k_thread_state_grf_t swap_m88k_thread_state_grf_t"
  "keeps_kinds m88k_thread_state_user_t swap_m88k_thread_state_user_t"
  "keeps_kinds i386_thread_state_t swap_i386_thread_state"
  "keeps_kinds i386_exception_state_t swap_i386_exception_state"
  "keeps_kinds x86_thread_state64_t swap_x86_thread_state64"
  "keeps_kinds hp_pa_integer_thread_state swap_hppa_integer_thread_state"
  "keeps_kinds hp_pa_frame_thread_state swap_hppa_frame_thread_state"
  "keeps_kinds hp_pa_fp_thread_state swap_hppa_fp_thread_state"
  "keeps_kinds arm_thread_state_t swap_arm_thread_state_t"
  "keeps_kinds m88k_thread_state_xrf_t (swap_m88k_thread_state_xrf_t h t j)"
  "keeps_kinds m88110_thread_state_impl_t (swap_m88110_thread_state_impl_t h t j)"
  "keeps_kinds i386_float_state (swap_i386_float_state h t j)"
  "keeps_kinds sparc_thread_state_regs (swap_sparc_thread_state_regs h t j)"
  "keeps_kinds sparc_thread_state_fpu (swap_sparc_thread_state_fpu h t j)"
  unfolding keeps_kinds_def
    swap_m68k_thread_state_regs_def
    swap_m68k_thread_state_user_reg_def
    swap_ppc_thread_state_t_def
    swap_ppc_thread_state64_t_def
    swap_m88k_thread_state_grf_t_def
    swap_m88k_thread_state_user_t_def
    swap_i386_thread_state_def
    swap_i386_exception_state_def
    swap_x86_thread_state64_def
    swap_hppa_integer_thread_state_def
    swap_hppa_frame_thread_state_def
    swap_hppa_fp_thread_state_def
    swap_arm_thread_state_t_def
    swap_m88k_thread_state_xrf_t_def
    swap_m88110_thread_state_impl_t_def
    swap_i386_float_state_def
    swap_sparc_thread_state_regs_def
    swap_sparc_thread_state_fpu_def
  by (simp_all add: Let_def swap_named_keeps update_named_keeps)

lemma check_flavors_keep:
  assumes "check_flavors ct = Some table" and "(fl, Checked nm d swap) \<in> set table"
  shows "keeps_kinds d (swap h t j)"
  using assms unfolding check_flavors_def flavors_defs
  by (auto split: if_splits simp: plain_def routines_keep swap_m68k_thread_state_68882_keeps)

lemma state_frame:
  assumes "(if cp_swapped cp then swap_at (raw_codec (kinds_of d)) f h m off else Some m) = Some m'"
    and "keeps_kinds d f"
  shows "tail_frame cp off m m'"
  using assms raw.swap_at_changes [of "kinds_of d" f h m off m']
  by (auto simp: tail_frame_def keeps_kinds_def split: if_splits)

lemma take_word_frame:
  "take_word cp m off = CHECK_GOOD (m', w) \<Longrightarrow> lo \<le> off \<Longrightarrow> tail_frame cp lo m m'"
  unfolding take_word_def
  by (drule word32.take_tail) (auto simp: tail_frame_def intro: changes_from_mono)

lemma check_states_frame:
  assumes "check_states cp table name i p nfl m state = CHECK_GOOD m'"
    and "\<And>fl nm d swap h t j. (fl, Checked nm d swap) \<in> set table \<Longrightarrow> keeps_kinds d (swap h t j)"
    and "lo \<le> state"
  shows "tail_frame cp lo m m'"
  using assms
proof (induction cp table name i p nfl m state rule: check_states.induct)
  case (1 cp table name i p nfl m state)
  show ?case
  proof (cases "state < p")
    case False
    then show ?thesis using 1(4) by (simp add: check_states.simps)
  next
    case True
    from 1(4) True obtain m1 flavor m2 count
      where w1: "take_word cp m state = CHECK_GOOD (m1, flavor)"
        and w2: "take_word cp m1 (state + 4) = CHECK_GOOD (m2, count)"
      by (subst (asm) check_states.simps) (auto split: check.splits)
    have words: "tail_frame cp lo m m2"
      using take_word_frame [OF w1 1(6)] take_word_frame [OF w2, of lo] 1(6) tail_frame_trans
      by (metis le_add1 le_refl le_trans)
    note step = 1(4) [unfolded check_states.simps [of cp table name i p nfl m state], simplified True w1, simplified w2, simplified]
    show ?thesis
    proof (cases "map_of table flavor")
      case None
      then have "tail_frame cp lo m2 m'"
        using 1(1) [OF True w1 refl w2 refl None] step 1(5,6) w2 by (auto split: if_splits)
      then show ?thesis using words tail_frame_trans by blast
    next
      case (Some rule)
      show ?thesis
      proof (cases rule)
        case Skipped
        then have "tail_frame cp lo m2 m'"
          using 1(3) [OF True w1 refl w2 refl] Some step 1(5,6) w2 by auto
        then show ?thesis using words tail_frame_trans by blast
      next
        case (Checked nm d swap)
        then obtain m3 where count: "count = state_count d"
          and m3: "(if cp_swapped cp
                     then swap_at (raw_codec (kinds_of d))
                            (swap (cp_host cp) (get_host_byte_sex (cp_host cp)) (\<lambda>_. 0))
                            (cp_host cp) m2 (state + 8)
                     else Some m2) = Some m3"
          and rest: "check_states cp table name i p (Suc nfl) m3 (state + 8 + decl_size d) = CHECK_GOOD m'"
          using step Some w2 by (auto split: if_splits option.splits)
        have "(flavor, Checked nm d swap) \<in> set table"
          using Some Checked by (simp add: map_of_SomeD)
        then have "tail_frame cp (state + 8) m2 m3" using state_frame [OF m3] 1(5) by blast
        moreover have "tail_frame cp lo m3 m'"
          using 1(2) [OF True w1 refl w2 refl Some Checked, of m3] count m3 rest 1(5,6) by auto
        ultimately show ?thesis
          using words 1(6) by (meson changes_from_mono tail_frame_def tail_frame_trans le_refl trans_le_add1)
      qed
    qed
  qed
qed

section \<open>Each case\<close>

text \<open>
  Which variable of the loop remembers a load command of which there may be one.
\<close>

definition once_commands :: "u32 list" where
  "once_commands =
     [LC_SYMTAB, LC_DYSYMTAB, LC_ROUTINES, LC_ROUTINES_64, LC_TWOLEVEL_HINTS, LC_CODE_SIGNATURE,
      LC_SEGMENT_SPLIT_INFO, LC_PREBIND_CKSUM, LC_UUID]"

definition remembered :: "u32 \<Rightarrow> check_state \<Rightarrow> nat option" where
  "remembered cmd cs =
     (if cmd = LC_SYMTAB then cs_st cs
      else if cmd = LC_DYSYMTAB then cs_dyst cs
      else if cmd = LC_ROUTINES then cs_rc cs
      else if cmd = LC_ROUTINES_64 then cs_rc64 cs
      else if cmd = LC_TWOLEVEL_HINTS then cs_hints cs
      else if cmd = LC_CODE_SIGNATURE then cs_code_sig cs
      else if cmd = LC_SEGMENT_SPLIT_INFO then cs_split_info cs
      else if cmd = LC_PREBIND_CKSUM then cs_cs cs
      else if cmd = LC_UUID then cs_uuid cs
      else None)"

text \<open>The contract of the case for \<open>cmd\<close>: its frame, and what it remembers.\<close>

definition case_ok :: "u32 \<Rightarrow> check_params \<Rightarrow> nat \<Rightarrow> check_state \<Rightarrow> check_state \<Rightarrow> bool" where
  "case_ok cmd cp lc cs cs' \<longleftrightarrow>
     command_frame cp lc (cs_mem cs) (cs_mem cs') \<and>
     (\<forall>k \<in> set once_commands. remembered k cs' = (if k = cmd then Some lc else remembered k cs)) \<and>
     (cmd \<in> set once_commands \<longrightarrow> remembered cmd cs = None)"

lemma case_ok_plain:
  "cmd \<notin> set once_commands \<Longrightarrow> command_frame cp lc (cs_mem cs) m \<Longrightarrow>
     case_ok cmd cp lc cs (cs\<lparr>cs_mem := m\<rparr>)"
  by (auto simp: case_ok_def remembered_def)

lemmas case_simps = and_then_GOOD_iff case_prod_beta split_paired_Ex

lemma plain_cases:
  "check_LC_SYMSEG cp i lc cs = CHECK_GOOD cs' \<Longrightarrow> \<exists>m. command_frame cp lc (cs_mem cs) m \<and> cs' = cs\<lparr>cs_mem := m\<rparr>"
  "check_LC_ENCRYPTION_INFO cp i lc cs = CHECK_GOOD cs' \<Longrightarrow> \<exists>m. command_frame cp lc (cs_mem cs) m \<and> cs' = cs\<lparr>cs_mem := m\<rparr>"
  "check_LC_SUB_FRAMEWORK cp i lc cs = CHECK_GOOD cs' \<Longrightarrow> \<exists>m. command_frame cp lc (cs_mem cs) m \<and> cs' = cs\<lparr>cs_mem := m\<rparr>"
  "check_LC_SUB_UMBRELLA cp i lc cs = CHECK_GOOD cs' \<Longrightarrow> \<exists>m. command_frame cp lc (cs_mem cs) m \<and> cs' = cs\<lparr>cs_mem := m\<rparr>"
  "check_LC_SUB_LIBRARY cp i lc cs = CHECK_GOOD cs' \<Longrightarrow> \<exists>m. command_frame cp lc (cs_mem cs) m \<and> cs' = cs\<lparr>cs_mem := m\<rparr>"
  "check_LC_SUB_CLIENT cp i lc cs = CHECK_GOOD cs' \<Longrightarrow> \<exists>m. command_frame cp lc (cs_mem cs) m \<and> cs' = cs\<lparr>cs_mem := m\<rparr>"
  "check_LC_PREBOUND_DYLIB cp i lc cs = CHECK_GOOD cs' \<Longrightarrow> \<exists>m. command_frame cp lc (cs_mem cs) m \<and> cs' = cs\<lparr>cs_mem := m\<rparr>"
  "check_LC_IDENT cp i lc cs = CHECK_GOOD cs' \<Longrightarrow> \<exists>m. command_frame cp lc (cs_mem cs) m \<and> cs' = cs\<lparr>cs_mem := m\<rparr>"
  "check_LC_RPATH cp i lc cs = CHECK_GOOD cs' \<Longrightarrow> \<exists>m. command_frame cp lc (cs_mem cs) m \<and> cs' = cs\<lparr>cs_mem := m\<rparr>"
  "check_LC_FVMLIB cp i lc cs = CHECK_GOOD cs' \<Longrightarrow> \<exists>m. command_frame cp lc (cs_mem cs) m \<and> cs' = cs\<lparr>cs_mem := m\<rparr>"
  "check_LC_DYLINKER cp i lc cs = CHECK_GOOD cs' \<Longrightarrow> \<exists>m. command_frame cp lc (cs_mem cs) m \<and> cs' = cs\<lparr>cs_mem := m\<rparr>"
  "check_dylib_command nm cp i lc cs = CHECK_GOOD cs' \<Longrightarrow> \<exists>m. command_frame cp lc (cs_mem cs) m \<and> cs' = cs\<lparr>cs_mem := m\<rparr>"
  unfolding check_LC_SYMSEG_def check_LC_ENCRYPTION_INFO_def check_LC_SUB_FRAMEWORK_def check_LC_SUB_UMBRELLA_def check_LC_SUB_LIBRARY_def check_LC_SUB_CLIENT_def check_LC_PREBOUND_DYLIB_def check_LC_IDENT_def check_LC_RPATH_def check_LC_FVMLIB_def check_LC_DYLINKER_def check_dylib_command_def
  by (auto simp: case_simps Let_def dest!: take_frames)

lemma once_cases:
  "check_LC_SYMTAB cp i lc cs = CHECK_GOOD cs' \<Longrightarrow> case_ok LC_SYMTAB cp lc cs cs'"
  "check_LC_DYSYMTAB cp i lc cs = CHECK_GOOD cs' \<Longrightarrow> case_ok LC_DYSYMTAB cp lc cs cs'"
  "check_LC_ROUTINES cp i lc cs = CHECK_GOOD cs' \<Longrightarrow> case_ok LC_ROUTINES cp lc cs cs'"
  "check_LC_ROUTINES_64 cp i lc cs = CHECK_GOOD cs' \<Longrightarrow> case_ok LC_ROUTINES_64 cp lc cs cs'"
  "check_LC_TWOLEVEL_HINTS cp i lc cs = CHECK_GOOD cs' \<Longrightarrow> case_ok LC_TWOLEVEL_HINTS cp lc cs cs'"
  "check_LC_CODE_SIGNATURE cp i lc cs = CHECK_GOOD cs' \<Longrightarrow> case_ok LC_CODE_SIGNATURE cp lc cs cs'"
  "check_LC_SEGMENT_SPLIT_INFO cp i lc cs = CHECK_GOOD cs' \<Longrightarrow> case_ok LC_SEGMENT_SPLIT_INFO cp lc cs cs'"
  "check_LC_PREBIND_CKSUM cp i lc cs = CHECK_GOOD cs' \<Longrightarrow> case_ok LC_PREBIND_CKSUM cp lc cs cs'"
  "check_LC_UUID cp i lc cs = CHECK_GOOD cs' \<Longrightarrow> case_ok LC_UUID cp lc cs cs'"
  unfolding check_LC_SYMTAB_def check_LC_DYSYMTAB_def check_LC_ROUTINES_def check_LC_ROUTINES_64_def check_LC_TWOLEVEL_HINTS_def check_LC_CODE_SIGNATURE_def check_LC_SEGMENT_SPLIT_INFO_def check_LC_PREBIND_CKSUM_def check_LC_UUID_def case_ok_def once_commands_def remembered_def
  by (auto simp: case_simps dest!: take_frames)

lemma segment_cases:
  "check_LC_SEGMENT cp i lc cs = CHECK_GOOD cs' \<Longrightarrow>
     \<exists>m. command_frame cp lc (cs_mem cs) m \<and> cs' = cs\<lparr>cs_mem := m\<rparr>"
  "check_LC_SEGMENT_64 cp i lc cs = CHECK_GOOD cs' \<Longrightarrow>
     \<exists>m. command_frame cp lc (cs_mem cs) m \<and> cs' = cs\<lparr>cs_mem := m\<rparr>"
  unfolding check_LC_SEGMENT_def check_LC_SEGMENT_64_def
  by (auto simp: and_then_GOOD_iff
      dest!: segment_command.take_frame [OF starts_command_codecs(2)]
        segment_command_64.take_frame [OF starts_command_codecs(3)] sections_frame sections_64_frame
      elim!: command_then_tail)

lemma thread_case:
  assumes "check_LC_THREAD cp i lc cs = CHECK_GOOD cs'"
  shows "\<exists>m. command_frame cp lc (cs_mem cs) m \<and> cs' = cs\<lparr>cs_mem := m\<rparr>"
proof -
  from assms obtain m m1 ut where ut: "take_struct thread_command_codec swap_thread_command cp (cs_mem cs) lc =
        CHECK_GOOD (m1, ut)"
    and m: "check_thread cp i lc (cs_mem cs) = CHECK_GOOD m" and cs': "cs' = cs\<lparr>cs_mem := m\<rparr>"
    by (auto simp: check_LC_THREAD_def check_thread_def and_then_GOOD_iff)
  have frame: "command_frame cp lc (cs_mem cs) m1"
    using ut by (rule thread_command.take_frame [OF starts_command_codecs(15)])
  have "tail_frame cp (lc + 8) m1 m"
  proof (cases "check_flavors (cp_cputype cp)")
    case None
    then have "m = m1"
      using m ut by (auto simp: check_thread_def and_then_GOOD_iff Let_def)
    then show ?thesis by simp
  next
    case (Some table)
    then have "check_states cp table (if ut_cmd ut = LC_UNIXTHREAD then ''LC_UNIXTHREAD'' else ''LC_THREAD'')
        i (lc + unat (ut_cmdsize ut)) 0 m1 (lc + 8) = CHECK_GOOD m"
      using m ut by (simp add: check_thread_def Let_def)
    then show ?thesis
      using check_states_frame check_flavors_keep [OF Some] by blast
  qed
  then show ?thesis using command_then_tail [OF frame] cs' by auto
qed

lemma not_once:
  "LC_SEGMENT \<notin> set once_commands" "LC_SEGMENT_64 \<notin> set once_commands"
  by (simp_all add: once_commands_def)

text \<open>The switch: the contract holds whatever the command is.\<close>

lemma check_command_ok:
  assumes "check_command cmd cp i lc cs = CHECK_GOOD cs'"
  shows "case_ok cmd cp lc cs cs'"
proof (cases "cmd \<in> set once_commands")
  case True
  then consider "cmd = LC_SYMTAB" | "cmd = LC_DYSYMTAB" | "cmd = LC_ROUTINES" | "cmd = LC_ROUTINES_64"
    | "cmd = LC_TWOLEVEL_HINTS" | "cmd = LC_CODE_SIGNATURE" | "cmd = LC_SEGMENT_SPLIT_INFO"
    | "cmd = LC_PREBIND_CKSUM" | "cmd = LC_UUID"
    by (auto simp: once_commands_def)
  then show ?thesis
    using assms by cases (simp_all add: check_command_def once_cases)
next
  case False
  then have "\<exists>m. command_frame cp lc (cs_mem cs) m \<and> cs' = cs\<lparr>cs_mem := m\<rparr>"
    using assms unfolding check_command_def once_commands_def
    by (auto split: if_splits dest!: plain_cases segment_cases thread_case)
  then show ?thesis using case_ok_plain [OF False] by blast
qed

text \<open>The commands the switch knows.\<close>

definition known_commands :: "u32 list" where
  "known_commands =
     [LC_SEGMENT, LC_SEGMENT_64, LC_SYMTAB, LC_DYSYMTAB, LC_ROUTINES, LC_ROUTINES_64,
      LC_TWOLEVEL_HINTS, LC_CODE_SIGNATURE, LC_SEGMENT_SPLIT_INFO, LC_ENCRYPTION_INFO,
      LC_PREBIND_CKSUM, LC_UUID, LC_SYMSEG, LC_IDFVMLIB, LC_LOADFVMLIB, LC_ID_DYLIB, LC_LOAD_DYLIB,
      LC_LOAD_WEAK_DYLIB, LC_REEXPORT_DYLIB, LC_LAZY_LOAD_DYLIB, LC_SUB_FRAMEWORK, LC_SUB_UMBRELLA,
      LC_SUB_LIBRARY, LC_SUB_CLIENT, LC_PREBOUND_DYLIB, LC_ID_DYLINKER, LC_LOAD_DYLINKER,
      LC_UNIXTHREAD, LC_THREAD, LC_IDENT, LC_RPATH]"

lemma check_command_known:
  "check_command cmd cp i lc cs = CHECK_GOOD cs' \<Longrightarrow> cmd \<in> set known_commands"
  by (auto simp: check_command_def known_commands_def split: if_splits)

end
