(* ===== verification/CheckSound.thy ===== *)
theory CheckSound
  imports CheckFrame
begin

text \<open>
  What an object file is that \<^verbatim>\<open>check_Mach_O\<close> accepts: an abstract specification of the load
  commands as a list read from memory, and the theorems that the accepted object meets it.
\<close>

section \<open>Load commands as a list\<close>

text \<open>The \<open>n\<close> load commands from an offset on, as the host reads them, with their offsets.\<close>

fun commands_at :: "byte_sex \<Rightarrow> mem \<Rightarrow> nat \<Rightarrow> nat \<Rightarrow> (nat \<times> load_command) list option" where
  "commands_at h m 0 off = Some []"
| "commands_at h m (Suc n) off =
     (case load load_command_codec h m off of
        None \<Rightarrow> None
      | Some l \<Rightarrow> map_option ((#) (off, l)) (commands_at h m n (off + unat (lc_cmdsize l))))"

text \<open>A load command the loop lets pass, and where a list of them ends.\<close>

definition command_fits :: "u32 \<Rightarrow> nat \<Rightarrow> nat \<times> load_command \<Rightarrow> bool" where
  "command_fits mult stop = (\<lambda>(off, l).
     lc_cmd l \<in> set known_commands \<and> lc_cmdsize l \<noteq> 0 \<and> lc_cmdsize l mod mult = 0 \<and>
     off + unat (lc_cmdsize l) \<le> stop)"

definition commands_end :: "nat \<Rightarrow> (nat \<times> load_command) list \<Rightarrow> nat" where
  "commands_end off cmds = off + sum_list (map (\<lambda>(off, l). unat (lc_cmdsize l)) cmds)"

lemma commands_end_simps [simp]:
  "commands_end off [] = off"
  "commands_end off ((o', l) # cmds) = commands_end (off + unat (lc_cmdsize l)) cmds"
  by (simp_all add: commands_end_def)

definition occurrences :: "u32 \<Rightarrow> (nat \<times> load_command) list \<Rightarrow> nat list" where
  "occurrences k cmds = map fst (filter (\<lambda>(off, l). lc_cmd l = k) cmds)"

lemma occurrences_simps [simp]:
  "occurrences k [] = []"
  "occurrences k ((off, l) # cmds) = (if lc_cmd l = k then [off] else []) @ occurrences k cmds"
  by (simp_all add: occurrences_def)

section \<open>One round and all rounds\<close>

lemma check_one_GOOD:
  assumes "check_one cp i lc cs = CHECK_GOOD (lc', cs')"
  obtains l0 l where "load load_command_codec (cp_host cp) (cs_mem cs) lc = Some l0"
    and "l = as_host cp l0"
    and "command_fits (load_command_multiple cp) (load_commands cp + unat (sizeofcmds cp)) (lc, l)"
    and "lc' = lc + unat (lc_cmdsize l)"
    and "check_command (lc_cmd l) cp i lc cs = CHECK_GOOD cs'"
proof -
  from assms obtain l0 where l0: "load load_command_codec (cp_host cp) (cs_mem cs) lc = Some l0"
    and "check_command (lc_cmd (as_host cp l0)) cp i lc cs = CHECK_GOOD cs'"
    and "lc' = lc + unat (lc_cmdsize (as_host cp l0))"
    and "lc_cmdsize (as_host cp l0) \<noteq> 0 \<and> lc_cmdsize (as_host cp l0) mod load_command_multiple cp = 0 \<and>
      lc + unat (lc_cmdsize (as_host cp l0)) \<le> load_commands cp + unat (sizeofcmds cp)"
    unfolding check_one_def as_host_def [symmetric] Let_def
    by (auto simp: and_then_GOOD_iff not_less del: mod_0_imp_dvd)
  then show thesis
    using check_command_known by (intro that [of l0 "as_host cp l0"]) (simp_all add: command_fits_def)
qed

lemma check_all_changes:
  "check_all cp n i lc cs = CHECK_GOOD (lc', cs') \<Longrightarrow>
     changes_from lc (cs_mem cs) (cs_mem cs') \<and> (\<not> cp_swapped cp \<longrightarrow> cs_mem cs' = cs_mem cs)"
proof (induction n arbitrary: i lc cs)
  case (Suc n)
  then obtain lc1 cs1 where one: "check_one cp i lc cs = CHECK_GOOD (lc1, cs1)"
    and rest: "check_all cp n (Suc i) lc1 cs1 = CHECK_GOOD (lc', cs')"
    by (auto simp: and_then_GOOD_iff)
  from one obtain l :: load_command where "lc1 = lc + unat (lc_cmdsize l)"
    and "check_command (lc_cmd l) cp i lc cs = CHECK_GOOD cs1"
    by (rule check_one_GOOD) (rule that)
  then have "lc \<le> lc1" and "command_frame cp lc (cs_mem cs) (cs_mem cs1)"
    using check_command_ok by (auto simp: case_ok_def)
  then have "changes_from lc (cs_mem cs) (cs_mem cs1) \<and> (\<not> cp_swapped cp \<longrightarrow> cs_mem cs1 = cs_mem cs)"
    by (simp add: command_frame_def)
  moreover have "changes_from lc (cs_mem cs1) (cs_mem cs')"
    using changes_from_mono [OF conjunct1 [OF Suc.IH [OF rest]] \<open>lc \<le> lc1\<close>] .
  ultimately show ?case
    using changes_from_trans [of lc "cs_mem cs" "cs_mem cs1" "cs_mem cs'"] Suc.IH [OF rest] by simp
qed simp

text \<open>
  In an object of 64 bits the size of a load command is at least 8, so no later command reaches
  its first two words.  In one of 32 bits this holds of a command that is not 4 bytes long, or
  when nothing is written.
\<close>

definition headers_kept :: "check_params \<Rightarrow> bool" where
  "headers_kept cp \<longleftrightarrow> \<not> cp_swapped cp \<or> load_command_multiple cp = 8"

lemma multiple_of_8: "(w :: u32) \<noteq> 0 \<Longrightarrow> w mod 8 = 0 \<Longrightarrow> 8 \<le> unat w"
proof -
  assume "w \<noteq> 0" and "w mod 8 = 0"
  then have "unat w \<noteq> 0" and "unat w mod 8 = 0"
    by (simp_all add: unat_eq_0 flip: unat_mod_distrib [of w 8, simplified])
  then show ?thesis by (meson dvd_imp_le mod_0_imp_dvd neq0_conv)
qed

lemma first_command_kept:
  assumes "check_one cp i lc cs = CHECK_GOOD (lc1, cs1)"
    and rest: "check_all cp n j lc1 cs1 = CHECK_GOOD (lc', cs')"
    and kept: "headers_kept cp"
    and l0: "load load_command_codec (cp_host cp) (cs_mem cs) lc = Some l0"
  shows "load load_command_codec (cp_host cp) (cs_mem cs') lc = Some (as_host cp l0)"
proof -
  define l where "l = as_host cp l0"
  have fits: "command_fits (load_command_multiple cp) (load_commands cp + unat (sizeofcmds cp)) (lc, l)"
    and lc1: "lc1 = lc + unat (lc_cmdsize l)"
    and "check_command (lc_cmd l) cp i lc cs = CHECK_GOOD cs1"
    using check_one_GOOD [OF assms(1)] l0 by (auto simp: l_def)
  then have l1: "load load_command_codec (cp_host cp) (cs_mem cs1) lc = Some l"
    using check_command_ok l0 by (auto simp: case_ok_def command_frame_def l_def)
  show ?thesis
  proof (cases "cp_swapped cp")
    case True
    then have "8 \<le> unat (lc_cmdsize l)"
      using kept fits multiple_of_8 by (simp add: headers_kept_def command_fits_def)
    then show ?thesis
      using changes_from_load [of lc1 "cs_mem cs1" "cs_mem cs'" lc load_command_codec]
        check_all_changes [OF rest] l1 by (simp add: lc1 l_def)
  next
    case False
    then show ?thesis using check_all_changes [OF rest] l1 by (simp add: l_def)
  qed
qed

lemma check_all_commands:
  assumes "check_all cp n i lc cs = CHECK_GOOD (lc', cs')" and "headers_kept cp"
  shows "\<exists>cmds. commands_at (cp_host cp) (cs_mem cs') n lc = Some cmds \<and> commands_end lc cmds = lc' \<and>
    list_all (command_fits (load_command_multiple cp) (load_commands cp + unat (sizeofcmds cp))) cmds \<and>
    (\<forall>k \<in> set once_commands. length (occurrences k cmds) \<le> 1 \<and>
       (remembered k cs \<noteq> None \<longrightarrow> occurrences k cmds = []) \<and>
       remembered k cs' = (case occurrences k cmds of [] \<Rightarrow> remembered k cs | p # _ \<Rightarrow> Some p))"
  using assms(1)
proof (induction n arbitrary: i lc cs)
  case (Suc n)
  then obtain lc1 cs1 where one: "check_one cp i lc cs = CHECK_GOOD (lc1, cs1)"
    and rest: "check_all cp n (Suc i) lc1 cs1 = CHECK_GOOD (lc', cs')"
    by (auto simp: and_then_GOOD_iff)
  from one obtain l0 l where l0: "load load_command_codec (cp_host cp) (cs_mem cs) lc = Some l0"
    and l: "l = as_host cp l0"
    and fits: "command_fits (load_command_multiple cp) (load_commands cp + unat (sizeofcmds cp)) (lc, l)"
    and lc1: "lc1 = lc + unat (lc_cmdsize l)"
    and cmd: "check_command (lc_cmd l) cp i lc cs = CHECK_GOOD cs1"
    by (rule check_one_GOOD)
  have ok: "case_ok (lc_cmd l) cp lc cs cs1" using cmd by (rule check_command_ok)
  have l1: "load load_command_codec (cp_host cp) (cs_mem cs1) lc = Some l"
    using ok l0 l by (simp add: case_ok_def command_frame_def)
  have "load load_command_codec (cp_host cp) (cs_mem cs') lc = Some l"
    using first_command_kept [OF one rest assms(2) l0] l by simp
  moreover obtain cmds where cmds: "commands_at (cp_host cp) (cs_mem cs') n lc1 = Some cmds"
    and "commands_end lc1 cmds = lc'"
    and "list_all (command_fits (load_command_multiple cp) (load_commands cp + unat (sizeofcmds cp))) cmds"
    and once: "\<forall>k \<in> set once_commands. length (occurrences k cmds) \<le> 1 \<and>
       (remembered k cs1 \<noteq> None \<longrightarrow> occurrences k cmds = []) \<and>
       remembered k cs' = (case occurrences k cmds of [] \<Rightarrow> remembered k cs1 | p # _ \<Rightarrow> Some p)"
    using Suc.IH [OF rest] by blast
  moreover have "length (occurrences k ((lc, l) # cmds)) \<le> 1 \<and>
       (remembered k cs \<noteq> None \<longrightarrow> occurrences k ((lc, l) # cmds) = []) \<and>
       remembered k cs' =
         (case occurrences k ((lc, l) # cmds) of [] \<Rightarrow> remembered k cs | p # _ \<Rightarrow> Some p)"
    if "k \<in> set once_commands" for k
  proof -
    have "remembered k cs1 = (if k = lc_cmd l then Some lc else remembered k cs)"
      and "k = lc_cmd l \<Longrightarrow> remembered k cs = None"
      using ok that by (auto simp: case_ok_def)
    then show ?thesis using bspec [OF once that] by (auto split: if_splits list.splits)
  qed
  ultimately show ?case using fits lc1 by (intro exI [of _ "(lc, l) # cmds"]) simp
qed simp

section \<open>The accepted object\<close>

text \<open>The header of an object and its load commands, read from memory.\<close>

definition header_at :: "byte_sex \<Rightarrow> bool \<Rightarrow> mem \<Rightarrow> object_header option" where
  "header_at h is32 m =
     (if is32 then map_option header_32 (load mach_header_codec h m 0)
      else map_option header_64 (load mach_header_64_codec h m 0))"

definition object_commands ::
  "byte_sex \<Rightarrow> bool \<Rightarrow> mem \<Rightarrow> (object_header \<times> (nat \<times> load_command) list) option" where
  "object_commands h is32 m =
     (case header_at h is32 m of
        None \<Rightarrow> None
      | Some oh \<Rightarrow> map_option (Pair oh) (commands_at h m (unat (oh_ncmds oh)) (oh_size oh)))"

lemma header_sizes:
  "oh_size (header_32 mh) = 28" "oh_multiple (header_32 mh) = 4"
  "oh_size (header_64 mh64) = 32" "oh_multiple (header_64 mh64) = 8"
  by (simp_all add: header_32_def header_64_def)

lemma take_header_at:
  assumes "take_header is32 swapped h m = CHECK_GOOD (m', oh)"
  shows "header_at h is32 m' = Some oh" and "swapped \<or> m' = m" and "length m' = length m"
    and "oh_size oh = (if is32 then 28 else 32)" and "oh_multiple oh = (if is32 then 4 else 8)"
  using assms mach_header.swap_at_length mach_header_64.swap_at_length
  by (auto simp: take_header_def header_at_def and_then_GOOD_iff read_struct_def header_sizes
      split: if_splits option.splits)

lemma header_at_changes:
  assumes "changes_from off m m'" and "(if is32 then 28 else 32) \<le> off"
  shows "header_at h is32 m' = header_at h is32 m"
  using assms changes_from_load [of off m m' 0 mach_header_codec h]
    changes_from_load [of off m m' 0 mach_header_64_codec h]
  by (auto simp: header_at_def)

lemma on_object_GOOD_iff [simp]: "on_object ofile r = CHECK_GOOD x \<longleftrightarrow> r = CHECK_GOOD x"
proof (cases r)
  case (CHECK_BAD e)
  then show ?thesis by (cases e) simp
qed simp_all

lemma params_of_simps [simp]:
  "cp_host (params_of sw h sz oh) = h" "cp_swapped (params_of sw h sz oh) = sw"
  "cp_size (params_of sw h sz oh) = sz" "load_commands (params_of sw h sz oh) = oh_size oh"
  "sizeofcmds (params_of sw h sz oh) = oh_sizeofcmds oh"
  "load_command_multiple (params_of sw h sz oh) = oh_multiple oh"
  "sizeof_nlist (params_of sw h sz oh) = oh_nlist oh"
  "sizeof_dylib_module (params_of sw h sz oh) = oh_module oh"
  by (simp_all add: params_of_def)

text \<open>What an accepting run of the routine did.\<close>

lemma check_Mach_O_GOOD:
  assumes "check_Mach_O h ofile = CHECK_GOOD ofile'"
  obtains m oh lc cs where
    "take_header (mh32 ofile) (get_host_byte_sex h \<noteq> object_byte_sex ofile) (get_host_byte_sex h)
       (object_addr ofile) = CHECK_GOOD (m, oh)"
    and "oh_sizeofcmds oh + of_nat (oh_size oh) \<le> object_size ofile"
    and "check_all (params_of (get_host_byte_sex h \<noteq> object_byte_sex ofile) (get_host_byte_sex h)
       (object_size ofile) oh) (unat (oh_ncmds oh)) 0 (oh_size oh) (start_state m) = CHECK_GOOD (lc, cs)"
    and "check_remembered (params_of (get_host_byte_sex h \<noteq> object_byte_sex ofile) (get_host_byte_sex h)
       (object_size ofile) oh) cs = CHECK_GOOD ()"
    and "lc = oh_size oh + unat (oh_sizeofcmds oh)"
    and "ofile' = ofile\<lparr>mh_cputype_of := oh_cputype oh, mh_cpusubtype_of := oh_cpusubtype oh,
       mh_filetype_of := oh_filetype oh, object_addr := cs_mem cs,
       headers_swapped := headers_swapped ofile \<or> get_host_byte_sex h \<noteq> object_byte_sex ofile\<rparr>"
proof -
  from assms obtain m oh where
    hdr: "take_header (mh32 ofile) (get_host_byte_sex h \<noteq> object_byte_sex ofile) (get_host_byte_sex h)
       (object_addr ofile) = CHECK_GOOD (m, oh)"
    and fits: "\<not> oh_sizeofcmds oh + of_nat (oh_size oh) > object_size ofile"
    and rest: "\<exists>cs. check_commands (params_of (get_host_byte_sex h \<noteq> object_byte_sex ofile)
         (get_host_byte_sex h) (object_size ofile) oh) (unat (oh_ncmds oh)) m = CHECK_GOOD cs \<and>
       ofile' = ofile\<lparr>mh_cputype_of := oh_cputype oh, mh_cpusubtype_of := oh_cpusubtype oh,
       mh_filetype_of := oh_filetype oh, object_addr := cs_mem cs,
       headers_swapped := headers_swapped ofile \<or> get_host_byte_sex h \<noteq> object_byte_sex ofile\<rparr>"
    unfolding check_Mach_O_def Let_def
    by (simp only: case_prod_beta and_then_GOOD_iff) (simp add: split_paired_Ex del: not_less, elim exE conjE, rule that, assumption, assumption, rule exI, rule conjI, assumption, simp)
  from rest obtain cs where cs: "check_commands (params_of (get_host_byte_sex h \<noteq> object_byte_sex ofile)
         (get_host_byte_sex h) (object_size ofile) oh) (unat (oh_ncmds oh)) m = CHECK_GOOD cs" 
    and ofile': "ofile' = ofile\<lparr>mh_cputype_of := oh_cputype oh, mh_cpusubtype_of := oh_cpusubtype oh,
       mh_filetype_of := oh_filetype oh, object_addr := cs_mem cs,
       headers_swapped := headers_swapped ofile \<or> get_host_byte_sex h \<noteq> object_byte_sex ofile\<rparr>" by blast
  from cs obtain lc where "check_all (params_of (get_host_byte_sex h \<noteq> object_byte_sex ofile) (get_host_byte_sex h)
       (object_size ofile) oh) (unat (oh_ncmds oh)) 0 (oh_size oh) (start_state m) = CHECK_GOOD (lc, cs)"
    and "check_remembered (params_of (get_host_byte_sex h \<noteq> object_byte_sex ofile) (get_host_byte_sex h)
       (object_size ofile) oh) cs = CHECK_GOOD ()"
    and "lc = oh_size oh + unat (oh_sizeofcmds oh)"
    by (auto simp: check_commands_def and_then_GOOD_iff)
  with hdr fits ofile' show thesis by (intro that) (simp_all only: not_less)
qed

lemma cs_mem_start [simp]: "cs_mem (start_state m) = m"
  by (simp add: start_state_def)

lemma remembered_start [simp]: "remembered k (start_state m) = None"
  by (simp add: remembered_def start_state_def)

section \<open>The load commands of an accepted object\<close>

text \<open>
  The header of an accepted object is not touched by its load commands; so what the routine read
  from it is what is read from it afterwards.
\<close>

lemma accepted_header:
  assumes "check_Mach_O h ofile = CHECK_GOOD ofile'"
  obtains m oh lc cs where
    "take_header (mh32 ofile) (get_host_byte_sex h \<noteq> object_byte_sex ofile) (get_host_byte_sex h)
       (object_addr ofile) = CHECK_GOOD (m, oh)"
    and "header_at (get_host_byte_sex h) (mh32 ofile) (object_addr ofile') = Some oh"
    and "check_all (params_of (get_host_byte_sex h \<noteq> object_byte_sex ofile) (get_host_byte_sex h)
       (object_size ofile) oh) (unat (oh_ncmds oh)) 0 (oh_size oh) (start_state m) = CHECK_GOOD (lc, cs)"
    and "check_remembered (params_of (get_host_byte_sex h \<noteq> object_byte_sex ofile) (get_host_byte_sex h)
       (object_size ofile) oh) cs = CHECK_GOOD ()"
    and "lc = oh_size oh + unat (oh_sizeofcmds oh)" and "cs_mem cs = object_addr ofile'"
proof -
  let ?cp = "params_of (get_host_byte_sex h \<noteq> object_byte_sex ofile) (get_host_byte_sex h) (object_size ofile)"
  from assms obtain m oh lc cs where
    hdr: "take_header (mh32 ofile) (get_host_byte_sex h \<noteq> object_byte_sex ofile) (get_host_byte_sex h)
       (object_addr ofile) = CHECK_GOOD (m, oh)"
    and all: "check_all (?cp oh) (unat (oh_ncmds oh)) 0 (oh_size oh) (start_state m) = CHECK_GOOD (lc, cs)"
    and rem: "check_remembered (?cp oh) cs = CHECK_GOOD ()"
    and lc: "lc = oh_size oh + unat (oh_sizeofcmds oh)"
    and mem: "cs_mem cs = object_addr ofile'"
    by (rule check_Mach_O_GOOD) (rule that, simp_all)
  have "changes_from (oh_size oh) m (object_addr ofile')"
    using check_all_changes [OF all] by (simp add: mem)
  then have "header_at (get_host_byte_sex h) (mh32 ofile) (object_addr ofile') = Some oh"
    using header_at_changes [of "oh_size oh"] take_header_at(1,4) [OF hdr] by simp
  then show thesis using that hdr all rem lc mem by blast
qed

definition reads_headers :: "byte_sex \<Rightarrow> ofile \<Rightarrow> bool" where
  "reads_headers h ofile \<longleftrightarrow> object_byte_sex ofile = get_host_byte_sex h \<or> \<not> mh32 ofile"

definition commands_tile :: "object_header \<Rightarrow> (nat \<times> load_command) list \<Rightarrow> bool" where
  "commands_tile oh cmds \<longleftrightarrow>
     length cmds = unat (oh_ncmds oh) \<and>
     list_all (command_fits (oh_multiple oh) (oh_size oh + unat (oh_sizeofcmds oh))) cmds \<and>
     commands_end (oh_size oh) cmds = oh_size oh + unat (oh_sizeofcmds oh) \<and>
     list_all (\<lambda>k. length (occurrences k cmds) \<le> 1) once_commands"

lemma length_commands_at: "commands_at h m n off = Some cmds \<Longrightarrow> length cmds = n"
  by (induction n arbitrary: off cmds) (auto split: option.splits)

lemma accepted_commands:
  assumes "check_Mach_O h ofile = CHECK_GOOD ofile'" and "reads_headers h ofile"
  obtains m oh lc cs cmds where
    "object_commands (get_host_byte_sex h) (mh32 ofile) (object_addr ofile') = Some (oh, cmds)"
    and "check_all (params_of (get_host_byte_sex h \<noteq> object_byte_sex ofile) (get_host_byte_sex h)
       (object_size ofile) oh) (unat (oh_ncmds oh)) 0 (oh_size oh) (start_state m) = CHECK_GOOD (lc, cs)"
    and "check_remembered (params_of (get_host_byte_sex h \<noteq> object_byte_sex ofile) (get_host_byte_sex h)
       (object_size ofile) oh) cs = CHECK_GOOD ()"
    and "cs_mem cs = object_addr ofile'" and "commands_tile oh cmds"
    and "\<And>k. k \<in> set once_commands \<Longrightarrow>
       remembered k cs = (case occurrences k cmds of [] \<Rightarrow> None | p # _ \<Rightarrow> Some p)"
proof -
  let ?cp = "params_of (get_host_byte_sex h \<noteq> object_byte_sex ofile) (get_host_byte_sex h) (object_size ofile)"
  from assms(1) obtain m oh lc cs where
    hdr: "take_header (mh32 ofile) (get_host_byte_sex h \<noteq> object_byte_sex ofile) (get_host_byte_sex h)
       (object_addr ofile) = CHECK_GOOD (m, oh)"
    and hat: "header_at (get_host_byte_sex h) (mh32 ofile) (object_addr ofile') = Some oh"
    and all: "check_all (?cp oh) (unat (oh_ncmds oh)) 0 (oh_size oh) (start_state m) = CHECK_GOOD (lc, cs)"
    and rem: "check_remembered (?cp oh) cs = CHECK_GOOD ()"
    and lc: "lc = oh_size oh + unat (oh_sizeofcmds oh)"
    and mem: "cs_mem cs = object_addr ofile'"
    by (rule accepted_header)
  have "headers_kept (?cp oh)"
    using assms(2) take_header_at(5) [OF hdr] by (auto simp: headers_kept_def reads_headers_def)
  from check_all_commands [OF all this] obtain cmds where
    cmds: "commands_at (get_host_byte_sex h) (object_addr ofile') (unat (oh_ncmds oh)) (oh_size oh) = Some cmds"
    and fits: "list_all (command_fits (oh_multiple oh) (oh_size oh + unat (oh_sizeofcmds oh))) cmds"
    and stop: "commands_end (oh_size oh) cmds = lc"
    and once: "\<forall>k \<in> set once_commands. length (occurrences k cmds) \<le> 1 \<and>
      remembered k cs = (case occurrences k cmds of [] \<Rightarrow> None | p # _ \<Rightarrow> Some p)"
    by (auto simp: mem cong: list.case_cong)
  have "object_commands (get_host_byte_sex h) (mh32 ofile) (object_addr ofile') = Some (oh, cmds)"
    by (simp add: object_commands_def hat cmds)
  moreover have "commands_tile oh cmds"
    using length_commands_at [OF cmds] fits stop once lc by (simp add: commands_tile_def list_all_iff)
  ultimately show thesis using that all rem mem once by blast
qed


section \<open>What the check writes\<close>

lemma accepted_record:
  assumes "check_Mach_O h ofile = CHECK_GOOD ofile'"
  shows "\<exists>m oh. header_at (get_host_byte_sex h) (mh32 ofile) (object_addr ofile') = Some oh \<and>
    ofile' = ofile\<lparr>object_addr := m, mh_cputype_of := oh_cputype oh, mh_cpusubtype_of := oh_cpusubtype oh,
      mh_filetype_of := oh_filetype oh,
      headers_swapped := headers_swapped ofile \<or> get_host_byte_sex h \<noteq> object_byte_sex ofile\<rparr>"
proof -
  from assms obtain m oh lc and cs :: check_state where
    hdr: "take_header (mh32 ofile) (get_host_byte_sex h \<noteq> object_byte_sex ofile) (get_host_byte_sex h)
       (object_addr ofile) = CHECK_GOOD (m, oh)"
    and ofile': "ofile' = ofile\<lparr>mh_cputype_of := oh_cputype oh, mh_cpusubtype_of := oh_cpusubtype oh,
       mh_filetype_of := oh_filetype oh, object_addr := cs_mem cs,
       headers_swapped := headers_swapped ofile \<or> get_host_byte_sex h \<noteq> object_byte_sex ofile\<rparr>"
    by (rule check_Mach_O_GOOD) (rule that)
  from assms obtain m2 oh2 where
    "take_header (mh32 ofile) (get_host_byte_sex h \<noteq> object_byte_sex ofile) (get_host_byte_sex h)
       (object_addr ofile) = CHECK_GOOD (m2, oh2)"
    and "header_at (get_host_byte_sex h) (mh32 ofile) (object_addr ofile') = Some oh2"
    by (rule accepted_header) (rule that)
  then show ?thesis
    using hdr ofile' by (intro exI [of _ "cs_mem cs"] exI [of _ oh]) simp
qed


section \<open>Each load command of an accepted object\<close>

text \<open>
  Every load command of the list went through its case, and later commands left alone what lies
  between it and the next.
\<close>

lemma check_all_each:
  assumes "check_all cp n i lc cs = CHECK_GOOD (lc', cs')" and "headers_kept cp"
    and "commands_at (cp_host cp) (cs_mem cs') n lc = Some cmds" and "(off, l) \<in> set cmds"
  shows "\<exists>j cs1 cs2. check_command (lc_cmd l) cp j off cs1 = CHECK_GOOD cs2 \<and>
    changes_from (off + unat (lc_cmdsize l)) (cs_mem cs2) (cs_mem cs') \<and>
    load load_command_codec (cp_host cp) (cs_mem cs2) off = Some l \<and>
    (\<not> cp_swapped cp \<longrightarrow> cs_mem cs1 = cs_mem cs')"
  using assms(1,3,4)
proof (induction n arbitrary: i lc cs cmds)
  case (Suc n)
  then obtain lc1 cs1 where one: "check_one cp i lc cs = CHECK_GOOD (lc1, cs1)"
    and rest: "check_all cp n (Suc i) lc1 cs1 = CHECK_GOOD (lc', cs')"
    by (auto simp: and_then_GOOD_iff)
  from one obtain l0 l1 where l0: "load load_command_codec (cp_host cp) (cs_mem cs) lc = Some l0"
    and l1: "l1 = as_host cp l0"
    and lc1: "lc1 = lc + unat (lc_cmdsize l1)"
    and cmd: "check_command (lc_cmd l1) cp i lc cs = CHECK_GOOD cs1"
    by (rule check_one_GOOD) (rule that)
  obtain cmds1 where "commands_at (cp_host cp) (cs_mem cs') (Suc n) lc = Some cmds1" and
    c1: "case cmds1 of [] \<Rightarrow> False | (o1, l2) # _ \<Rightarrow> o1 = lc \<and> l2 = l1"
  proof -
    have "\<exists>cmds. commands_at (cp_host cp) (cs_mem cs') n lc1 = Some cmds"
      using check_all_commands [OF rest assms(2)] by blast
    moreover have "load load_command_codec (cp_host cp) (cs_mem cs') lc = Some l1"
      using first_command_kept [OF one rest assms(2) l0] l1 by simp
    ultimately show thesis using that lc1 by auto
  qed
  then obtain cmds2 where cmds: "cmds = (lc, l1) # cmds2"
    and cmds2: "commands_at (cp_host cp) (cs_mem cs') n lc1 = Some cmds2"
    using Suc.prems(2) lc1 by (auto split: option.splits)
  show ?case
  proof (cases "(off, l) \<in> set cmds2")
    case True
    then show ?thesis using Suc.IH [OF rest cmds2] by blast
  next
    case False
    then have "off = lc" and "l = l1" using Suc.prems(3) cmds by auto
    moreover have "\<not> cp_swapped cp \<longrightarrow> cs_mem cs = cs_mem cs'"
      using check_all_changes [OF Suc.prems(1)] by simp
    moreover have "load load_command_codec (cp_host cp) (cs_mem cs1) lc = Some l1"
      using check_command_ok [OF cmd] l0 l1 by (simp add: case_ok_def command_frame_def)
    moreover have "load load_command_codec (cp_host cp) (cs_mem cs1) lc = Some l1"
      using check_command_ok [OF cmd] l0 l1 by (simp add: case_ok_def command_frame_def)
    ultimately show ?thesis
      using cmd check_all_changes [OF rest] lc1 by blast
  qed
qed simp

section \<open>Where its tables lie\<close>

text \<open>
  A run of \<open>n\<close> bytes from an offset, in a file of \<open>sz\<close> bytes, by the tests of the code: the end is
  a 32-bit sum.  When it does not wrap, the run lies in the file.
\<close>

definition in_file :: "nat \<Rightarrow> u32 \<Rightarrow> nat \<Rightarrow> bool" where
  "in_file sz off n \<longleftrightarrow> unat off \<le> sz \<and> (unat off + n) mod 2 ^ 32 \<le> sz"

lemma in_file_bytes: "\<not> off > sz \<Longrightarrow> \<not> off + n > sz \<Longrightarrow> in_file (unat sz) off (unat n)"
  by (simp add: in_file_def word_less_nat_alt unat_word_ariths)

lemma in_file_items: "\<not> off > sz \<Longrightarrow> \<not> off + n * k > sz \<Longrightarrow> in_file (unat sz) off (unat n * unat k)"
  using in_file_bytes [of sz off "n * k"] by (simp add: in_file_def unat_word_ariths mod_simps)

lemmas in_file_tests =
  in_file_bytes in_file_items in_file_items [where k = 8, simplified] in_file_items [where k = 4, simplified]

lemma in_file_no_wrap: "in_file sz off n \<Longrightarrow> unat off + n < 2 ^ 32 \<Longrightarrow> unat off + n \<le> sz"
  by (simp add: in_file_def)

text \<open>A struct at an offset with a property.\<close>

definition struct_at :: "'a codec \<Rightarrow> byte_sex \<Rightarrow> mem \<Rightarrow> nat \<Rightarrow> ('a \<Rightarrow> bool) \<Rightarrow> bool" where
  "struct_at C h m off P = (case load C h m off of None \<Rightarrow> False | Some x \<Rightarrow> P x)"

definition symtab_in_file :: "nat \<Rightarrow> u32 \<Rightarrow> symtab_command \<Rightarrow> bool" where
  "symtab_in_file sz nlist st \<longleftrightarrow>
     st_cmdsize st = 24 \<and> in_file sz (st_symoff st) (unat (st_nsyms st) * unat nlist) \<and>
     in_file sz (st_stroff st) (unat (st_strsize st))"

definition dysymtab_in_file :: "nat \<Rightarrow> u32 \<Rightarrow> dysymtab_command \<Rightarrow> bool" where
  "dysymtab_in_file sz module dyst \<longleftrightarrow>
     dyst_cmdsize dyst = 80 \<and>
     in_file sz (dyst_tocoff dyst) (unat (dyst_ntoc dyst) * 8) \<and>
     in_file sz (dyst_modtaboff dyst) (unat (dyst_nmodtab dyst) * unat module) \<and>
     in_file sz (dyst_extrefsymoff dyst) (unat (dyst_nextrefsyms dyst) * 4) \<and>
     in_file sz (dyst_indirectsymoff dyst) (unat (dyst_nindirectsyms dyst) * 4) \<and>
     in_file sz (dyst_extreloff dyst) (unat (dyst_nextrel dyst) * 8) \<and>
     in_file sz (dyst_locreloff dyst) (unat (dyst_nlocrel dyst) * 8)"

definition hints_in_file :: "nat \<Rightarrow> twolevel_hints_command \<Rightarrow> bool" where
  "hints_in_file sz hints \<longleftrightarrow>
     hints_cmdsize hints = 16 \<and> in_file sz (hints_offset hints) (unat (hints_nhints hints) * 4)"

definition data_in_file :: "nat \<Rightarrow> linkedit_data_command \<Rightarrow> bool" where
  "data_in_file sz ld \<longleftrightarrow>
     ld_cmdsize ld = 16 \<and> in_file sz (ld_dataoff ld) (unat (ld_datasize ld))"

definition encryption_in_file :: "nat \<Rightarrow> encryption_info_command \<Rightarrow> bool" where
  "encryption_in_file sz ec \<longleftrightarrow>
     ec_cmdsize ec = 20 \<and> in_file sz (ec_cryptoff ec) (unat (ec_cryptsize ec))"

definition symseg_in_file :: "nat \<Rightarrow> symseg_command \<Rightarrow> bool" where
  "symseg_in_file sz ss \<longleftrightarrow> ss_cmdsize ss = 16 \<and> in_file sz (ss_offset ss) (unat (ss_size ss))"

definition dylib_name_inside :: "dylib_command \<Rightarrow> bool" where
  "dylib_name_inside dl \<longleftrightarrow> 24 \<le> unat (dl_cmdsize dl) \<and> dl_name_offset dl < dl_cmdsize dl"

definition dylib_commands :: "u32 list" where
  "dylib_commands =
     [LC_ID_DYLIB, LC_LOAD_DYLIB, LC_LOAD_WEAK_DYLIB, LC_REEXPORT_DYLIB, LC_LAZY_LOAD_DYLIB]"

text \<open>What holds of the tables of one load command.\<close>

definition command_in_file :: "byte_sex \<Rightarrow> mem \<Rightarrow> nat \<Rightarrow> object_header \<Rightarrow> nat \<times> load_command \<Rightarrow> bool" where
  "command_in_file h m sz oh = (\<lambda>(off, l).
     if lc_cmd l = LC_SYMTAB then struct_at symtab_command_codec h m off (symtab_in_file sz (oh_nlist oh))
     else if lc_cmd l = LC_DYSYMTAB then
       struct_at dysymtab_command_codec h m off (dysymtab_in_file sz (oh_module oh))
     else if lc_cmd l = LC_TWOLEVEL_HINTS then
       struct_at twolevel_hints_command_codec h m off (hints_in_file sz)
     else if lc_cmd l = LC_CODE_SIGNATURE \<or> lc_cmd l = LC_SEGMENT_SPLIT_INFO then
       struct_at linkedit_data_command_codec h m off (data_in_file sz)
     else if lc_cmd l = LC_ENCRYPTION_INFO then
       struct_at encryption_info_command_codec h m off (encryption_in_file sz)
     else if lc_cmd l = LC_SYMSEG then struct_at symseg_command_codec h m off (symseg_in_file sz)
     else if lc_cmd l \<in> set dylib_commands then
       struct_at dylib_command_codec h m off dylib_name_inside
     else True)"

text \<open>Each of these cases establishes its property on the memory it leaves.\<close>

lemma take_struct_at:
  "take_struct C swap cp m off = CHECK_GOOD (m', x) \<Longrightarrow> P x \<Longrightarrow> struct_at C (cp_host cp) m' off P"
  by (simp add: take_struct_GOOD struct_at_def)

lemma table_tests_iff:
  "(\<forall>(c, e) \<in> set (table_tests cmd field i sz off bytes). \<not> c) \<longleftrightarrow> \<not> off > sz \<and> \<not> off + bytes > sz"
  by (simp add: table_tests_def)

lemma case_symtab:
  "check_LC_SYMTAB cp i lc cs = CHECK_GOOD cs' \<Longrightarrow>
     struct_at symtab_command_codec (cp_host cp) (cs_mem cs') lc
       (symtab_in_file (unat (cp_size cp)) (sizeof_nlist cp))"
  unfolding check_LC_SYMTAB_def
  by (auto simp: and_then_GOOD_iff symtab_tests_def symtab_in_file_def in_file_tests
      elim!: take_struct_at)

lemma case_dysymtab:
  "check_LC_DYSYMTAB cp i lc cs = CHECK_GOOD cs' \<Longrightarrow>
     struct_at dysymtab_command_codec (cp_host cp) (cs_mem cs') lc
       (dysymtab_in_file (unat (cp_size cp)) (sizeof_dylib_module cp))"
  unfolding check_LC_DYSYMTAB_def
  by (auto simp: and_then_GOOD_iff dysymtab_tests_def dysymtab_in_file_def Let_def ball_Un
      table_tests_iff in_file_tests elim!: take_struct_at)

lemma case_hints:
  "check_LC_TWOLEVEL_HINTS cp i lc cs = CHECK_GOOD cs' \<Longrightarrow>
     struct_at twolevel_hints_command_codec (cp_host cp) (cs_mem cs') lc (hints_in_file (unat (cp_size cp)))"
  unfolding check_LC_TWOLEVEL_HINTS_def
  by (auto simp: and_then_GOOD_iff hints_in_file_def ball_Un table_tests_iff in_file_tests
      elim!: take_struct_at)

lemma case_linkedit:
  "check_LC_CODE_SIGNATURE cp i lc cs = CHECK_GOOD cs' \<Longrightarrow>
     struct_at linkedit_data_command_codec (cp_host cp) (cs_mem cs') lc (data_in_file (unat (cp_size cp)))"
  "check_LC_SEGMENT_SPLIT_INFO cp i lc cs = CHECK_GOOD cs' \<Longrightarrow>
     struct_at linkedit_data_command_codec (cp_host cp) (cs_mem cs') lc (data_in_file (unat (cp_size cp)))"
  "check_LC_ENCRYPTION_INFO cp i lc cs = CHECK_GOOD cs' \<Longrightarrow>
     struct_at encryption_info_command_codec (cp_host cp) (cs_mem cs') lc (encryption_in_file (unat (cp_size cp)))"
  "check_LC_SYMSEG cp i lc cs = CHECK_GOOD cs' \<Longrightarrow>
     struct_at symseg_command_codec (cp_host cp) (cs_mem cs') lc (symseg_in_file (unat (cp_size cp)))"
  unfolding check_LC_CODE_SIGNATURE_def check_LC_SEGMENT_SPLIT_INFO_def check_LC_ENCRYPTION_INFO_def
    check_LC_SYMSEG_def
  by (auto simp: and_then_GOOD_iff data_in_file_def encryption_in_file_def symseg_in_file_def ball_Un
      table_tests_iff in_file_tests elim!: take_struct_at)

lemma case_dylib:
  "check_dylib_command nm cp i lc cs = CHECK_GOOD cs' \<Longrightarrow>
     struct_at dylib_command_codec (cp_host cp) (cs_mem cs') lc dylib_name_inside"
  unfolding check_dylib_command_def
  by (auto simp: and_then_GOOD_iff dylib_name_inside_def word_less_nat_alt not_less not_le
      elim!: take_struct_at)

text \<open>
  A struct that lies inside its load command is still there at the end.  Its first two words are
  the load command.
\<close>

lemma struct_command:
  assumes "load C h m off = Some x" and "\<And>x. \<exists>fs. parts C x = F32 (c x) # F32 (s x) # fs"
    and "mach_struct C ok"
  shows "load load_command_codec h m off = Some \<lparr>lc_cmd = c x, lc_cmdsize = s x\<rparr>"
proof -
  from assms(2) [of x] obtain fs where "parts C x = F32 (c x) # F32 (s x) # fs" by blast
  then show ?thesis
    using mach_struct.get_bytes_parts [OF assms(3,1)] load_command_of_words by metis
qed

lemma struct_at_kept:
  assumes "struct_at C h m2 off P"
    and "changes_from (off + unat (lc_cmdsize l)) m2 m'"
    and "load load_command_codec h m2 off = Some l"
    and "\<And>x. \<exists>fs. parts C x = F32 (c x) # F32 (s x) # fs" and "mach_struct C ok"
    and "\<And>x. P x \<Longrightarrow> size_of C \<le> unat (s x)"
  shows "struct_at C h m' off P"
proof -
  from assms(1) obtain x where x: "load C h m2 off = Some x" and P: "P x"
    by (auto simp: struct_at_def split: option.splits)
  have "lc_cmdsize l = s x" using struct_command [OF x assms(4,5)] assms(3) by simp
  then have "load C h m' off = Some x"
    using changes_from_load [OF assms(2), of off C h] assms(6) [OF P] x by simp
  then show ?thesis using P by (simp add: struct_at_def)
qed

lemmas kept_symtab = struct_at_kept
  [where C = symtab_command_codec and c = st_cmd and s = st_cmdsize, OF _ _ _ _ symtab_command.mach_struct_axioms]
lemmas kept_dysymtab = struct_at_kept
  [where C = dysymtab_command_codec and c = dyst_cmd and s = dyst_cmdsize, OF _ _ _ _ dysymtab_command.mach_struct_axioms]
lemmas kept_hints = struct_at_kept
  [where C = twolevel_hints_command_codec and c = hints_cmd and s = hints_cmdsize, OF _ _ _ _ twolevel_hints_command.mach_struct_axioms]
lemmas kept_linkedit = struct_at_kept
  [where C = linkedit_data_command_codec and c = ld_cmd and s = ld_cmdsize, OF _ _ _ _ linkedit_data_command.mach_struct_axioms]
lemmas kept_encryption = struct_at_kept
  [where C = encryption_info_command_codec and c = ec_cmd and s = ec_cmdsize, OF _ _ _ _ encryption_info_command.mach_struct_axioms]
lemmas kept_symseg = struct_at_kept
  [where C = symseg_command_codec and c = ss_cmd and s = ss_cmdsize, OF _ _ _ _ symseg_command.mach_struct_axioms]
lemmas kept_dylib = struct_at_kept
  [where C = dylib_command_codec and c = dl_cmd and s = dl_cmdsize, OF _ _ _ _ dylib_command.mach_struct_axioms]

lemma command_kept:
  assumes "check_command (lc_cmd l) cp j off cs1 = CHECK_GOOD cs2"
    and "changes_from (off + unat (lc_cmdsize l)) (cs_mem cs2) m'"
    and "load load_command_codec (cp_host cp) (cs_mem cs2) off = Some l"
    and "sizeof_nlist cp = oh_nlist oh" and "sizeof_dylib_module cp = oh_module oh"
  shows "command_in_file (cp_host cp) m' (unat (cp_size cp)) oh (off, l)"
proof -
  consider "lc_cmd l = LC_SYMTAB" | "lc_cmd l = LC_DYSYMTAB" | "lc_cmd l = LC_TWOLEVEL_HINTS"
    | "lc_cmd l = LC_CODE_SIGNATURE" | "lc_cmd l = LC_SEGMENT_SPLIT_INFO" | "lc_cmd l = LC_ENCRYPTION_INFO"
    | "lc_cmd l = LC_SYMSEG" | "lc_cmd l \<in> set dylib_commands"
    | "lc_cmd l \<noteq> LC_SYMTAB" "lc_cmd l \<noteq> LC_DYSYMTAB" "lc_cmd l \<noteq> LC_TWOLEVEL_HINTS"
      "lc_cmd l \<noteq> LC_CODE_SIGNATURE" "lc_cmd l \<noteq> LC_SEGMENT_SPLIT_INFO" "lc_cmd l \<noteq> LC_ENCRYPTION_INFO"
      "lc_cmd l \<noteq> LC_SYMSEG" "lc_cmd l \<notin> set dylib_commands"
    by blast
  then show ?thesis
  proof cases
    case 1
    then have "check_LC_SYMTAB cp j off cs1 = CHECK_GOOD cs2" using assms(1) by (simp add: check_command_def)
    from kept_symtab [OF case_symtab [OF this] assms(2,3)] show ?thesis
      using 1 assms(4) by (simp add: command_in_file_def symtab_in_file_def symtab_command_codec_def [THEN arg_cong [of _ _ parts]])
  next
    case 2
    then have "check_LC_DYSYMTAB cp j off cs1 = CHECK_GOOD cs2" using assms(1) by (simp add: check_command_def)
    from kept_dysymtab [OF case_dysymtab [OF this] assms(2,3)] show ?thesis
      using 2 assms(5) by (simp add: command_in_file_def dysymtab_in_file_def dysymtab_command_codec_def [THEN arg_cong [of _ _ parts]])
  next
    case 3
    then have "check_LC_TWOLEVEL_HINTS cp j off cs1 = CHECK_GOOD cs2" using assms(1) by (simp add: check_command_def)
    from kept_hints [OF case_hints [OF this] assms(2,3)] show ?thesis
      using 3 by (simp add: command_in_file_def hints_in_file_def twolevel_hints_command_codec_def [THEN arg_cong [of _ _ parts]])
  next
    case 4
    then have "check_LC_CODE_SIGNATURE cp j off cs1 = CHECK_GOOD cs2" using assms(1) by (simp add: check_command_def)
    from kept_linkedit [OF case_linkedit(1) [OF this] assms(2,3)] show ?thesis
      using 4 by (simp add: command_in_file_def data_in_file_def linkedit_data_command_codec_def [THEN arg_cong [of _ _ parts]])
  next
    case 5
    then have "check_LC_SEGMENT_SPLIT_INFO cp j off cs1 = CHECK_GOOD cs2" using assms(1) by (simp add: check_command_def)
    from kept_linkedit [OF case_linkedit(2) [OF this] assms(2,3)] show ?thesis
      using 5 by (simp add: command_in_file_def data_in_file_def linkedit_data_command_codec_def [THEN arg_cong [of _ _ parts]])
  next
    case 6
    then have "check_LC_ENCRYPTION_INFO cp j off cs1 = CHECK_GOOD cs2" using assms(1) by (simp add: check_command_def)
    from kept_encryption [OF case_linkedit(3) [OF this] assms(2,3)] show ?thesis
      using 6 by (simp add: command_in_file_def encryption_in_file_def encryption_info_command_codec_def [THEN arg_cong [of _ _ parts]])
  next
    case 7
    then have "check_LC_SYMSEG cp j off cs1 = CHECK_GOOD cs2" using assms(1) by (simp add: check_command_def)
    from kept_symseg [OF case_linkedit(4) [OF this] assms(2,3)] show ?thesis
      using 7 by (simp add: command_in_file_def symseg_in_file_def symseg_command_codec_def [THEN arg_cong [of _ _ parts]])
  next
    case 8
    then obtain nm where "check_dylib_command nm cp j off cs1 = CHECK_GOOD cs2"
      using assms(1) by (auto simp: check_command_def dylib_commands_def)
    from kept_dylib [OF case_dylib [OF this] assms(2,3)] show ?thesis
      using 8 by (auto simp: command_in_file_def dylib_name_inside_def dylib_commands_def
          dylib_command_codec_def [THEN arg_cong [of _ _ parts]])
  next
    case 9
    then show ?thesis by (simp add: command_in_file_def)
  qed
qed

lemma accepted_tables:
  assumes "check_Mach_O h ofile = CHECK_GOOD ofile'" and "reads_headers h ofile"
    and "object_commands (get_host_byte_sex h) (mh32 ofile) (object_addr ofile') = Some (oh, cmds)"
    and "c \<in> set cmds"
  shows "command_in_file (get_host_byte_sex h) (object_addr ofile') (unat (object_size ofile)) oh c"
proof -
  let ?cp = "params_of (get_host_byte_sex h \<noteq> object_byte_sex ofile) (get_host_byte_sex h) (object_size ofile)"
  from assms(1) obtain m oh1 lc cs where
    hdr: "take_header (mh32 ofile) (get_host_byte_sex h \<noteq> object_byte_sex ofile) (get_host_byte_sex h)
       (object_addr ofile) = CHECK_GOOD (m, oh1)"
    and hat: "header_at (get_host_byte_sex h) (mh32 ofile) (object_addr ofile') = Some oh1"
    and all: "check_all (?cp oh1) (unat (oh_ncmds oh1)) 0 (oh_size oh1) (start_state m) = CHECK_GOOD (lc, cs)"
    and mem: "cs_mem cs = object_addr ofile'"
    by (rule accepted_header) (rule that)
  have oh: "oh1 = oh" and cmds: "commands_at (get_host_byte_sex h) (object_addr ofile') (unat (oh_ncmds oh)) (oh_size oh) = Some cmds"
    using assms(3) hat by (auto simp: object_commands_def)
  have kept: "headers_kept (?cp oh)"
    using assms(2) take_header_at(5) [OF hdr] oh by (auto simp: headers_kept_def reads_headers_def)
  obtain off l where c: "c = (off, l)" by (cases c)
  from check_all_each [OF all [unfolded oh] kept, of cmds off l] cmds assms(4) obtain j cs1 cs2 where
    "check_command (lc_cmd l) (?cp oh) j off cs1 = CHECK_GOOD cs2"
    and "changes_from (off + unat (lc_cmdsize l)) (cs_mem cs2) (object_addr ofile')"
    and "load load_command_codec (get_host_byte_sex h) (cs_mem cs2) off = Some l"
    by (auto simp: mem c)
  then show ?thesis using command_kept [of l "?cp oh" j off cs1 cs2 "object_addr ofile'" oh] by (simp add: c)
qed


section \<open>The symbols of an accepted object\<close>

text \<open>A group of symbols, empty or within the symbol table, by the 32-bit sum of the code.\<close>

definition group_in_table :: "u32 \<Rightarrow> u32 \<Rightarrow> u32 \<Rightarrow> bool" where
  "group_in_table first n nsyms \<longleftrightarrow> n = 0 \<or> in_file (unat nsyms) first (unat n)"

definition symbols_fit :: "symtab_command \<Rightarrow> dysymtab_command \<Rightarrow> bool" where
  "symbols_fit st dyst \<longleftrightarrow>
     group_in_table (dyst_ilocalsym dyst) (dyst_nlocalsym dyst) (st_nsyms st) \<and>
     group_in_table (dyst_iextdefsym dyst) (dyst_nextdefsym dyst) (st_nsyms st) \<and>
     group_in_table (dyst_iundefsym dyst) (dyst_nundefsym dyst) (st_nsyms st)"

lemma group_tests_iff:
  "(\<forall>(c, e) \<in> set (group_tests field first n nsyms). \<not> c) \<Longrightarrow> group_in_table first n nsyms"
  by (auto simp: group_tests_def group_in_table_def in_file_tests)

lemma symbols_tests_fit: "(\<forall>(c, e) \<in> set (symbols_tests st dyst). \<not> c) \<Longrightarrow> symbols_fit st dyst"
  unfolding symbols_tests_def symbols_fit_def set_append ball_Un by (blast intro: group_tests_iff)

lemma check_remembered_GOOD:
  assumes "check_remembered cp cs = CHECK_GOOD ()" and "cs_dyst cs = Some d"
  obtains s st dyst where "cs_st cs = Some s" and "load symtab_command_codec (cp_host cp) (cs_mem cs) s = Some st"
    and "load dysymtab_command_codec (cp_host cp) (cs_mem cs) d = Some dyst" and "symbols_fit st dyst"
    and "\<And>a. cs_hints cs = Some a \<Longrightarrow> struct_at twolevel_hints_command_codec (cp_host cp) (cs_mem cs) a
      (\<lambda>hints. hints_nhints hints = dyst_nundefsym dyst)"
    and "\<And>a. cs_rc cs = Some a \<Longrightarrow> struct_at routines_command_codec (cp_host cp) (cs_mem cs) a
      (\<lambda>rc. rc_init_module rc \<le> dyst_nmodtab dyst)"
proof (cases "cs_st cs")
  case None
  then show thesis using assms by (simp add: check_remembered_def Let_def)
next
  case (Some s)
  then obtain st dyst where st: "load symtab_command_codec (cp_host cp) (cs_mem cs) s = Some st"
    and dyst: "load dysymtab_command_codec (cp_host cp) (cs_mem cs) d = Some dyst"
    and fit: "symbols_fit st dyst"
    and rc: "if_remembered routines_command_codec cp (cs_mem cs) (cs_rc cs)
      (\<lambda>rc. [(rc_init_module rc > dyst_nmodtab dyst, Init_module_past_end ''LC_ROUTINES'')]) = CHECK_GOOD ()"
    and hints: "if_remembered twolevel_hints_command_codec cp (cs_mem cs) (cs_hints cs)
      (\<lambda>hints. [(hints_nhints hints \<noteq> dyst_nundefsym dyst, Hints_differ)]) = CHECK_GOOD ()"
    using assms by (auto simp: check_remembered_def Let_def and_then_GOOD_iff intro: symbols_tests_fit)
  show thesis
    by (rule that [OF Some st dyst fit])
      (use rc hints in \<open>auto simp: if_remembered_def and_then_GOOD_iff struct_at_def not_less\<close>)
qed


section \<open>An accepted object\<close>

text \<open>
  A little-endian i386 object with a symbol table of two symbols and a dynamic symbol table, by
  the words of its header and load commands, in a file of 164 bytes.
\<close>

definition sample :: mem where
  "sample =
     concat (map (\<lambda>w. bytes_of 4 (w :: u32))
       [MH_MAGIC, 7, 3, 1, 2, 104, 0,
        LC_SYMTAB, 24, 132, 2, 156, 8,
        LC_DYSYMTAB, 80, 0, 1, 1, 1, 2, 0, 0, 0, 0, 0, 0, 0, 0, 0, 0, 0, 0, 0]) @ replicate 32 0"

definition object_of :: "bool \<Rightarrow> byte_sex \<Rightarrow> mem \<Rightarrow> ofile" where
  "object_of is32 sex m =
     \<lparr>file_addr = m, file_size = of_nat (length m), file_type = OFILE_Mach_O,
      fat_header_of = \<lparr>fh_magic = 0, fh_nfat_arch = 0\<rparr>, fat_archs = [], narch = 0,
      member_offset = 0, member_size = 0, object_addr = m, object_size = of_nat (length m),
      object_byte_sex = sex, mh32 = is32, headers_swapped = False,
      mh_cputype_of = 0, mh_cpusubtype_of = 0, mh_filetype_of = 0\<rparr>"

definition sample_object :: ofile where
  "sample_object = object_of True LITTLE_ENDIAN_BYTE_SEX sample"

fun result_of :: "('e, 'a) check \<Rightarrow> 'a option" where
  "result_of (CHECK_GOOD x) = Some x"
| "result_of _ = None"

lemma result_of_Some_iff: "result_of r = Some x \<longleftrightarrow> r = CHECK_GOOD x"
  by (cases r) auto

definition sample_header :: object_header where
  "sample_header =
     \<lparr>oh_size = 28, oh_cputype = 7, oh_cpusubtype = 3, oh_filetype = 1, oh_ncmds = 2,
      oh_sizeofcmds = 104, oh_multiple = 4, oh_nlist = 12, oh_module = 52\<rparr>"

definition sample_commands :: "(nat \<times> load_command) list" where
  "sample_commands =
     [(28, \<lparr>lc_cmd = LC_SYMTAB, lc_cmdsize = 24\<rparr>), (52, \<lparr>lc_cmd = LC_DYSYMTAB, lc_cmdsize = 80\<rparr>)]"

lemma sample_accepted:
  "map_option headers_swapped (result_of (check_Mach_O LITTLE_ENDIAN_BYTE_SEX sample_object)) = Some False"
  by code_simp

lemma sample_reads: "object_commands LITTLE_ENDIAN_BYTE_SEX True sample = Some (sample_header, sample_commands)"
  by code_simp

lemma sample_object_accepted:
  obtains ofile' where "check_Mach_O LITTLE_ENDIAN_BYTE_SEX sample_object = CHECK_GOOD ofile'"
    and "object_addr ofile' = sample"
proof -
  from sample_accepted obtain ofile' where
    ok: "check_Mach_O LITTLE_ENDIAN_BYTE_SEX sample_object = CHECK_GOOD ofile'"
    by (auto simp: result_of_Some_iff)
  then have "object_addr ofile' = sample"
    by (rule accepted_header) (auto dest!: check_all_changes take_header_at(2)
        simp: sample_object_def object_of_def get_host_byte_sex_is_host)
  then show thesis using ok that by blast
qed

text \<open>The theorems on this object.\<close>

lemma sample_reads_headers: "reads_headers LITTLE_ENDIAN_BYTE_SEX sample_object"
  by (simp add: reads_headers_def sample_object_def object_of_def get_host_byte_sex_is_host)

lemma sample_is_32 [simp]: "mh32 sample_object = True"
  by (simp add: sample_object_def object_of_def)





section \<open>Segments\<close>

text \<open>What the tests ask of a section, in the numbers of the file.\<close>

definition section_in_file :: "nat \<Rightarrow> mach_section \<Rightarrow> bool" where
  "section_in_file sz s \<longleftrightarrow>
     (s_flags s = S_ZEROFILL \<or> in_file sz (s_offset s) (unat (s_size s))) \<and>
     in_file sz (s_reloff s) (unat (s_nreloc s) * 8)"

lemma in_file_iff:
  "in_file (unat sz) off (unat n) \<longleftrightarrow> \<not> off > sz \<and> \<not> off + n > (sz :: u32)"
  by (simp add: in_file_def word_less_nat_alt unat_word_ariths not_less)

lemma in_file_items_iff:
  "in_file (unat sz) off (unat n * unat k) \<longleftrightarrow> \<not> off > sz \<and> \<not> off + n * k > (sz :: u32)"
  unfolding in_file_iff [symmetric] by (simp add: in_file_def unat_word_ariths mod_simps)

lemma section_tests_iff:
  "(\<forall>(c, e) \<in> set (section_tests sz i j s). \<not> c) \<longleftrightarrow> section_in_file (unat sz) s"
  unfolding section_tests_def section_in_file_def in_file_iff in_file_items_iff [where k = 8, simplified]
  by auto

lemma check_sections_iff:
  "check_sections cp i m s j n = CHECK_GOOD () \<longleftrightarrow>
     (\<forall>k < n. struct_at section_codec (cp_host cp) m (s + 68 * k) (section_in_file (unat (cp_size cp))))"
proof (induction n arbitrary: s j)
  case (Suc n)
  have "check_sections cp i m s j (Suc n) = CHECK_GOOD () \<longleftrightarrow>
      struct_at section_codec (cp_host cp) m s (section_in_file (unat (cp_size cp))) \<and>
      check_sections cp i m (s + 68) (Suc j) n = CHECK_GOOD ()"
    by (auto simp: and_then_GOOD_iff section_tests_iff struct_at_def split: option.splits)
  then show ?case unfolding Suc.IH All_less_Suc2 by (simp add: algebra_simps)
qed simp


text \<open>
  The 64-bit segment.  Its sums are of 64 bits; of its sections only the first is looked at.
\<close>

definition in_file_64 :: "nat \<Rightarrow> u64 \<Rightarrow> u64 \<Rightarrow> bool" where
  "in_file_64 sz off n \<longleftrightarrow> unat off \<le> sz \<and> (unat off + unat n) mod 2 ^ 64 \<le> sz"

lemma unat_ucast_32 [simp]: "unat (ucast (w :: u32) :: u64) = unat w"
  by (simp add: unsigned_ucast_eq take_bit_nat_eq_self order_less_trans [OF unsigned_less])

lemma in_file_64_iff:
  "in_file_64 (unat sz) off n \<longleftrightarrow> \<not> off > ucast (sz :: u32) \<and> \<not> off + n > ucast sz"
  by (simp add: in_file_64_def word_less_nat_alt unat_word_ariths not_less)

definition section_64_in_file :: "nat \<Rightarrow> section_64 \<Rightarrow> bool" where
  "section_64_in_file sz s \<longleftrightarrow>
     (s64_flags s = S_ZEROFILL \<or> in_file_64 sz (ucast (s64_offset s)) (s64_size s)) \<and>
     in_file sz (s64_reloff s) (unat (s64_nreloc s) * 8)"

lemma section_64_tests_iff:
  "(\<forall>(c, e) \<in> set (section_64_tests sz i j s). \<not> c) \<longleftrightarrow> section_64_in_file (unat sz) s"
proof -
  have "s64_offset s > sz \<longleftrightarrow> (ucast (s64_offset s) :: u64) > ucast sz"
    by (simp add: word_less_nat_alt)
  then show ?thesis
    unfolding section_64_tests_def section_64_in_file_def in_file_64_iff
      in_file_items_iff [where k = 8, simplified]
    by auto
qed

lemma check_sections_64_iff:
  "check_sections_64 cp i m s64 j n = CHECK_GOOD () \<longleftrightarrow>
     n = 0 \<or> struct_at section_64_codec (cp_host cp) m s64 (section_64_in_file (unat (cp_size cp)))"
  by (induction n arbitrary: j)
    (auto simp: and_then_GOOD_iff section_64_tests_iff struct_at_def split: option.splits)

text \<open>
  On an object of the host's byte order the case for \<^verbatim>\<open>LC_SEGMENT_64\<close> succeeds exactly when
  the command lies in memory, its size is that of the command and its sections by the 32-bit
  product, its contents lie in the file by 64-bit sums, and its first section, if it has one, has
  its contents and relocation entries in the file.  Nothing is asked of its other sections: the
  loop looks at the first one again and again.
\<close>

theorem check_LC_SEGMENT_64_accepts:
  assumes "\<not> cp_swapped cp"
  shows "check_LC_SEGMENT_64 cp i lc cs = CHECK_GOOD cs \<longleftrightarrow>
    struct_at segment_command_64_codec (cp_host cp) (cs_mem cs) lc (\<lambda>sg64.
      unat (sg64_cmdsize sg64) = (72 + unat (sg64_nsects sg64) * 80) mod 2 ^ 32 \<and>
      in_file_64 (unat (cp_size cp)) (sg64_fileoff sg64) (sg64_filesize sg64) \<and>
      (sg64_nsects sg64 = 0 \<or> struct_at section_64_codec (cp_host cp) (cs_mem cs) (lc + 72)
         (section_64_in_file (unat (cp_size cp)))))"
proof -
  have size: "sg64_cmdsize sg = 72 + sg64_nsects sg * 80 \<longleftrightarrow>
      unat (sg64_cmdsize sg) = (72 + unat (sg64_nsects sg) * 80) mod 2 ^ 32" for sg :: segment_command_64
    by (simp add: word_unat_eq_iff unat_word_ariths mod_simps)
  show ?thesis
    using assms
    by (auto simp: check_LC_SEGMENT_64_def and_then_GOOD_iff take_struct_GOOD check_sections_64_iff
        struct_at_def in_file_64_iff size unat_eq_0 split: option.splits)
qed

text \<open>Both theorems on a segment without sections at the start of memory.\<close>

lemma struct_at_mono: "struct_at C h m off P \<Longrightarrow> (\<And>x. P x \<Longrightarrow> Q x) \<Longrightarrow> struct_at C h m off Q"
  by (auto simp: struct_at_def split: option.splits)

definition segment_params :: check_params where
  "segment_params = params_of False LITTLE_ENDIAN_BYTE_SEX 100 sample_header"

definition segment_words :: "u32 list \<Rightarrow> mem" where
  "segment_words ws = concat (map (bytes_of 4) ws)"


theorem check_LC_SEGMENT_64_accepts_witness:
  "check_LC_SEGMENT_64 segment_params 0 0
     (start_state (segment_words [LC_SEGMENT_64, 72, 0, 0, 0, 0, 0, 0, 0, 0, 90, 0, 10, 0, 7, 7, 0, 0])) =
   CHECK_GOOD
     (start_state (segment_words [LC_SEGMENT_64, 72, 0, 0, 0, 0, 0, 0, 0, 0, 90, 0, 10, 0, 7, 7, 0, 0]))"
proof -
  have "\<not> cp_swapped segment_params" by (simp add: segment_params_def)
  moreover have "struct_at segment_command_64_codec LITTLE_ENDIAN_BYTE_SEX
      (segment_words [LC_SEGMENT_64, 72, 0, 0, 0, 0, 0, 0, 0, 0, 90, 0, 10, 0, 7, 7, 0, 0]) 0
      (\<lambda>sg64. sg64_cmdsize sg64 = 72 \<and> sg64_fileoff sg64 = 90 \<and> sg64_filesize sg64 = 10 \<and>
        sg64_nsects sg64 = 0)"
    by code_simp
  ultimately show ?thesis
    by (subst check_LC_SEGMENT_64_accepts, simp_all only: segment_params_def params_of_simps cs_mem_start)
      (erule struct_at_mono, simp add: in_file_def in_file_64_def)
qed

end
