(* ===== verification/SwapHeaders.thy ===== *)
theory SwapHeaders
  imports CheckSound
begin

text \<open>
  \<^verbatim>\<open>swap_object_headers\<close> of \<^verbatim>\<open>libstuff/swap_headers.c\<close>: it swaps the header and the load commands
  of an object from the byte order of the host to the other.  A first pass over the load commands
  checks that they can be parsed and writes nothing; its errors are \<open>CHECK_BAD\<close>, the returned
  \<^verbatim>\<open>FALSE\<close>.  A second pass swaps.  Then \<^verbatim>\<open>swap_back_Mach_O\<close> of \<^verbatim>\<open>libstuff/ofile.c\<close>, which undoes
  the swaps of \<^verbatim>\<open>check_Mach_O\<close> with it.
\<close>

section \<open>The checks of the first pass\<close>

text \<open>A struct of memory as the host reads it, and a run of tests on it.\<close>

definition with_struct ::
  "'a codec \<Rightarrow> byte_sex \<Rightarrow> mem \<Rightarrow> nat \<Rightarrow> ('a \<Rightarrow> (bool \<times> mach_o_error) list) \<Rightarrow> (mach_o_error, unit) check" where
  "with_struct C h m off ts = and_then (or_fault (load C h m off)) (\<lambda>x. verdict_of (ts x))"

definition precheck_LC_SEGMENT :: "byte_sex \<Rightarrow> mem \<Rightarrow> nat \<Rightarrow> nat \<Rightarrow> (mach_o_error, unit) check" where
  "precheck_LC_SEGMENT h m i lc =
     with_struct segment_command_codec h m lc
       (\<lambda>sg. [(sg_cmdsize sg \<noteq> 56 + sg_nsects sg * 68, Inconsistent_cmdsize ''LC_SEGMENT'' i)])"

definition precheck_LC_SEGMENT_64 :: "byte_sex \<Rightarrow> mem \<Rightarrow> nat \<Rightarrow> nat \<Rightarrow> (mach_o_error, unit) check" where
  "precheck_LC_SEGMENT_64 h m i lc =
     with_struct segment_command_64_codec h m lc
       (\<lambda>sg64. [(sg64_cmdsize sg64 \<noteq> 72 + sg64_nsects sg64 * 80, Inconsistent_cmdsize ''LC_SEGMENT_64'' i)])"

definition precheck_LC_SYMTAB :: "byte_sex \<Rightarrow> mem \<Rightarrow> nat \<Rightarrow> nat \<Rightarrow> (mach_o_error, unit) check" where
  "precheck_LC_SYMTAB h m i lc =
     with_struct symtab_command_codec h m lc
       (\<lambda>st. [(st_cmdsize st \<noteq> 24, Incorrect_cmdsize ''LC_SYMTAB'' i)])"

definition precheck_LC_DYSYMTAB :: "byte_sex \<Rightarrow> mem \<Rightarrow> nat \<Rightarrow> nat \<Rightarrow> (mach_o_error, unit) check" where
  "precheck_LC_DYSYMTAB h m i lc =
     with_struct dysymtab_command_codec h m lc
       (\<lambda>dyst. [(dyst_cmdsize dyst \<noteq> 80, Incorrect_cmdsize ''LC_DYSYMTAB'' i)])"

definition precheck_LC_SYMSEG :: "byte_sex \<Rightarrow> mem \<Rightarrow> nat \<Rightarrow> nat \<Rightarrow> (mach_o_error, unit) check" where
  "precheck_LC_SYMSEG h m i lc =
     with_struct symseg_command_codec h m lc
       (\<lambda>ss. [(ss_cmdsize ss \<noteq> 16, Incorrect_cmdsize ''LC_SYMSEG'' i)])"

definition precheck_LC_FVMLIB :: "byte_sex \<Rightarrow> mem \<Rightarrow> nat \<Rightarrow> nat \<Rightarrow> (mach_o_error, unit) check" where
  "precheck_LC_FVMLIB h m i lc =
     with_struct fvmlib_command_codec h m lc
       (\<lambda>fl.
          let name = (if fl_cmd fl = LC_IDFVMLIB then ''LC_IDFVMLIB'' else ''LC_LOADFVMLIB'') in [(fl_cmdsize fl < 20, Too_small_cmdsize name i),
          (fl_name_offset fl \<ge> fl_cmdsize fl, Field_past_end name ''name.offset'' i)])"

definition precheck_dylib_command :: "string \<Rightarrow> byte_sex \<Rightarrow> mem \<Rightarrow> nat \<Rightarrow> nat \<Rightarrow> (mach_o_error, unit) check" where
  "precheck_dylib_command cmd_name h m i lc =
     with_struct dylib_command_codec h m lc
       (\<lambda>dl. [(dl_cmdsize dl < 24, Too_small_cmdsize cmd_name i),
          (dl_name_offset dl \<ge> dl_cmdsize dl, Field_past_end cmd_name ''name.offset'' i)])"

definition precheck_LC_SUB_FRAMEWORK :: "byte_sex \<Rightarrow> mem \<Rightarrow> nat \<Rightarrow> nat \<Rightarrow> (mach_o_error, unit) check" where
  "precheck_LC_SUB_FRAMEWORK h m i lc =
     with_struct sub_framework_command_codec h m lc
       (\<lambda>sub. [(sub_cmdsize sub < 12, Too_small_cmdsize ''LC_SUB_FRAMEWORK'' i),
          (sub_umbrella_offset sub \<ge> sub_cmdsize sub, Field_past_end ''LC_SUB_FRAMEWORK'' ''umbrella.offset'' i)])"

definition precheck_LC_SUB_UMBRELLA :: "byte_sex \<Rightarrow> mem \<Rightarrow> nat \<Rightarrow> nat \<Rightarrow> (mach_o_error, unit) check" where
  "precheck_LC_SUB_UMBRELLA h m i lc =
     with_struct sub_umbrella_command_codec h m lc
       (\<lambda>usub. [(usub_cmdsize usub < 12, Too_small_cmdsize ''LC_SUB_UMBRELLA'' i),
          (usub_sub_umbrella_offset usub \<ge> usub_cmdsize usub, Field_past_end ''LC_SUB_UMBRELLA'' ''sub_umbrella.offset'' i)])"

definition precheck_LC_SUB_LIBRARY :: "byte_sex \<Rightarrow> mem \<Rightarrow> nat \<Rightarrow> nat \<Rightarrow> (mach_o_error, unit) check" where
  "precheck_LC_SUB_LIBRARY h m i lc =
     with_struct sub_library_command_codec h m lc
       (\<lambda>lsub. [(lsub_cmdsize lsub < 12, Too_small_cmdsize ''LC_SUB_LIBRARY'' i),
          (lsub_sub_library_offset lsub \<ge> lsub_cmdsize lsub, Field_past_end ''LC_SUB_LIBRARY'' ''sub_library.offset'' i)])"

definition precheck_LC_SUB_CLIENT :: "byte_sex \<Rightarrow> mem \<Rightarrow> nat \<Rightarrow> nat \<Rightarrow> (mach_o_error, unit) check" where
  "precheck_LC_SUB_CLIENT h m i lc =
     with_struct sub_client_command_codec h m lc
       (\<lambda>csub. [(csub_cmdsize csub < 12, Too_small_cmdsize ''LC_SUB_CLIENT'' i),
          (csub_client_offset csub \<ge> csub_cmdsize csub, Field_past_end ''LC_SUB_CLIENT'' ''client.offset'' i)])"

definition precheck_LC_PREBOUND_DYLIB :: "byte_sex \<Rightarrow> mem \<Rightarrow> nat \<Rightarrow> nat \<Rightarrow> (mach_o_error, unit) check" where
  "precheck_LC_PREBOUND_DYLIB h m i lc =
     with_struct prebound_dylib_command_codec h m lc
       (\<lambda>pbdylib. [(pbdylib_cmdsize pbdylib < 20, Too_small_cmdsize ''LC_PREBOUND_DYLIB'' i),
          (pbdylib_name_offset pbdylib \<ge> pbdylib_cmdsize pbdylib, Field_past_end ''LC_PREBOUND_DYLIB'' ''name.offset'' i),
          (pbdylib_linked_modules_offset pbdylib \<ge> pbdylib_cmdsize pbdylib, Field_past_end ''LC_PREBOUND_DYLIB'' ''linked_modules.offset'' i)])"

definition precheck_LC_DYLINKER :: "byte_sex \<Rightarrow> mem \<Rightarrow> nat \<Rightarrow> nat \<Rightarrow> (mach_o_error, unit) check" where
  "precheck_LC_DYLINKER h m i lc =
     with_struct dylinker_command_codec h m lc
       (\<lambda>dyld.
          let name = (if dyld_cmd dyld = LC_ID_DYLINKER then ''LC_ID_DYLINKER'' else ''LC_LOAD_DYLINKER'') in [(dyld_cmdsize dyld < 12, Too_small_cmdsize name i),
          (dyld_name_offset dyld \<ge> dyld_cmdsize dyld, Field_past_end name ''name.offset'' i)])"

definition precheck_LC_IDENT ::
  "byte_sex \<Rightarrow> nat \<Rightarrow> mem \<Rightarrow> nat \<Rightarrow> nat \<Rightarrow> (mach_o_error, unit) check" where
  "precheck_LC_IDENT h stop m i lc =
     with_struct ident_command_codec h m lc
       (\<lambda>d. [(lc + unat (id_cmdsize d) > stop, Field_past_end ''LC_IDENT'' ''cmdsize'' i)])"

definition precheck_LC_ROUTINES :: "byte_sex \<Rightarrow> mem \<Rightarrow> nat \<Rightarrow> nat \<Rightarrow> (mach_o_error, unit) check" where
  "precheck_LC_ROUTINES h m i lc =
     with_struct routines_command_codec h m lc
       (\<lambda>rc. [(rc_cmdsize rc \<noteq> 40, Incorrect_cmdsize ''LC_ROUTINES'' i)])"

definition precheck_LC_ROUTINES_64 :: "byte_sex \<Rightarrow> mem \<Rightarrow> nat \<Rightarrow> nat \<Rightarrow> (mach_o_error, unit) check" where
  "precheck_LC_ROUTINES_64 h m i lc =
     with_struct routines_command_64_codec h m lc
       (\<lambda>rc64. [(rc64_cmdsize rc64 \<noteq> 72, Incorrect_cmdsize ''LC_ROUTINES_64'' i)])"

definition precheck_LC_TWOLEVEL_HINTS :: "byte_sex \<Rightarrow> mem \<Rightarrow> nat \<Rightarrow> nat \<Rightarrow> (mach_o_error, unit) check" where
  "precheck_LC_TWOLEVEL_HINTS h m i lc =
     with_struct twolevel_hints_command_codec h m lc
       (\<lambda>hints. [(hints_cmdsize hints \<noteq> 16, Incorrect_cmdsize ''LC_TWOLEVEL_HINTS'' i)])"

definition precheck_LC_PREBIND_CKSUM :: "byte_sex \<Rightarrow> mem \<Rightarrow> nat \<Rightarrow> nat \<Rightarrow> (mach_o_error, unit) check" where
  "precheck_LC_PREBIND_CKSUM h m i lc =
     with_struct prebind_cksum_command_codec h m lc
       (\<lambda>cs. [(cs_cmdsize cs \<noteq> 12, Incorrect_cmdsize ''LC_PREBIND_CKSUM'' i)])"

definition precheck_LC_UUID :: "byte_sex \<Rightarrow> mem \<Rightarrow> nat \<Rightarrow> nat \<Rightarrow> (mach_o_error, unit) check" where
  "precheck_LC_UUID h m i lc =
     with_struct uuid_command_codec h m lc
       (\<lambda>uuid. [(uuid_cmdsize uuid \<noteq> 24, Incorrect_cmdsize ''LC_UUID'' i)])"

definition precheck_LC_CODE_SIGNATURE :: "byte_sex \<Rightarrow> mem \<Rightarrow> nat \<Rightarrow> nat \<Rightarrow> (mach_o_error, unit) check" where
  "precheck_LC_CODE_SIGNATURE h m i lc =
     with_struct linkedit_data_command_codec h m lc
       (\<lambda>ld. [(ld_cmdsize ld \<noteq> 16, Incorrect_cmdsize ''LC_CODE_SIGNATURE'' i)])"

definition precheck_LC_SEGMENT_SPLIT_INFO :: "byte_sex \<Rightarrow> mem \<Rightarrow> nat \<Rightarrow> nat \<Rightarrow> (mach_o_error, unit) check" where
  "precheck_LC_SEGMENT_SPLIT_INFO h m i lc =
     with_struct linkedit_data_command_codec h m lc
       (\<lambda>ld. [(ld_cmdsize ld \<noteq> 16, Incorrect_cmdsize ''LC_SEGMENT_SPLIT_INFO'' i)])"

definition precheck_LC_RPATH :: "byte_sex \<Rightarrow> mem \<Rightarrow> nat \<Rightarrow> nat \<Rightarrow> (mach_o_error, unit) check" where
  "precheck_LC_RPATH h m i lc =
     with_struct rpath_command_codec h m lc
       (\<lambda>rpath. [(rpath_cmdsize rpath < 12, Too_small_cmdsize ''LC_RPATH'' i),
          (rpath_path_offset rpath \<ge> rpath_cmdsize rpath, Field_past_end ''LC_RPATH'' ''path.offset'' i)])"

definition precheck_LC_ENCRYPTION_INFO :: "byte_sex \<Rightarrow> mem \<Rightarrow> nat \<Rightarrow> nat \<Rightarrow> (mach_o_error, unit) check" where
  "precheck_LC_ENCRYPTION_INFO h m i lc =
     with_struct encryption_info_command_codec h m lc
       (\<lambda>ec. [(ec_cmdsize ec \<noteq> 20, Incorrect_cmdsize ''LC_ENCRYPTION_INFO'' i)])"

lemmas precheck_defs =
  precheck_LC_SEGMENT_def
  precheck_LC_SEGMENT_64_def
  precheck_LC_SYMTAB_def
  precheck_LC_DYSYMTAB_def
  precheck_LC_SYMSEG_def
  precheck_LC_FVMLIB_def
  precheck_dylib_command_def
  precheck_LC_SUB_FRAMEWORK_def
  precheck_LC_SUB_UMBRELLA_def
  precheck_LC_SUB_LIBRARY_def
  precheck_LC_SUB_CLIENT_def
  precheck_LC_PREBOUND_DYLIB_def
  precheck_LC_DYLINKER_def
  precheck_LC_IDENT_def
  precheck_LC_ROUTINES_def
  precheck_LC_ROUTINES_64_def
  precheck_LC_TWOLEVEL_HINTS_def
  precheck_LC_PREBIND_CKSUM_def
  precheck_LC_UUID_def
  precheck_LC_CODE_SIGNATURE_def
  precheck_LC_SEGMENT_SPLIT_INFO_def
  precheck_LC_RPATH_def
  precheck_LC_ENCRYPTION_INFO_def

section \<open>The thread states the first pass knows\<close>

text \<open>
  The flavors of a \<^verbatim>\<open>cputype\<close>: the name in the error report and the declaration of the state.
\<close>

definition known_MC680x0 :: "(u32 \<times> string \<times> decl) list" where
  "known_MC680x0 =
     [(1, ''M68K_THREAD_STATE_REGS'', m68k_thread_state_regs),
      (2, ''M68K_THREAD_STATE_68882'', m68k_thread_state_68882),
      (3, ''M68K_THREAD_STATE_USER_REG'', m68k_thread_state_user_reg)]"

definition known_POWERPC :: "(u32 \<times> string \<times> decl) list" where
  "known_POWERPC =
     [(1, ''PPC_THREAD_STATE'', ppc_thread_state_t), (2, ''PPC_FLOAT_STATE'', ppc_float_state_t),
      (3, ''PPC_EXCEPTION_STATE'', ppc_exception_state_t), (5, ''PPC_THREAD_STATE64'', ppc_thread_state64_t)]"

definition known_MC88000 :: "(u32 \<times> string \<times> decl) list" where
  "known_MC88000 =
     [(1, ''M88K_THREAD_STATE_GRF'', m88k_thread_state_grf_t),
      (2, ''M88K_THREAD_STATE_XRF'', m88k_thread_state_xrf_t),
      (3, ''M88K_THREAD_STATE_USER'', m88k_thread_state_user_t),
      (4, ''M88110_THREAD_STATE_IMPL'', m88110_thread_state_impl_t)]"

definition known_I860 :: "(u32 \<times> string \<times> decl) list" where
  "known_I860 = [(4, ''I860_THREAD_STATE_REGS'', i860_thread_state_regs)]"

definition known_I386 :: "(u32 \<times> string \<times> decl) list" where
  "known_I386 =
     [(1, ''i386_THREAD_STATE'', i386_thread_state_t), (0xffffffff, ''i386_THREAD_STATE'', i386_thread_state_t),
      (2, ''i386_FLOAT_STATE'', i386_float_state), (3, ''I386_EXCEPTION_STATE'', i386_exception_state_t),
      (4, ''x86_THREAD_STATE64'', x86_thread_state64_t)]"

definition known_HPPA :: "(u32 \<times> string \<times> decl) list" where
  "known_HPPA =
     [(1, ''HPPA_INTEGER_THREAD_STATE'', hp_pa_integer_thread_state),
      (2, ''HPPA_FRAME_THREAD_STATE'', hp_pa_frame_thread_state),
      (3, ''HPPA_FP_THREAD_STATE'', hp_pa_fp_thread_state)]"

definition known_SPARC :: "(u32 \<times> string \<times> decl) list" where
  "known_SPARC =
     [(1, ''SPARC_THREAD_STATE_REGS'', sparc_thread_state_regs),
      (2, ''SPARC_THREAD_STATE_FPU'', sparc_thread_state_fpu)]"

definition known_ARM :: "(u32 \<times> string \<times> decl) list" where
  "known_ARM = [(1, ''ARM_THREAD_STATE'', arm_thread_state_t)]"

text \<open>
  The tests on the \<^verbatim>\<open>cputype\<close>, and whether an unknown flavor is an error: the loop for the SPARC
  has no \<^verbatim>\<open>default\<close> and does not count flavors.
\<close>

definition known_states :: "u32 \<Rightarrow> (bool \<times> (u32 \<times> string \<times> decl) list) option" where
  "known_states cputype =
     (if cputype = CPU_TYPE_MC680x0 then Some (True, known_MC680x0)
      else if cputype = CPU_TYPE_POWERPC \<or> cputype = CPU_TYPE_VEO \<or> cputype = CPU_TYPE_POWERPC64
        then Some (True, known_POWERPC)
      else if cputype = CPU_TYPE_MC88000 then Some (True, known_MC88000)
      else if cputype = CPU_TYPE_I860 then Some (True, known_I860)
      else if cputype = CPU_TYPE_I386 \<or> cputype = CPU_TYPE_X86_64 then Some (True, known_I386)
      else if cputype = CPU_TYPE_HPPA then Some (True, known_HPPA)
      else if cputype = CPU_TYPE_SPARC then Some (False, known_SPARC)
      else if cputype = CPU_TYPE_ARM then Some (True, known_ARM)
      else None)"

function precheck_states ::
  "byte_sex \<Rightarrow> bool \<Rightarrow> (u32 \<times> string \<times> decl) list \<Rightarrow> string \<Rightarrow> nat \<Rightarrow> nat \<Rightarrow> mem \<Rightarrow> nat \<Rightarrow> nat \<Rightarrow>
     (mach_o_error, unit) check" where
  "precheck_states h strict table name i p m nflavor state =
     (if state < p then
        (case (load word_codec h m state, load word_codec h m (state + 4)) of
           (Some flavor, Some count) \<Rightarrow>
             (case map_of table flavor of
                Some (state_name, d) \<Rightarrow>
                  if count \<noteq> state_count d then CHECK_BAD (Count_wrong state_name nflavor name i)
                  else precheck_states h strict table name i p m (if strict then Suc nflavor else nflavor)
                         (state + 8 + decl_size d)
              | None \<Rightarrow>
                  if strict then CHECK_BAD (Unknown_flavor nflavor name i)
                  else precheck_states h strict table name i p m nflavor (state + 8))
         | _ \<Rightarrow> FAULT)
      else CHECK_GOOD ())"
  by pat_completeness auto

termination precheck_states
  by (relation "measure (\<lambda>(h, strict, table, name, i, p, m, nflavor, state). p - state)") auto

declare precheck_states.simps [simp del]

definition precheck_LC_THREAD :: "byte_sex \<Rightarrow> u32 \<Rightarrow> mem \<Rightarrow> nat \<Rightarrow> nat \<Rightarrow> (mach_o_error, unit) check" where
  "precheck_LC_THREAD h cputype m i lc =
     and_then (or_fault (load thread_command_codec h m lc))
       (\<lambda>ut. let name = (if ut_cmd ut = LC_UNIXTHREAD then ''LC_UNIXTHREAD'' else ''LC_THREAD'')
             in case known_states cputype of
                  Some (strict, table) \<Rightarrow>
                    precheck_states h strict table name i (lc + unat (ut_cmdsize ut)) m 0 (lc + 8)
                | None \<Rightarrow> CHECK_BAD (Unknown_cputype name i))"

section \<open>The first pass\<close>

definition precheck_command ::
  "u32 \<Rightarrow> byte_sex \<Rightarrow> u32 \<Rightarrow> nat \<Rightarrow> mem \<Rightarrow> nat \<Rightarrow> nat \<Rightarrow> (mach_o_error, unit) check" where
  "precheck_command cmd h cputype stop m i lc =
     (if cmd = LC_SEGMENT then precheck_LC_SEGMENT h m i lc
      else if cmd = LC_SEGMENT_64 then precheck_LC_SEGMENT_64 h m i lc
      else if cmd = LC_SYMTAB then precheck_LC_SYMTAB h m i lc
      else if cmd = LC_DYSYMTAB then precheck_LC_DYSYMTAB h m i lc
      else if cmd = LC_SYMSEG then precheck_LC_SYMSEG h m i lc
      else if cmd = LC_IDFVMLIB \<or> cmd = LC_LOADFVMLIB then precheck_LC_FVMLIB h m i lc
      else if cmd = LC_ID_DYLIB then precheck_dylib_command ''LC_ID_DYLIB'' h m i lc
      else if cmd = LC_LOAD_DYLIB then precheck_dylib_command ''LC_LOAD_DYLIB'' h m i lc
      else if cmd = LC_LOAD_WEAK_DYLIB then precheck_dylib_command ''LC_LOAD_WEAK_DYLIB'' h m i lc
      else if cmd = LC_REEXPORT_DYLIB then precheck_dylib_command ''LC_REEXPORT_DYLIB'' h m i lc
      else if cmd = LC_LAZY_LOAD_DYLIB then precheck_dylib_command ''LC_LAZY_LOAD_DYLIB'' h m i lc
      else if cmd = LC_SUB_FRAMEWORK then precheck_LC_SUB_FRAMEWORK h m i lc
      else if cmd = LC_SUB_UMBRELLA then precheck_LC_SUB_UMBRELLA h m i lc
      else if cmd = LC_SUB_LIBRARY then precheck_LC_SUB_LIBRARY h m i lc
      else if cmd = LC_SUB_CLIENT then precheck_LC_SUB_CLIENT h m i lc
      else if cmd = LC_PREBOUND_DYLIB then precheck_LC_PREBOUND_DYLIB h m i lc
      else if cmd = LC_ID_DYLINKER \<or> cmd = LC_LOAD_DYLINKER then precheck_LC_DYLINKER h m i lc
      else if cmd = LC_UNIXTHREAD \<or> cmd = LC_THREAD then precheck_LC_THREAD h cputype m i lc
      else if cmd = LC_IDENT then precheck_LC_IDENT h stop m i lc
      else if cmd = LC_ROUTINES then precheck_LC_ROUTINES h m i lc
      else if cmd = LC_ROUTINES_64 then precheck_LC_ROUTINES_64 h m i lc
      else if cmd = LC_TWOLEVEL_HINTS then precheck_LC_TWOLEVEL_HINTS h m i lc
      else if cmd = LC_PREBIND_CKSUM then precheck_LC_PREBIND_CKSUM h m i lc
      else if cmd = LC_UUID then precheck_LC_UUID h m i lc
      else if cmd = LC_CODE_SIGNATURE then precheck_LC_CODE_SIGNATURE h m i lc
      else if cmd = LC_SEGMENT_SPLIT_INFO then precheck_LC_SEGMENT_SPLIT_INFO h m i lc
      else if cmd = LC_RPATH then precheck_LC_RPATH h m i lc
      else if cmd = LC_ENCRYPTION_INFO then precheck_LC_ENCRYPTION_INFO h m i lc
      else CHECK_BAD (Unknown_command i))"

text \<open>The loop, with \<open>n\<close> load commands left; it returns where the last one ends.\<close>

fun precheck_all ::
  "byte_sex \<Rightarrow> u32 \<Rightarrow> u32 \<Rightarrow> nat \<Rightarrow> mem \<Rightarrow> nat \<Rightarrow> nat \<Rightarrow> nat \<Rightarrow> (mach_o_error, nat) check" where
  "precheck_all h cmd_multiple cputype stop m 0 i lc = CHECK_GOOD lc"
| "precheck_all h cmd_multiple cputype stop m (Suc n) i lc =
     and_then (or_fault (load load_command_codec h m lc)) (\<lambda>l.
     and_then (verdict_of
       [(lc_cmdsize l mod cmd_multiple \<noteq> 0, Cmdsize_not_multiple i cmd_multiple),
        (lc + unat (lc_cmdsize l) > stop, Command_past_end i),
        (lc_cmdsize l = 0, Cmdsize_zero i)]) (\<lambda>_.
     and_then (precheck_command (lc_cmd l) h cputype stop m i lc) (\<lambda>_.
     and_then (verdict_of [(lc + unat (lc_cmdsize l) > stop, Command_past_end (i + 1))]) (\<lambda>_.
     precheck_all h cmd_multiple cputype stop m n (Suc i) (lc + unat (lc_cmdsize l))))))"

section \<open>The second pass\<close>

text \<open>
  The states of a flavor, as the second pass swaps them: a list, because the case for
  \<^verbatim>\<open>PPC_FLOAT_STATE\<close> has no \<^verbatim>\<open>break\<close> and goes on to swap an exception state after it.
\<close>

type_synonym state_swaps = "(u32 \<times> (decl \<times> thread_swap) list) list"

definition swaps_MC680x0 :: state_swaps where
  "swaps_MC680x0 =
     [(1, [(m68k_thread_state_regs, plain swap_m68k_thread_state_regs)]),
      (2, [(m68k_thread_state_68882, plain swap_m68k_thread_state_68882)]),
      (3, [(m68k_thread_state_user_reg, plain swap_m68k_thread_state_user_reg)])]"

definition swaps_POWERPC :: state_swaps where
  "swaps_POWERPC =
     [(1, [(ppc_thread_state_t, plain swap_ppc_thread_state_t)]),
      (5, [(ppc_thread_state64_t, plain swap_ppc_thread_state64_t)]),
      (2, [(ppc_float_state_t, plain swap_ppc_float_state_t),
           (ppc_exception_state_t, plain swap_ppc_exception_state_t)]),
      (3, [(ppc_exception_state_t, plain swap_ppc_exception_state_t)])]"

definition swaps_MC88000 :: state_swaps where
  "swaps_MC88000 =
     [(1, [(m88k_thread_state_grf_t, plain swap_m88k_thread_state_grf_t)]),
      (2, [(m88k_thread_state_xrf_t, swap_m88k_thread_state_xrf_t)]),
      (3, [(m88k_thread_state_user_t, plain swap_m88k_thread_state_user_t)]),
      (4, [(m88110_thread_state_impl_t, swap_m88110_thread_state_impl_t)])]"

definition swaps_I860 :: state_swaps where
  "swaps_I860 = [(4, [(i860_thread_state_regs, plain swap_i860_thread_state_regs)])]"

definition swaps_I386 :: state_swaps where
  "swaps_I386 =
     [(1, [(i386_thread_state_t, plain swap_i386_thread_state)]),
      (0xffffffff, [(i386_thread_state_t, plain swap_i386_thread_state)]),
      (2, [(i386_float_state, swap_i386_float_state)]),
      (3, [(i386_exception_state_t, plain swap_i386_exception_state)]),
      (4, [(x86_thread_state64_t, plain swap_x86_thread_state64)])]"

definition swaps_HPPA :: state_swaps where
  "swaps_HPPA =
     [(1, [(hp_pa_integer_thread_state, plain swap_hppa_integer_thread_state)]),
      (2, [(hp_pa_frame_thread_state, plain swap_hppa_frame_thread_state)]),
      (3, [(hp_pa_fp_thread_state, plain swap_hppa_fp_thread_state)])]"

definition swaps_SPARC :: state_swaps where
  "swaps_SPARC =
     [(1, [(sparc_thread_state_regs, swap_sparc_thread_state_regs)]),
      (2, [(sparc_thread_state_fpu, swap_sparc_thread_state_fpu)])]"

definition swaps_ARM :: state_swaps where
  "swaps_ARM = [(1, [(arm_thread_state_t, plain swap_arm_thread_state_t)])]"

definition states_to_swap :: "u32 \<Rightarrow> state_swaps option" where
  "states_to_swap cputype =
     (if cputype = CPU_TYPE_MC680x0 then Some swaps_MC680x0
      else if cputype = CPU_TYPE_POWERPC \<or> cputype = CPU_TYPE_VEO \<or> cputype = CPU_TYPE_POWERPC64
        then Some swaps_POWERPC
      else if cputype = CPU_TYPE_MC88000 then Some swaps_MC88000
      else if cputype = CPU_TYPE_I860 then Some swaps_I860
      else if cputype = CPU_TYPE_I386 \<or> cputype = CPU_TYPE_X86_64 then Some swaps_I386
      else if cputype = CPU_TYPE_HPPA then Some swaps_HPPA
      else if cputype = CPU_TYPE_SPARC then Some swaps_SPARC
      else if cputype = CPU_TYPE_ARM then Some swaps_ARM
      else None)"

text \<open>
  The swap routines are called with the byte order of the other machine as the target: there a
  routine with bit-fields copies from an uninitialised local, whose bits are the argument \<open>junk\<close>.
\<close>

definition swap_target :: "byte_sex \<Rightarrow> byte_sex" where
  "swap_target h =
     (if get_host_byte_sex h = BIG_ENDIAN_BYTE_SEX then LITTLE_ENDIAN_BYTE_SEX else BIG_ENDIAN_BYTE_SEX)"

fun swap_each :: "byte_sex \<Rightarrow> (nat \<Rightarrow> u32) \<Rightarrow> (decl \<times> thread_swap) list \<Rightarrow> mem \<Rightarrow> nat \<Rightarrow> (mem \<times> nat) option" where
  "swap_each h junk [] m state = Some (m, state)"
| "swap_each h junk ((d, swap) # ds) m state =
     (case swap_at (raw_codec (kinds_of d)) (swap h (swap_target h) junk) h m state of
        None \<Rightarrow> None
      | Some m \<Rightarrow> swap_each h junk ds m (state + decl_size d))"

lemma swap_each_grows: "swap_each h junk ds m state = Some (m', state') \<Longrightarrow> state \<le> state'"
  by (induction h junk ds m state rule: swap_each.induct) (auto split: option.splits)

function swap_states ::
  "byte_sex \<Rightarrow> (nat \<Rightarrow> u32) \<Rightarrow> state_swaps \<Rightarrow> nat \<Rightarrow> mem \<Rightarrow> nat \<Rightarrow> mem option" where
  "swap_states h junk table p m state =
     (if state < p then
        (case load word_codec h m state of
           None \<Rightarrow> None
         | Some flavor \<Rightarrow>
         (case swap_at word_codec SWAP_INT h m state of
            None \<Rightarrow> None
          | Some m1 \<Rightarrow>
          (case swap_at word_codec SWAP_INT h m1 (state + 4) of
             None \<Rightarrow> None
           | Some m2 \<Rightarrow>
           (case swap_each h junk (case map_of table flavor of None \<Rightarrow> [] | Some ds \<Rightarrow> ds) m2 (state + 8) of
              None \<Rightarrow> None
            | Some (m3, state') \<Rightarrow> swap_states h junk table p m3 state'))))
      else Some m)"
  by pat_completeness auto

termination swap_states
  by (relation "measure (\<lambda>(h, junk, table, p, m, state). p - state)") (auto dest!: swap_each_grows)

declare swap_states.simps [simp del]

definition swap_LC_THREAD ::
  "byte_sex \<Rightarrow> (nat \<Rightarrow> u32) \<Rightarrow> u32 \<Rightarrow> mem \<Rightarrow> nat \<Rightarrow> mem option" where
  "swap_LC_THREAD h junk cputype m lc =
     (case load thread_command_codec h m lc of
        None \<Rightarrow> None
      | Some ut \<Rightarrow>
      (case swap_at thread_command_codec swap_thread_command h m lc of
         None \<Rightarrow> None
       | Some m \<Rightarrow>
       (case states_to_swap cputype of
          None \<Rightarrow> Some m
        | Some table \<Rightarrow> swap_states h junk table (lc + unat (ut_cmdsize ut)) m (lc + 8))))"

text \<open>The sections of a segment are swapped before the segment, whose \<^verbatim>\<open>nsects\<close> counts them.\<close>

definition swap_LC_SEGMENT :: "byte_sex \<Rightarrow> mem \<Rightarrow> nat \<Rightarrow> mem option" where
  "swap_LC_SEGMENT h m lc =
     (case load segment_command_codec h m lc of
        None \<Rightarrow> None
      | Some sg \<Rightarrow> Option.bind (swap_section_array h m (lc + 56) (unat (sg_nsects sg)))
          (\<lambda>m. swap_at segment_command_codec swap_segment_command h m lc))"

definition swap_LC_SEGMENT_64 :: "byte_sex \<Rightarrow> mem \<Rightarrow> nat \<Rightarrow> mem option" where
  "swap_LC_SEGMENT_64 h m lc =
     (case load segment_command_64_codec h m lc of
        None \<Rightarrow> None
      | Some sg64 \<Rightarrow> Option.bind (swap_section_64_array h m (lc + 72) (unat (sg64_nsects sg64)))
          (\<lambda>m. swap_at segment_command_64_codec swap_segment_command_64 h m lc))"

definition swap_command ::
  "u32 \<Rightarrow> byte_sex \<Rightarrow> (nat \<Rightarrow> u32) \<Rightarrow> u32 \<Rightarrow> mem \<Rightarrow> nat \<Rightarrow> mem option" where
  "swap_command cmd h junk cputype m lc =
     (if cmd = LC_SEGMENT then swap_LC_SEGMENT h m lc
      else if cmd = LC_SEGMENT_64 then swap_LC_SEGMENT_64 h m lc
      else if cmd = LC_SYMTAB then swap_at symtab_command_codec swap_symtab_command h m lc
      else if cmd = LC_DYSYMTAB then swap_at dysymtab_command_codec swap_dysymtab_command h m lc
      else if cmd = LC_SYMSEG then swap_at symseg_command_codec swap_symseg_command h m lc
      else if cmd = LC_IDFVMLIB \<or> cmd = LC_LOADFVMLIB then
        swap_at fvmlib_command_codec swap_fvmlib_command h m lc
      else if cmd \<in> set dylib_commands then swap_at dylib_command_codec swap_dylib_command h m lc
      else if cmd = LC_SUB_FRAMEWORK then
        swap_at sub_framework_command_codec swap_sub_framework_command h m lc
      else if cmd = LC_SUB_UMBRELLA then
        swap_at sub_umbrella_command_codec swap_sub_umbrella_command h m lc
      else if cmd = LC_SUB_LIBRARY then
        swap_at sub_library_command_codec swap_sub_library_command h m lc
      else if cmd = LC_SUB_CLIENT then swap_at sub_client_command_codec swap_sub_client_command h m lc
      else if cmd = LC_PREBOUND_DYLIB then
        swap_at prebound_dylib_command_codec swap_prebound_dylib_command h m lc
      else if cmd = LC_ID_DYLINKER \<or> cmd = LC_LOAD_DYLINKER then
        swap_at dylinker_command_codec swap_dylinker_command h m lc
      else if cmd = LC_UNIXTHREAD \<or> cmd = LC_THREAD then swap_LC_THREAD h junk cputype m lc
      else if cmd = LC_IDENT then swap_at ident_command_codec swap_ident_command h m lc
      else if cmd = LC_ROUTINES then swap_at routines_command_codec swap_routines_command h m lc
      else if cmd = LC_ROUTINES_64 then swap_at routines_command_64_codec swap_routines_command_64 h m lc
      else if cmd = LC_TWOLEVEL_HINTS then
        swap_at twolevel_hints_command_codec swap_twolevel_hints_command h m lc
      else if cmd = LC_PREBIND_CKSUM then
        swap_at prebind_cksum_command_codec swap_prebind_cksum_command h m lc
      else if cmd = LC_UUID then swap_at uuid_command_codec swap_uuid_command h m lc
      else if cmd = LC_CODE_SIGNATURE \<or> cmd = LC_SEGMENT_SPLIT_INFO then
        swap_at linkedit_data_command_codec swap_linkedit_data_command h m lc
      else if cmd = LC_RPATH then swap_at rpath_command_codec swap_rpath_command h m lc
      else if cmd = LC_ENCRYPTION_INFO then
        swap_at encryption_info_command_codec swap_encryption_command h m lc
      else Some m)"

fun swap_all :: "byte_sex \<Rightarrow> (nat \<Rightarrow> u32) \<Rightarrow> u32 \<Rightarrow> nat \<Rightarrow> mem \<Rightarrow> nat \<Rightarrow> mem option" where
  "swap_all h junk cputype 0 m lc = Some m"
| "swap_all h junk cputype (Suc n) m lc =
     (case load load_command_codec h m lc of
        None \<Rightarrow> None
      | Some l \<Rightarrow> Option.bind (swap_command (lc_cmd l) h junk cputype m lc)
          (\<lambda>m. swap_all h junk cputype n m (lc + unat (lc_cmdsize l))))"

section \<open>The routine\<close>

text \<open>
  Which header it is is decided by the magic number.  \<open>CHECK_GOOD m\<close> is the returned \<^verbatim>\<open>TRUE\<close>, with
  the memory as it is then.
\<close>

definition object_header_at :: "byte_sex \<Rightarrow> mem \<Rightarrow> (bool \<times> object_header) option" where
  "object_header_at h m =
     (case load word_codec h m 0 of
        None \<Rightarrow> None
      | Some magic \<Rightarrow> map_option (Pair (magic = MH_MAGIC)) (header_at h (magic = MH_MAGIC) m))"

definition swap_object_headers ::
  "byte_sex \<Rightarrow> (nat \<Rightarrow> u32) \<Rightarrow> mem \<Rightarrow> nat \<Rightarrow> (mach_o_error, mem) check" where
  "swap_object_headers h junk m commands =
     and_then (or_fault (object_header_at h m)) (\<lambda>(is32, oh).
     let stop = commands + unat (oh_sizeofcmds oh) in
     and_then (precheck_all h (oh_multiple oh) (oh_cputype oh) stop m (unat (oh_ncmds oh)) 0 commands)
       (\<lambda>lc.
     and_then (verdict_of [(stop \<noteq> lc, Inconsistent_sizeofcmds)]) (\<lambda>_.
     and_then (or_fault (swap_all h junk (oh_cputype oh) (unat (oh_ncmds oh)) m commands)) (\<lambda>m.
     or_fault
       (if is32 then swap_at mach_header_codec swap_mach_header h m 0
        else swap_at mach_header_64_codec swap_mach_header_64 h m 0)))))"

text \<open>
  \<^verbatim>\<open>swap_back_Mach_O\<close> ignores what \<^verbatim>\<open>swap_object_headers\<close> returns.  The error of the result is the
  one that was printed.
\<close>

definition swap_back_Mach_O :: "byte_sex \<Rightarrow> (nat \<Rightarrow> u32) \<Rightarrow> ofile \<Rightarrow> (mach_o_error option \<times> ofile) option" where
  "swap_back_Mach_O h junk ofile =
     (if headers_swapped ofile
      then let ofile = ofile\<lparr>headers_swapped := False\<rparr>
           in case swap_object_headers h junk (object_addr ofile) (if mh32 ofile then 28 else 32) of
                CHECK_GOOD m \<Rightarrow> Some (None, ofile\<lparr>object_addr := m\<rparr>)
              | CHECK_BAD e \<Rightarrow> Some (Some e, ofile)
              | FAULT \<Rightarrow> None
      else Some (None, ofile))"

end
