(* ===== verification/SwapHeadersSound.thy ===== *)
theory SwapHeadersSound
  imports SwapHeaders
begin

text \<open>
  What \<^verbatim>\<open>swap_object_headers\<close> does to an object it returns \<^verbatim>\<open>TRUE\<close> for: the machine of the other
  byte order then reads the header and the load commands that the host read before.
\<close>

section \<open>Changes within a range\<close>

definition changes_within :: "nat \<Rightarrow> nat \<Rightarrow> mem \<Rightarrow> mem \<Rightarrow> bool" where
  "changes_within a b m m' \<longleftrightarrow>
     length m' = length m \<and> take a m' = take a m \<and> drop b m' = drop b m"

lemma changes_within_refl [simp]: "changes_within a b m m"
  by (simp add: changes_within_def)

lemma changes_within_from: "changes_within a b m m' \<Longrightarrow> changes_from a m m'"
  by (simp add: changes_within_def changes_from_def)

lemma drop_mono: "drop b m' = drop b m \<Longrightarrow> b \<le> c \<Longrightarrow> drop c m' = drop c m"
  by (metis drop_drop le_add_diff_inverse2)

lemma changes_within_mono:
  "changes_within a b m m' \<Longrightarrow> a' \<le> a \<Longrightarrow> b \<le> b' \<Longrightarrow> changes_within a' b' m m'"
  unfolding changes_within_def by (metis drop_mono min.absorb1 take_take)

lemma changes_within_trans:
  "changes_within a b m m1 \<Longrightarrow> changes_within a b m1 m' \<Longrightarrow> changes_within a b m m'"
  by (simp add: changes_within_def)

lemma put_bytes_within:
  "off + length bs \<le> length m \<Longrightarrow> changes_within off (off + length bs) m (put_bytes m off bs)"
  by (simp add: changes_within_def put_bytes_def)

lemma load_drop:
  assumes "drop lc m' = drop lc m" and "length m' = length m" and "lc \<le> off"
  shows "load C h m' off = load C h m off"
proof -
  have "drop off m' = drop off m" using drop_mono assms(1,3) by blast
  then show ?thesis using assms(2) by (simp add: load_def get_bytes_def)
qed

context mach_struct
begin

lemma swap_at_within:
  assumes "\<And>x. wf x \<Longrightarrow> wf (f x)" and "swap_at C f h m off = Some m'"
  shows "changes_within off (off + size_of C) m m'"
proof -
  from assms(2) obtain x where x: "load C h m off = Some x" and m': "m' = store C h m off (f x)"
    by (auto simp: swap_at_def)
  have len: "length (encode h (parts C (f x))) = size_of C"
    using length_encode_parts [OF assms(1) [OF load_wf [OF x]]] .
  show ?thesis
    using put_bytes_within [of off "encode h (parts C (f x))" m] load_bound [OF x] len
    by (simp add: m' store_def)
qed

lemma swap_array_within:
  assumes "\<And>x. wf x \<Longrightarrow> wf (f x)"
  shows "swap_array_at C f h m off n = Some m' \<Longrightarrow> changes_within off (off + n * size_of C) m m'"
proof (induction n arbitrary: m off)
  case (Suc n)
  then obtain m1 where m1: "swap_at C f h m off = Some m1"
    and rest: "swap_array_at C f h m1 (off + size_of C) n = Some m'"
    by (auto split: option.splits)
  have "changes_within off (off + Suc n * size_of C) m m1"
    using changes_within_mono [OF swap_at_within [OF assms m1]] by simp
  moreover have "changes_within off (off + Suc n * size_of C) m1 m'"
    using changes_within_mono [OF Suc.IH [OF rest]] by (simp add: algebra_simps)
  ultimately show ?case by (rule changes_within_trans)
qed simp

lemma swap_array_end:
  "swap_array_at C f h m off n = Some m' \<Longrightarrow> (\<And>x. wf x \<Longrightarrow> wf (f x)) \<Longrightarrow> 0 < n \<Longrightarrow>
     off + n * size_of C \<le> length m"
proof (induction n arbitrary: m off)
  case (Suc n)
  then obtain m1 where m1: "swap_at C f h m off = Some m1"
    and rest: "swap_array_at C f h m1 (off + size_of C) n = Some m'"
    by (auto split: option.splits)
  have len: "length m1 = length m"
    using swap_at_within [OF Suc.prems(2) m1] by (simp add: changes_within_def)
  have "off + size_of C \<le> length m"
    using m1 by (auto simp: swap_at_def dest: load_bound)
  then show ?case using Suc.IH [OF rest Suc.prems(2)] len by (cases "n = 0") simp_all
qed simp

end

context swappable_struct
begin

text \<open>The contract of a load command that is swapped by the routine of its struct.\<close>

lemma swap_inside:
  assumes "starts_command C" and "swap_at C swap h m lc = Some m'"
    and "load load_command_codec h m lc = Some l" and "size_of C \<le> unat (lc_cmdsize l)"
  shows "changes_within lc (lc + unat (lc_cmdsize l)) m m' \<and>
    load load_command_codec h m' lc = Some (swap_load_command l)"
  using changes_within_mono [OF swap_at_within [OF wf_swap assms(2)]] assms(3,4)
    swap_at_command [OF assms(1,2)] by simp

end

lemmas swaps_inside =
  symtab_command.swap_inside [OF starts_command_codecs(4)]
  dysymtab_command.swap_inside [OF starts_command_codecs(5)]
  symseg_command.swap_inside [OF starts_command_codecs(6)]
  fvmlib_command.swap_inside [OF starts_command_codecs(7)]
  dylib_command.swap_inside [OF starts_command_codecs(8)]
  sub_framework_command.swap_inside [OF starts_command_codecs(9)]
  sub_umbrella_command.swap_inside [OF starts_command_codecs(10)]
  sub_library_command.swap_inside [OF starts_command_codecs(11)]
  sub_client_command.swap_inside [OF starts_command_codecs(12)]
  prebound_dylib_command.swap_inside [OF starts_command_codecs(13)]
  dylinker_command.swap_inside [OF starts_command_codecs(14)]
  ident_command.swap_inside [OF starts_command_codecs(16)]
  routines_command.swap_inside [OF starts_command_codecs(17)]
  routines_command_64.swap_inside [OF starts_command_codecs(18)]
  twolevel_hints_command.swap_inside [OF starts_command_codecs(19)]
  prebind_cksum_command.swap_inside [OF starts_command_codecs(20)]
  uuid_command.swap_inside [OF starts_command_codecs(21)]
  linkedit_data_command.swap_inside [OF starts_command_codecs(22)]
  rpath_command.swap_inside [OF starts_command_codecs(23)]
  encryption_info_command.swap_inside [OF starts_command_codecs(24)]

section \<open>What the first pass leaves unread\<close>

text \<open>The checks of a load command read nothing before it.\<close>

lemma precheck_states_drop:
  assumes "drop lc m' = drop lc m" and "length m' = length m" and "lc \<le> state"
  shows "precheck_states h strict table name i p m' nfl state = precheck_states h strict table name i p m nfl state"
  using assms
proof (induction h strict table name i p m nfl state rule: precheck_states.induct)
  case (1 h strict table name i p m nfl state)
  have "load word_codec h m' state = load word_codec h m state"
    "load word_codec h m' (state + 4) = load word_codec h m (state + 4)"
    using load_drop [OF 1(3,4), of state word_codec h] load_drop [OF 1(3,4), of "state + 4" word_codec h] 1(5)
    by simp_all
  then show ?case
    by (subst (1 2) precheck_states.simps) (use 1 in \<open>auto split: option.splits\<close>)
qed

lemma precheck_command_drop:
  assumes "drop lc m' = drop lc m" and "length m' = length m"
  shows "precheck_command cmd h ct stop m' i lc = precheck_command cmd h ct stop m i lc"
proof -
  note here = load_drop [OF assms order_refl]
  have thread: "precheck_LC_THREAD h ct m' i lc = precheck_LC_THREAD h ct m i lc"
    using precheck_states_drop [OF assms] by (simp add: precheck_LC_THREAD_def here cong: option.case_cong)
  show ?thesis
    unfolding precheck_command_def thread
    by (simp add: precheck_defs with_struct_def here)
qed

lemma precheck_all_drop:
  assumes "drop lc m' = drop lc m" and "length m' = length m"
  shows "precheck_all h mult ct stop m' n i lc = precheck_all h mult ct stop m n i lc"
  using assms
proof (induction n arbitrary: i lc)
  case (Suc n)
  have "precheck_all h mult ct stop m' n j (lc + k) = precheck_all h mult ct stop m n j (lc + k)" for j k
    using Suc.IH Suc.prems drop_mono by (metis le_add1)
  then show ?case
    using load_drop [OF Suc.prems order_refl, of load_command_codec h] precheck_command_drop [OF Suc.prems] by simp
qed simp

lemma commands_at_drop:
  assumes "drop lc m' = drop lc m" and "length m' = length m"
  shows "commands_at h m' n lc = commands_at h m n lc"
  using assms
proof (induction n arbitrary: lc)
  case (Suc n)
  have "commands_at h m' n (lc + k) = commands_at h m n (lc + k)" for k
    using Suc.IH Suc.prems drop_mono by (metis le_add1)
  then show ?case using load_drop [OF Suc.prems order_refl, of load_command_codec h] by (simp cong: option.case_cong)
qed simp

section \<open>Sizes\<close>

text \<open>A load command that passed the first pass is at least as long as its struct.\<close>

lemma with_struct_size:
  assumes "with_struct C h m lc ts = CHECK_GOOD u" and "load load_command_codec h m lc = Some l"
    and "mach_struct C ok" and "\<And>x. \<exists>fs. parts C x = F32 (c x) # F32 (s x) # fs"
    and "\<And>x. \<forall>(c, e) \<in> set (ts x). \<not> c \<Longrightarrow> n \<le> unat (s x)"
  shows "n \<le> unat (lc_cmdsize l)"
proof -
  from assms(1) obtain x where x: "load C h m lc = Some x" and "verdict_of (ts x) = CHECK_GOOD ()"
    by (auto simp: with_struct_def and_then_GOOD_iff)
  then have "n \<le> unat (s x)" using assms(5) by (simp add: verdict_GOOD_iff)
  moreover have "lc_cmdsize l = s x" using struct_command [OF x assms(4,3)] assms(2) by simp
  ultimately show ?thesis by simp
qed

lemma size_LC_SYMTAB:
  "precheck_LC_SYMTAB h m i lc = CHECK_GOOD u \<Longrightarrow> load load_command_codec h m lc = Some l \<Longrightarrow>
     24 \<le> unat (lc_cmdsize l)"
  unfolding precheck_LC_SYMTAB_def
  by (erule (1) with_struct_size [OF _ _ symtab_command.mach_struct_axioms, where c = st_cmd and s = st_cmdsize])
    (simp_all add: symtab_command_codec_def Let_def word_less_nat_alt)

lemma size_LC_DYSYMTAB:
  "precheck_LC_DYSYMTAB h m i lc = CHECK_GOOD u \<Longrightarrow> load load_command_codec h m lc = Some l \<Longrightarrow>
     80 \<le> unat (lc_cmdsize l)"
  unfolding precheck_LC_DYSYMTAB_def
  by (erule (1) with_struct_size [OF _ _ dysymtab_command.mach_struct_axioms, where c = dyst_cmd and s = dyst_cmdsize])
    (simp_all add: dysymtab_command_codec_def Let_def word_less_nat_alt)

lemma size_LC_SYMSEG:
  "precheck_LC_SYMSEG h m i lc = CHECK_GOOD u \<Longrightarrow> load load_command_codec h m lc = Some l \<Longrightarrow>
     16 \<le> unat (lc_cmdsize l)"
  unfolding precheck_LC_SYMSEG_def
  by (erule (1) with_struct_size [OF _ _ symseg_command.mach_struct_axioms, where c = ss_cmd and s = ss_cmdsize])
    (simp_all add: symseg_command_codec_def Let_def word_less_nat_alt)

lemma size_LC_FVMLIB:
  "precheck_LC_FVMLIB h m i lc = CHECK_GOOD u \<Longrightarrow> load load_command_codec h m lc = Some l \<Longrightarrow>
     20 \<le> unat (lc_cmdsize l)"
  unfolding precheck_LC_FVMLIB_def
  by (erule (1) with_struct_size [OF _ _ fvmlib_command.mach_struct_axioms, where c = fl_cmd and s = fl_cmdsize])
    (simp_all add: fvmlib_command_codec_def Let_def word_less_nat_alt)

lemma size_dylib_command:
  "precheck_dylib_command cmd_name h m i lc = CHECK_GOOD u \<Longrightarrow> load load_command_codec h m lc = Some l \<Longrightarrow>
     24 \<le> unat (lc_cmdsize l)"
  unfolding precheck_dylib_command_def
  by (erule (1) with_struct_size [OF _ _ dylib_command.mach_struct_axioms, where c = dl_cmd and s = dl_cmdsize])
    (simp_all add: dylib_command_codec_def Let_def word_less_nat_alt)

lemma size_LC_SUB_FRAMEWORK:
  "precheck_LC_SUB_FRAMEWORK h m i lc = CHECK_GOOD u \<Longrightarrow> load load_command_codec h m lc = Some l \<Longrightarrow>
     12 \<le> unat (lc_cmdsize l)"
  unfolding precheck_LC_SUB_FRAMEWORK_def
  by (erule (1) with_struct_size [OF _ _ sub_framework_command.mach_struct_axioms, where c = sub_cmd and s = sub_cmdsize])
    (simp_all add: sub_framework_command_codec_def Let_def word_less_nat_alt)

lemma size_LC_SUB_UMBRELLA:
  "precheck_LC_SUB_UMBRELLA h m i lc = CHECK_GOOD u \<Longrightarrow> load load_command_codec h m lc = Some l \<Longrightarrow>
     12 \<le> unat (lc_cmdsize l)"
  unfolding precheck_LC_SUB_UMBRELLA_def
  by (erule (1) with_struct_size [OF _ _ sub_umbrella_command.mach_struct_axioms, where c = usub_cmd and s = usub_cmdsize])
    (simp_all add: sub_umbrella_command_codec_def Let_def word_less_nat_alt)

lemma size_LC_SUB_LIBRARY:
  "precheck_LC_SUB_LIBRARY h m i lc = CHECK_GOOD u \<Longrightarrow> load load_command_codec h m lc = Some l \<Longrightarrow>
     12 \<le> unat (lc_cmdsize l)"
  unfolding precheck_LC_SUB_LIBRARY_def
  by (erule (1) with_struct_size [OF _ _ sub_library_command.mach_struct_axioms, where c = lsub_cmd and s = lsub_cmdsize])
    (simp_all add: sub_library_command_codec_def Let_def word_less_nat_alt)

lemma size_LC_SUB_CLIENT:
  "precheck_LC_SUB_CLIENT h m i lc = CHECK_GOOD u \<Longrightarrow> load load_command_codec h m lc = Some l \<Longrightarrow>
     12 \<le> unat (lc_cmdsize l)"
  unfolding precheck_LC_SUB_CLIENT_def
  by (erule (1) with_struct_size [OF _ _ sub_client_command.mach_struct_axioms, where c = csub_cmd and s = csub_cmdsize])
    (simp_all add: sub_client_command_codec_def Let_def word_less_nat_alt)

lemma size_LC_PREBOUND_DYLIB:
  "precheck_LC_PREBOUND_DYLIB h m i lc = CHECK_GOOD u \<Longrightarrow> load load_command_codec h m lc = Some l \<Longrightarrow>
     20 \<le> unat (lc_cmdsize l)"
  unfolding precheck_LC_PREBOUND_DYLIB_def
  by (erule (1) with_struct_size [OF _ _ prebound_dylib_command.mach_struct_axioms, where c = pbdylib_cmd and s = pbdylib_cmdsize])
    (simp_all add: prebound_dylib_command_codec_def Let_def word_less_nat_alt)

lemma size_LC_DYLINKER:
  "precheck_LC_DYLINKER h m i lc = CHECK_GOOD u \<Longrightarrow> load load_command_codec h m lc = Some l \<Longrightarrow>
     12 \<le> unat (lc_cmdsize l)"
  unfolding precheck_LC_DYLINKER_def
  by (erule (1) with_struct_size [OF _ _ dylinker_command.mach_struct_axioms, where c = dyld_cmd and s = dyld_cmdsize])
    (simp_all add: dylinker_command_codec_def Let_def word_less_nat_alt)

lemma size_LC_ROUTINES:
  "precheck_LC_ROUTINES h m i lc = CHECK_GOOD u \<Longrightarrow> load load_command_codec h m lc = Some l \<Longrightarrow>
     40 \<le> unat (lc_cmdsize l)"
  unfolding precheck_LC_ROUTINES_def
  by (erule (1) with_struct_size [OF _ _ routines_command.mach_struct_axioms, where c = rc_cmd and s = rc_cmdsize])
    (simp_all add: routines_command_codec_def Let_def word_less_nat_alt)

lemma size_LC_ROUTINES_64:
  "precheck_LC_ROUTINES_64 h m i lc = CHECK_GOOD u \<Longrightarrow> load load_command_codec h m lc = Some l \<Longrightarrow>
     72 \<le> unat (lc_cmdsize l)"
  unfolding precheck_LC_ROUTINES_64_def
  by (erule (1) with_struct_size [OF _ _ routines_command_64.mach_struct_axioms, where c = rc64_cmd and s = rc64_cmdsize])
    (simp_all add: routines_command_64_codec_def Let_def word_less_nat_alt)

lemma size_LC_TWOLEVEL_HINTS:
  "precheck_LC_TWOLEVEL_HINTS h m i lc = CHECK_GOOD u \<Longrightarrow> load load_command_codec h m lc = Some l \<Longrightarrow>
     16 \<le> unat (lc_cmdsize l)"
  unfolding precheck_LC_TWOLEVEL_HINTS_def
  by (erule (1) with_struct_size [OF _ _ twolevel_hints_command.mach_struct_axioms, where c = hints_cmd and s = hints_cmdsize])
    (simp_all add: twolevel_hints_command_codec_def Let_def word_less_nat_alt)

lemma size_LC_PREBIND_CKSUM:
  "precheck_LC_PREBIND_CKSUM h m i lc = CHECK_GOOD u \<Longrightarrow> load load_command_codec h m lc = Some l \<Longrightarrow>
     12 \<le> unat (lc_cmdsize l)"
  unfolding precheck_LC_PREBIND_CKSUM_def
  by (erule (1) with_struct_size [OF _ _ prebind_cksum_command.mach_struct_axioms, where c = cs_cmd and s = cs_cmdsize])
    (simp_all add: prebind_cksum_command_codec_def Let_def word_less_nat_alt)

lemma size_LC_UUID:
  "precheck_LC_UUID h m i lc = CHECK_GOOD u \<Longrightarrow> load load_command_codec h m lc = Some l \<Longrightarrow>
     24 \<le> unat (lc_cmdsize l)"
  unfolding precheck_LC_UUID_def
  by (erule (1) with_struct_size [OF _ _ uuid_command.mach_struct_axioms, where c = uuid_cmd and s = uuid_cmdsize])
    (simp_all add: uuid_command_codec_def Let_def word_less_nat_alt)

lemma size_LC_CODE_SIGNATURE:
  "precheck_LC_CODE_SIGNATURE h m i lc = CHECK_GOOD u \<Longrightarrow> load load_command_codec h m lc = Some l \<Longrightarrow>
     16 \<le> unat (lc_cmdsize l)"
  unfolding precheck_LC_CODE_SIGNATURE_def
  by (erule (1) with_struct_size [OF _ _ linkedit_data_command.mach_struct_axioms, where c = ld_cmd and s = ld_cmdsize])
    (simp_all add: linkedit_data_command_codec_def Let_def word_less_nat_alt)

lemma size_LC_SEGMENT_SPLIT_INFO:
  "precheck_LC_SEGMENT_SPLIT_INFO h m i lc = CHECK_GOOD u \<Longrightarrow> load load_command_codec h m lc = Some l \<Longrightarrow>
     16 \<le> unat (lc_cmdsize l)"
  unfolding precheck_LC_SEGMENT_SPLIT_INFO_def
  by (erule (1) with_struct_size [OF _ _ linkedit_data_command.mach_struct_axioms, where c = ld_cmd and s = ld_cmdsize])
    (simp_all add: linkedit_data_command_codec_def Let_def word_less_nat_alt)

lemma size_LC_RPATH:
  "precheck_LC_RPATH h m i lc = CHECK_GOOD u \<Longrightarrow> load load_command_codec h m lc = Some l \<Longrightarrow>
     12 \<le> unat (lc_cmdsize l)"
  unfolding precheck_LC_RPATH_def
  by (erule (1) with_struct_size [OF _ _ rpath_command.mach_struct_axioms, where c = rpath_cmd and s = rpath_cmdsize])
    (simp_all add: rpath_command_codec_def Let_def word_less_nat_alt)

lemma size_LC_ENCRYPTION_INFO:
  "precheck_LC_ENCRYPTION_INFO h m i lc = CHECK_GOOD u \<Longrightarrow> load load_command_codec h m lc = Some l \<Longrightarrow>
     20 \<le> unat (lc_cmdsize l)"
  unfolding precheck_LC_ENCRYPTION_INFO_def
  by (erule (1) with_struct_size [OF _ _ encryption_info_command.mach_struct_axioms, where c = ec_cmd and s = ec_cmdsize])
    (simp_all add: encryption_info_command_codec_def Let_def word_less_nat_alt)

lemmas prechecked_sizes =
  size_LC_SYMTAB
  size_LC_DYSYMTAB
  size_LC_SYMSEG
  size_LC_FVMLIB
  size_dylib_command
  size_LC_SUB_FRAMEWORK
  size_LC_SUB_UMBRELLA
  size_LC_SUB_LIBRARY
  size_LC_SUB_CLIENT
  size_LC_PREBOUND_DYLIB
  size_LC_DYLINKER
  size_LC_ROUTINES
  size_LC_ROUTINES_64
  size_LC_TWOLEVEL_HINTS
  size_LC_PREBIND_CKSUM
  size_LC_UUID
  size_LC_CODE_SIGNATURE
  size_LC_SEGMENT_SPLIT_INFO
  size_LC_RPATH
  size_LC_ENCRYPTION_INFO

section \<open>Segment commands\<close>

text \<open>
  Two segments of memory swapped one after the other: the sections, then the command before them.
\<close>

lemma segment_size:
  fixes l :: load_command
  assumes "x = 56 + n * 68" and "unat n * 68 \<le> k" and "k < 2 ^ 32 - 56"
  shows "unat (x :: u32) = 56 + unat n * 68"
proof -
  have "56 + unat n * 68 < 2 ^ 32" using assms(2,3) by simp
  then show ?thesis by (simp add: assms(1) unat_word_ariths mod_simps)
qed

lemma segment_64_size:
  assumes "x = 72 + n * 80" and "unat n * 80 \<le> k" and "k < 2 ^ 32 - 72"
  shows "unat (x :: u32) = 72 + unat n * 80"
proof -
  have "72 + unat n * 80 < 2 ^ 32" using assms(2,3) by simp
  then show ?thesis by (simp add: assms(1) unat_word_ariths mod_simps)
qed

lemma swap_LC_SEGMENT_inside:
  assumes "precheck_LC_SEGMENT h m i lc = CHECK_GOOD u" and "swap_LC_SEGMENT h m lc = Some m'"
    and "load load_command_codec h m lc = Some l" and "length m < 2 ^ 32"
  shows "changes_within lc (lc + unat (lc_cmdsize l)) m m' \<and>
    load load_command_codec h m' lc = Some (swap_load_command l)"
proof -
  from assms(2) obtain sg m1 where sg: "load segment_command_codec h m lc = Some sg"
    and m1: "swap_array_at section_codec swap_section h m (lc + 56) (unat (sg_nsects sg)) = Some m1"
    and m': "swap_at segment_command_codec swap_segment_command h m1 lc = Some m'"
    by (auto simp: swap_LC_SEGMENT_def swap_section_array_def bind_eq_Some_conv split: option.splits)
  have l: "lc_cmdsize l = sg_cmdsize sg"
    using struct_command [OF sg _ segment_command.mach_struct_axioms, of sg_cmd sg_cmdsize] assms(3)
    by (simp add: segment_command_codec_def)
  have "sg_cmdsize sg = 56 + sg_nsects sg * 68"
    using assms(1) sg by (simp add: precheck_LC_SEGMENT_def with_struct_def and_then_GOOD_iff verdict_of_def split: if_splits)
  moreover have bound: "lc + 56 + unat (sg_nsects sg) * 68 \<le> length m"
    using mach_section.swap_array_end [OF m1] mach_section.wf_swap load_bound [OF sg]
    by (cases "unat (sg_nsects sg) = 0") simp_all
  ultimately have size: "unat (sg_cmdsize sg) = 56 + unat (sg_nsects sg) * 68"
    using assms(4) by (intro segment_size [of _ _ "unat (sg_nsects sg) * 68"]) simp_all
  have secs: "changes_within (lc + 56) (lc + unat (lc_cmdsize l)) m m1"
    using mach_section.swap_array_within [OF _ m1] mach_section.wf_swap by (simp add: l size add.assoc)
  then have "load load_command_codec h m1 lc = Some l"
    using changes_from_load [OF changes_within_from [OF secs], of lc load_command_codec h] assms(3) by simp
  then have "changes_within lc (lc + unat (lc_cmdsize l)) m1 m' \<and>
      load load_command_codec h m' lc = Some (swap_load_command l)"
    using segment_command.swap_inside [OF starts_command_codecs(2) m'] l size by simp
  moreover have "changes_within lc (lc + unat (lc_cmdsize l)) m m1"
    using changes_within_mono [OF secs] by simp
  ultimately show ?thesis using changes_within_trans by blast
qed

lemma swap_LC_SEGMENT_64_inside:
  assumes "precheck_LC_SEGMENT_64 h m i lc = CHECK_GOOD u" and "swap_LC_SEGMENT_64 h m lc = Some m'"
    and "load load_command_codec h m lc = Some l" and "length m < 2 ^ 32"
  shows "changes_within lc (lc + unat (lc_cmdsize l)) m m' \<and>
    load load_command_codec h m' lc = Some (swap_load_command l)"
proof -
  from assms(2) obtain sg m1 where sg: "load segment_command_64_codec h m lc = Some sg"
    and m1: "swap_array_at section_64_codec swap_section_64 h m (lc + 72) (unat (sg64_nsects sg)) = Some m1"
    and m': "swap_at segment_command_64_codec swap_segment_command_64 h m1 lc = Some m'"
    by (auto simp: swap_LC_SEGMENT_64_def swap_section_64_array_def bind_eq_Some_conv split: option.splits)
  have l: "lc_cmdsize l = sg64_cmdsize sg"
    using struct_command [OF sg _ segment_command_64.mach_struct_axioms, of sg64_cmd sg64_cmdsize] assms(3)
    by (simp add: segment_command_64_codec_def)
  have "sg64_cmdsize sg = 72 + sg64_nsects sg * 80"
    using assms(1) sg by (simp add: precheck_LC_SEGMENT_64_def with_struct_def and_then_GOOD_iff verdict_of_def split: if_splits)
  moreover have bound: "lc + 72 + unat (sg64_nsects sg) * 80 \<le> length m"
    using section_64.swap_array_end [OF m1] wf_swap_section_64 load_bound [OF sg]
    by (cases "unat (sg64_nsects sg) = 0") simp_all
  ultimately have size: "unat (sg64_cmdsize sg) = 72 + unat (sg64_nsects sg) * 80"
    using assms(4) by (intro segment_64_size [of _ _ "unat (sg64_nsects sg) * 80"]) simp_all
  have secs: "changes_within (lc + 72) (lc + unat (lc_cmdsize l)) m m1"
    using section_64.swap_array_within [OF _ m1] wf_swap_section_64 by (simp add: l size add.assoc)
  then have "load load_command_codec h m1 lc = Some l"
    using changes_from_load [OF changes_within_from [OF secs], of lc load_command_codec h] assms(3) by simp
  then have "changes_within lc (lc + unat (lc_cmdsize l)) m1 m' \<and>
      load load_command_codec h m' lc = Some (swap_load_command l)"
    using segment_command_64.swap_inside [OF starts_command_codecs(3) m'] l size by simp
  moreover have "changes_within lc (lc + unat (lc_cmdsize l)) m m1"
    using changes_within_mono [OF secs] by simp
  ultimately show ?thesis using changes_within_trans by blast
qed

section \<open>Thread commands\<close>

text \<open>
  Where the loop of the second pass over the states of a thread command ends, read in the memory
  before the loop.
\<close>

definition states_of :: "state_swaps \<Rightarrow> u32 \<Rightarrow> (decl \<times> thread_swap) list" where
  "states_of table flavor = (case map_of table flavor of None \<Rightarrow> [] | Some ds \<Rightarrow> ds)"

definition states_size :: "(decl \<times> thread_swap) list \<Rightarrow> nat" where
  "states_size ds = sum_list (map (\<lambda>(d, swap). decl_size d) ds)"

lemma states_size_simps [simp]:
  "states_size [] = 0" "states_size ((d, swap) # ds) = decl_size d + states_size ds"
  by (simp_all add: states_size_def)

function states_end :: "byte_sex \<Rightarrow> state_swaps \<Rightarrow> nat \<Rightarrow> mem \<Rightarrow> nat \<Rightarrow> nat" where
  "states_end h table p m state =
     (if state < p then
        (case load word_codec h m state of
           None \<Rightarrow> state
         | Some flavor \<Rightarrow> states_end h table p m (state + 8 + states_size (states_of table flavor)))
      else state)"
  by pat_completeness auto

termination states_end
  by (relation "measure (\<lambda>(h, table, p, m, state). p - state)") auto

declare states_end.simps [simp del]

lemma states_end_drop:
  assumes "drop lc m' = drop lc m" and "length m' = length m" and "lc \<le> state"
  shows "states_end h table p m' state = states_end h table p m state"
  using assms
proof (induction h table p m state rule: states_end.induct)
  case (1 h table p m state)
  have "load word_codec h m' state = load word_codec h m state"
    using load_drop [OF 1(2,3), of state word_codec h] 1(4) by simp
  then show ?case
    by (subst (1 2) states_end.simps) (use 1 in \<open>auto split: option.splits\<close>)
qed

lemma states_end_ge: "state \<le> states_end h table p m state"
proof (induction h table p m state rule: states_end.induct)
  case (1 h table p m state)
  then show ?case
    by (subst states_end.simps) (auto split: option.splits dest: add_leD1)
qed

definition states_keep :: "state_swaps \<Rightarrow> bool" where
  "states_keep table \<longleftrightarrow>
     (\<forall>flavor ds d swap h t j.
        (flavor, ds) \<in> set table \<longrightarrow> (d, swap) \<in> set ds \<longrightarrow> keeps_kinds d (swap h t j))"

lemma states_keep_of:
  "states_keep table \<Longrightarrow> (d, swap) \<in> set (states_of table flavor) \<Longrightarrow> keeps_kinds d (swap h t j)"
  unfolding states_keep_def states_of_def
  by (cases "map_of table flavor") (simp_all, blast dest: map_of_SomeD)

lemma swap_each_within:
  assumes "swap_each h junk ds m state = Some (m', state')"
    and "\<And>d swap t j. (d, swap) \<in> set ds \<Longrightarrow> keeps_kinds d (swap h t j)"
  shows "state' = state + states_size ds \<and> changes_within state state' m m'"
  using assms
proof (induction h junk ds m state arbitrary: m' state' rule: swap_each.induct)
  case (2 h junk d swap ds m state)
  from 2(2) obtain m1 where m1: "swap_at (raw_codec (kinds_of d)) (swap h (swap_target h) junk) h m state = Some m1"
    and rest: "swap_each h junk ds m1 (state + decl_size d) = Some (m', state')"
    by (auto split: option.splits)
  have "keeps_kinds d (swap h (swap_target h) junk)" using 2(3) by simp
  then have "changes_within state (state + decl_size d) m m1"
    using raw.swap_at_within [OF _ m1] by (simp add: keeps_kinds_def)
  moreover have "state' = state + decl_size d + states_size ds"
    and "changes_within (state + decl_size d) state' m1 m'"
    using 2(1) [OF m1 rest] 2(3) by auto
  ultimately show ?case
    using changes_within_trans changes_within_mono by (metis add.assoc le_add1 le_refl states_size_simps(2))
qed simp

lemma swap_states_within:
  assumes "swap_states h junk table p m state = Some m'" and "states_keep table"
  shows "changes_within state (states_end h table p m state) m m'"
  using assms
proof (induction h junk table p m state rule: swap_states.induct)
  case (1 h junk table p m state)
  show ?case
  proof (cases "state < p")
    case False
    then show ?thesis using 1(2) by (simp add: swap_states.simps)
  next
    case True
    with 1(2) obtain flavor m1 m2 m3 state'
      where flavor: "load word_codec h m state = Some flavor"
        and m1: "swap_at word_codec SWAP_INT h m state = Some m1"
        and m2: "swap_at word_codec SWAP_INT h m1 (state + 4) = Some m2"
        and m3: "swap_each h junk (states_of table flavor) m2 (state + 8) = Some (m3, state')"
        and rest: "swap_states h junk table p m3 state' = Some m'"
      unfolding states_of_def
      by (subst (asm) swap_states.simps) (auto split: option.splits if_splits)
    have each: "state' = state + 8 + states_size (states_of table flavor)"
      "changes_within (state + 8) state' m2 m3"
      using swap_each_within [OF m3] states_keep_of [OF 1(3)] by auto
    have words: "changes_within state (state + 4) m m1" "changes_within (state + 4) (state + 8) m1 m2"
      using word32.swap_at_within [OF _ m1] word32.swap_at_within [OF _ m2] by (simp_all add: add.assoc)
    have "changes_within state state' m m1" "changes_within state state' m1 m2" "changes_within state state' m2 m3"
      using changes_within_mono [OF words(1), of state state'] changes_within_mono [OF words(2), of state state']
        changes_within_mono [OF each(2), of state state'] by (simp_all add: each(1))
    then have all: "changes_within state state' m m3" using changes_within_trans by blast
    have same: "drop state' m3 = drop state' m" "length m3 = length m"
      using all by (simp_all add: changes_within_def)
    have ends: "states_end h table p m state = states_end h table p m3 state'"
      using states_end_drop [OF same order_refl] True flavor each(1)
      by (subst states_end.simps) simp
    have "changes_within state' (states_end h table p m3 state') m3 m'"
      using 1(1) [OF True flavor m1 m2 m3 [unfolded states_of_def] refl rest 1(3)] by simp
    then show ?thesis
      using all ends states_end_ge each(1)
      by (metis changes_within_mono changes_within_trans le_add1 le_trans order_refl)
  qed
qed

lemma more_routines_keep:
  "keeps_kinds i860_thread_state_regs swap_i860_thread_state_regs"
  "keeps_kinds ppc_float_state_t swap_ppc_float_state_t"
  "keeps_kinds ppc_exception_state_t swap_ppc_exception_state_t"
  unfolding keeps_kinds_def swap_i860_thread_state_regs_def swap_ppc_float_state_t_def
    swap_ppc_exception_state_t_def
  by (simp_all add: swap_named_keeps)

lemma states_to_swap_keep: "states_to_swap ct = Some table \<Longrightarrow> states_keep table"
  unfolding states_to_swap_def states_keep_def
  by (auto simp: swaps_MC680x0_def swaps_POWERPC_def swaps_MC88000_def swaps_I860_def swaps_I386_def
      swaps_HPPA_def swaps_SPARC_def swaps_ARM_def plain_def routines_keep more_routines_keep
      swap_m68k_thread_state_68882_keeps split: if_splits)

lemma thread_command_of: "load thread_command_codec h m lc = Some ut \<Longrightarrow>
    load load_command_codec h m lc = Some l \<Longrightarrow> lc_cmdsize l = ut_cmdsize ut"
  using struct_command [OF _ _ thread_command.mach_struct_axioms, of h m lc ut ut_cmd ut_cmdsize]
  by (auto simp: thread_command_codec_def)

definition thread_fits :: "byte_sex \<Rightarrow> u32 \<Rightarrow> mem \<Rightarrow> nat \<Rightarrow> load_command \<Rightarrow> bool" where
  "thread_fits h ct m lc l =
     (case states_to_swap ct of
        None \<Rightarrow> True
      | Some table \<Rightarrow>
          states_end h table (lc + unat (lc_cmdsize l)) m (lc + 8) \<le> lc + unat (lc_cmdsize l))"

lemma thread_fits_drop:
  assumes "drop lc m' = drop lc m" and "length m' = length m"
  shows "thread_fits h ct m' lc l = thread_fits h ct m lc l"
  using states_end_drop [OF assms] by (simp add: thread_fits_def cong: option.case_cong)

lemma swap_LC_THREAD_inside:
  assumes "swap_LC_THREAD h junk ct m lc = Some m'" and "load load_command_codec h m lc = Some l"
    and "8 \<le> unat (lc_cmdsize l)" and "thread_fits h ct m lc l"
  shows "changes_within lc (lc + unat (lc_cmdsize l)) m m' \<and>
    load load_command_codec h m' lc = Some (swap_load_command l)"
proof -
  from assms(1) obtain ut m1 where ut: "load thread_command_codec h m lc = Some ut"
    and m1: "swap_at thread_command_codec swap_thread_command h m lc = Some m1"
    and rest: "(case states_to_swap ct of
          None \<Rightarrow> Some m1
        | Some table \<Rightarrow> swap_states h junk table (lc + unat (ut_cmdsize ut)) m1 (lc + 8)) = Some m'"
    by (auto simp: swap_LC_THREAD_def split: option.splits)
  have l: "lc_cmdsize l = ut_cmdsize ut" by (rule thread_command_of [OF ut assms(2)])
  have here: "changes_within lc (lc + unat (lc_cmdsize l)) m m1"
      "load load_command_codec h m1 lc = Some (swap_load_command l)"
    using thread_command.swap_inside [OF starts_command_codecs(15) m1 assms(2)] assms(3) by simp_all
  have first: "changes_within lc (lc + 8) m m1"
    using thread_command.swap_at_within [OF thread_command.wf_swap m1] by simp
  show ?thesis
  proof (cases "states_to_swap ct")
    case None
    then show ?thesis using here rest by simp
  next
    case (Some table)
    let ?p = "lc + unat (lc_cmdsize l)"
    have "changes_within (lc + 8) (states_end h table ?p m1 (lc + 8)) m1 m'"
      using swap_states_within [OF _ states_to_swap_keep [OF Some]] rest Some l by simp
    moreover have "states_end h table ?p m1 (lc + 8) = states_end h table ?p m (lc + 8)"
      using first by (intro states_end_drop [of "lc + 8"]) (simp_all add: changes_within_def)
    ultimately have tail: "changes_within (lc + 8) ?p m1 m'"
      using assms(4) Some by (auto simp: thread_fits_def intro: changes_within_mono)
    then have "load load_command_codec h m' lc = Some (swap_load_command l)"
      using changes_from_load [OF changes_within_from [OF tail], of lc load_command_codec h] here(2) by simp
    moreover have "changes_within lc ?p m1 m'"
      using changes_within_mono [OF tail] by simp
    ultimately show ?thesis using here(1) changes_within_trans by blast
  qed
qed

section \<open>A load command\<close>

definition swapped_inside :: "byte_sex \<Rightarrow> load_command \<Rightarrow> nat \<Rightarrow> mem \<Rightarrow> mem \<Rightarrow> bool" where
  "swapped_inside h l lc m m' \<longleftrightarrow>
     changes_within lc (lc + unat (lc_cmdsize l)) m m' \<and>
     load load_command_codec h m' lc = Some (swap_load_command l)"

lemma swap_command_inside:
  assumes "precheck_command (lc_cmd l) h ct stop m i lc = CHECK_GOOD u"
    and "swap_command (lc_cmd l) h junk ct m lc = Some m'"
    and "load load_command_codec h m lc = Some l" and "length m < 2 ^ 32"
    and "8 \<le> unat (lc_cmdsize l)"
    and "lc_cmd l = LC_UNIXTHREAD \<or> lc_cmd l = LC_THREAD \<Longrightarrow> thread_fits h ct m lc l"
  shows "swapped_inside h l lc m m'"
proof -
  have known: "lc_cmd l \<in> set known_commands"
    using assms(1) by (auto simp: precheck_command_def known_commands_def split: if_splits)
  note inside = swaps_inside [OF _ assms(3), folded swapped_inside_def]
  note segments = swap_LC_SEGMENT_inside [OF _ _ assms(3,4), folded swapped_inside_def]
    swap_LC_SEGMENT_64_inside [OF _ _ assms(3,4), folded swapped_inside_def]
  note threads = swap_LC_THREAD_inside [OF _ assms(3,5), folded swapped_inside_def]
  note sizes = prechecked_sizes [OF _ assms(3)]
  from known assms(1,2,5,6) show ?thesis
    unfolding known_commands_def
    by (simp only: list.set insert_iff empty_iff simp_thms, elim disjE)
      (simp_all add: precheck_command_def swap_command_def dylib_commands_def
        inside segments threads sizes)
qed

section \<open>The load commands of an object\<close>

text \<open>
  A load command that is swapped whole: it holds the two words every load command starts with, and
  the states of a thread command do not run over its end.
\<close>

definition command_swappable :: "byte_sex \<Rightarrow> u32 \<Rightarrow> mem \<Rightarrow> nat \<times> load_command \<Rightarrow> bool" where
  "command_swappable h ct m = (\<lambda>(lc, l).
     8 \<le> unat (lc_cmdsize l) \<and>
     (lc_cmd l = LC_UNIXTHREAD \<or> lc_cmd l = LC_THREAD \<longrightarrow> thread_fits h ct m lc l))"

lemma commands_at_offsets:
  "commands_at h m n lc = Some cmds \<Longrightarrow> (off, l) \<in> set cmds \<Longrightarrow> lc \<le> off"
  by (induction n arbitrary: lc cmds) (fastforce split: option.splits dest: add_leD1)+

lemma command_swappable_drop:
  assumes "drop lc m' = drop lc m" and "length m' = length m"
    and "commands_at h m n lc = Some cmds" and "list_all (command_swappable h ct m) cmds"
  shows "list_all (command_swappable h ct m') cmds"
proof -
  have "command_swappable h ct m' (off, l) = command_swappable h ct m (off, l)" if "(off, l) \<in> set cmds" for off l
    using thread_fits_drop [OF drop_mono [OF assms(1) commands_at_offsets [OF assms(3) that]] assms(2)]
    by (simp add: command_swappable_def)
  then show ?thesis using assms(4) by (auto simp: list_all_iff)
qed

lemma precheck_all_step:
  assumes "precheck_all h mult ct stop m (Suc n) i lc = CHECK_GOOD lc'"
  obtains l where "load load_command_codec h m lc = Some l"
    and "lc_cmdsize l mod mult = 0" and "lc + unat (lc_cmdsize l) \<le> stop" and "lc_cmdsize l \<noteq> 0"
    and "precheck_command (lc_cmd l) h ct stop m i lc = CHECK_GOOD ()"
    and "precheck_all h mult ct stop m n (Suc i) (lc + unat (lc_cmdsize l)) = CHECK_GOOD lc'"
  using assms by (auto simp: and_then_GOOD_iff verdict_GOOD_iff del: mod_0_imp_dvd)

lemma precheck_all_ge: "precheck_all h mult ct stop m n i lc = CHECK_GOOD lc' \<Longrightarrow> lc \<le> lc'"
proof (induction n arbitrary: i lc)
  case (Suc n)
  show ?case
    by (rule precheck_all_step [OF Suc.prems]) (drule Suc.IH, simp)
qed simp

lemma precheck_command_known:
  "precheck_command cmd h ct stop m i lc = CHECK_GOOD u \<Longrightarrow> cmd \<in> set known_commands"
  by (auto simp: precheck_command_def known_commands_def split: if_splits)

lemma precheck_all_commands:
  assumes "precheck_all h mult ct stop m n i lc = CHECK_GOOD lc'"
  shows "\<exists>cmds. commands_at h m n lc = Some cmds \<and> list_all (command_fits mult stop) cmds \<and>
    commands_end lc cmds = lc'"
  using assms
proof (induction n arbitrary: i lc)
  case (Suc n)
  obtain l where l: "load load_command_codec h m lc = Some l"
    and fits: "lc_cmdsize l mod mult = 0" "lc + unat (lc_cmdsize l) \<le> stop" "lc_cmdsize l \<noteq> 0"
    and ok: "precheck_command (lc_cmd l) h ct stop m i lc = CHECK_GOOD ()"
    and rest: "precheck_all h mult ct stop m n (Suc i) (lc + unat (lc_cmdsize l)) = CHECK_GOOD lc'"
    by (rule precheck_all_step [OF Suc.prems])
  obtain cmds where "commands_at h m n (lc + unat (lc_cmdsize l)) = Some cmds"
    "list_all (command_fits mult stop) cmds" "commands_end (lc + unat (lc_cmdsize l)) cmds = lc'"
    using Suc.IH [OF rest] by blast
  then show ?case using l fits precheck_command_known [OF ok] by (simp add: command_fits_def)
qed simp

lemma swap_all_inside:
  assumes "precheck_all h mult ct stop m n i lc = CHECK_GOOD lc'" and "swap_all h junk ct n m lc = Some m'"
    and "commands_at h m n lc = Some cmds" and "list_all (command_swappable h ct m) cmds"
    and "length m < 2 ^ 32"
  shows "changes_within lc lc' m m' \<and> commands_at (other_byte_sex h) m' n lc = Some cmds"
  using assms
proof (induction n arbitrary: m i lc cmds)
  case (Suc n)
  obtain l where l: "load load_command_codec h m lc = Some l"
    and ok: "precheck_command (lc_cmd l) h ct stop m i lc = CHECK_GOOD ()"
    and rest: "precheck_all h mult ct stop m n (Suc i) (lc + unat (lc_cmdsize l)) = CHECK_GOOD lc'"
    by (rule precheck_all_step [OF Suc.prems(1)])
  let ?next = "lc + unat (lc_cmdsize l)"
  obtain m1 where m1: "swap_command (lc_cmd l) h junk ct m lc = Some m1"
    and swaps: "swap_all h junk ct n m1 ?next = Some m'"
    using Suc.prems(2) l by (auto simp: bind_eq_Some_conv)
  obtain cmds1 where cmds1: "commands_at h m n ?next = Some cmds1" and cmds: "cmds = (lc, l) # cmds1"
    using Suc.prems(3) l by auto
  have eight: "8 \<le> unat (lc_cmdsize l)"
    and thread: "lc_cmd l = LC_UNIXTHREAD \<or> lc_cmd l = LC_THREAD \<Longrightarrow> thread_fits h ct m lc l"
    and others: "list_all (command_swappable h ct m) cmds1"
    using Suc.prems(4) by (auto simp: cmds command_swappable_def)
  have inside: "changes_within lc ?next m m1" "load load_command_codec h m1 lc = Some (swap_load_command l)"
    using swap_command_inside [OF ok m1 l Suc.prems(5) eight thread] by (simp_all add: swapped_inside_def)
  have same: "drop ?next m1 = drop ?next m" "length m1 = length m"
    using inside(1) by (simp_all add: changes_within_def)
  have IH: "changes_within ?next lc' m1 m' \<and> commands_at (other_byte_sex h) m' n ?next = Some cmds1"
  proof (rule Suc.IH [OF _ swaps])
    show "precheck_all h mult ct stop m1 n (Suc i) ?next = CHECK_GOOD lc'"
      using rest precheck_all_drop [OF same] by simp
    show "commands_at h m1 n ?next = Some cmds1" using cmds1 commands_at_drop [OF same] by simp
    show "list_all (command_swappable h ct m1) cmds1"
      by (rule command_swappable_drop [OF same cmds1 others])
  qed (use Suc.prems(5) same(2) in simp)
  have "load load_command_codec (other_byte_sex h) m' lc = load load_command_codec (other_byte_sex h) m1 lc"
    using changes_from_load [of ?next m1 m' lc load_command_codec "other_byte_sex h"]
      changes_within_from [of ?next lc' m1 m'] IH eight by simp
  then have "load load_command_codec (other_byte_sex h) m' lc = Some l"
    using inside(2) by (simp add: load_command.load_other_sex load_command.swap_swap)
  moreover have "changes_within lc lc' m m'"
    using changes_within_mono [OF inside(1), of lc lc'] changes_within_mono [of ?next lc' m1 m' lc lc']
      IH precheck_all_ge [OF rest] changes_within_trans [of lc lc' m m1 m'] by simp
  ultimately show ?case using IH by (simp add: cmds)
qed simp

section \<open>The whole object\<close>

lemma object_header_at_Some:
  "object_header_at h m = Some (is32, oh) \<longleftrightarrow>
     (\<exists>magic. load word_codec h m 0 = Some magic \<and> is32 = (magic = MH_MAGIC)) \<and>
     header_at h is32 m = Some oh"
  by (auto simp: object_header_at_def split: option.splits)

lemma swap_object_headers_GOOD:
  assumes "swap_object_headers h junk m commands = CHECK_GOOD m'" and "object_header_at h m = Some (is32, oh)"
    and "commands = oh_size oh"
  obtains m1 where "precheck_all h (oh_multiple oh) (oh_cputype oh) (oh_size oh + unat (oh_sizeofcmds oh)) m
      (unat (oh_ncmds oh)) 0 (oh_size oh) = CHECK_GOOD (oh_size oh + unat (oh_sizeofcmds oh))"
    and "swap_all h junk (oh_cputype oh) (unat (oh_ncmds oh)) m (oh_size oh) = Some m1"
    and "(if is32 then swap_at mach_header_codec swap_mach_header h m1 0
          else swap_at mach_header_64_codec swap_mach_header_64 h m1 0) = Some m'"
  using assms
  by (auto simp: swap_object_headers_def and_then_GOOD_iff verdict_GOOD_iff Let_def)

lemma header_swapped:
  assumes "(if is32 then swap_at mach_header_codec swap_mach_header h m1 0
          else swap_at mach_header_64_codec swap_mach_header_64 h m1 0) = Some m'"
  shows "header_at (other_byte_sex h) is32 m' = header_at h is32 m1"
    and "changes_within 0 (if is32 then 28 else 32) m1 m'"
proof -
  show "header_at (other_byte_sex h) is32 m' = header_at h is32 m1"
    using assms mach_header.swap_at_reads mach_header_64.swap_at_reads
    by (auto simp: header_at_def split: if_splits)
  show "changes_within 0 (if is32 then 28 else 32) m1 m'"
    using assms mach_header.swap_at_within [of swap_mach_header h m1 0 m']
      mach_header_64.swap_at_within [of swap_mach_header_64 h m1 0 m']
    by (auto split: if_splits)
qed

lemma header_at_size: "header_at h is32 m = Some oh \<Longrightarrow> oh_size oh = (if is32 then 28 else 32)"
  by (auto simp: header_at_def header_sizes split: if_splits)

lemma header_at_take:
  assumes "changes_from k m m'" and "(if is32 then 28 else 32) \<le> k"
  shows "header_at h is32 m' = header_at h is32 m"
  using assms(2) changes_from_load [OF assms(1), of 0 mach_header_codec h]
    changes_from_load [OF assms(1), of 0 mach_header_64_codec h]
  by (cases is32) (simp_all add: header_at_def)

text \<open>
  C6: what \<^verbatim>\<open>swap_object_headers\<close> has established of an object when it returns \<^verbatim>\<open>TRUE\<close>: as the host
  reads the memory it was given, the load commands follow each other up to exactly
  \<^verbatim>\<open>sizeofcmds\<close>, each is one it knows, and each has a size that is not zero, is a multiple of four
  (of eight in a 64-bit object) and stays within \<^verbatim>\<open>sizeofcmds\<close>.
\<close>

theorem swap_object_headers_commands:
  assumes "swap_object_headers h junk m (if is32 then 28 else 32) = CHECK_GOOD m'"
    and "object_header_at h m = Some (is32, oh)"
  shows "\<exists>cmds. object_commands h is32 m = Some (oh, cmds) \<and>
    list_all (command_fits (oh_multiple oh) (oh_size oh + unat (oh_sizeofcmds oh))) cmds \<and>
    commands_end (oh_size oh) cmds = oh_size oh + unat (oh_sizeofcmds oh)"
proof -
  have header: "header_at h is32 m = Some oh" using assms(2) by (simp add: object_header_at_Some)
  note size = header_at_size [OF header, symmetric]
  have "precheck_all h (oh_multiple oh) (oh_cputype oh) (oh_size oh + unat (oh_sizeofcmds oh)) m
      (unat (oh_ncmds oh)) 0 (oh_size oh) = CHECK_GOOD (oh_size oh + unat (oh_sizeofcmds oh))"
    by (rule swap_object_headers_GOOD [OF assms size])
  from precheck_all_commands [OF this] show ?thesis by (auto simp: object_commands_def header)
qed


text \<open>Both on a little-endian object with a \<^verbatim>\<open>uuid\<close> as its only load command.\<close>

definition uuid_sample :: mem where
  "uuid_sample =
     concat (map (\<lambda>w. bytes_of 4 (w :: u32)) [MH_MAGIC, 7, 3, 1, 1, 24, 0, LC_UUID, 24, 1, 2, 3, 4])"

definition uuid_header :: object_header where
  "uuid_header =
     \<lparr>oh_size = 28, oh_cputype = 7, oh_cpusubtype = 3, oh_filetype = 1, oh_ncmds = 1,
      oh_sizeofcmds = 24, oh_multiple = 4, oh_nlist = 12, oh_module = 52\<rparr>"

definition uuid_commands :: "(nat \<times> load_command) list" where
  "uuid_commands = [(28, \<lparr>lc_cmd = LC_UUID, lc_cmdsize = 24\<rparr>)]"

lemma uuid_sample_swaps:
  "map_option length (result_of (swap_object_headers LITTLE_ENDIAN_BYTE_SEX (\<lambda>_. 0) uuid_sample 28)) = Some 52"
  by code_simp

lemma uuid_sample_reads:
  "object_header_at LITTLE_ENDIAN_BYTE_SEX uuid_sample = Some (True, uuid_header)"
  "object_commands LITTLE_ENDIAN_BYTE_SEX True uuid_sample = Some (uuid_header, uuid_commands)"
  "map_option oh_ncmds (header_at BIG_ENDIAN_BYTE_SEX True uuid_sample) = Some 0x1000000"
  by code_simp+

lemma uuid_sample_swapped:
  obtains m' where "swap_object_headers LITTLE_ENDIAN_BYTE_SEX (\<lambda>_. 0) uuid_sample (if True then 28 else 32) = CHECK_GOOD m'"
  using uuid_sample_swaps by (auto simp: result_of_Some_iff)

theorem swap_object_headers_commands_witness:
  "list_all (command_fits 4 52) uuid_commands \<and> commands_end 28 uuid_commands = 52"
proof -
  obtain m' where "swap_object_headers LITTLE_ENDIAN_BYTE_SEX (\<lambda>_. 0) uuid_sample (if True then 28 else 32) = CHECK_GOOD m'"
    by (rule uuid_sample_swapped)
  from swap_object_headers_commands [OF this uuid_sample_reads(1)] show ?thesis
    by (simp add: uuid_sample_reads uuid_header_def)
qed


end
