(* ===== verification/CString.thy ===== *)
theory CString
  imports Prelude
begin

text \<open>
  Strings as C has them and the functions of its library that the modelled code calls: comparison,
  search for a character, and the conversion of a decimal number.
\<close>

section \<open>Reading and comparing\<close>

text \<open>
  The bytes of a string before its terminating zero; what is read there and after is zero.
  \<^verbatim>\<open>strncmp\<close> stops at the first difference, at the terminator and after \<open>n\<close> bytes.
\<close>

type_synonym c_string = "u8 list"

definition char_at :: "c_string \<Rightarrow> nat \<Rightarrow> u8" where
  "char_at s i = (if i < length s then s ! i else 0)"

fun strncmp_equal :: "c_string \<Rightarrow> c_string \<Rightarrow> nat \<Rightarrow> bool" where
  "strncmp_equal s t 0 = True"
| "strncmp_equal s t (Suc n) =
     (char_at s 0 = char_at t 0 \<and> (char_at s 0 = 0 \<or> strncmp_equal (tl s) (tl t) n))"

definition c_string_ok :: "c_string \<Rightarrow> bool" where
  "c_string_ok s \<longleftrightarrow> 0 \<notin> set s"

lemma char_at_Cons [simp]: "char_at (b # s) 0 = b"
  by (simp add: char_at_def)

lemma char_at_Nil [simp]: "char_at [] i = 0"
  by (simp add: char_at_def)

lemma strncmp_whole:
  assumes "c_string_ok s" and "c_string_ok t"
  shows "strncmp_equal s t (length t) \<and> char_at s (length t) = 0 \<longleftrightarrow> s = t"
  using assms
proof (induction t arbitrary: s)
  case Nil
  then show ?case by (cases s) (auto simp: c_string_ok_def)
next
  case (Cons b t)
  show ?case
  proof (cases s)
    case Nil
    then show ?thesis using Cons.prems by (auto simp: c_string_ok_def)
  next
    case (Cons a s')
    have "c_string_ok s'" "c_string_ok t" "a \<noteq> 0"
      using Cons.prems Cons by (auto simp: c_string_ok_def)
    then show ?thesis using Cons.IH [of s'] by (auto simp: Cons char_at_def)
  qed
qed

text \<open>The bytes of a literal.\<close>

definition chars :: "string \<Rightarrow> c_string" where
  "chars = map of_char"

section \<open>Searching\<close>

text \<open>A position in the string is its offset; \<open>None\<close> is \<open>NULL\<close>.\<close>

fun strchr :: "c_string \<Rightarrow> u8 \<Rightarrow> nat option" where
  "strchr [] c = None"
| "strchr (b # s) c = (if b = c then Some 0 else map_option Suc (strchr s c))"

fun strrchr :: "c_string \<Rightarrow> u8 \<Rightarrow> nat option" where
  "strrchr [] c = None"
| "strrchr (b # s) c =
     (case strrchr s c of Some i \<Rightarrow> Some (Suc i) | None \<Rightarrow> if b = c then Some 0 else None)"

lemma strchr_None_iff: "strchr s c = None \<longleftrightarrow> c \<notin> set s"
  by (induction s) auto

lemma strrchr_None_iff: "strrchr s c = None \<longleftrightarrow> c \<notin> set s"
  by (induction s) (auto split: option.splits)

lemma strchr_append: "c \<notin> set s \<Longrightarrow> strchr (s @ c # t) c = Some (length s)"
  by (induction s) auto

lemma strrchr_append: "c \<notin> set t \<Longrightarrow> strrchr (s @ c # t) c = Some (length s)"
  using strrchr_None_iff [of t c] by (induction s) auto

section \<open>Decimal numbers\<close>

text \<open>
  \<^verbatim>\<open>strtoul(s, &end, 10)\<close>: white space, a sign, digits; the value and what is left.  Without a
  digit nothing is read; a value that is too large is \<^verbatim>\<open>ULONG_MAX\<close>.
\<close>

definition is_space :: "u8 \<Rightarrow> bool" where
  "is_space c \<longleftrightarrow> c \<in> {9, 10, 11, 12, 13, 32}"

definition is_digit :: "u8 \<Rightarrow> bool" where
  "is_digit c \<longleftrightarrow> 48 \<le> c \<and> c \<le> 57"

definition digits_value :: "c_string \<Rightarrow> nat" where
  "digits_value ds = foldl (\<lambda>v d. 10 * v + unat (d - 48)) 0 ds"

definition strtoul :: "c_string \<Rightarrow> u32 \<times> c_string" where
  "strtoul s =
     (let t = dropWhile is_space s;
          (minus, t) = (if char_at t 0 = 45 then (True, tl t)
                        else if char_at t 0 = 43 then (False, tl t) else (False, t));
          ds = takeWhile is_digit t
      in if ds = [] then (0, s)
         else (if digits_value ds < 2 ^ 32
               then (if minus then - of_nat (digits_value ds) else of_nat (digits_value ds))
               else 0xffffffff,
               dropWhile is_digit t))"

text \<open>The same with integers, which are evaluated in binary.\<close>

definition digits_int :: "c_string \<Rightarrow> int" where
  "digits_int ds = foldl (\<lambda>v d. 10 * v + uint (d - 48)) 0 ds"

lemma digits_int_from:
  "foldl (\<lambda>v d. 10 * v + uint (d - 48)) (int v) ds = int (foldl (\<lambda>v d. 10 * v + unat (d - 48)) v ds)"
  for ds :: c_string
proof (induction ds arbitrary: v)
  case (Cons d ds)
  have "10 * int v + uint (d - 48) = int (10 * v + unat (d - 48))" by (simp only: of_nat_add of_nat_mult uint_nat of_nat_numeral)
  then show ?case using Cons by (simp only: foldl.simps)
qed simp

lemma digits_int_value: "digits_int ds = int (digits_value ds)"
  unfolding digits_int_def digits_value_def using digits_int_from [of 0 ds] by simp

lemma digits_value_less: "digits_value ds < 2 ^ 32 \<longleftrightarrow> digits_int ds < 4294967296"
  by (simp add: digits_int_value)

lemma word_digits_value: "of_nat (digits_value ds) = (of_int (digits_int ds) :: u32)"
  by (simp add: digits_int_value)

declare strtoul_def [unfolded digits_value_less word_digits_value, code]

text \<open>The decimal digits of a number.\<close>

fun decimal :: "nat \<Rightarrow> c_string" where
  "decimal n = (if n < 10 then [48 + of_nat n] else decimal (n div 10) @ [48 + of_nat (n mod 10)])"

declare decimal.simps [simp del]

lemma digit_of_nat: "n < 10 \<Longrightarrow> is_digit (48 + of_nat n) \<and> unat ((48 + of_nat n :: u8) - 48) = n"
proof -
  assume n: "n < 10"
  have "unat (of_nat n :: u8) = n" using n by (simp add: unat_of_nat)
  moreover have "unat (48 + of_nat n :: u8) = 48 + n" using n by (simp add: unat_word_ariths unat_of_nat)
  ultimately show ?thesis using n by (simp add: is_digit_def word_le_nat_alt)
qed

lemma decimal_digits: "list_all is_digit (decimal n)"
proof (induction n rule: decimal.induct)
  case (1 n)
  then show ?case
    using digit_of_nat [of n] digit_of_nat [of "n mod 10"]
    by (cases "n < 10") (subst decimal.simps, simp)+
qed

lemma decimal_not_empty: "decimal n \<noteq> []"
  by (subst decimal.simps) simp

lemma decimal_value: "digits_value (decimal n) = n"
proof (induction n rule: decimal.induct)
  case (1 n)
  show ?case
  proof (cases "n < 10")
    case True
    then show ?thesis using digit_of_nat [of n] by (subst decimal.simps) (simp add: digits_value_def)
  next
    case False
    then show ?thesis using 1 digit_of_nat [of "n mod 10"]
      by (subst decimal.simps) (simp add: digits_value_def)
  qed
qed

lemma strtoul_decimal:
  assumes "rest = [] \<or> \<not> is_digit (hd rest)"
  shows "strtoul (decimal n @ rest) = (if n < 2 ^ 32 then of_nat n else 0xffffffff, rest)"
proof -
  obtain d ds where n: "decimal n = d # ds" using decimal_not_empty by (metis list.exhaust)
  have d: "is_digit d" using decimal_digits [of n] by (simp add: n)
  then have "\<not> is_space d" and "d \<noteq> 45" and "d \<noteq> 43"
    by (auto simp: is_digit_def is_space_def)
  then have start: "dropWhile is_space (decimal n @ rest) = decimal n @ rest"
    "char_at (decimal n @ rest) 0 \<noteq> 45" "char_at (decimal n @ rest) 0 \<noteq> 43"
    by (simp_all add: n)
  have "\<forall>d \<in> set (decimal n). is_digit d" using decimal_digits by (simp add: list_all_iff)
  then have "takeWhile is_digit (decimal n @ rest) = decimal n" "dropWhile is_digit (decimal n @ rest) = rest"
    using assms by (cases rest; simp)+
  then show ?thesis
    using start decimal_not_empty [of n] by (simp add: strtoul_def Let_def decimal_value)
qed

end
