(* ===== verification/AsHash.thy ===== *)
theory AsHash
  imports CString "HOL-Library.Multiset"
begin

text \<open>
  The hash table of the assembler, \<^verbatim>\<open>as/hash.c\<close>: chains of entries that a lookup reorders, with the
  entries in an obstack.  An entry is denoted by its index in the obstack, a chain by the list of its
  entries from the first one on (what the \<^verbatim>\<open>next\<close> pointers spell out).  The table stores the
  pointer to a key, not a copy: the model has the bytes it points to, which the callers do not change
  while they are in the table.  What a key maps to is a pointer, with \<open>NULL\<close> among them.
\<close>

section \<open>The table\<close>

record hash_entry =
  he_string :: c_string
  he_hash :: u32
  he_data :: u32

record hash_control =
  hc_table :: "nat list list"
  hc_size :: u32
  hc_memory :: "hash_entry list"

definition DEFAULT_SIZE :: u32 where
  "DEFAULT_SIZE = 4051"

definition hash_new :: hash_control where
  "hash_new = \<lparr>hc_table = replicate (unat DEFAULT_SIZE) [], hc_size = DEFAULT_SIZE, hc_memory = []\<rparr>"

text \<open>The hash code; a byte of the key is a \<^verbatim>\<open>char\<close>, which is signed.\<close>

definition hash_step :: "u32 \<Rightarrow> u32 \<Rightarrow> u32" where
  "hash_step hash c = (let hash = hash + (c + push_bit 17 c) in hash XOR drop_bit 2 hash)"

definition hash_code :: "c_string \<Rightarrow> nat \<Rightarrow> u32" where
  "hash_code key len =
     hash_step (foldl (\<lambda>hash n. hash_step hash (scast (char_at key n))) 0 [0..<len]) (of_nat len)"

text \<open>
  The walk along a chain: \<open>before\<close> are the entries passed.  An entry that is not the first one is
  moved to the start of the chain.
\<close>

definition entry_matches :: "hash_control \<Rightarrow> u32 \<Rightarrow> c_string \<Rightarrow> nat \<Rightarrow> nat \<Rightarrow> bool" where
  "entry_matches table hash key len p \<longleftrightarrow>
     he_hash (hc_memory table ! p) = hash \<and>
     strncmp_equal (he_string (hc_memory table ! p)) key len \<and>
     char_at (he_string (hc_memory table ! p)) len = 0"

fun hash_walk ::
  "hash_control \<Rightarrow> u32 \<Rightarrow> c_string \<Rightarrow> nat \<Rightarrow> nat list \<Rightarrow> nat list \<Rightarrow> nat option \<times> nat list" where
  "hash_walk table hash key len before [] = (None, before)"
| "hash_walk table hash key len before (p # ps) =
     (if entry_matches table hash key len p then (Some p, p # before @ ps)
      else hash_walk table hash key len (before @ [p]) ps)"

text \<open>The entry or \<open>None\<close>, the index of the list that would hold it, the hash code, and the table.\<close>

definition hash_lookup ::
  "hash_control \<Rightarrow> c_string \<Rightarrow> nat \<Rightarrow> nat option \<times> nat \<times> u32 \<times> hash_control" where
  "hash_lookup table key len =
     (let hash = hash_code key len;
          index = unat (hash mod hc_size table);
          (p, chain) = hash_walk table hash key len [] (hc_table table ! index)
      in (p, index, hash, table\<lparr>hc_table := (hc_table table)[index := chain]\<rparr>))"

text \<open>A new entry at the start of a list, and an entry whose data changes.\<close>

definition add_entry :: "hash_control \<Rightarrow> nat \<Rightarrow> u32 \<Rightarrow> c_string \<Rightarrow> u32 \<Rightarrow> hash_control" where
  "add_entry table list hash key value =
     table\<lparr>hc_memory := hc_memory table @ [\<lparr>he_string = key, he_hash = hash, he_data = value\<rparr>],
           hc_table := (hc_table table)[list := length (hc_memory table) # hc_table table ! list]\<rparr>"

definition set_data :: "hash_control \<Rightarrow> nat \<Rightarrow> u32 \<Rightarrow> hash_control" where
  "set_data table p value =
     table\<lparr>hc_memory := (hc_memory table)[p := (hc_memory table ! p)\<lparr>he_data := value\<rparr>]\<rparr>"

text \<open>
  What an operation returns: \<open>NULL\<close> or a string for the first two, a pointer for the others,
  \<open>Abort\<close> when the program stops.
\<close>

datatype hash_result = Success | Exists | Pointer u32 | Abort

definition hash_insert :: "hash_control \<Rightarrow> c_string \<Rightarrow> u32 \<Rightarrow> hash_result \<times> hash_control" where
  "hash_insert table key value =
     (let (p, list, hash, table) = hash_lookup table key (length key)
      in case p of
           Some _ \<Rightarrow> (Exists, table)
         | None \<Rightarrow> (Success, add_entry table list hash key value))"

definition hash_jam :: "hash_control \<Rightarrow> c_string \<Rightarrow> u32 \<Rightarrow> hash_result \<times> hash_control" where
  "hash_jam table key value =
     (let (p, list, hash, table) = hash_lookup table key (length key)
      in case p of
           Some p \<Rightarrow> (Success, set_data table p value)
         | None \<Rightarrow> (Success, add_entry table list hash key value))"

definition hash_replace :: "hash_control \<Rightarrow> c_string \<Rightarrow> u32 \<Rightarrow> hash_result \<times> hash_control" where
  "hash_replace table key value =
     (let (p, list, hash, table) = hash_lookup table key (length key)
      in case p of
           None \<Rightarrow> (Pointer 0, table)
         | Some p \<Rightarrow> (Pointer (he_data (hc_memory table ! p)), set_data table p value))"

definition hash_find_n :: "hash_control \<Rightarrow> c_string \<Rightarrow> nat \<Rightarrow> hash_result \<times> hash_control" where
  "hash_find_n table key len =
     (let (p, list, hash, table) = hash_lookup table key len
      in case p of
           None \<Rightarrow> (Pointer 0, table)
         | Some p \<Rightarrow> (Pointer (he_data (hc_memory table ! p)), table))"

definition hash_find :: "hash_control \<Rightarrow> c_string \<Rightarrow> hash_result \<times> hash_control" where
  "hash_find table key =
     (let (p, list, hash, table) = hash_lookup table key (length key)
      in case p of
           None \<Rightarrow> (Pointer 0, table)
         | Some p \<Rightarrow> (Pointer (he_data (hc_memory table ! p)), table))"

definition hash_delete :: "hash_control \<Rightarrow> c_string \<Rightarrow> hash_result \<times> hash_control" where
  "hash_delete table key =
     (let (p, list, hash, table) = hash_lookup table key (length key)
      in case p of
           None \<Rightarrow> (Pointer 0, table)
         | Some p \<Rightarrow>
             (case hc_table table ! list of
                [] \<Rightarrow> (Abort, table)
              | first # rest \<Rightarrow>
                  if p \<noteq> first then (Abort, table)
                  else (Pointer (he_data (hc_memory table ! p)),
                        table\<lparr>hc_table := (hc_table table)[list := rest]\<rparr>)))"

text \<open>The calls \<^verbatim>\<open>hash_traverse\<close> makes, in their order.\<close>

definition hash_traverse :: "hash_control \<Rightarrow> (c_string \<times> u32) list" where
  "hash_traverse table =
     concat (map (map (\<lambda>p. (he_string (hc_memory table ! p), he_data (hc_memory table ! p))))
       (hc_table table))"

section \<open>The map a table stands for\<close>

definition hash_map :: "hash_control \<Rightarrow> c_string \<Rightarrow> u32 option" where
  "hash_map table = map_of (hash_traverse table)"

definition strings :: "hash_control \<Rightarrow> nat list \<Rightarrow> c_string list" where
  "strings table = map (\<lambda>p. he_string (hc_memory table ! p))"

definition slot_of :: "hash_control \<Rightarrow> c_string \<Rightarrow> nat" where
  "slot_of table key = unat (hash_code key (length key) mod hc_size table)"

text \<open>
  The invariant: every entry of a list is in the obstack and has the hash code of its string, which
  selects the list, and no two entries of a list have the same string.
\<close>

definition entry_ok :: "hash_control \<Rightarrow> nat \<Rightarrow> nat \<Rightarrow> bool" where
  "entry_ok table i p \<longleftrightarrow>
     p < length (hc_memory table) \<and>
     c_string_ok (he_string (hc_memory table ! p)) \<and>
     he_hash (hc_memory table ! p) =
       hash_code (he_string (hc_memory table ! p)) (length (he_string (hc_memory table ! p))) \<and>
     slot_of table (he_string (hc_memory table ! p)) = i"

definition chain_ok :: "hash_control \<Rightarrow> nat \<Rightarrow> nat list \<Rightarrow> bool" where
  "chain_ok table i chain \<longleftrightarrow> (\<forall>p \<in> set chain. entry_ok table i p) \<and> distinct (strings table chain)"

definition hash_ok :: "hash_control \<Rightarrow> bool" where
  "hash_ok table \<longleftrightarrow>
     length (hc_table table) = unat (hc_size table) \<and> hc_size table \<noteq> 0 \<and>
     (\<forall>i < length (hc_table table). chain_ok table i (hc_table table ! i))"

text \<open>The pairs in a table, as a set.\<close>

definition holds :: "hash_control \<Rightarrow> nat \<Rightarrow> c_string \<Rightarrow> u32 \<Rightarrow> bool" where
  "holds table i key value \<longleftrightarrow>
     i < length (hc_table table) \<and>
     (\<exists>p \<in> set (hc_table table ! i).
        he_string (hc_memory table ! p) = key \<and> he_data (hc_memory table ! p) = value)"

lemma slot_bound: "hc_size table \<noteq> 0 \<Longrightarrow> slot_of table key < unat (hc_size table)"
  by (simp add: slot_of_def unat_mod unat_gt_0)

lemma chain_okD: "hash_ok table \<Longrightarrow> i < length (hc_table table) \<Longrightarrow> chain_ok table i (hc_table table ! i)"
  by (simp add: hash_ok_def)

lemma holds_slot: "hash_ok table \<Longrightarrow> holds table i key value \<Longrightarrow> i = slot_of table key"
  by (auto simp: holds_def dest!: chain_okD simp: chain_ok_def entry_ok_def)

lemma chain_slot:
  "hash_ok table \<Longrightarrow> i < length (hc_table table) \<Longrightarrow> p \<in> set (hc_table table ! i) \<Longrightarrow>
     slot_of table (he_string (hc_memory table ! p)) = i"
  by (auto simp: chain_ok_def entry_ok_def dest!: chain_okD)

lemma same_string_same_entry:
  "chain_ok table i chain \<Longrightarrow> p \<in> set chain \<Longrightarrow> q \<in> set chain \<Longrightarrow>
     he_string (hc_memory table ! p) = he_string (hc_memory table ! q) \<Longrightarrow> p = q"
  by (auto simp: chain_ok_def strings_def distinct_map inj_on_def)

lemma holds_unique:
  assumes "hash_ok table" and "holds table i key v" and "holds table j key w"
  shows "v = w"
proof -
  have "i = slot_of table key" and "j = slot_of table key" using holds_slot assms by blast+
  then show ?thesis
    using assms same_string_same_entry [OF chain_okD [OF assms(1)]] by (auto simp: holds_def)
qed

lemma traverse_holds: "(key, v) \<in> set (hash_traverse table) \<longleftrightarrow> (\<exists>i. holds table i key v)"
proof -
  have "(key, v) \<in> set (hash_traverse table) \<longleftrightarrow>
    (\<exists>chain \<in> set (hc_table table). \<exists>p \<in> set chain.
       he_string (hc_memory table ! p) = key \<and> he_data (hc_memory table ! p) = v)"
    by (auto simp: hash_traverse_def)
  then show ?thesis unfolding holds_def by (metis in_set_conv_nth)
qed

lemma distinct_concat_map:
  assumes "\<And>i. i < length xss \<Longrightarrow> distinct (map f (xss ! i))"
    and "\<And>i j x y. i < length xss \<Longrightarrow> j < length xss \<Longrightarrow> x \<in> set (xss ! i) \<Longrightarrow> y \<in> set (xss ! j) \<Longrightarrow>
      f x = f y \<Longrightarrow> i = j"
  shows "distinct (map f (concat xss))"
  using assms
proof (induction xss)
  case (Cons xs xss)
  have "distinct (map f (concat xss))"
  proof (rule Cons.IH)
    show "distinct (map f (xss ! i))" if "i < length xss" for i
      using Cons.prems(1) [of "Suc i"] that by simp
    show "i = j" if "i < length xss" "j < length xss" "x \<in> set (xss ! i)" "y \<in> set (xss ! j)" "f x = f y" for i j x y
      using Cons.prems(2) [of "Suc i" "Suc j" x y] that by simp
  qed
  moreover have "f x \<noteq> f y" if "x \<in> set xs" "y \<in> set (concat xss)" for x y
  proof -
    from that(2) obtain j where "j < length xss" "y \<in> set (xss ! j)"
      by (auto simp: in_set_conv_nth [of _ xss])
    then show ?thesis using Cons.prems(2) [of 0 "Suc j" x y] that(1) by auto
  qed
  ultimately show ?case using Cons.prems(1) [of 0] by auto
qed simp

lemma traverse_distinct: "hash_ok table \<Longrightarrow> distinct (map fst (hash_traverse table))"
proof -
  assume ok: "hash_ok table"
  let ?f = "\<lambda>p. he_string (hc_memory table ! p)"
  have "distinct (map ?f (concat (hc_table table)))"
    using chain_okD [OF ok] chain_slot [OF ok]
    by (intro distinct_concat_map) (simp add: chain_ok_def strings_def, metis)
  then show ?thesis by (simp add: hash_traverse_def map_concat comp_def)
qed

lemma hash_map_Some_iff: "hash_ok table \<Longrightarrow> hash_map table key = Some v \<longleftrightarrow> (\<exists>i. holds table i key v)"
  using traverse_distinct [of table] by (simp add: hash_map_def traverse_holds [symmetric])

text \<open>Two tables stand for the same map up to one key.\<close>

lemma hash_map_eqI:
  assumes "hash_ok table" and "hash_ok table'"
    and "\<And>k v. (\<exists>i. holds table' i k v) \<longleftrightarrow> (if k = key then r = Some v else \<exists>i. holds table i k v)"
  shows "hash_map table' = (hash_map table)(key := r)"
proof
  fix k
  have "hash_map table' k = Some v \<longleftrightarrow> ((hash_map table)(key := r)) k = Some v" for v
    using assms hash_map_Some_iff by simp
  then show "hash_map table' k = ((hash_map table)(key := r)) k" by (metis option.exhaust)
qed

lemma hash_map_cong:
  assumes "hash_ok table" and "hash_ok table'"
    and "\<And>k v. (\<exists>i. holds table' i k v) \<longleftrightarrow> (\<exists>i. holds table i k v)"
  shows "hash_map table' = hash_map table"
proof
  fix k
  have "hash_map table' k = Some v \<longleftrightarrow> hash_map table k = Some v" for v
    using assms hash_map_Some_iff by simp
  then show "hash_map table' k = hash_map table k" by (metis option.exhaust)
qed

section \<open>What a lookup does\<close>

lemma hash_walk_spec:
  "hash_walk table hash key len before ps = (r, chain) \<Longrightarrow>
     (case r of
        None \<Rightarrow> chain = before @ ps \<and> (\<forall>p \<in> set ps. \<not> entry_matches table hash key len p)
      | Some p \<Rightarrow> entry_matches table hash key len p \<and>
          (\<exists>rest. chain = p # rest \<and> mset chain = mset (before @ ps)))"
  by (induction table hash key len before ps rule: hash_walk.induct) (auto split: if_splits option.splits)

lemma entry_matches_iff:
  assumes "entry_ok table i p" and "c_string_ok key"
  shows "entry_matches table (hash_code key (length key)) key (length key) p \<longleftrightarrow>
    he_string (hc_memory table ! p) = key"
  using assms strncmp_whole [of "he_string (hc_memory table ! p)" key]
  by (auto simp: entry_matches_def entry_ok_def)

text \<open>A lookup only reorders a chain.\<close>

lemma chain_ok_reorder:
  assumes "mset chain' = mset chain" and "chain_ok table i chain"
  shows "chain_ok table i chain'"
proof -
  have "mset (strings table chain') = mset (strings table chain)"
    using assms(1) by (simp add: strings_def)
  then show ?thesis
    using assms mset_eq_setD [OF assms(1)] mset_eq_imp_distinct_iff by (auto simp: chain_ok_def)
qed

lemma entry_ok_table [simp]: "entry_ok (table\<lparr>hc_table := t\<rparr>) i p = entry_ok table i p"
  by (simp add: entry_ok_def slot_of_def)

lemma chain_ok_table [simp]: "chain_ok (table\<lparr>hc_table := t\<rparr>) i chain = chain_ok table i chain"
  by (simp add: chain_ok_def strings_def)

lemma hash_ok_update:
  assumes "hash_ok table" and "i < length (hc_table table)" and "chain_ok table i chain"
  shows "hash_ok (table\<lparr>hc_table := (hc_table table)[i := chain]\<rparr>)"
  using assms by (auto simp: hash_ok_def nth_list_update)

lemma holds_reorder:
  assumes "set chain = set (hc_table table ! i)" and "i < length (hc_table table)"
  shows "holds (table\<lparr>hc_table := (hc_table table)[i := chain]\<rparr>) j key v \<longleftrightarrow> holds table j key v"
  using assms by (auto simp: holds_def nth_list_update)

lemma hash_lookup_spec:
  assumes "hash_ok table" and "c_string_ok key" and "hash_lookup table key (length key) = (r, list, hash, table')"
  shows "hash_ok table'" and "hash_map table' = hash_map table" and "hash = hash_code key (length key)"
    and "list = slot_of table' key"
    and "case r of
           None \<Rightarrow> hash_map table' key = None
         | Some p \<Rightarrow> hash_map table' key = Some (he_data (hc_memory table' ! p)) \<and>
             he_string (hc_memory table' ! p) = key \<and> (\<exists>rest. hc_table table' ! list = p # rest)"
proof -
  let ?i = "slot_of table key" and ?h = "hash_code key (length key)"
  obtain r' chain where walk': "hash_walk table ?h key (length key) [] (hc_table table ! ?i) = (r', chain)"
    by (cases "hash_walk table ?h key (length key) [] (hc_table table ! ?i)")
  have look: "hash_lookup table key (length key) =
      (r', ?i, ?h, table\<lparr>hc_table := (hc_table table)[?i := chain]\<rparr>)"
    using walk' by (simp add: hash_lookup_def slot_of_def Let_def)
  then have walk: "hash_walk table ?h key (length key) [] (hc_table table ! ?i) = (r, chain)"
    and table': "table' = table\<lparr>hc_table := (hc_table table)[?i := chain]\<rparr>"
    and list: "list = ?i" "hash = ?h"
    using assms(3) walk' by simp_all
  have i: "?i < length (hc_table table)" using assms(1) slot_bound by (simp add: hash_ok_def)
  note here = chain_okD [OF assms(1) i]
  note spec = hash_walk_spec [OF walk]
  have perm: "mset chain = mset (hc_table table ! ?i)" using spec by (auto split: option.splits)
  note same = mset_eq_setD [OF perm]
  show ok: "hash_ok table'"
    unfolding table' by (rule hash_ok_update [OF assms(1) i chain_ok_reorder [OF perm here]])
  have holds: "holds table' j k v = holds table j k v" for j k v
    unfolding table' by (rule holds_reorder [OF same i])
  show map: "hash_map table' = hash_map table"
    by (rule hash_map_cong [OF assms(1) ok]) (simp only: holds)
  show "hash = ?h" "list = slot_of table' key" using list by (simp_all add: table' slot_of_def)
  have matches: "entry_matches table ?h key (length key) p \<longleftrightarrow> he_string (hc_memory table ! p) = key"
    if "p \<in> set (hc_table table ! ?i)" for p
    using here that entry_matches_iff [OF _ assms(2)] by (auto simp: chain_ok_def)
  show "case r of
           None \<Rightarrow> hash_map table' key = None
         | Some p \<Rightarrow> hash_map table' key = Some (he_data (hc_memory table' ! p)) \<and>
             he_string (hc_memory table' ! p) = key \<and> (\<exists>rest. hc_table table' ! list = p # rest)"
  proof (cases r)
    case None
    have "\<not> holds table j key v" for j v
      using spec None matches holds_slot [OF assms(1), of j key v] by (auto simp: holds_def)
    then show ?thesis
      using None hash_map_Some_iff [OF assms(1)] by (cases "hash_map table key") (auto simp: map)
  next
    case (Some p)
    then obtain rest where m: "entry_matches table ?h key (length key) p" and chain: "chain = p # rest"
      using spec by auto
    have p: "p \<in> set (hc_table table ! ?i)" using same chain by auto
    then have "holds table ?i key (he_data (hc_memory table ! p))"
      using m matches [OF p] i by (auto simp: holds_def)
    then have "hash_map table key = Some (he_data (hc_memory table ! p))"
      using hash_map_Some_iff [OF assms(1)] by blast
    moreover have "he_string (hc_memory table ! p) = key" using m matches [OF p] by simp
    moreover have "hc_table table' ! list = p # rest" using i by (simp add: table' list chain)
    ultimately show ?thesis using Some map by (simp add: table')
  qed
qed

section \<open>What the changes do\<close>

lemma entry_ok_mono:
  "entry_ok table i p \<Longrightarrow> hc_size table' = hc_size table \<Longrightarrow> p < length (hc_memory table') \<Longrightarrow>
     he_string (hc_memory table' ! p) = he_string (hc_memory table ! p) \<Longrightarrow>
     he_hash (hc_memory table' ! p) = he_hash (hc_memory table ! p) \<Longrightarrow> entry_ok table' i p"
  by (simp add: entry_ok_def slot_of_def)

text \<open>The strings and hash codes of the old entries stay.\<close>

definition keeps_entries :: "hash_control \<Rightarrow> hash_control \<Rightarrow> bool" where
  "keeps_entries table table' \<longleftrightarrow>
     hc_size table' = hc_size table \<and> length (hc_memory table) \<le> length (hc_memory table') \<and>
     (\<forall>p < length (hc_memory table).
        he_string (hc_memory table' ! p) = he_string (hc_memory table ! p) \<and>
        he_hash (hc_memory table' ! p) = he_hash (hc_memory table ! p))"

lemma chain_ok_keeps:
  assumes "keeps_entries table table'" and "chain_ok table i chain"
  shows "chain_ok table' i chain" and "strings table' chain = strings table chain"
proof -
  have in_memory: "p < length (hc_memory table)" if "p \<in> set chain" for p
    using assms(2) that by (auto simp: chain_ok_def entry_ok_def)
  then show strings: "strings table' chain = strings table chain"
    using assms(1) by (simp add: strings_def keeps_entries_def)
  have "entry_ok table' i p" if "p \<in> set chain" for p
    using assms in_memory [OF that] that entry_ok_mono [of table i p table']
    by (auto simp: chain_ok_def keeps_entries_def)
  then show "chain_ok table' i chain" using assms(2) strings by (simp add: chain_ok_def)
qed

lemma add_entry_spec:
  fixes "value" :: u32
  assumes "hash_ok table" and "c_string_ok key" and "hash_map table key = None"
  defines "table' \<equiv> add_entry table (slot_of table key) (hash_code key (length key)) key value"
  shows "hash_ok table'" and "hash_map table' = (hash_map table)(key := Some value)"
proof -
  let ?i = "slot_of table key" and ?n = "length (hc_memory table)"
  have i: "?i < length (hc_table table)" using assms(1) slot_bound by (simp add: hash_ok_def)
  have keeps: "keeps_entries table table'"
    by (simp add: keeps_entries_def table'_def add_entry_def nth_append)
  have new: "he_string (hc_memory table' ! ?n) = key" "he_data (hc_memory table' ! ?n) = value"
    "entry_ok table' ?i ?n"
    using assms(2) by (simp_all add: table'_def add_entry_def entry_ok_def slot_of_def)
  have lists: "hc_table table' = (hc_table table)[?i := ?n # hc_table table ! ?i]"
    "hc_size table' = hc_size table"
    by (simp_all add: table'_def add_entry_def)
  have old: "p < ?n \<and> hc_memory table' ! p = hc_memory table ! p" if "p \<in> set (hc_table table ! j)" "j < length (hc_table table)" for p j
    using chain_okD [OF assms(1) that(2)] that(1)
    by (auto simp: chain_ok_def entry_ok_def table'_def add_entry_def nth_append)
  have absent: "\<not> holds table j key v" for j v
    using assms(3) hash_map_Some_iff [OF assms(1)] by force
  have "key \<notin> set (strings table (hc_table table ! ?i))"
    using absent [of ?i] i by (auto simp: holds_def strings_def)
  moreover note chain_ok_keeps [OF keeps chain_okD [OF assms(1) i]]
  ultimately have "chain_ok table' ?i (?n # hc_table table ! ?i)"
    using new by (auto simp: chain_ok_def strings_def)
  then show ok: "hash_ok table'"
    using assms(1) chain_ok_keeps(1) [OF keeps chain_okD [OF assms(1)]] i
    by (auto simp: hash_ok_def lists nth_list_update)
  have "(\<exists>i. holds table' i k v) \<longleftrightarrow> (if k = key then Some value = Some v else \<exists>i. holds table i k v)" for k v
  proof -
    have "holds table' j k v \<longleftrightarrow> j = ?i \<and> k = key \<and> v = value \<or> holds table j k v" for j
      using i new(1,2) old by (auto simp: holds_def lists nth_list_update)
    then show ?thesis using absent by auto
  qed
  then show "hash_map table' = (hash_map table)(key := Some value)" by (rule hash_map_eqI [OF assms(1) ok])
qed

lemma set_data_spec:
  assumes "hash_ok table" and "c_string_ok key" and "hc_table table ! slot_of table key = p # rest"
    and "he_string (hc_memory table ! p) = key"
  shows "hash_ok (set_data table p value)"
    and "hash_map (set_data table p value) = (hash_map table)(key := Some value)"
proof -
  let ?i = "slot_of table key" and ?t = "set_data table p value"
  have i: "?i < length (hc_table table)" using assms(1) slot_bound by (simp add: hash_ok_def)
  note here = chain_okD [OF assms(1) i]
  have p: "p < length (hc_memory table)" using here assms(3) by (simp add: chain_ok_def entry_ok_def)
  have keeps: "keeps_entries table ?t"
    using p by (simp add: keeps_entries_def set_data_def nth_list_update)
  have lists: "hc_table ?t = hc_table table" "hc_size ?t = hc_size table" by (simp_all add: set_data_def)
  show ok: "hash_ok ?t"
    using assms(1) chain_ok_keeps(1) [OF keeps chain_okD [OF assms(1)]] by (simp add: hash_ok_def lists)
  have data: "he_data (hc_memory ?t ! q) = (if q = p then value else he_data (hc_memory table ! q))"
    "he_string (hc_memory ?t ! q) = he_string (hc_memory table ! q)" for q
    using p by (simp_all add: set_data_def nth_list_update)
  have only: "q = p" if "q \<in> set (hc_table table ! j)" "j < length (hc_table table)"
    "he_string (hc_memory table ! q) = key" for q j
  proof -
    have "j = ?i" using chain_slot [OF assms(1) that(2,1)] that(3) by simp
    then show ?thesis
      using same_string_same_entry [OF here, of q p] that assms(3,4) by simp
  qed
  have "(\<exists>i. holds ?t i k v) \<longleftrightarrow> (if k = key then Some value = Some v else \<exists>i. holds table i k v)" for k v
  proof (cases "k = key")
    case True
    have "v = value" if "holds ?t j key v" for j
      using that only by (auto simp: holds_def lists data)
    moreover have "holds ?t ?i key value"
      using i assms(3,4) by (simp add: holds_def lists data)
    ultimately show ?thesis using True by auto
  next
    case False
    then have "holds ?t j k v \<longleftrightarrow> holds table j k v" for j
      using assms(4) by (auto simp: holds_def lists data)
    then show ?thesis using False by simp
  qed
  then show "hash_map ?t = (hash_map table)(key := Some value)" by (rule hash_map_eqI [OF assms(1) ok])
qed

lemma remove_first_spec:
  assumes "hash_ok table" and "hc_table table ! slot_of table key = p # rest"
    and "he_string (hc_memory table ! p) = key"
  defines "table' \<equiv> table\<lparr>hc_table := (hc_table table)[slot_of table key := rest]\<rparr>"
  shows "hash_ok table'" and "hash_map table' = (hash_map table)(key := None)"
proof -
  let ?i = "slot_of table key"
  have i: "?i < length (hc_table table)" using assms(1) slot_bound by (simp add: hash_ok_def)
  note here = chain_okD [OF assms(1) i]
  have "chain_ok table ?i rest" using here assms(2) by (simp add: chain_ok_def strings_def)
  then show ok: "hash_ok table'" unfolding table'_def by (rule hash_ok_update [OF assms(1) i])
  have "key \<notin> set (strings table rest)" using here assms(2,3) by (simp add: chain_ok_def strings_def)
  then have fresh: "he_string (hc_memory table ! q) \<noteq> key" if "q \<in> set rest" for q
    using that by (auto simp: strings_def)
  have "(\<exists>i. holds table' i k v) \<longleftrightarrow> (if k = key then None = Some v else \<exists>i. holds table i k v)" for k v
  proof (cases "k = key")
    case True
    have "slot_of table' key = ?i" by (simp add: slot_of_def table'_def)
    then have "j = ?i" if "holds table' j key v" for j using holds_slot [OF ok that] by simp
    moreover have "\<not> holds table' ?i key v" using fresh i by (simp add: holds_def table'_def)
    ultimately have "\<not> holds table' j key v" for j by blast
    then show ?thesis using True by simp
  next
    case False
    then have "holds table' j k v \<longleftrightarrow> holds table j k v" for j
      using i assms(2,3) by (auto simp: holds_def table'_def nth_list_update)
    then show ?thesis using False by simp
  qed
  then show "hash_map table' = (hash_map table)(key := None)" by (rule hash_map_eqI [OF assms(1) ok])
qed

section \<open>The interface\<close>

text \<open>The operations of a symbol table with one result type, and what they do to a map.\<close>

datatype hash_op =
  Insert c_string u32 | Jam c_string u32 | Replace c_string u32 | Find c_string | Delete c_string

fun op_key :: "hash_op \<Rightarrow> c_string" where
  "op_key (Insert key value) = key"
| "op_key (Jam key value) = key"
| "op_key (Replace key value) = key"
| "op_key (Find key) = key"
| "op_key (Delete key) = key"

definition pointer_of :: "u32 option \<Rightarrow> hash_result" where
  "pointer_of r = Pointer (case r of None \<Rightarrow> 0 | Some v \<Rightarrow> v)"

fun map_op :: "(c_string \<Rightarrow> u32 option) \<Rightarrow> hash_op \<Rightarrow> hash_result \<times> (c_string \<Rightarrow> u32 option)" where
  "map_op m (Insert key value) = (if m key = None then (Success, m(key := Some value)) else (Exists, m))"
| "map_op m (Jam key value) = (Success, m(key := Some value))"
| "map_op m (Replace key value) = (pointer_of (m key), if m key = None then m else m(key := Some value))"
| "map_op m (Find key) = (pointer_of (m key), m)"
| "map_op m (Delete key) = (pointer_of (m key), m(key := None))"

fun perform :: "hash_control \<Rightarrow> hash_op \<Rightarrow> hash_result \<times> hash_control" where
  "perform table (Insert key value) = hash_insert table key value"
| "perform table (Jam key value) = hash_jam table key value"
| "perform table (Replace key value) = hash_replace table key value"
| "perform table (Find key) = hash_find table key"
| "perform table (Delete key) = hash_delete table key"

fun run :: "('s \<Rightarrow> hash_op \<Rightarrow> hash_result \<times> 's) \<Rightarrow> 's \<Rightarrow> hash_op list \<Rightarrow> hash_result list \<times> 's" where
  "run f s [] = ([], s)"
| "run f s (c # cs) = (let (r, s) = f s c; (rs, s) = run f s cs in (r # rs, s))"

text \<open>
  The contract of a symbol table: an operation on a good table with a proper key gives the result
  of the map, and a good table for the changed map.
\<close>

locale symbol_table =
  fixes step :: "'s \<Rightarrow> hash_op \<Rightarrow> hash_result \<times> 's"
    and good :: "'s \<Rightarrow> bool"
    and abs :: "'s \<Rightarrow> c_string \<Rightarrow> u32 option"
    and start :: 's
  assumes start_good: "good start"
    and start_empty: "abs start = Map.empty"
    and step_good: "good s \<Longrightarrow> c_string_ok (op_key c) \<Longrightarrow> good (snd (step s c))"
    and step_abs: "good s \<Longrightarrow> c_string_ok (op_key c) \<Longrightarrow>
      map_op (abs s) c = (fst (step s c), abs (snd (step s c)))"
begin

lemma run_refines:
  "good s \<Longrightarrow> list_all (\<lambda>c. c_string_ok (op_key c)) cs \<Longrightarrow>
     good (snd (run step s cs)) \<and> run map_op (abs s) cs = (fst (run step s cs), abs (snd (run step s cs)))"
proof (induction cs arbitrary: s)
  case (Cons c cs)
  obtain r s1 where s1: "step s c = (r, s1)" by fastforce
  obtain rs s2 where s2: "run step s1 cs = (rs, s2)" by fastforce
  have "good s1" "map_op (abs s) c = (r, abs s1)"
    using step_good [of s c] step_abs [of s c] Cons.prems by (simp_all add: s1)
  then show ?case using Cons.IH [of s1] Cons.prems by (simp add: s1 s2 Let_def)
qed simp

lemma run_from_start:
  assumes "list_all (\<lambda>c. c_string_ok (op_key c)) cs"
  shows "good (snd (run step start cs))"
    and "run map_op Map.empty cs = (fst (run step start cs), abs (snd (run step start cs)))"
  using run_refines [OF start_good assms] by (simp_all add: start_empty)

end

lemma hash_new_ok: "hash_ok hash_new" and hash_new_empty: "hash_map hash_new = Map.empty"
  by (simp_all add: hash_ok_def hash_new_def DEFAULT_SIZE_def chain_ok_def strings_def
      hash_map_def hash_traverse_def)

lemma perform_spec:
  assumes "hash_ok table" and "c_string_ok (op_key c)"
  shows "hash_ok (snd (perform table c)) \<and>
    map_op (hash_map table) c = (fst (perform table c), hash_map (snd (perform table c)))"
proof -
  obtain p list hash table' where look:
    "hash_lookup table (op_key c) (length (op_key c)) = (p, list, hash, table')"
    by (metis prod_cases4)
  note spec = hash_lookup_spec [OF assms look]
  note ok = spec(1) and same = spec(2)
  show ?thesis
  proof (cases p)
    case None
    then have absent: "hash_map table' (op_key c) = None" using spec(5) by simp
    show ?thesis
      using look None absent ok same add_entry_spec [OF ok assms(2) absent] spec(3,4)
      by (cases c) (simp_all add: hash_insert_def hash_jam_def hash_replace_def hash_find_def hash_delete_def
          pointer_of_def fun_upd_idem)
  next
    case (Some q)
    then obtain rest where found: "hash_map table' (op_key c) = Some (he_data (hc_memory table' ! q))"
      and key: "he_string (hc_memory table' ! q) = op_key c"
      and first: "hc_table table' ! slot_of table' (op_key c) = q # rest"
      using spec(4,5) by auto
    show ?thesis
      using look Some found first ok same spec(3,4) set_data_spec [OF ok assms(2) first key]
        remove_first_spec [OF ok first key]
      by (cases c) (simp_all add: hash_insert_def hash_jam_def hash_replace_def hash_find_def hash_delete_def
          pointer_of_def)
  qed
qed

interpretation symbols: symbol_table perform hash_ok hash_map hash_new
  by unfold_locales (simp_all add: hash_new_ok hash_new_empty perform_spec)

text \<open>
  \<^verbatim>\<open>hash_find_n\<close> looks for the first bytes of a longer string.
\<close>

lemma char_at_take: "char_at (take n s) i = (if i < n then char_at s i else 0)"
  by (simp add: char_at_def)

lemma strncmp_take: "strncmp_equal s (take n t) n = strncmp_equal s t n"
proof (induction s t n rule: strncmp_equal.induct)
  case (2 s t n)
  have "tl (take (Suc n) t) = take n (tl t)" by (cases t) simp_all
  then show ?case using 2 by (simp add: char_at_take)
qed simp

lemma hash_find_n_prefix:
  assumes "len \<le> length key"
  shows "hash_find_n table key len = hash_find table (take len key)"
proof -
  have "foldl (\<lambda>hash n. hash_step hash (scast (char_at (take len key) n))) 0 [0..<len] =
      foldl (\<lambda>hash n. hash_step hash (scast (char_at key n))) 0 [0..<len]"
    by (rule foldl_cong) (simp_all add: char_at_take)
  then have "hash_code (take len key) len = hash_code key len" by (simp add: hash_code_def)
  moreover have "hash_walk table hash (take len key) len before ps = hash_walk table hash key len before ps" for hash before ps
    by (induction table hash key len before ps rule: hash_walk.induct) (simp_all add: entry_matches_def strncmp_take)
  ultimately have "hash_lookup table (take len key) len = hash_lookup table key len"
    by (simp add: hash_lookup_def)
  then show ?thesis using assms by (simp add: hash_find_n_def hash_find_def min_absorb2)
qed

section \<open>Properties\<close>

text \<open>
  C8: the hash table of the assembler is a map from strings to pointers: the results of any sequence
  of insertions, jams, replacements, lookups and deletions on a new table are those of the same
  operations on a map that is empty at first, whatever the order the lookups leave the chains in,
  and \<^verbatim>\<open>hash_delete\<close> never reaches its \<^verbatim>\<open>abort\<close>.
\<close>

theorem hash_table_refines_map:
  assumes "list_all (\<lambda>c. c_string_ok (op_key c)) cs"
  shows "fst (run perform hash_new cs) = fst (run map_op Map.empty cs) \<and>
    Abort \<notin> set (fst (run perform hash_new cs))"
proof -
  have never: "fst (map_op m c) \<noteq> Abort" for m c by (cases c) (simp_all add: pointer_of_def)
  then have "Abort \<notin> set (fst (run map_op m cs))" for m
    by (induction cs arbitrary: m) (simp_all add: Let_def split_def never [symmetric])
  then show ?thesis using symbols.run_from_start(2) [OF assms] by (metis fst_conv)
qed

theorem hash_table_refines_map_witness:
  "fst (run perform hash_new [Insert [102, 111] 8, Insert [102, 111] 9, Jam [98] 4, Find [102, 111], Delete [98], Find [98]]) =
    [Success, Exists, Success, Pointer 8, Pointer 4, Pointer 0]"
  using hash_table_refines_map [of "[Insert [102, 111] 8, Insert [102, 111] 9, Jam [98] 4, Find [102, 111],
      Delete [98], Find [98]]"]
  by (simp add: c_string_ok_def pointer_of_def)

text \<open>
  C9: the invariant of the table is kept by every sequence of operations: an entry is only in the
  list its hash code selects, and \<^verbatim>\<open>hash_traverse\<close> calls its function exactly once for every
  string in the table, with what the string maps to.
\<close>

theorem hash_table_invariant:
  assumes "list_all (\<lambda>c. c_string_ok (op_key c)) cs"
  shows "hash_ok (snd (run perform hash_new cs)) \<and>
    distinct (map fst (hash_traverse (snd (run perform hash_new cs)))) \<and>
    map_of (hash_traverse (snd (run perform hash_new cs))) = snd (run map_op Map.empty cs)"
  using symbols.run_from_start [OF assms] traverse_distinct by (simp add: hash_map_def)

theorem hash_table_invariant_witness:
  "map_of (hash_traverse (snd (run perform hash_new [Jam [98] 4, Jam [98] 5]))) [98] = Some 5"
  using hash_table_invariant [of "[Jam [98] 4, Jam [98] 5]"]
  by (simp add: c_string_ok_def)

end
