(* ===== verification/Crc.thy ===== *)
theory Crc
  imports Prelude
begin

text \<open>
  The checksum of \<^verbatim>\<open>libstuff/crc32.c\<close>, \<^verbatim>\<open>breakout.c\<close> takes it of every object: a table of 256 words
  drives it byte by byte.  Here it is shown to be the division of the message by the generator bit
  by bit, and to tell messages apart that differ in a burst of at most four bytes.
\<close>

section \<open>The code\<close>

definition crctab :: "u32 list" where
  "crctab =
     [0x0, 0x04c11db7, 0x09823b6e, 0x0d4326d9, 0x130476dc, 0x17c56b6b, 0x1a864db2, 0x1e475005,
      0x2608edb8, 0x22c9f00f, 0x2f8ad6d6, 0x2b4bcb61, 0x350c9b64, 0x31cd86d3, 0x3c8ea00a, 0x384fbdbd,
      0x4c11db70, 0x48d0c6c7, 0x4593e01e, 0x4152fda9, 0x5f15adac, 0x5bd4b01b, 0x569796c2, 0x52568b75,
      0x6a1936c8, 0x6ed82b7f, 0x639b0da6, 0x675a1011, 0x791d4014, 0x7ddc5da3, 0x709f7b7a, 0x745e66cd,
      0x9823b6e0, 0x9ce2ab57, 0x91a18d8e, 0x95609039, 0x8b27c03c, 0x8fe6dd8b, 0x82a5fb52, 0x8664e6e5,
      0xbe2b5b58, 0xbaea46ef, 0xb7a96036, 0xb3687d81, 0xad2f2d84, 0xa9ee3033, 0xa4ad16ea, 0xa06c0b5d,
      0xd4326d90, 0xd0f37027, 0xddb056fe, 0xd9714b49, 0xc7361b4c, 0xc3f706fb, 0xceb42022, 0xca753d95,
      0xf23a8028, 0xf6fb9d9f, 0xfbb8bb46, 0xff79a6f1, 0xe13ef6f4, 0xe5ffeb43, 0xe8bccd9a, 0xec7dd02d,
      0x34867077, 0x30476dc0, 0x3d044b19, 0x39c556ae, 0x278206ab, 0x23431b1c, 0x2e003dc5, 0x2ac12072,
      0x128e9dcf, 0x164f8078, 0x1b0ca6a1, 0x1fcdbb16, 0x018aeb13, 0x054bf6a4, 0x0808d07d, 0x0cc9cdca,
      0x7897ab07, 0x7c56b6b0, 0x71159069, 0x75d48dde, 0x6b93dddb, 0x6f52c06c, 0x6211e6b5, 0x66d0fb02,
      0x5e9f46bf, 0x5a5e5b08, 0x571d7dd1, 0x53dc6066, 0x4d9b3063, 0x495a2dd4, 0x44190b0d, 0x40d816ba,
      0xaca5c697, 0xa864db20, 0xa527fdf9, 0xa1e6e04e, 0xbfa1b04b, 0xbb60adfc, 0xb6238b25, 0xb2e29692,
      0x8aad2b2f, 0x8e6c3698, 0x832f1041, 0x87ee0df6, 0x99a95df3, 0x9d684044, 0x902b669d, 0x94ea7b2a,
      0xe0b41de7, 0xe4750050, 0xe9362689, 0xedf73b3e, 0xf3b06b3b, 0xf771768c, 0xfa325055, 0xfef34de2,
      0xc6bcf05f, 0xc27dede8, 0xcf3ecb31, 0xcbffd686, 0xd5b88683, 0xd1799b34, 0xdc3abded, 0xd8fba05a,
      0x690ce0ee, 0x6dcdfd59, 0x608edb80, 0x644fc637, 0x7a089632, 0x7ec98b85, 0x738aad5c, 0x774bb0eb,
      0x4f040d56, 0x4bc510e1, 0x46863638, 0x42472b8f, 0x5c007b8a, 0x58c1663d, 0x558240e4, 0x51435d53,
      0x251d3b9e, 0x21dc2629, 0x2c9f00f0, 0x285e1d47, 0x36194d42, 0x32d850f5, 0x3f9b762c, 0x3b5a6b9b,
      0x0315d626, 0x07d4cb91, 0x0a97ed48, 0x0e56f0ff, 0x1011a0fa, 0x14d0bd4d, 0x19939b94, 0x1d528623,
      0xf12f560e, 0xf5ee4bb9, 0xf8ad6d60, 0xfc6c70d7, 0xe22b20d2, 0xe6ea3d65, 0xeba91bbc, 0xef68060b,
      0xd727bbb6, 0xd3e6a601, 0xdea580d8, 0xda649d6f, 0xc423cd6a, 0xc0e2d0dd, 0xcda1f604, 0xc960ebb3,
      0xbd3e8d7e, 0xb9ff90c9, 0xb4bcb610, 0xb07daba7, 0xae3afba2, 0xaafbe615, 0xa7b8c0cc, 0xa379dd7b,
      0x9b3660c6, 0x9ff77d71, 0x92b45ba8, 0x9675461f, 0x8832161a, 0x8cf30bad, 0x81b02d74, 0x857130c3,
      0x5d8a9099, 0x594b8d2e, 0x5408abf7, 0x50c9b640, 0x4e8ee645, 0x4a4ffbf2, 0x470cdd2b, 0x43cdc09c,
      0x7b827d21, 0x7f436096, 0x7200464f, 0x76c15bf8, 0x68860bfd, 0x6c47164a, 0x61043093, 0x65c52d24,
      0x119b4be9, 0x155a565e, 0x18197087, 0x1cd86d30, 0x029f3d35, 0x065e2082, 0x0b1d065b, 0x0fdc1bec,
      0x3793a651, 0x3352bbe6, 0x3e119d3f, 0x3ad08088, 0x2497d08d, 0x2056cd3a, 0x2d15ebe3, 0x29d4f654,
      0xc5a92679, 0xc1683bce, 0xcc2b1d17, 0xc8ea00a0, 0xd6ad50a5, 0xd26c4d12, 0xdf2f6bcb, 0xdbee767c,
      0xe3a1cbc1, 0xe760d676, 0xea23f0af, 0xeee2ed18, 0xf0a5bd1d, 0xf464a0aa, 0xf9278673, 0xfde69bc4,
      0x89b8fd09, 0x8d79e0be, 0x803ac667, 0x84fbdbd0, 0x9abc8bd5, 0x9e7d9662, 0x933eb0bb, 0x97ffad0c,
      0xafb010b1, 0xab710d06, 0xa6322bdf, 0xa2f33668, 0xbcb4666d, 0xb8757bda, 0xb5365d03, 0xb1f740b4]"

definition COMPUTE :: "u32 \<Rightarrow> u8 \<Rightarrow> u32" where
  "COMPUTE var ch = push_bit 8 var XOR crctab ! unat (drop_bit 24 var XOR ucast ch)"

text \<open>The bytes of the length from the least significant one on, as long as there is a set bit.\<close>

function len_bytes :: "u32 \<Rightarrow> u8 list" where
  "len_bytes len = (if len \<noteq> 0 then ucast (len AND 0xff) # len_bytes (drop_bit 8 len) else [])"
  by pat_completeness auto

lemma drop_bit_less: "(len :: u32) \<noteq> 0 \<Longrightarrow> unat (drop_bit 8 len) < unat len"
proof -
  assume "len \<noteq> 0"
  then have "0 < unat len" by (simp add: unat_gt_0)
  moreover have "unat (drop_bit 8 len) = unat len div 256" by (simp only: unat_drop_bit_eq) (simp add: drop_bit_eq_div)
  ultimately show ?thesis by simp
qed

termination len_bytes
  by (relation "measure unat") (simp_all add: drop_bit_less)

declare len_bytes.simps [simp del]

definition crc32 :: "u8 list \<Rightarrow> u32" where
  "crc32 buf = NOT (foldl COMPUTE (foldl COMPUTE 0 buf) (len_bytes (of_nat (length buf))))"

section \<open>Division by the generator\<close>

text \<open>
  One bit of the division: the remainder is shifted, and the generator is subtracted when a bit
  falls out.
\<close>

definition generator :: u32 where
  "generator = 0x04c11db7"

definition divide_bit :: "u32 \<Rightarrow> u32" where
  "divide_bit r = push_bit 1 r XOR (if bit r 31 then generator else 0)"

definition divide_byte :: "u32 \<Rightarrow> u32" where
  "divide_byte r = (divide_bit ^^ 8) r"

text \<open>The checksum of a message by division: the bits of a byte enter from the most significant on.\<close>

definition high :: u32 where
  "high = push_bit 31 1"

definition divide_in :: "u32 \<Rightarrow> bool \<Rightarrow> u32" where
  "divide_in r b = divide_bit (r XOR (if b then high else 0))"

definition bits_of_byte :: "u8 \<Rightarrow> bool list" where
  "bits_of_byte c = map (bit c) [7, 6, 5, 4, 3, 2, 1, 0]"

definition divide_message :: "u32 \<Rightarrow> u8 list \<Rightarrow> u32" where
  "divide_message r cs = foldl divide_in r (concat (map bits_of_byte cs))"

lemma xor_cancel: "(r :: u32) XOR a = r XOR b \<Longrightarrow> a = b"
  by (metis xor.assoc xor.left_neutral xor_self_eq)

lemma xor_cancel_right: "(a :: u32) XOR r = b XOR r \<Longrightarrow> a = b"
  using xor_cancel by (simp only: xor.commute [of _ r])

section \<open>Division is linear\<close>

lemma divide_bit_xor: "divide_bit (a XOR b) = divide_bit a XOR divide_bit b"
  by (auto simp: divide_bit_def bit_xor_iff push_bit_xor xor.assoc xor.left_commute)

lemma divide_bit_0 [simp]: "divide_bit 0 = 0"
  by (simp add: divide_bit_def)

lemma divide_power_xor: "(divide_bit ^^ n) (a XOR b) = (divide_bit ^^ n) a XOR (divide_bit ^^ n) b"
  by (induction n) (simp_all add: divide_bit_xor)

lemma divide_power_0: "(divide_bit ^^ n) 0 = 0"
  by (induction n) simp_all

lemma divide_byte_xor: "divide_byte (a XOR b) = divide_byte a XOR divide_byte b"
  by (simp add: divide_byte_def divide_power_xor)

text \<open>The generator has a constant term, so the division of a bit can be undone.\<close>

lemma divide_bit_0_iff: "divide_bit r = 0 \<longleftrightarrow> r = 0"
proof
  assume r: "divide_bit r = 0"
  have "\<not> bit (push_bit 1 r) 0" by (simp only: bit_push_bit_iff) simp
  then have "bit (divide_bit r) 0 = bit r 31"
    by (simp add: divide_bit_def generator_def bit_xor_iff)
  then have "\<not> bit r 31" using r by simp
  moreover have "bit r n \<longleftrightarrow> bit (push_bit 1 r) (n + 1)" if "n < 31" for n
    using that by (simp only: bit_push_bit_iff) simp
  ultimately have "\<not> bit r n" if "n < 32" for n
    using r that by (cases "n = 31") (simp_all add: divide_bit_def)
  then show "r = 0" by (intro bit_word_eqI) simp
qed simp

lemma divide_bit_inj: "divide_bit a = divide_bit b \<Longrightarrow> a = b"
proof -
  assume "divide_bit a = divide_bit b"
  then have "divide_bit (a XOR b) = 0" by (simp add: divide_bit_xor)
  then have "a XOR b = 0" by (simp only: divide_bit_0_iff)
  then show "a = b" by (metis xor.right_neutral xor_self_eq xor.assoc)
qed

lemma divide_power_inj: "(divide_bit ^^ n) a = (divide_bit ^^ n) b \<Longrightarrow> a = b"
  by (induction n) (auto dest: divide_bit_inj)

section \<open>The table\<close>

text \<open>A linear table is built by doubling from its entries at the powers of two.\<close>

fun double :: "u32 list \<Rightarrow> u32 list \<Rightarrow> u32 list" where
  "double xs [] = xs"
| "double xs (t # ts) = double (xs @ map (\<lambda>x. x XOR t) xs) ts"

definition table_powers :: "u32 list" where
  "table_powers =
     [0x04c11db7, 0x09823b6e, 0x130476dc, 0x2608edb8, 0x4c11db70, 0x9823b6e0, 0x34867077, 0x690ce0ee]"

lemma crctab_double: "crctab = double [0] table_powers"
  by (simp add: crctab_def table_powers_def)

lemma divide_bit_values:
  "divide_bit 0x01000000 = 0x02000000"
  "divide_bit 0x02000000 = 0x04000000"
  "divide_bit 0x04000000 = 0x08000000"
  "divide_bit 0x08000000 = 0x10000000"
  "divide_bit 0x10000000 = 0x20000000"
  "divide_bit 0x20000000 = 0x40000000"
  "divide_bit 0x40000000 = 0x80000000"
  "divide_bit 0x80000000 = 0x04c11db7"
  "divide_bit 0x04c11db7 = 0x09823b6e"
  "divide_bit 0x09823b6e = 0x130476dc"
  "divide_bit 0x130476dc = 0x2608edb8"
  "divide_bit 0x2608edb8 = 0x4c11db70"
  "divide_bit 0x4c11db70 = 0x9823b6e0"
  "divide_bit 0x9823b6e0 = 0x34867077"
  "divide_bit 0x34867077 = 0x690ce0ee"
  by (simp_all add: divide_bit_def generator_def)

lemma divide_byte_steps:
  "divide_byte r =
     divide_bit (divide_bit (divide_bit (divide_bit (divide_bit (divide_bit (divide_bit (divide_bit r)))))))"
  by (simp add: divide_byte_def eval_nat_numeral)

lemma table_powers_divide:
  "table_powers = map (\<lambda>k. divide_byte (push_bit 24 (2 ^ k))) [0, 1, 2, 3, 4, 5, 6, 7]"
  by (simp add: table_powers_def divide_byte_steps divide_bit_values)

text \<open>Entry \<open>i\<close> is what the division of byte \<open>i\<close> leaves.\<close>

lemma double_divides:
  "double (map (\<lambda>i. divide_byte (push_bit 24 (of_nat i))) [0..<2 ^ n])
     (map (\<lambda>k. divide_byte (push_bit 24 (2 ^ k))) [n..<8]) =
   map (\<lambda>i. divide_byte (push_bit 24 (of_nat i))) [0..<2 ^ 8]" if "n \<le> 8"
  using that
proof (induction n rule: inc_induct)
  case (step n)
  let ?T = "\<lambda>i. divide_byte (push_bit 24 (of_nat i))"
  have bits: "(of_nat (i + 2 ^ n) :: u32) = of_nat i XOR 2 ^ n" if "i < 2 ^ n" for i
  proof -
    have "\<not> bit (of_nat i :: u32) k \<or> \<not> bit (2 ^ n :: u32) k" for k
      using that by (auto simp: bit_of_nat_iff bit_exp_iff bit_nat_def)
    then have "(of_nat i :: u32) + 2 ^ n = of_nat i OR 2 ^ n" by (rule disjunctive_add)
    moreover have "(of_nat i :: u32) OR 2 ^ n = of_nat i XOR 2 ^ n"
      using \<open>\<And>k. \<not> bit (of_nat i :: u32) k \<or> \<not> bit (2 ^ n) k\<close>
      by (intro bit_word_eqI) (auto simp: bit_or_iff bit_xor_iff)
    ultimately show ?thesis by simp
  qed
  have "map ?T [0..<2 ^ Suc n] = map ?T [0..<2 ^ n] @ map (\<lambda>i. ?T (i + 2 ^ n)) [0..<2 ^ n]"
  proof (rule nth_equalityI)
    fix i assume "i < length (map ?T [0..<2 ^ Suc n])"
    then have "i < 2 ^ n \<or> 2 ^ n \<le> i \<and> i - 2 ^ n < 2 ^ n" "i < 2 ^ Suc n" by auto
    then show "map ?T [0..<2 ^ Suc n] ! i = (map ?T [0..<2 ^ n] @ map (\<lambda>i. ?T (i + 2 ^ n)) [0..<2 ^ n]) ! i"
      by (auto simp: nth_append simp del: of_nat_add power_Suc)
  qed simp
  also have "map (\<lambda>i. ?T (i + 2 ^ n)) [0..<2 ^ n] =
      map (\<lambda>x. x XOR divide_byte (push_bit 24 (2 ^ n))) (map ?T [0..<2 ^ n])"
    by (simp add: bits push_bit_xor divide_byte_xor del: of_nat_add)
  finally show ?case using step by (simp add: upt_conv_Cons)
qed simp

lemma crctab_divides: "crctab = map (\<lambda>i. divide_byte (push_bit 24 (of_nat i))) [0..<2 ^ 8]"
proof -
  have upt: "[0..<8] = [0, 1, 2, 3, 4, 5, 6, 7::nat]" by (simp add: upt_rec)
  have base: "map (\<lambda>i. divide_byte (push_bit 24 (of_nat i))) [0..<2 ^ 0] = [0]"
    by (simp add: divide_byte_def divide_power_0)
  show ?thesis
    using double_divides [of 0] by (simp only: base upt crctab_double table_powers_divide)
qed

lemma crctab_nth: "i < 256 \<Longrightarrow> crctab ! i = divide_byte (push_bit 24 (of_nat i))"
  by (simp only: crctab_divides) simp

section \<open>Bits that enter one after the other\<close>

text \<open>
  Up to 32 bits can be put in front of the remainder at once: \<open>align\<close> is their word, the first bit
  at the top.
\<close>

fun align :: "bool list \<Rightarrow> u32" where
  "align [] = 0"
| "align (b # bs) = (if b then high else 0) XOR drop_bit 1 (align bs)"

lemma bit_high: "bit high n \<longleftrightarrow> n = 31"
  unfolding high_def by (simp only: bit_push_bit_iff bit_1_iff) auto

lemma bit_push_1: "bit (push_bit 1 (w :: u32)) n \<longleftrightarrow> 0 < n \<and> n < 32 \<and> bit w (n - 1)"
  by (simp only: bit_push_bit_iff) auto

lemma bit_drop_1: "bit (drop_bit 1 (w :: u32)) n \<longleftrightarrow> bit w (n + 1)"
  by (simp only: bit_drop_bit_eq comp_apply add.commute)

lemma bit_align: "bit (align bs) n \<longleftrightarrow> n < 32 \<and> 31 - n < length bs \<and> bs ! (31 - n)"
proof (induction bs arbitrary: n)
  case (Cons b bs)
  have first: "bit (align (b # bs)) n \<longleftrightarrow> (n = 31 \<and> b) \<noteq> bit (align bs) (n + 1)"
    by (simp only: align.simps bit_xor_iff bit_drop_1) (simp add: bit_high)
  consider "n < 31" | "n = 31" | "31 < n" by linarith
  then show ?case
  proof cases
    case 1
    then have "31 - n = Suc (31 - (n + 1))" by simp
    then show ?thesis using 1 by (simp only: first) (simp add: Cons.IH)
  next
    case 2
    then show ?thesis unfolding first by (simp add: Cons.IH)
  next
    case 3
    then show ?thesis unfolding first by (simp add: Cons.IH)
  qed
qed simp

lemma divide_in_bits: "length bs \<le> 32 \<Longrightarrow> foldl divide_in r bs = (divide_bit ^^ length bs) (r XOR align bs)"
proof (induction bs arbitrary: r)
  case (Cons b bs)
  have "divide_bit (drop_bit 1 (align bs)) = align bs"
  proof -
    have "\<not> bit (align bs) 0" using Cons.prems by (simp add: bit_align)
    then have "push_bit 1 (drop_bit 1 (align bs)) = align bs"
    proof (intro bit_word_eqI)
      fix n assume "n < LENGTH(32)"
      then show "bit (push_bit 1 (drop_bit 1 (align bs))) n = bit (align bs) n"
        using \<open>\<not> bit (align bs) 0\<close> unfolding bit_push_1 bit_drop_1 by (cases n) simp_all
    qed
    moreover have "\<not> bit (drop_bit 1 (align bs)) 31" by (simp only: bit_drop_1 bit_align) simp
    ultimately show ?thesis by (simp only: divide_bit_def if_False) simp
  qed
  then have "divide_in r b XOR align bs = divide_bit (r XOR align (b # bs))"
    by (simp add: divide_in_def divide_bit_xor xor.assoc)
  then show ?case using Cons by (simp add: funpow_swap1)
qed simp

lemma align_inj:
  assumes "align bs = align cs" and "length bs = length cs" and "length bs \<le> 32"
  shows "bs = cs"
proof (rule nth_equalityI)
  fix i assume i: "i < length bs"
  moreover have "31 - i < (32 :: nat)" by arith
  ultimately have "bs ! i = bit (align bs) (31 - i)" using assms(3) by (simp add: bit_align)
  also have "\<dots> = cs ! i" using i \<open>31 - i < 32\<close> assms by (simp add: bit_align)
  finally show "bs ! i = cs ! i" .
qed (rule assms(2))

lemma length_bits_of_byte [simp]: "length (bits_of_byte c) = 8"
  by (simp add: bits_of_byte_def)

lemma nth_bits_of_byte: "i < 8 \<Longrightarrow> bits_of_byte c ! i = bit c (7 - i)"
  by (auto simp: bits_of_byte_def nth_Cons split: nat.splits)

lemma align_byte: "align (bits_of_byte c) = push_bit 24 (ucast c)"
proof (rule bit_word_eqI)
  fix n assume "n < LENGTH(32)"
  then show "bit (align (bits_of_byte c)) n = bit (push_bit 24 (ucast c) :: u32) n"
    by (auto simp: bit_align nth_bits_of_byte bit_push_bit_iff bit_ucast_iff simp del: push_bit_numeral)
qed

section \<open>The code divides\<close>

lemma divide_power_shift:
  "n \<le> 32 \<Longrightarrow> (\<And>k. bit r k \<Longrightarrow> k < 32 - n) \<Longrightarrow> (divide_bit ^^ n) r = push_bit n r"
proof (induction n)
  case (Suc n)
  have IH: "(divide_bit ^^ n) r = push_bit n r"
    by (rule Suc.IH) (use Suc.prems in fastforce)+
  have "\<not> bit r (31 - n)" using Suc.prems(2) [of "31 - n"] Suc.prems(1) by auto
  then have "\<not> bit (push_bit n r) 31" using Suc.prems(1) by (simp only: bit_push_bit_iff) simp
  then have "divide_bit (push_bit n r) = push_bit 1 (push_bit n r)" by (simp only: divide_bit_def if_False) simp
  then show ?case by (simp add: IH)
qed simp

lemma split_top_byte: "r = take_bit 24 r XOR push_bit 24 (drop_bit 24 (r :: u32))"
proof (rule bit_word_eqI)
  fix n assume "n < LENGTH(32)"
  then show "bit r n = bit (take_bit 24 r XOR push_bit 24 (drop_bit 24 r)) n"
    by (simp only: bit_xor_iff bit_take_bit_iff bit_push_bit_iff bit_drop_bit_eq comp_apply) auto
qed

lemma COMPUTE_divides: "COMPUTE r c = foldl divide_in r (bits_of_byte c)"
proof -
  let ?i = "drop_bit 24 r XOR ucast c"
  have "unat (?i :: u32) < 2 ^ 8"
  proof -
    have "take_bit 8 (?i :: u32) = ?i"
    proof (rule bit_word_eqI)
      fix n
      show "bit (take_bit 8 ?i :: u32) n = bit (?i :: u32) n"
        using bit_imp_le_length [of r "24 + n"] bit_imp_le_length [of c n]
        by (auto simp: bit_take_bit_iff bit_xor_iff bit_drop_bit_eq bit_ucast_iff)
    qed
    then show ?thesis by (metis unsigned_take_bit_eq take_bit_nat_less_exp)
  qed
  then have "crctab ! unat ?i = divide_byte (push_bit 24 ?i)" by (simp add: crctab_nth)
  moreover have "divide_byte (take_bit 24 r) = push_bit 8 r"
  proof -
    have "divide_byte (take_bit 24 r) = push_bit 8 (take_bit 24 r)"
      unfolding divide_byte_def by (rule divide_power_shift) (simp_all add: bit_take_bit_iff)
    also have "\<dots> = push_bit 8 r"
      by (rule bit_word_eqI) (simp only: bit_push_bit_iff bit_take_bit_iff, auto)
    finally show ?thesis .
  qed
  moreover have "r XOR push_bit 24 (ucast c) = take_bit 24 r XOR push_bit 24 ?i"
    by (subst split_top_byte) (simp only: push_bit_xor xor.assoc)
  ultimately have "COMPUTE r c = divide_byte (r XOR push_bit 24 (ucast c))"
    by (simp only: COMPUTE_def divide_byte_xor)
  also have "\<dots> = foldl divide_in r (bits_of_byte c)"
    by (simp add: divide_byte_def divide_in_bits align_byte)
  finally show ?thesis .
qed

lemma COMPUTE_message: "foldl COMPUTE r cs = divide_message r cs"
  unfolding divide_message_def by (induction cs arbitrary: r) (simp_all add: COMPUTE_divides)

lemma divide_in_inj: "foldl divide_in r bs = foldl divide_in s bs \<Longrightarrow> r = s"
proof (induction bs arbitrary: r s)
  case (Cons b bs)
  then have "divide_in r b = divide_in s b" by simp
  then have "r XOR (if b then high else 0) = s XOR (if b then high else 0)"
    unfolding divide_in_def by (rule divide_bit_inj)
  then show ?case by (rule xor_cancel_right)
qed simp

lemma bits_of_byte_inj: "bits_of_byte c = bits_of_byte d \<Longrightarrow> c = d"
proof (rule bit_word_eqI)
  fix n assume "bits_of_byte c = bits_of_byte d" and "n < LENGTH(8)"
  then show "bit c n = bit d n"
    using nth_bits_of_byte [of "7 - n" c] nth_bits_of_byte [of "7 - n" d] by simp
qed

lemma bits_of_bytes_inj:
  "length cs = length ds \<Longrightarrow> concat (map bits_of_byte cs) = concat (map bits_of_byte ds) \<Longrightarrow> cs = ds"
proof (induction cs ds rule: list_induct2)
  case (Cons c cs d ds)
  have "bits_of_byte c = bits_of_byte d \<and> concat (map bits_of_byte cs) = concat (map bits_of_byte ds)"
    using Cons.prems append_eq_append_conv [of "bits_of_byte c" "bits_of_byte d"] by simp
  then show ?case using Cons.IH bits_of_byte_inj by blast
qed simp

section \<open>Properties\<close>

text \<open>
  C32: the checksum by table is the remainder of the division bit by bit, of the message followed by
  the bytes of its length, from the least significant one to the last that is needed, complemented.
\<close>

theorem crc32_is_division:
  "crc32 buf = NOT (divide_message 0 (buf @ len_bytes (of_nat (length buf))))"
  by (simp add: crc32_def COMPUTE_message divide_message_def)

text \<open>
  C33: two messages of the same length that differ within four adjacent bytes only have different
  checksums.
\<close>

theorem crc32_detects_burst:
  assumes "length mid = length mid'" and "length mid \<le> 4"
    and "crc32 (pre @ mid @ post) = crc32 (pre @ mid' @ post)"
  shows "mid = mid'"
proof -
  let ?len = "len_bytes (of_nat (length (pre @ mid @ post)))"
  have "divide_message 0 (pre @ mid @ post @ ?len) = divide_message 0 (pre @ mid' @ post @ ?len)"
    using assms(1,3) by (simp add: crc32_is_division)
  then have "foldl divide_in (divide_message 0 pre) (concat (map bits_of_byte mid)) =
      foldl divide_in (divide_message 0 pre) (concat (map bits_of_byte mid'))"
    by (auto simp: divide_message_def dest!: divide_in_inj)
  moreover have size: "length (concat (map bits_of_byte cs)) = 8 * length cs" for cs
    by (induction cs) simp_all
  ultimately have "divide_message 0 pre XOR align (concat (map bits_of_byte mid)) =
      divide_message 0 pre XOR align (concat (map bits_of_byte mid'))"
    using assms(1,2) divide_power_inj by (simp add: divide_in_bits size)
  then have "align (concat (map bits_of_byte mid)) = align (concat (map bits_of_byte mid'))"
    by (rule xor_cancel)
  then have "concat (map bits_of_byte mid) = concat (map bits_of_byte mid')"
    using align_inj assms(1,2) size by simp
  then show ?thesis using bits_of_bytes_inj assms(1) by blast
qed

theorem crc32_detects_burst_witness: "crc32 [7, 1, 2, 9] \<noteq> crc32 [7, 2, 1, 9]"
  using crc32_detects_burst [of "[1, 2]" "[2, 1]" "[7]" "[9]"] by auto

end
