(* ===== verification/Hppa.thy ===== *)
theory Hppa
  imports Prelude
begin

text \<open>
  The field selectors of the HPPA instruction formats, \<^verbatim>\<open>libstuff/hppa.c\<close>: an immediate of an
  instruction is cut in pieces whose order depends on the format.  Shifts by an amount outside
  \<open>0..31\<close> are undefined in C; the lemmas are about lengths from 1 to 32.
\<close>

section \<open>The code\<close>

definition calc_hppa_HILO :: "u32 \<Rightarrow> u32 \<Rightarrow> u32 \<times> u32" where
  "calc_hppa_HILO base offset =
     (let rounded = (offset + 0x2000 div 2) AND NOT (0x2000 - 1)
      in ((base + rounded) AND 0xfffff800, ((base + rounded) AND 0x000007ff) + (offset - rounded)))"

definition assemble_17 :: "u32 \<Rightarrow> u32 \<Rightarrow> u32 \<Rightarrow> u32" where
  "assemble_17 x y z =
     (let temp = push_bit 16 (z AND 1) OR push_bit 11 (x AND 0x1f) OR push_bit 10 (y AND 1) OR
                 drop_bit 1 (y AND 0x7fe)
      in if z \<noteq> 0 then temp OR 0xfffe0000 else temp)"

definition assemble_21 :: "u32 \<Rightarrow> u32" where
  "assemble_21 x =
     (push_bit 20 (x AND 1) OR push_bit 8 (x AND 0xffe) OR drop_bit 7 (x AND 0xc000) OR
      drop_bit 14 (x AND 0x1f0000) OR drop_bit 12 (x AND 0x003000)) AND 0x1fffff"

definition assemble_12 :: "u32 \<Rightarrow> u32 \<Rightarrow> u32" where
  "assemble_12 x y =
     (push_bit 11 (y AND 1) OR push_bit 10 (x AND 1) OR drop_bit 1 (x AND 0x7fe)) AND 0xfff"

definition assemble_3 :: "u32 \<Rightarrow> u32" where
  "assemble_3 x = (push_bit 2 (x AND 1) OR drop_bit 1 (x AND 6)) AND 7"

definition dis_assemble_21 :: "u32 \<Rightarrow> u32" where
  "dis_assemble_21 as21 =
     drop_bit 20 (as21 AND 0x100000) OR drop_bit 8 (as21 AND 0x0ffe00) OR push_bit 7 (as21 AND 0x000180) OR
     push_bit 14 (as21 AND 0x00007c) OR push_bit 12 (as21 AND 0x000003)"

text \<open>The pieces \<open>x\<close>, \<open>y\<close> and \<open>z\<close>.\<close>

definition dis_assemble_17 :: "u32 \<Rightarrow> u32 \<times> u32 \<times> u32" where
  "dis_assemble_17 as17 =
     (drop_bit 11 (as17 AND 0x0f800),
      drop_bit 10 (as17 AND 0x00400) OR push_bit 1 (as17 AND 0x3ff),
      drop_bit 16 (as17 AND 0x10000))"

definition dis_assemble_12 :: "u32 \<Rightarrow> u32 \<times> u32" where
  "dis_assemble_12 as12 =
     (push_bit 1 (as12 AND 0x3ff) OR drop_bit 10 (as12 AND 0x400), drop_bit 11 (as12 AND 0x800))"

definition dis_assemble_3 :: "u32 \<Rightarrow> u32" where
  "dis_assemble_3 x = (drop_bit 2 (x AND 4) OR push_bit 1 (x AND 3)) AND 7"

fun ones :: "nat \<Rightarrow> u32" where
  "ones 0 = 0"
| "ones (Suc n) = push_bit 1 (ones n) OR 1"

definition sign_ext :: "u32 \<Rightarrow> nat \<Rightarrow> u32" where
  "sign_ext x len =
     (if drop_bit (len - 1) x AND 1 \<noteq> 0 then (NOT 0 XOR ones len) OR (ones len AND x) else ones len AND x)"

definition low_sign_ext :: "u32 \<Rightarrow> nat \<Rightarrow> u32" where
  "low_sign_ext x len =
     (let temp1 = push_bit (len - 1) (x AND 1);
          temp2 = drop_bit 1 ((x AND 0xfffffffe) AND ones len)
      in sign_ext (temp1 OR temp2) len)"

definition sign_unext :: "u32 \<Rightarrow> nat \<Rightarrow> u32" where
  "sign_unext x len = x AND ones len"

definition low_sign_unext :: "u32 \<Rightarrow> nat \<Rightarrow> u32" where
  "low_sign_unext x len =
     (let one_bit_at_len = push_bit (len - 1) 1;
          temp = sign_unext x len;
          sign = drop_bit (len - 1) (temp AND one_bit_at_len);
          rest = push_bit 1 (temp AND (ones len XOR one_bit_at_len))
      in rest OR sign)"

section \<open>Round trips\<close>

lemmas bits_of_ops = bit_and_iff bit_or_iff bit_xor_iff bit_not_iff bit_push_bit_iff bit_drop_bit_eq comp_apply

text \<open>Two words are equal when their 32 bits are, one by one.\<close>

lemma bits_32: "list_all (\<lambda>n. bit a n = bit (b :: u32) n) [0..<32] \<Longrightarrow> a = b"
  by (rule bit_word_eqI) (simp add: list_all_iff)

lemma upt_32:
  "[0..<32] = [0, 1, 2, 3, 4, 5, 6, 7, 8, 9, 10, 11, 12, 13, 14, 15, 16, 17, 18, 19, 20, 21, 22, 23, 24,
     25, 26, 27, 28, 29, 30, 31 :: nat]"
  by (simp add: upt_rec)

lemmas assemble_defs = assemble_21_def dis_assemble_21_def assemble_17_def dis_assemble_17_def
  assemble_12_def dis_assemble_12_def assemble_3_def dis_assemble_3_def

lemma assemble_21_dis: "assemble_21 (dis_assemble_21 v) = v AND 0x1fffff"
  unfolding assemble_defs by (rule bits_32, simp only: bits_of_ops upt_32) simp

lemma dis_assemble_21: "dis_assemble_21 (assemble_21 v) = v AND 0x1fffff"
  unfolding assemble_defs by (rule bits_32, simp only: bits_of_ops upt_32) simp

lemma assemble_12_dis:
  "assemble_12 (fst (dis_assemble_12 v)) (snd (dis_assemble_12 v)) = v AND 0xfff"
  unfolding assemble_defs fst_conv snd_conv by (rule bits_32, simp only: bits_of_ops upt_32) simp

lemma assemble_3_dis: "assemble_3 (dis_assemble_3 v) = v AND 7"
  unfolding assemble_defs by (rule bits_32, simp only: bits_of_ops upt_32) (simp add: numeral_2_eq_2)

lemma bit_ones: "bit (ones n) k \<longleftrightarrow> k < n \<and> k < 32"
proof (induction n arbitrary: k)
  case (Suc n)
  show ?case
    by (simp only: ones.simps bits_of_ops Suc.IH bit_1_iff) (cases k; auto)
qed simp

lemma bit_sign_ext:
  assumes "1 \<le> len" and "len \<le> 32"
  shows "bit (sign_ext x len) k \<longleftrightarrow> k < 32 \<and> bit x (if k < len then k else len - 1)"
proof -
  have "drop_bit (len - 1) x AND 1 \<noteq> 0 \<longleftrightarrow> bit x (len - 1)"
    by (simp add: bit_iff_and_drop_bit_eq_1 and_one_eq bit_iff_odd_drop_bit)
  then show ?thesis
    using assms by (auto simp: sign_ext_def bit_ones bit_and_iff bit_or_iff bit_xor_iff bit_not_iff dest: bit_imp_le_length)
qed

lemmas bit_sign_ext_17 = bit_sign_ext [of 17, simplified]

lemma bit_one_at: "j < 32 \<Longrightarrow> bit (push_bit j 1 :: u32) k \<longleftrightarrow> k = j"
  by (simp only: bit_push_bit_iff bit_1_iff) auto

lemma bit_low_sign_unext:
  assumes "1 \<le> len" and "len \<le> 32"
  shows "bit (low_sign_unext x len) k \<longleftrightarrow> (if k = 0 then bit x (len - 1) else k < len \<and> bit x (k - 1))"
proof -
  let ?one = "push_bit (len - 1) 1 :: u32"
  have one: "bit ?one j \<longleftrightarrow> j = len - 1" for j using assms bit_one_at by simp
  have temp: "bit (sign_unext x len) j \<longleftrightarrow> j < len \<and> bit x j" for j
    using assms by (auto simp: sign_unext_def bit_and_iff bit_ones)
  have "bit (drop_bit (len - 1) (sign_unext x len AND ?one)) k \<longleftrightarrow> k = 0 \<and> bit x (len - 1)"
    using assms by (simp only: bit_drop_bit_eq comp_apply bit_and_iff one temp) auto
  moreover have "bit (push_bit 1 (sign_unext x len AND (ones len XOR ?one))) k \<longleftrightarrow>
      0 < k \<and> k < len \<and> bit x (k - 1)"
    using assms by (simp only: bit_push_bit_iff bit_and_iff bit_xor_iff one temp bit_ones) auto
  ultimately show ?thesis
    by (simp only: low_sign_unext_def Let_def bit_or_iff) auto
qed

lemma bit_low_sign_field:
  assumes "1 \<le> len" and "len \<le> 32" and "k < len"
  shows "bit (push_bit (len - 1) (y AND 1) OR drop_bit 1 ((y AND 0xfffffffe) AND ones len)) k \<longleftrightarrow>
    (if k = len - 1 then bit y 0 else bit y (k + 1))"
proof -
  have "(0xfffffffe :: u32) = NOT 1" by simp
  then have mask: "bit (0xfffffffe :: u32) j \<longleftrightarrow> 0 < j \<and> j < 32" for j
    by (simp only: bit_not_iff bit_1_iff) auto
  have "bit (push_bit (len - 1) (y AND 1)) k \<longleftrightarrow> k = len - 1 \<and> bit y 0"
    using assms by (simp only: bit_push_bit_iff bit_and_iff bit_1_iff) auto
  moreover have "bit (drop_bit 1 ((y AND 0xfffffffe) AND ones len)) k \<longleftrightarrow> k + 1 < len \<and> bit y (k + 1)"
    using assms by (simp only: bit_drop_bit_eq comp_apply bit_and_iff mask bit_ones) auto
  ultimately show ?thesis using assms by (simp only: bit_or_iff) auto
qed

lemma low_sign_round_trip:
  assumes "1 \<le> len" and "len \<le> 32"
  shows "low_sign_ext (low_sign_unext x len) len = sign_ext x len"
proof (rule bit_word_eqI)
  fix k
  show "bit (low_sign_ext (low_sign_unext x len) len) k = bit (sign_ext x len) k"
    using assms bit_low_sign_field [OF assms, of _ "low_sign_unext x len"]
    by (auto simp: low_sign_ext_def Let_def bit_sign_ext bit_low_sign_unext)
qed

section \<open>Properties\<close>

text \<open>
  an immediate put in the pieces of an instruction is read back: the 21, 12 and 3 bit fields
  as they were, the 17 bit field with its sign extended, and a field with its sign in the lowest bit
  sign-extended from its length.
\<close>

theorem hppa_fields_round_trip:
  "assemble_21 (dis_assemble_21 v) = v AND 0x1fffff \<and>
   dis_assemble_21 (assemble_21 v) = v AND 0x1fffff \<and>
   (let (x, y) = dis_assemble_12 v in assemble_12 x y) = v AND 0xfff \<and>
   assemble_3 (dis_assemble_3 v) = v AND 7 \<and>
   (let (x, y, z) = dis_assemble_17 v in assemble_17 x y z) = sign_ext v 17 \<and>
   list_all (\<lambda>len. low_sign_ext (low_sign_unext v len) len = sign_ext v len) [1..<33]"
proof -
  have z: "drop_bit 16 (v AND 0x10000) = (if bit v 16 then 1 else 0 :: u32)"
    by (rule bits_32, simp only: bits_of_ops upt_32 if_distrib [of bit] if_distribR) simp
  have "(let (x, y, z) = dis_assemble_17 v in assemble_17 x y z) = sign_ext v 17"
  proof (rule bits_32)
    show "list_all (\<lambda>n. bit (let (x, y, z) = dis_assemble_17 v in assemble_17 x y z) n = bit (sign_ext v 17) n) [0..<32]"
    proof (cases "bit v 16")
      case True
      show ?thesis
        unfolding dis_assemble_17_def assemble_17_def Let_def prod.case z
        by (simp only: True if_True one_neq_zero not_False_eq_True, simp only: bits_of_ops upt_32 bit_sign_ext_17)
          (simp add: True)
    next
      case False
      show ?thesis
        unfolding dis_assemble_17_def assemble_17_def Let_def prod.case z
        by (simp only: False if_False refl not_True_eq_False, simp only: bits_of_ops upt_32 bit_sign_ext_17)
          (simp add: False)
    qed
  qed
  then show ?thesis
    using assemble_12_dis [of v] low_sign_round_trip
    by (simp add: assemble_21_dis dis_assemble_21 assemble_3_dis list_all_iff split_def)
qed

text \<open>
  The two halves an HPPA address is split in, 21 bits on the left and the rest on the right, add
  up to the address, and the left one has no bit below the eleventh.
\<close>

lemma calc_hppa_HILO_sum:
  "calc_hppa_HILO base offset = (left21, right14) \<Longrightarrow>
     left21 + right14 = base + offset \<and> left21 AND 0x7ff = 0"
proof -
  assume halves: "calc_hppa_HILO base offset = (left21, right14)"
  define rounded where "rounded = (offset + 0x2000 div 2) AND NOT (0x2000 - 1)"
  let ?s = "base + rounded"
  have left: "left21 = ?s AND 0xfffff800" and right: "right14 = (?s AND 0x7ff) + (offset - rounded)"
    using halves by (simp_all only: calc_hppa_HILO_def rounded_def [symmetric] Let_def prod.inject)
  have "list_all (\<lambda>n. \<not> bit (?s AND 0xfffff800) n \<or> \<not> bit (?s AND 0x7ff) n) [0..<32]"
    by (simp only: bits_of_ops upt_32) simp
  then have "\<not> bit (?s AND 0xfffff800) n \<or> \<not> bit (?s AND 0x7ff) n" for n
    using bit_imp_le_length [of "?s AND 0x7ff" n] by (auto simp: list_all_iff)
  then have "(?s AND 0xfffff800) + (?s AND 0x7ff) = (?s AND 0xfffff800) OR (?s AND 0x7ff)"
    by (rule disjunctive_add)
  also have "\<dots> = ?s" by (rule bits_32, simp only: bits_of_ops upt_32) simp
  finally have "(?s AND 0xfffff800) + (?s AND 0x7ff) = ?s" .
  then have "left21 + right14 = ?s + (offset - rounded)" by (simp only: left right add.assoc [symmetric])
  moreover have "left21 AND 0x7ff = 0" unfolding left by (rule bits_32, simp only: bits_of_ops upt_32) simp
  ultimately show ?thesis by simp
qed

end
