(* ===== verification/Version.thy ===== *)
theory Version
  imports CString
begin

text \<open>
  The version numbers \<^verbatim>\<open>X.Y.Z\<close> of dynamic libraries on the command lines of the tools,
  \<^verbatim>\<open>libstuff/version_number.c\<close>: 16, 8 and 8 bits of a word.  And the small arithmetic of
  \<^verbatim>\<open>libstuff/round.c\<close> and \<^verbatim>\<open>libstuff/hash_string.c\<close>.
\<close>

section \<open>Version numbers\<close>

text \<open>The error that is printed, by field, before \<^verbatim>\<open>FALSE\<close> is returned; the value is 0 then.\<close>

datatype version_error = Not_a_number nat | Too_large nat

text \<open>
  The fields: a dot that is the last character does not end a field, and what follows the third dot
  is cut off.
\<close>

definition next_field :: "c_string \<Rightarrow> (c_string \<times> c_string) option" where
  "next_field x =
     (case strchr x 46 of
        None \<Rightarrow> None
      | Some dot \<Rightarrow> if char_at x (dot + 1) \<noteq> 0 then Some (take dot x, drop (dot + 1) x) else None)"

definition version_fields :: "c_string \<Rightarrow> c_string \<times> c_string option \<times> c_string option" where
  "version_fields x =
     (case next_field x of
        None \<Rightarrow> (x, None, None)
      | Some (x, y) \<Rightarrow>
          (case next_field y of
             None \<Rightarrow> (x, Some y, None)
           | Some (y, z) \<Rightarrow>
               (x, Some y, Some (case strchr z 46 of None \<Rightarrow> z | Some dot \<Rightarrow> take dot z))))"

definition field_number :: "nat \<Rightarrow> u32 \<Rightarrow> c_string option \<Rightarrow> version_error + u32" where
  "field_number i limit field =
     (case field of
        None \<Rightarrow> Inr 0
      | Some s \<Rightarrow>
          let (n, endp) = strtoul s
          in if endp \<noteq> [] then Inl (Not_a_number i) else if n > limit then Inl (Too_large i) else Inr n)"

definition get_version_number :: "c_string \<Rightarrow> version_error + u32" where
  "get_version_number argument =
     (let (x, y, z) = version_fields argument
      in case field_number 1 0xffff (Some x) of
           Inl e \<Rightarrow> Inl e
         | Inr X \<Rightarrow>
             (case field_number 2 0xff y of
                Inl e \<Rightarrow> Inl e
              | Inr Y \<Rightarrow>
                  (case field_number 3 0xff z of
                     Inl e \<Rightarrow> Inl e
                   | Inr Z \<Rightarrow> Inr (push_bit 16 X OR push_bit 8 Y OR Z))))"

section \<open>Rounding and hashing\<close>

definition round_up :: "u32 \<Rightarrow> u32 \<Rightarrow> u32" where
  "round_up v r = (let r = r - 1; v = v + r in v AND NOT r)"

text \<open>A \<^verbatim>\<open>char\<close> is signed; the code of a string is a \<^verbatim>\<open>long\<close>.\<close>

definition hash_string :: "c_string \<Rightarrow> u32" where
  "hash_string key =
     foldl (\<lambda>k c. ((push_bit 1 k + drop_bit 14 k) XOR scast c) AND 0x3fff) 0 key"

lemma hash_string_bound: "hash_string key AND 0x3fff = hash_string key"
proof (cases key rule: rev_cases)
  case (snoc ks c)
  then show ?thesis by (simp add: hash_string_def and.assoc)
qed (simp add: hash_string_def)

text \<open>Rounding to a power of two: the next multiple, as long as the sum stays below \<open>2 ^ 32\<close>.\<close>

lemma and_not_mask: "(w :: u32) AND NOT (mask k) = push_bit k (drop_bit k w)"
  by (rule bit_word_eqI)
    (auto simp: bit_and_iff bit_not_iff bit_mask_iff bit_push_bit_iff bit_drop_bit_eq simp del: push_bit_numeral)

lemma round_up_power:
  assumes "k < 32" and "unat v + 2 ^ k - 1 < 2 ^ 32"
  shows "unat (round_up v (2 ^ k)) = (unat v + 2 ^ k - 1) div 2 ^ k * 2 ^ k"
proof -
  have r: "(2 ^ k - 1 :: u32) = mask k" by (simp add: mask_eq_exp_minus_1)
  have "unat (mask k :: u32) = 2 ^ k - 1"
  proof -
    have "(mask k :: u32) = of_nat (2 ^ k - 1)" by (simp add: mask_eq_exp_minus_1 of_nat_diff)
    moreover have "(2 ^ k - 1 :: nat) < 2 ^ 32" using assms(2) by linarith
    ultimately show ?thesis by (simp only: unat_of_nat) simp
  qed
  then have sum: "unat (v + mask k) = unat v + 2 ^ k - 1"
    using assms(2) by (simp add: unat_word_ariths)
  have "unat (round_up v (2 ^ k)) = unat (push_bit k (drop_bit k (v + mask k)))"
    by (simp only: round_up_def Let_def r and_not_mask)
  also have "\<dots> = unat (v + mask k) div 2 ^ k * 2 ^ k"
  proof -
    have "unat (v + mask k) div 2 ^ k * 2 ^ k \<le> unat (v + mask k)" by simp
    moreover have "unat (v + mask k) < 2 ^ 32" using unsigned_less [of "v + mask k", where ?'a = nat] by simp
    ultimately have "unat (v + mask k) div 2 ^ k * 2 ^ k < 2 ^ 32" by (rule le_less_trans)
    then show ?thesis using \<open>unat (v + mask k) < 2 ^ 32\<close>
      by (simp only: unsigned_push_bit_eq unsigned_drop_bit_eq) (simp add: push_bit_eq_mult drop_bit_eq_div take_bit_nat_eq_self)
  qed
  finally show ?thesis by (simp only: sum)
qed

lemma round_up_spec:
  assumes "k < 32" and "unat v + 2 ^ k - 1 < 2 ^ 32"
  shows "2 ^ k dvd unat (round_up v (2 ^ k))" and "unat v \<le> unat (round_up v (2 ^ k))"
    and "unat (round_up v (2 ^ k)) < unat v + 2 ^ k"
proof -
  note eq = round_up_power [OF assms]
  show "2 ^ k dvd unat (round_up v (2 ^ k))" by (simp add: eq)
  have "unat v + 2 ^ k - 1 = (unat v + 2 ^ k - 1) div 2 ^ k * 2 ^ k + (unat v + 2 ^ k - 1) mod 2 ^ k"
    by (simp only: div_mult_mod_eq)
  moreover have "(unat v + 2 ^ k - 1) mod 2 ^ k < 2 ^ k" by simp
  moreover have "(1 :: nat) \<le> 2 ^ k" by simp
  ultimately show "unat v \<le> unat (round_up v (2 ^ k))" "unat (round_up v (2 ^ k)) < unat v + 2 ^ k"
    unfolding eq by linarith+
qed

section \<open>Properties\<close>

lemma version_fields_of:
  assumes "46 \<notin> set x" and "46 \<notin> set y" and "46 \<notin> set z" and "y \<noteq> []" and "z \<noteq> []" and "c_string_ok (x @ y @ z)"
  shows "version_fields (x @ 46 # y @ 46 # z) = (x, Some y, Some z)"
proof -
  have "char_at (x @ 46 # y @ 46 # z) (length x + 1) \<noteq> 0" "char_at (y @ 46 # z) (length y + 1) \<noteq> 0"
    using assms(4-6) by (auto simp: char_at_def nth_append c_string_ok_def neq_Nil_conv)
  then have "next_field (x @ 46 # y @ 46 # z) = Some (x, y @ 46 # z)" "next_field (y @ 46 # z) = Some (y, z)"
    by (simp_all add: next_field_def strchr_append assms)
  moreover have "strchr z 46 = None" using assms(3) by (simp add: strchr_None_iff)
  ultimately show ?thesis by (simp add: version_fields_def)
qed

lemma decimal_chars: "46 \<notin> set (decimal n)" "c_string_ok (decimal n)"
  using decimal_digits [of n] by (auto simp: list_all_iff is_digit_def c_string_ok_def)

lemma bit_of_small_nat: "y < 2 ^ k \<Longrightarrow> bit (of_nat y :: u32) n \<Longrightarrow> n < k"
  by (metis bit_of_nat_iff bit_take_bit_iff take_bit_nat_eq_self)

lemma version_word:
  assumes "Y < 2 ^ 8" and "Z < 2 ^ 8"
  shows "push_bit 16 (of_nat X) OR push_bit 8 (of_nat Y) OR of_nat Z =
    (of_nat (X * 65536 + Y * 256 + Z) :: u32)"
proof -
  let ?X = "push_bit 16 (of_nat X) :: u32" and ?Y = "push_bit 8 (of_nat Y) :: u32"
  have Y: "8 \<le> n \<and> n < 16" if "bit ?Y n" for n
  proof -
    have "8 \<le> n" and "bit (of_nat Y :: u32) (n - 8)" using that by (simp_all only: bit_push_bit_iff)
    then show ?thesis using bit_of_small_nat [OF assms(1)] by fastforce
  qed
  have Z: "bit (of_nat Z :: u32) n \<Longrightarrow> n < 8" for n using bit_of_small_nat [OF assms(2)] .
  have X: "bit ?X n \<Longrightarrow> 16 \<le> n" for n by (simp only: bit_push_bit_iff)
  have "?X + (?Y OR of_nat Z) = ?X OR (?Y OR of_nat Z)"
  proof (rule disjunctive_add)
    fix n show "\<not> bit ?X n \<or> \<not> bit (?Y OR of_nat Z) n"
      using X [of n] Y [of n] Z [of n] by (simp only: bit_or_iff) linarith
  qed
  moreover have "?Y + of_nat Z = ?Y OR of_nat Z"
  proof (rule disjunctive_add)
    fix n show "\<not> bit ?Y n \<or> \<not> bit (of_nat Z :: u32) n" using Y [of n] Z [of n] by linarith
  qed
  ultimately have "?X OR ?Y OR of_nat Z = ?X + (?Y + of_nat Z)" by (simp only: or.assoc)
  then show ?thesis by (simp add: push_bit_eq_mult add.assoc)
qed

text \<open>
  \<^verbatim>\<open>get_version_number\<close> takes \<^verbatim>\<open>X.Y.Z\<close> in decimal digits for the word with \<^verbatim>\<open>X\<close> in its upper
  16 bits and \<^verbatim>\<open>Y\<close> and \<^verbatim>\<open>Z\<close> in the two bytes below, and reports the first field that does not fit.
\<close>

theorem get_version_number_decimal:
  "get_version_number (decimal X @ 46 # decimal Y @ 46 # decimal Z) =
     (if X > 0xffff then Inl (Too_large 1)
      else if Y > 0xff then Inl (Too_large 2)
      else if Z > 0xff then Inl (Too_large 3)
      else Inr (of_nat (X * 65536 + Y * 256 + Z)))"
proof -
  have number: "field_number i limit (Some (decimal n)) = (if n > unat limit then Inl (Too_large i) else Inr (of_nat n))"
    if "limit < 0xffffffff" for i limit n
  proof (cases "n < 2 ^ 32")
    case True
    then have "unat (of_nat n :: u32) = n" by (simp add: unat_of_nat)
    then show ?thesis
      using strtoul_decimal [of "[]" n] True by (simp add: field_number_def word_less_nat_alt)
  next
    case False
    have "unat limit < 2 ^ 32" using unsigned_less [of limit] by simp
    then show ?thesis using strtoul_decimal [of "[]" n] False that by (simp add: field_number_def)
  qed
  have "version_fields (decimal X @ 46 # decimal Y @ 46 # decimal Z) =
      (decimal X, Some (decimal Y), Some (decimal Z))"
    by (rule version_fields_of) (auto simp: decimal_chars decimal_not_empty c_string_ok_def, use decimal_chars(2) in \<open>auto simp: c_string_ok_def\<close>)
  moreover have "push_bit 16 (of_nat X) OR push_bit 8 (of_nat Y) OR (of_nat Z) = (of_nat (X * 65536 + Y * 256 + Z) :: u32)"
    if "X \<le> 0xffff" "Y \<le> 0xff" "Z \<le> 0xff"
    by (rule version_word) (use that in simp_all)
  ultimately show ?thesis by (simp add: get_version_number_def number)
qed

end
