(* ===== verification/Reloc.thy ===== *)
theory Reloc
  imports Arch
begin

text \<open>
  Which relocation entries come in pairs, by machine: \<^verbatim>\<open>libstuff/reloc.c\<close> over the enumerations of
  \<^verbatim>\<open>mach-o/reloc.h\<close> and of the machines.  \<open>None\<close> is the call of \<^verbatim>\<open>fatal\<close> that ends the program.
\<close>

section \<open>Relocation types\<close>

abbreviation GENERIC_RELOC_PAIR :: u32 where "GENERIC_RELOC_PAIR \<equiv> 1"
abbreviation GENERIC_RELOC_SECTDIFF :: u32 where "GENERIC_RELOC_SECTDIFF \<equiv> 2"
abbreviation GENERIC_RELOC_LOCAL_SECTDIFF :: u32 where "GENERIC_RELOC_LOCAL_SECTDIFF \<equiv> 4"
abbreviation M88K_RELOC_PAIR :: u32 where "M88K_RELOC_PAIR \<equiv> 1"
abbreviation M88K_RELOC_HI16 :: u32 where "M88K_RELOC_HI16 \<equiv> 4"
abbreviation M88K_RELOC_LO16 :: u32 where "M88K_RELOC_LO16 \<equiv> 5"
abbreviation M88K_RELOC_SECTDIFF :: u32 where "M88K_RELOC_SECTDIFF \<equiv> 6"
abbreviation PPC_RELOC_PAIR :: u32 where "PPC_RELOC_PAIR \<equiv> 1"
abbreviation PPC_RELOC_HI16 :: u32 where "PPC_RELOC_HI16 \<equiv> 4"
abbreviation PPC_RELOC_LO16 :: u32 where "PPC_RELOC_LO16 \<equiv> 5"
abbreviation PPC_RELOC_HA16 :: u32 where "PPC_RELOC_HA16 \<equiv> 6"
abbreviation PPC_RELOC_LO14 :: u32 where "PPC_RELOC_LO14 \<equiv> 7"
abbreviation PPC_RELOC_SECTDIFF :: u32 where "PPC_RELOC_SECTDIFF \<equiv> 8"
abbreviation PPC_RELOC_HI16_SECTDIFF :: u32 where "PPC_RELOC_HI16_SECTDIFF \<equiv> 10"
abbreviation PPC_RELOC_LO16_SECTDIFF :: u32 where "PPC_RELOC_LO16_SECTDIFF \<equiv> 11"
abbreviation PPC_RELOC_HA16_SECTDIFF :: u32 where "PPC_RELOC_HA16_SECTDIFF \<equiv> 12"
abbreviation PPC_RELOC_JBSR :: u32 where "PPC_RELOC_JBSR \<equiv> 13"
abbreviation PPC_RELOC_LO14_SECTDIFF :: u32 where "PPC_RELOC_LO14_SECTDIFF \<equiv> 14"
abbreviation PPC_RELOC_LOCAL_SECTDIFF :: u32 where "PPC_RELOC_LOCAL_SECTDIFF \<equiv> 15"
abbreviation I860_RELOC_PAIR :: u32 where "I860_RELOC_PAIR \<equiv> 1"
abbreviation I860_RELOC_HIGH :: u32 where "I860_RELOC_HIGH \<equiv> 2"
abbreviation I860_RELOC_HIGHADJ :: u32 where "I860_RELOC_HIGHADJ \<equiv> 11"
abbreviation I860_RELOC_SECTDIFF :: u32 where "I860_RELOC_SECTDIFF \<equiv> 13"
abbreviation HPPA_RELOC_PAIR :: u32 where "HPPA_RELOC_PAIR \<equiv> 1"
abbreviation HPPA_RELOC_HI21 :: u32 where "HPPA_RELOC_HI21 \<equiv> 2"
abbreviation HPPA_RELOC_LO14 :: u32 where "HPPA_RELOC_LO14 \<equiv> 3"
abbreviation HPPA_RELOC_BR17 :: u32 where "HPPA_RELOC_BR17 \<equiv> 4"
abbreviation HPPA_RELOC_JBSR :: u32 where "HPPA_RELOC_JBSR \<equiv> 6"
abbreviation HPPA_RELOC_SECTDIFF :: u32 where "HPPA_RELOC_SECTDIFF \<equiv> 7"
abbreviation HPPA_RELOC_HI21_SECTDIFF :: u32 where "HPPA_RELOC_HI21_SECTDIFF \<equiv> 8"
abbreviation HPPA_RELOC_LO14_SECTDIFF :: u32 where "HPPA_RELOC_LO14_SECTDIFF \<equiv> 9"
abbreviation SPARC_RELOC_PAIR :: u32 where "SPARC_RELOC_PAIR \<equiv> 1"
abbreviation SPARC_RELOC_HI22 :: u32 where "SPARC_RELOC_HI22 \<equiv> 2"
abbreviation SPARC_RELOC_LO10 :: u32 where "SPARC_RELOC_LO10 \<equiv> 3"
abbreviation SPARC_RELOC_SECTDIFF :: u32 where "SPARC_RELOC_SECTDIFF \<equiv> 6"
abbreviation SPARC_RELOC_HI22_SECTDIFF :: u32 where "SPARC_RELOC_HI22_SECTDIFF \<equiv> 7"
abbreviation SPARC_RELOC_LO10_SECTDIFF :: u32 where "SPARC_RELOC_LO10_SECTDIFF \<equiv> 8"
abbreviation ARM_RELOC_PAIR :: u32 where "ARM_RELOC_PAIR \<equiv> 1"
abbreviation ARM_RELOC_SECTDIFF :: u32 where "ARM_RELOC_SECTDIFF \<equiv> 2"
abbreviation ARM_RELOC_LOCAL_SECTDIFF :: u32 where "ARM_RELOC_LOCAL_SECTDIFF \<equiv> 3"

section \<open>The code\<close>

definition reloc_pair_r_type :: "u32 \<Rightarrow> u32 option" where
  "reloc_pair_r_type cputype =
     (if cputype = CPU_TYPE_MC680x0 \<or> cputype = CPU_TYPE_I386 then Some GENERIC_RELOC_PAIR
      else if cputype = CPU_TYPE_X86_64 then None
      else if cputype = CPU_TYPE_MC88000 then Some M88K_RELOC_PAIR
      else if cputype = CPU_TYPE_I860 then Some I860_RELOC_PAIR
      else if cputype = CPU_TYPE_POWERPC \<or> cputype = CPU_TYPE_POWERPC64 \<or> cputype = CPU_TYPE_VEO
        then Some PPC_RELOC_PAIR
      else if cputype = CPU_TYPE_HPPA then Some HPPA_RELOC_PAIR
      else if cputype = CPU_TYPE_SPARC then Some SPARC_RELOC_PAIR
      else if cputype = CPU_TYPE_ARM then Some ARM_RELOC_PAIR
      else None)"

definition reloc_has_pair :: "u32 \<Rightarrow> u32 \<Rightarrow> bool option" where
  "reloc_has_pair cputype r_type =
     (if cputype = CPU_TYPE_MC680x0 \<or> cputype = CPU_TYPE_I386
        then Some (r_type \<in> {GENERIC_RELOC_SECTDIFF, GENERIC_RELOC_LOCAL_SECTDIFF})
      else if cputype = CPU_TYPE_X86_64 then Some False
      else if cputype = CPU_TYPE_MC88000
        then Some (r_type \<in> {M88K_RELOC_HI16, M88K_RELOC_LO16, M88K_RELOC_SECTDIFF})
      else if cputype = CPU_TYPE_I860
        then Some (r_type \<in> {I860_RELOC_HIGH, I860_RELOC_HIGHADJ, I860_RELOC_SECTDIFF})
      else if cputype = CPU_TYPE_POWERPC \<or> cputype = CPU_TYPE_POWERPC64 \<or> cputype = CPU_TYPE_VEO
        then Some (r_type \<in> {PPC_RELOC_HI16, PPC_RELOC_LO16, PPC_RELOC_HA16, PPC_RELOC_LO14,
          PPC_RELOC_SECTDIFF, PPC_RELOC_LOCAL_SECTDIFF, PPC_RELOC_HI16_SECTDIFF,
          PPC_RELOC_LO16_SECTDIFF, PPC_RELOC_LO14_SECTDIFF, PPC_RELOC_HA16_SECTDIFF, PPC_RELOC_JBSR})
      else if cputype = CPU_TYPE_HPPA
        then Some (r_type \<in> {HPPA_RELOC_HI21, HPPA_RELOC_LO14, HPPA_RELOC_BR17, HPPA_RELOC_JBSR,
          HPPA_RELOC_SECTDIFF, HPPA_RELOC_HI21_SECTDIFF, HPPA_RELOC_LO14_SECTDIFF})
      else if cputype = CPU_TYPE_SPARC
        then Some (r_type \<in> {SPARC_RELOC_HI22, SPARC_RELOC_LO10, SPARC_RELOC_HI22_SECTDIFF,
          SPARC_RELOC_LO10_SECTDIFF, SPARC_RELOC_SECTDIFF})
      else if cputype = CPU_TYPE_ARM
        then Some (r_type \<in> {ARM_RELOC_SECTDIFF, ARM_RELOC_LOCAL_SECTDIFF})
      else None)"

definition reloc_is_sectdiff :: "u32 \<Rightarrow> u32 \<Rightarrow> bool option" where
  "reloc_is_sectdiff cputype r_type =
     (if cputype = CPU_TYPE_MC680x0 \<or> cputype = CPU_TYPE_I386
        then Some (r_type \<in> {GENERIC_RELOC_SECTDIFF, GENERIC_RELOC_LOCAL_SECTDIFF})
      else if cputype = CPU_TYPE_X86_64 then Some False
      else if cputype = CPU_TYPE_MC88000 then Some (r_type = M88K_RELOC_SECTDIFF)
      else if cputype = CPU_TYPE_I860 then Some (r_type = I860_RELOC_SECTDIFF)
      else if cputype = CPU_TYPE_POWERPC \<or> cputype = CPU_TYPE_VEO
        then Some (r_type \<in> {PPC_RELOC_SECTDIFF, PPC_RELOC_LOCAL_SECTDIFF, PPC_RELOC_HI16_SECTDIFF,
          PPC_RELOC_LO16_SECTDIFF, PPC_RELOC_LO14_SECTDIFF, PPC_RELOC_HA16_SECTDIFF})
      else if cputype = CPU_TYPE_HPPA
        then Some (r_type \<in> {HPPA_RELOC_SECTDIFF, HPPA_RELOC_HI21_SECTDIFF, HPPA_RELOC_LO14_SECTDIFF})
      else if cputype = CPU_TYPE_SPARC
        then Some (r_type \<in> {SPARC_RELOC_SECTDIFF, SPARC_RELOC_HI22_SECTDIFF, SPARC_RELOC_LO10_SECTDIFF})
      else if cputype = CPU_TYPE_ARM
        then Some (r_type \<in> {ARM_RELOC_SECTDIFF, ARM_RELOC_LOCAL_SECTDIFF})
      else None)"

section \<open>Properties\<close>

definition reloc_cputypes :: "u32 list" where
  "reloc_cputypes = [CPU_TYPE_MC680x0, CPU_TYPE_I386, CPU_TYPE_X86_64, CPU_TYPE_MC88000, CPU_TYPE_I860,
     CPU_TYPE_POWERPC, CPU_TYPE_POWERPC64, CPU_TYPE_VEO, CPU_TYPE_HPPA, CPU_TYPE_SPARC, CPU_TYPE_ARM]"

text \<open>
  the three switches agree: every section difference is an entry that has a pair, an entry with
  a pair has a known type for the other half of it, which has no pair itself, and the program stops
  only for a machine it does not know, with one exception: \<^verbatim>\<open>reloc_is_sectdiff\<close> has no case for the
  64-bit PowerPC and ends the program there.
\<close>

theorem reloc_switches_agree:
  "(reloc_is_sectdiff cputype r_type = Some True \<longrightarrow> reloc_has_pair cputype r_type = Some True) \<and>
   (reloc_has_pair cputype r_type = Some True \<longrightarrow>
      (\<exists>pair. reloc_pair_r_type cputype = Some pair \<and> pair \<noteq> r_type \<and>
         reloc_has_pair cputype pair = Some False)) \<and>
   (reloc_has_pair cputype r_type = None \<longleftrightarrow> cputype \<notin> set reloc_cputypes) \<and>
   (reloc_is_sectdiff cputype r_type = None \<longleftrightarrow>
      cputype \<notin> set reloc_cputypes \<or> cputype = CPU_TYPE_POWERPC64) \<and>
   (reloc_pair_r_type cputype = None \<longleftrightarrow>
      cputype \<notin> set reloc_cputypes \<or> cputype = CPU_TYPE_X86_64)"
proof (intro conjI)
  show "reloc_is_sectdiff cputype r_type = Some True \<longrightarrow> reloc_has_pair cputype r_type = Some True"
    by (auto simp: reloc_is_sectdiff_def reloc_has_pair_def split: if_splits)
  show "reloc_has_pair cputype r_type = Some True \<longrightarrow>
      (\<exists>pair. reloc_pair_r_type cputype = Some pair \<and> pair \<noteq> r_type \<and>
         reloc_has_pair cputype pair = Some False)"
    by (auto simp: reloc_pair_r_type_def reloc_has_pair_def split: if_splits)
qed (auto simp: reloc_is_sectdiff_def reloc_has_pair_def reloc_pair_r_type_def reloc_cputypes_def split: if_splits)

theorem reloc_switches_agree_witness:
  "reloc_has_pair CPU_TYPE_POWERPC PPC_RELOC_HI16_SECTDIFF = Some True"
  using reloc_switches_agree [of CPU_TYPE_POWERPC PPC_RELOC_HI16_SECTDIFF]
  by (simp add: reloc_is_sectdiff_def)

end
