(* ===== verification/Archive.thy ===== *)
theory Archive
  imports OFile CString Version
begin

text \<open>
  The check of archives in \<^verbatim>\<open>libstuff/ofile.c\<close>: \<^verbatim>\<open>check_archive\<close>, \<^verbatim>\<open>check_extend_format_1\<close> and
  \<^verbatim>\<open>size_ar_name\<close>, and \<^verbatim>\<open>libstuff/get_toc_byte_sex.c\<close>.  An archive is the string \<open>!<arch>\<close> with a
  newline and then members, each a header of 60 characters (the system's \<^verbatim>\<open>struct ar_hdr\<close>: a name of
  16, a date of 12, owners of 6 and 6, a mode of 8, a size of 10 and an end of 2) and its contents,
  rounded to an even size.  The offsets of the loop are 32-bit sums, so it is not clear that it ends:
  the loop is a partial function, and \<open>None\<close> is a run that does not end.
\<close>

section \<open>The header of a member\<close>

definition ARMAG :: c_string where
  "ARMAG = [33, 60, 97, 114, 99, 104, 62, 10]"

definition AR_EFMT1 :: c_string where
  "AR_EFMT1 = [35, 49, 47]"

text \<open>
  The header at an offset of the mapped file.  \<^verbatim>\<open>strtoul\<close> of the size reads on behind the field
  until it is stopped by a character; when memory ends before that, the read is a fault.
\<close>

definition ar_name_at :: "mem \<Rightarrow> nat \<Rightarrow> c_string option" where
  "ar_name_at m off = map_option (take 16) (get_bytes m off 60)"

definition strtoul_ends :: "c_string \<Rightarrow> bool" where
  "strtoul_ends s \<longleftrightarrow>
     (let t = dropWhile is_space s;
          t = (if char_at t 0 = 45 \<or> char_at t 0 = 43 then tl t else t)
      in dropWhile is_digit t \<noteq> [])"

definition strtoul_overflows :: "c_string \<Rightarrow> bool" where
  "strtoul_overflows s \<longleftrightarrow>
     (let t = dropWhile is_space s;
          t = (if char_at t 0 = 45 \<or> char_at t 0 = 43 then tl t else t)
      in \<not> digits_value (takeWhile is_digit t) < 2 ^ 32)"

declare strtoul_overflows_def [unfolded digits_value_less, code]

definition ar_size_at :: "mem \<Rightarrow> nat \<Rightarrow> (u32 \<times> bool) option" where
  "ar_size_at m off =
     (if off + 60 \<le> length m \<and> strtoul_ends (drop (off + 48) m)
      then Some (fst (strtoul (drop (off + 48) m)), strtoul_overflows (drop (off + 48) m))
      else None)"

text \<open>The length of the name without the blanks it is padded with.\<close>

fun strip_blanks :: "c_string \<Rightarrow> nat \<Rightarrow> nat" where
  "strip_blanks name 0 = 0"
| "strip_blanks name (Suc i) = (if name ! Suc i \<noteq> 32 then Suc i else strip_blanks name i)"

definition size_ar_name :: "c_string \<Rightarrow> nat" where
  "size_ar_name name = strip_blanks name 15 + 1"

section \<open>Extended names\<close>

text \<open>
  \<open>errno\<close> says that the variable of this name is \<^verbatim>\<open>ERANGE\<close>: nothing resets it before the call.
  The result is the length of the name that follows the header.
\<close>

datatype archive_error =
  No_archive
| First_header_past_end
| Name_not_a_digit
| Name_size_overflows
| Name_size_not_a_number
| Name_past_end
| Fat_member

definition check_extend_format_1 ::
  "c_string \<Rightarrow> u32 \<Rightarrow> bool \<Rightarrow> (archive_error, u32 \<times> bool) check" where
  "check_extend_format_1 ar_name size_left errno =
     (let p = drop 3 ar_name @ [0];
          (ar_name_size, endp) = strtoul p;
          errno = (errno \<or> strtoul_overflows p)
      in if \<not> is_digit (char_at p 0) then CHECK_BAD Name_not_a_digit
         else if ar_name_size = 0xffffffff \<and> errno then CHECK_BAD Name_size_overflows
         else if char_at (dropWhile (\<lambda>c. c = 32) endp) 0 \<noteq> 0 then CHECK_BAD Name_size_not_a_number
         else if ar_name_size > size_left then CHECK_BAD Name_past_end
         else CHECK_GOOD (ar_name_size, errno))"

section \<open>One member\<close>

text \<open>
  The variables of the loop: where it is, what the object files had in common so far, the two locals
  for headers, which keep what they had (at first, nothing in particular), \<open>errno\<close>, and the members
  for which a mismatch was printed, without an end to the loop.
\<close>

record archive_loop =
  al_offset :: u32
  al_cputype :: u32
  al_cpusubtype :: u32
  al_mh :: mach_header
  al_mh64 :: mach_header_64
  al_errno :: bool
  al_reports :: "u32 list"

text \<open>The object file of a member, with \<open>left\<close> bytes to the end of the archive.\<close>

definition take_member_header ::
  "byte_sex \<Rightarrow> mem \<Rightarrow> nat \<Rightarrow> u32 \<Rightarrow> u32 \<Rightarrow> archive_loop \<Rightarrow> (u32 \<times> archive_loop) option" where
  "take_member_header h m at left magic st =
     (if left \<ge> 28 \<and> (magic = MH_MAGIC \<or> magic = SWAP_INT MH_MAGIC) then
        map_option
          (\<lambda>mh. if magic = SWAP_INT MH_MAGIC then (MH_MAGIC, st\<lparr>al_mh := swap_mach_header mh\<rparr>)
                else (magic, st\<lparr>al_mh := mh\<rparr>))
          (load mach_header_codec h m at)
      else if left \<ge> 32 \<and> (magic = MH_MAGIC_64 \<or> magic = SWAP_INT MH_MAGIC_64) then
        map_option
          (\<lambda>mh64. if magic = SWAP_INT MH_MAGIC_64 then (MH_MAGIC_64, st\<lparr>al_mh64 := swap_mach_header_64 mh64\<rparr>)
                  else (magic, st\<lparr>al_mh64 := mh64\<rparr>))
          (load mach_header_64_codec h m at)
      else Some (magic, st))"

definition match_cputype :: "u32 \<Rightarrow> u32 \<Rightarrow> archive_loop \<Rightarrow> archive_loop" where
  "match_cputype cputype cpusubtype st =
     (if al_cputype st = 0 then st\<lparr>al_cputype := cputype, al_cpusubtype := cpusubtype\<rparr>
      else if al_cputype st \<noteq> cputype then st\<lparr>al_reports := al_reports st @ [al_offset st]\<rparr>
      else st)"

definition match_member :: "u32 \<Rightarrow> archive_loop \<Rightarrow> archive_loop" where
  "match_member magic st =
     (if magic = MH_MAGIC then match_cputype (mh_cputype (al_mh st)) (mh_cpusubtype (al_mh st)) st
      else if magic = MH_MAGIC_64
        then match_cputype (mh64_cputype (al_mh64 st)) (mh64_cpusubtype (al_mh64 st)) st
      else st)"

definition check_member_contents ::
  "byte_sex \<Rightarrow> mem \<Rightarrow> nat \<Rightarrow> u32 \<Rightarrow> bool \<Rightarrow> archive_loop \<Rightarrow> (archive_error, archive_loop) check" where
  "check_member_contents h m at left fat_allowed st =
     (if left > 4 then
        and_then (or_fault (load word_codec h m at)) (\<lambda>magic.
        if magic = (if h = BIG_ENDIAN_BYTE_SEX then FAT_MAGIC else SWAP_INT FAT_MAGIC)
        then (if fat_allowed then CHECK_GOOD st else CHECK_BAD Fat_member)
        else and_then (or_fault (take_member_header h m at left magic st))
               (\<lambda>(magic, st). CHECK_GOOD (match_member magic st)))
      else CHECK_GOOD st)"

text \<open>
  One turn of the loop: \<open>addr\<close> is where the archive starts in the mapped file and \<open>asize\<close> its size.
\<close>

definition check_member ::
  "byte_sex \<Rightarrow> mem \<Rightarrow> nat \<Rightarrow> u32 \<Rightarrow> bool \<Rightarrow> archive_loop \<Rightarrow> (archive_error, archive_loop) check" where
  "check_member h m addr asize fat_allowed st =
     and_then (or_fault (ar_name_at m (addr + unat (al_offset st)))) (\<lambda>ar_name.
     and_then (or_fault (ar_size_at m (addr + unat (al_offset st)))) (\<lambda>(member_size, overflow).
     let offset = al_offset st + 60; errno = (al_errno st \<or> overflow) in
     and_then
       (if strncmp_equal ar_name AR_EFMT1 3 then check_extend_format_1 ar_name (asize - offset) errno
        else CHECK_GOOD (0, errno)) (\<lambda>(ar_name_size, errno).
     let offset = offset + ar_name_size; member_size = member_size - ar_name_size in
     and_then (check_member_contents h m (addr + unat offset) (asize - offset) fat_allowed (st\<lparr>al_errno := errno\<rparr>)) (\<lambda>st.
     CHECK_GOOD (st\<lparr>al_offset := offset + round_up member_size 2\<rparr>)))))"

section \<open>The loop\<close>

partial_function (option) check_members ::
  "(archive_loop \<Rightarrow> (archive_error, archive_loop) check) \<Rightarrow> u32 \<Rightarrow> archive_loop \<Rightarrow>
     (archive_error, archive_loop) check option" where
  "check_members step asize st =
     (if asize > al_offset st then
        (case step st of
           CHECK_GOOD st' \<Rightarrow> check_members step asize st'
         | CHECK_BAD e \<Rightarrow> Some (CHECK_BAD e)
         | FAULT \<Rightarrow> Some FAULT)
      else Some (CHECK_GOOD st))"

declare check_members.simps [code]

text \<open>
  The part of \<^verbatim>\<open>struct ofile\<close> for archives.  What the loop writes to the fields for the current
  member is reset at its end; after an error nothing reads them but the report.
\<close>

record archive_ofile = ofile +
  archive_cputype :: u32
  archive_cpusubtype :: u32

definition archive_range :: "archive_ofile \<Rightarrow> (nat \<times> u32 \<times> u32 \<times> u32) option" where
  "archive_range ofile =
     (case file_type ofile of
        OFILE_FAT \<Rightarrow>
          let a = fat_archs ofile ! narch ofile
          in Some (unat (fa_offset a), fa_size a, fa_cputype a, fa_cpusubtype a)
      | OFILE_ARCHIVE \<Rightarrow> Some (0, file_size ofile, 0, 0)
      | _ \<Rightarrow> None)"

definition start_loop :: "mach_header \<Rightarrow> mach_header_64 \<Rightarrow> bool \<Rightarrow> u32 \<Rightarrow> u32 \<Rightarrow> archive_loop" where
  "start_loop mh mh64 errno cputype cpusubtype =
     \<lparr>al_offset = 8, al_cputype = cputype, al_cpusubtype = cpusubtype, al_mh = mh, al_mh64 = mh64,
      al_errno = errno, al_reports = []\<rparr>"

text \<open>The result has the members for which an error was printed although the check is good.\<close>

definition check_archive ::
  "byte_sex \<Rightarrow> mach_header \<Rightarrow> mach_header_64 \<Rightarrow> bool \<Rightarrow> bool \<Rightarrow> archive_ofile \<Rightarrow>
     (archive_error, archive_ofile \<times> u32 list) check option" where
  "check_archive h mh mh64 errno archives_with_fat_objects ofile =
     (case archive_range ofile of
        None \<Rightarrow> Some (CHECK_BAD No_archive)
      | Some (addr, asize, cputype, cpusubtype) \<Rightarrow>
          if asize < 8 then Some (CHECK_BAD No_archive)
          else case get_bytes (file_addr ofile) addr 8 of
            None \<Rightarrow> Some FAULT
          | Some bs \<Rightarrow>
              if bs \<noteq> ARMAG then Some (CHECK_BAD No_archive)
              else if asize = 8
              then Some (CHECK_GOOD (ofile\<lparr>archive_cputype := cputype, archive_cpusubtype := cpusubtype\<rparr>, []))
              else if 8 + 60 > asize then Some (CHECK_BAD First_header_past_end)
              else map_option
                (\<lambda>r. and_then r (\<lambda>st.
                   CHECK_GOOD (ofile\<lparr>archive_cputype := al_cputype st, archive_cpusubtype := al_cpusubtype st,
                     member_offset := 0, member_size := 0\<rparr>, al_reports st)))
                (check_members
                   (check_member h (file_addr ofile) addr asize
                      (archives_with_fat_objects \<and> file_type ofile = OFILE_ARCHIVE))
                   asize (start_loop mh mh64 errno cputype cpusubtype)))"

section \<open>The byte order of the table of contents\<close>

text \<open>
  \<^verbatim>\<open>get_toc_byte_sex\<close> skips the first member, which is the table itself, and takes the byte order
  of the first object file it meets.  The pointer is an offset in the mapped file; \<open>None\<close> is a read
  outside.
\<close>

definition toc_name_size :: "mem \<Rightarrow> nat \<Rightarrow> u32 option" where
  "toc_name_size m p =
     (case ar_name_at m p of
        None \<Rightarrow> None
      | Some ar_name \<Rightarrow>
          if strncmp_equal ar_name AR_EFMT1 3
          then if strtoul_ends (drop (p + 3) m) then Some (fst (strtoul (drop (p + 3) m))) else None
          else Some 0)"

function toc_loop :: "byte_sex \<Rightarrow> mem \<Rightarrow> nat \<Rightarrow> nat \<Rightarrow> byte_sex option" where
  "toc_loop h m stop p =
     (if p + 60 + 4 < stop then
        case toc_name_size m p of
          None \<Rightarrow> None
        | Some ar_name_size \<Rightarrow>
            (case load word_codec h m (p + 60 + unat ar_name_size) of
               None \<Rightarrow> None
             | Some magic \<Rightarrow>
                 if magic = MH_MAGIC \<or> magic = MH_MAGIC_64 then Some (get_host_byte_sex h)
                 else if magic = SWAP_INT MH_MAGIC \<or> magic = SWAP_INT MH_MAGIC_64
                 then Some (if get_host_byte_sex h = BIG_ENDIAN_BYTE_SEX
                            then LITTLE_ENDIAN_BYTE_SEX else BIG_ENDIAN_BYTE_SEX)
                 else (case ar_size_at m p of
                         None \<Rightarrow> None
                       | Some (msize, _) \<Rightarrow>
                           toc_loop h m stop (p + 60 + unat (round_up msize 2))))
      else Some UNKNOWN_BYTE_SEX)"
  by pat_completeness auto

termination by (relation "measure (\<lambda>(h, m, stop, p). stop - p)") auto

declare toc_loop.simps [simp del]

definition get_toc_byte_sex :: "byte_sex \<Rightarrow> mem \<Rightarrow> nat \<Rightarrow> u32 \<Rightarrow> byte_sex option" where
  "get_toc_byte_sex h m addr sz =
     (case ar_size_at m (addr + 8) of
        None \<Rightarrow> None
      | Some (msize, _) \<Rightarrow>
          toc_loop h m (addr + unat sz) (addr + 8 + 60 + unat (round_up msize 2)))"

end
