(* ===== verification/ArchiveSound.thy ===== *)
theory ArchiveSound
  imports Archive SwapStructs
begin

text \<open>
  What the checks of archives promise.  The members of an archive are described again without the
  loop: where the next one is, where its contents are and what cputype an object file there has.
  \<^verbatim>\<open>check_archive\<close> returns when no size of a member makes the sum of the offsets wrap, and does not
  on an archive where one does; when it is content, all object files are for one cputype; and
  \<^verbatim>\<open>get_toc_byte_sex\<close> does not depend on the host that runs it.
\<close>

section \<open>The loop as a relation\<close>

inductive loop_run ::
  "(archive_loop \<Rightarrow> (archive_error, archive_loop) check) \<Rightarrow> u32 \<Rightarrow> archive_loop \<Rightarrow> archive_loop \<Rightarrow> bool"
  for step asize where
  finished: "asize \<le> al_offset st \<Longrightarrow> loop_run step asize st st"
| turn: "asize > al_offset st \<Longrightarrow> step st = CHECK_GOOD st1 \<Longrightarrow> loop_run step asize st1 st' \<Longrightarrow>
    loop_run step asize st st'"

lemmas check_members_induct = check_members.raw_induct [rotated, consumes 1, case_names turn]

lemma check_members_loop_run:
  "check_members step asize st = Some r \<Longrightarrow> r = CHECK_GOOD st' \<Longrightarrow> loop_run step asize st st'"
proof (induction arbitrary: st' rule: check_members_induct)
  case (turn check_members step asize st r)
  then show ?case
    by (cases "step st") (auto split: if_splits intro: loop_run.intros)
qed

text \<open>A turn that changes nothing is never left.\<close>

lemma check_members_stuck:
  assumes "step st = CHECK_GOOD st" and "al_offset st < asize"
  shows "check_members step asize st = None"
proof -
  have "s t \<noteq> CHECK_GOOD t \<or> a \<le> al_offset t" if "check_members s a t = Some r" for s a t r
    using that by (induction rule: check_members_induct) (auto split: if_splits)
  then show ?thesis using assms by (cases "check_members step asize st") force+
qed

text \<open>Turns that move forward end.\<close>

lemma check_members_returns:
  assumes "\<And>st st'. P (al_offset st) \<Longrightarrow> al_offset st < asize \<Longrightarrow> step st = CHECK_GOOD st' \<Longrightarrow>
      al_offset st < al_offset st' \<and> P (al_offset st')"
    and "P (al_offset st)"
  shows "check_members step asize st \<noteq> None"
  using assms(2)
proof (induction "2 ^ 32 - unat (al_offset st)" arbitrary: st rule: less_induct)
  case less
  show ?case
  proof (cases "al_offset st < asize \<and> (\<exists>st'. step st = CHECK_GOOD st')")
    case True
    then obtain st' where st': "al_offset st < asize" "step st = CHECK_GOOD st'" by blast
    then have "unat (al_offset st) < unat (al_offset st')"
      using assms(1) [of st st'] less.prems by (simp add: word_less_nat_alt)
    moreover have "unat (al_offset st') < 2 ^ 32"
      using unsigned_less [of "al_offset st'", where ?'a = nat] by simp
    moreover have "P (al_offset st')" using assms(1) less.prems st' by blast
    ultimately have "check_members step asize st' \<noteq> None" using less by simp
    then show ?thesis using st' by (subst check_members.simps) simp
  next
    case False
    then show ?thesis by (subst check_members.simps) (auto split: check.splits)
  qed
qed

section \<open>Where the members are\<close>

lemma round_up_even: "round_up v 2 = v + (v AND 1)" for v :: u32
proof -
  have *: "w AND NOT 1 = w - (w AND 1)" for w :: u32
  proof -
    have "w AND NOT (mask 1) = push_bit 1 (drop_bit 1 w)" by (rule and_not_mask)
    moreover have "w AND mask 1 = take_bit 1 w" by (simp only: take_bit_eq_mask)
    ultimately show ?thesis using bits_ident [of 1 w] by (simp add: mask_eq_exp_minus_1 algebra_simps)
  qed
  have "round_up v 2 = (v + 1) AND NOT 1" by (simp add: round_up_def)
  also have "\<dots> = (v + 1) - ((v + 1) AND 1)" by (rule *)
  finally show ?thesis by (simp add: and_one_eq mod_2_eq_odd)
qed

text \<open>
  The length of the name behind the header, the offset of the contents and of the next member.  The
  name is added to the offset and taken off the size, so it only decides whether there is a byte to
  fill up with.
\<close>

definition name_length :: "mem \<Rightarrow> nat \<Rightarrow> u32 \<Rightarrow> u32 option" where
  "name_length m addr off =
     map_option
       (\<lambda>name. if take 3 name = AR_EFMT1 then fst (strtoul (drop 3 name @ [0])) else 0)
       (ar_name_at m (addr + unat off))"

definition contents_of :: "mem \<Rightarrow> nat \<Rightarrow> u32 \<Rightarrow> u32 option" where
  "contents_of m addr off = map_option (\<lambda>n. off + 60 + n) (name_length m addr off)"

definition next_member :: "mem \<Rightarrow> nat \<Rightarrow> u32 \<Rightarrow> u32 option" where
  "next_member m addr off =
     (case (name_length m addr off, ar_size_at m (addr + unat off)) of
        (Some n, Some (msize, _)) \<Rightarrow> Some (off + 60 + msize + ((msize - n) AND 1))
      | _ \<Rightarrow> None)"

lemma strncmp_EFMT1: "length name = 16 \<Longrightarrow> strncmp_equal name AR_EFMT1 3 \<longleftrightarrow> take 3 name = AR_EFMT1"
  by (cases name; cases "tl name"; cases "tl (tl name)")
    (auto simp: AR_EFMT1_def numeral_3_eq_3)

lemma ar_name_length: "ar_name_at m off = Some name \<Longrightarrow> length name = 16"
  by (auto simp: ar_name_at_def dest: get_bytes_length)

lemma check_extend_format_1_GOOD:
  "check_extend_format_1 name left errno = CHECK_GOOD (n, errno') \<Longrightarrow> n = fst (strtoul (drop 3 name @ [0]))"
  by (auto simp: check_extend_format_1_def Let_def split: if_splits prod.splits)

lemma take_member_header_frame:
  assumes "take_member_header h m at left magic st = Some (magic', st')"
  shows "al_offset st' = al_offset st" and "al_cputype st' = al_cputype st"
    and "al_reports st' = al_reports st"
  using assms unfolding take_member_header_def by (simp_all only: split: if_splits) (auto split: if_splits)

text \<open>What a turn does to the cputype in common and to the reports.\<close>

definition goes_on :: "archive_loop \<Rightarrow> archive_loop \<Rightarrow> bool" where
  "goes_on st st' \<longleftrightarrow>
     (al_reports st' = [] \<longrightarrow> al_reports st = []) \<and>
     (al_cputype st \<noteq> 0 \<longrightarrow> al_cputype st' = al_cputype st)"

lemma goes_on_refl [simp]: "goes_on st st"
  by (simp add: goes_on_def)

lemma goes_on_trans: "goes_on st st1 \<Longrightarrow> goes_on st1 st' \<Longrightarrow> goes_on st st'"
  by (auto simp: goes_on_def)

lemma match_member_frame:
  "al_offset (match_member magic st) = al_offset st" "goes_on st (match_member magic st)"
  by (simp_all add: match_member_def match_cputype_def goes_on_def)

lemma check_member_contents_cases:
  assumes "check_member_contents h m at left fat st = CHECK_GOOD st'"
  obtains "left \<le> 4" "st' = st"
  | magic where "left > 4" "load word_codec h m at = Some magic"
      "magic = (if h = BIG_ENDIAN_BYTE_SEX then FAT_MAGIC else SWAP_INT FAT_MAGIC)" "st' = st"
  | magic magic' st1 where "left > 4" "load word_codec h m at = Some magic"
      "take_member_header h m at left magic st = Some (magic', st1)" "st' = match_member magic' st1"
proof (cases "left > 4")
  case True
  then obtain magic where magic: "load word_codec h m at = Some magic"
    using assms by (auto simp: check_member_contents_def and_then_GOOD_iff)
  show ?thesis
  proof (cases "magic = (if h = BIG_ENDIAN_BYTE_SEX then FAT_MAGIC else SWAP_INT FAT_MAGIC)")
    case fat: True
    have "st' = st" using assms True magic fat
      by (simp add: check_member_contents_def or_fault_def split: if_splits)
    then show ?thesis using that(2) True magic fat by blast
  next
    case False
    then show ?thesis using assms True magic that(3)
      by (auto simp: check_member_contents_def or_fault_def and_then_GOOD_iff split: option.splits)
  qed
qed (use assms that(1) in \<open>auto simp: check_member_contents_def\<close>)

lemma match_after_header:
  assumes "take_member_header h m at left magic st = Some (magic', st1)"
  shows "al_offset (match_member magic' st1) = al_offset st" and "goes_on st (match_member magic' st1)"
proof -
  have "goes_on st st1" using take_member_header_frame [OF assms] by (simp add: goes_on_def)
  then show "goes_on st (match_member magic' st1)" by (rule goes_on_trans [OF _ match_member_frame(2)])
  show "al_offset (match_member magic' st1) = al_offset st"
    by (simp add: match_member_frame take_member_header_frame [OF assms])
qed

lemma check_member_contents_frame:
  assumes "check_member_contents h m at left fat st = CHECK_GOOD st'"
  shows "al_offset st' = al_offset st" and "goes_on st st'"
  by (rule check_member_contents_cases [OF assms]; simp add: match_after_header)+

lemma check_member_GOOD:
  assumes "check_member h m addr asize fat st = CHECK_GOOD st'"
  obtains contents off' errno st2 where
    "contents_of m addr (al_offset st) = Some contents" "next_member m addr (al_offset st) = Some off'"
    "check_member_contents h m (addr + unat contents) (asize - contents) fat (st\<lparr>al_errno := errno\<rparr>) =
       CHECK_GOOD st2"
    "st' = st2\<lparr>al_offset := off'\<rparr>"
proof -
  obtain name s ov where name: "ar_name_at m (addr + unat (al_offset st)) = Some name"
    and size: "ar_size_at m (addr + unat (al_offset st)) = Some (s, ov)"
    using assms by (auto simp: check_member_def and_then_GOOD_iff)
  define n where "n = (if take 3 name = AR_EFMT1 then fst (strtoul (drop 3 name @ [0])) else 0)"
  obtain errno st2 where *:
    "check_member_contents h m (addr + unat (al_offset st + 60 + n)) (asize - (al_offset st + 60 + n)) fat
       (st\<lparr>al_errno := errno\<rparr>) = CHECK_GOOD st2"
    "st' = st2\<lparr>al_offset := al_offset st + 60 + n + round_up (s - n) 2\<rparr>"
  proof (cases "take 3 name = AR_EFMT1")
    case True
    then show thesis using assms that
      by (auto simp: check_member_def and_then_GOOD_iff Let_def name size n_def
          strncmp_EFMT1 [OF ar_name_length [OF name]] dest!: check_extend_format_1_GOOD)
  next
    case False
    then show thesis using assms that
      by (auto simp: check_member_def and_then_GOOD_iff Let_def name size n_def
          strncmp_EFMT1 [OF ar_name_length [OF name]])
  qed
  show thesis
    by (rule that [OF _ _ *(1)])
      (auto simp: *(2) name size contents_of_def next_member_def name_length_def round_up_even n_def algebra_simps)
qed

section \<open>The object file of a member\<close>

text \<open>The cputype of the object file that a reader of byte order \<open>s\<close> sees in a member.\<close>

definition object_cputype :: "byte_sex \<Rightarrow> mem \<Rightarrow> nat \<Rightarrow> u32 \<Rightarrow> u32 \<Rightarrow> u32 option" where
  "object_cputype s m addr asize off =
     (case contents_of m addr off of
        None \<Rightarrow> None
      | Some contents \<Rightarrow>
          let at = addr + unat contents; left = asize - contents in
          if left \<ge> 28 \<and> map_option mh_magic (load mach_header_codec s m at) = Some MH_MAGIC
          then map_option mh_cputype (load mach_header_codec s m at)
          else if left \<ge> 32 \<and> map_option mh64_magic (load mach_header_64_codec s m at) = Some MH_MAGIC_64
          then map_option mh64_cputype (load mach_header_64_codec s m at)
          else None)"

lemma magics:
  "SWAP_INT MH_MAGIC = 0xcefaedfe" "SWAP_INT MH_MAGIC_64 = 0xcffaedfe" "SWAP_INT FAT_MAGIC = 0xbebafeca"
  by code_simp+

lemma header_magic:
  "load mach_header_codec h m at = Some mh \<Longrightarrow> load word_codec h m at = Some (mh_magic mh)"
  "load mach_header_64_codec h m at = Some mh64 \<Longrightarrow> load word_codec h m at = Some (mh64_magic mh64)"
  by (auto simp: load_def get_bytes_def size_of_def mach_header_codec_def mach_header_64_codec_def
      word_codec_def split: if_splits)

lemma decode_sex: "order_bytes s = order_bytes h \<Longrightarrow> decode s ks bs = decode h ks bs"
proof (induction ks arbitrary: bs)
  case (Cons k ks)
  then show ?case by (cases k) simp_all
qed simp

lemma load_sex_cases: "load C s m at = load C h m at \<or> load C s m at = load C (other_byte_sex h) m at"
proof -
  have "order_bytes s = order_bytes h \<or> order_bytes s = order_bytes (other_byte_sex h)"
    by (cases h; cases s) (simp_all add: other_byte_sex_def order_bytes_def fun_eq_iff)
  then show ?thesis using decode_sex [of s h] decode_sex [of s "other_byte_sex h"] by (auto simp: load_def)
qed

lemma magic_of_swap:
  "mh_magic (swap_mach_header z) = SWAP_INT (mh_magic z)"
  "mh64_magic (swap_mach_header_64 z64) = SWAP_INT (mh64_magic z64)"
  by (simp_all add: swap_mach_header_def swap_mach_header_64_def)

lemma SWAP_INT_eq_iff: "SWAP_INT v = w \<longleftrightarrow> v = SWAP_INT w"
  by (metis SWAP_INT_SWAP_INT)

lemma take_member_header_32:
  assumes mh: "load mach_header_codec s m at = Some mh" "mh_magic mh = MH_MAGIC"
    and magic: "load word_codec h m at = Some magic" and "left \<ge> 28"
  shows "take_member_header h m at left magic st = Some (MH_MAGIC, st\<lparr>al_mh := mh\<rparr>)"
  using load_sex_cases [of mach_header_codec s m at h]
proof
  assume "load mach_header_codec s m at = load mach_header_codec h m at"
  then have h: "load mach_header_codec h m at = Some mh" using mh by simp
  then have "magic = MH_MAGIC" using header_magic(1) [OF h] magic mh by simp
  then show ?thesis using assms(4) h by (simp add: take_member_header_def magics)
next
  assume "load mach_header_codec s m at = load mach_header_codec (other_byte_sex h) m at"
  then obtain z where z: "load mach_header_codec h m at = Some z" "swap_mach_header z = mh"
    using mh by (cases "load mach_header_codec h m at") (auto simp: mach_header.load_other_sex)
  have "SWAP_INT (mh_magic z) = MH_MAGIC" using mh(2) z(2) magic_of_swap(1) [of z] by argo
  then have "mh_magic z = SWAP_INT MH_MAGIC" by (rule SWAP_INT_eq_iff [THEN iffD1])
  then have "magic = SWAP_INT MH_MAGIC" using header_magic(1) [OF z(1)] magic by (simp only: option.inject)
  then show ?thesis using assms(4) z by (simp add: take_member_header_def magics)
qed

lemma take_member_header_64:
  assumes mh: "load mach_header_64_codec s m at = Some mh" "mh64_magic mh = MH_MAGIC_64"
    and magic: "load word_codec h m at = Some magic" and "left \<ge> 32"
  shows "take_member_header h m at left magic st = Some (MH_MAGIC_64, st\<lparr>al_mh64 := mh\<rparr>)"
  using load_sex_cases [of mach_header_64_codec s m at h]
proof
  assume "load mach_header_64_codec s m at = load mach_header_64_codec h m at"
  then have h: "load mach_header_64_codec h m at = Some mh" using mh by simp
  then have "magic = MH_MAGIC_64" using header_magic(2) [OF h] magic mh by simp
  then show ?thesis using assms(4) h by (simp add: take_member_header_def magics)
next
  assume "load mach_header_64_codec s m at = load mach_header_64_codec (other_byte_sex h) m at"
  then obtain z where z: "load mach_header_64_codec h m at = Some z" "swap_mach_header_64 z = mh"
    using mh by (cases "load mach_header_64_codec h m at") (auto simp: mach_header_64.load_other_sex)
  have "SWAP_INT (mh64_magic z) = MH_MAGIC_64" using mh(2) z(2) magic_of_swap(2) [of z] by argo
  then have "mh64_magic z = SWAP_INT MH_MAGIC_64" by (rule SWAP_INT_eq_iff [THEN iffD1])
  then have "magic = SWAP_INT MH_MAGIC_64" using header_magic(2) [OF z(1)] magic by (simp only: option.inject)
  then show ?thesis using assms(4) z by (simp add: take_member_header_def magics)
qed

lemma match_cputype_agrees:
  assumes "al_reports (match_cputype ct cs st) = []"
  shows "al_cputype (match_cputype ct cs st) = ct" and "al_cputype st = 0 \<or> al_cputype st = ct"
  using assms by (auto simp: match_cputype_def split: if_splits)

text \<open>An object file that does not match is reported.\<close>

lemma check_member_contents_object:
  assumes good: "check_member_contents h m (addr + unat contents) (asize - contents) fat st = CHECK_GOOD st'"
    and contents: "contents_of m addr off = Some contents"
    and ct: "object_cputype s m addr asize off = Some ct" and quiet: "al_reports st' = []"
  shows "al_cputype st' = ct \<and> (al_cputype st = 0 \<or> al_cputype st = ct)"
proof -
  let ?at = "addr + unat contents" and ?left = "asize - contents"
  obtain magic magic' st1 where hd: "?left > 4" "load word_codec h m ?at = Some magic"
    "take_member_header h m ?at ?left magic st = Some (magic', st1)"
    "magic' = MH_MAGIC \<and> mh_cputype (al_mh st1) = ct \<or>
     magic' = MH_MAGIC_64 \<and> mh64_cputype (al_mh64 st1) = ct"
  proof (cases "?left \<ge> 28 \<and> map_option mh_magic (load mach_header_codec s m ?at) = Some MH_MAGIC")
    case True
    then obtain mh where mh: "load mach_header_codec s m ?at = Some mh" "mh_magic mh = MH_MAGIC" by auto
    obtain magic where magic: "load word_codec h m ?at = Some magic"
      using load_bound [OF mh(1)] load_NoneD [of word_codec h m ?at] by force
    have "mh_cputype mh = ct" using ct contents True mh by (simp add: object_cputype_def)
    moreover have "?left > 4" using True by (auto intro: less_le_trans [of 4 28])
    ultimately show thesis
      using that take_member_header_32 [OF mh magic] True magic by auto
  next
    case False
    then have 64: "?left \<ge> 32"
      "map_option mh64_magic (load mach_header_64_codec s m ?at) = Some MH_MAGIC_64"
      "map_option mh64_cputype (load mach_header_64_codec s m ?at) = Some ct"
      using ct contents by (auto simp: object_cputype_def Let_def split: if_splits)
    then obtain mh where mh: "load mach_header_64_codec s m ?at = Some mh" "mh64_magic mh = MH_MAGIC_64"
      "mh64_cputype mh = ct" by auto
    obtain magic where magic: "load word_codec h m ?at = Some magic"
      using load_bound [OF mh(1)] load_NoneD [of word_codec h m ?at] by force
    have "?left > 4" using 64 by (auto intro: less_le_trans [of 4 32])
    then show thesis
      using that take_member_header_64 [OF mh(1,2) magic] 64 magic mh by auto
  qed
  show ?thesis
  proof (cases rule: check_member_contents_cases [OF good])
    case (2 magic)
    then have "take_member_header h m ?at ?left magic st = Some (magic, st)" and "magic \<noteq> MH_MAGIC"
      "magic \<noteq> MH_MAGIC_64"
      by (auto simp: take_member_header_def magics)
    then show ?thesis using hd 2 by auto
  next
    case 3
    then have "st' = match_cputype ct (if magic' = MH_MAGIC then mh_cpusubtype (al_mh st1)
        else mh64_cpusubtype (al_mh64 st1)) st1"
      using hd by (auto simp: match_member_def)
    then show ?thesis using match_cputype_agrees quiet take_member_header_frame(2) [OF hd(3)] by metis
  qed (use hd(1) in simp)
qed

section \<open>One cputype\<close>

text \<open>The members that are reached from an offset.\<close>

inductive member_from :: "mem \<Rightarrow> nat \<Rightarrow> u32 \<Rightarrow> u32 \<Rightarrow> u32 \<Rightarrow> bool" for m addr asize where
  here: "off < asize \<Longrightarrow> member_from m addr asize off off"
| later: "off < asize \<Longrightarrow> next_member m addr off = Some off1 \<Longrightarrow> member_from m addr asize off1 off2 \<Longrightarrow>
    member_from m addr asize off off2"

code_pred (modes: i \<Rightarrow> i \<Rightarrow> i \<Rightarrow> i \<Rightarrow> i \<Rightarrow> bool) member_from .

inductive_cases member_fromE: "member_from m addr asize off off'"

lemma loop_run_goes_on:
  "loop_run (check_member h m addr asize fat) asize st st' \<Longrightarrow> goes_on st st'"
proof (induction rule: loop_run.induct)
  case (turn st st1 st')
  then show ?case
    by (auto elim!: check_member_GOOD dest!: check_member_contents_frame(2) simp: goes_on_def)
qed simp

lemma loop_run_one_cputype:
  assumes "loop_run (check_member h m addr asize fat) asize st st'" and "al_reports st' = []"
    and "member_from m addr asize (al_offset st) off" and "object_cputype s m addr asize off = Some ct"
  shows "ct = al_cputype st' \<or> ct = 0"
  using assms
proof (induction rule: loop_run.induct)
  case (finished st)
  then show ?case by (auto elim: member_fromE)
next
  case (turn st st1 st')
  obtain contents off' errno st2 where *:
    "contents_of m addr (al_offset st) = Some contents" "next_member m addr (al_offset st) = Some off'"
    "check_member_contents h m (addr + unat contents) (asize - contents) fat (st\<lparr>al_errno := errno\<rparr>) =
       CHECK_GOOD st2"
    "st1 = st2\<lparr>al_offset := off'\<rparr>"
    using check_member_GOOD [OF turn.hyps(2)] by metis
  have rest: "goes_on st1 st'" by (rule loop_run_goes_on [OF turn.hyps(3)])
  from turn.prems(2) show ?case
  proof (rule member_fromE)
    assume "off = al_offset st"
    then have "al_cputype st2 = ct"
      using check_member_contents_object [OF *(3,1)] turn.prems rest * by (auto simp: goes_on_def)
    then show ?thesis using rest * by (auto simp: goes_on_def)
  next
    fix off1
    assume "next_member m addr (al_offset st) = Some off1" "member_from m addr asize off1 off"
    then show ?thesis using turn * by simp
  qed
qed

text \<open>
  When \<^verbatim>\<open>check_archive\<close> accepts an archive and prints nothing, all object files among its
  members, in whatever byte order, are for the cputype it reports (or for cputype 0).
\<close>

lemma check_archive_runs:
  assumes "check_archive h mh mh64 errno fat ofile = Some (CHECK_GOOD (ofile', reports))"
    and "archive_range ofile = Some (addr, asize, cputype, cpusubtype)" and "asize \<noteq> 8"
  obtains st where "loop_run (check_member h (file_addr ofile) addr asize
      (fat \<and> file_type ofile = OFILE_ARCHIVE)) asize (start_loop mh mh64 errno cputype cpusubtype) st"
    "archive_cputype ofile' = al_cputype st" "reports = al_reports st"
  using assms
  by (force simp: check_archive_def and_then_GOOD_iff dest: check_members_loop_run
      split: option.splits if_splits)


section \<open>The loop ends\<close>

lemma next_member_forward:
  assumes "next_member m addr off = Some off'" and "ar_size_at m (addr + unat off) = Some (msize, ov)"
    and "unat off + unat msize + 61 < 2 ^ 32"
  shows "off < off'"
proof -
  obtain n where off': "off' = off + 60 + msize + ((msize - n) AND 1)"
    using assms(1,2) by (auto simp: next_member_def split: option.splits)
  have "unat ((msize - n) AND 1) \<le> 1" by (simp add: and_one_eq mod_2_eq_odd)
  then have "unat off' = unat off + 60 + unat msize + unat ((msize - n) AND 1)"
    unfolding off' using assms(3) by (simp add: unat_word_ariths)
  then show ?thesis by (simp add: word_less_nat_alt)
qed

text \<open>
  C30: check_archive returns unless the archive has a member whose size makes the offset of the
  next one pass 2^32.\<close>

theorem check_archive_returns:
  assumes "archive_range ofile = Some (addr, asize, cputype, cpusubtype)"
    and "\<And>off msize ov. member_from (file_addr ofile) addr asize 8 off \<Longrightarrow>
      ar_size_at (file_addr ofile) (addr + unat off) = Some (msize, ov) \<Longrightarrow> unat off + unat msize + 61 < 2 ^ 32"
  shows "check_archive h mh mh64 errno fat ofile \<noteq> None"
proof -
  let ?step = "check_member h (file_addr ofile) addr asize (fat \<and> file_type ofile = OFILE_ARCHIVE)"
  let ?m = "file_addr ofile"
  let ?P = "\<lambda>off. \<forall>off'. member_from ?m addr asize off off' \<longrightarrow> member_from ?m addr asize 8 off'"
  have "al_offset st < al_offset st' \<and> ?P (al_offset st')"
    if reached: "?P (al_offset st)" and before: "al_offset st < asize" and turn: "?step st = CHECK_GOOD st'" for st st'
  proof
    obtain off' st2 where off': "next_member ?m addr (al_offset st) = Some off'"
      and st': "st' = st2\<lparr>al_offset := off'\<rparr>"
      by (rule check_member_GOOD [OF turn]) blast
    obtain msize ov where size: "ar_size_at ?m (addr + unat (al_offset st)) = Some (msize, ov)"
      using off' by (auto simp: next_member_def split: option.splits)
    have "unat (al_offset st) + unat msize + 61 < 2 ^ 32"
      using assms(2) [OF _ size] reached before by (auto intro: here)
    then show "al_offset st < al_offset st'" using next_member_forward [OF off' size] st' by simp
    show "?P (al_offset st')" using reached later [OF before off'] st' by auto
  qed
  then have "check_members ?step asize st \<noteq> None" if "?P (al_offset st)" for st
    using that by (rule check_members_returns [where P = ?P])
  then have "check_members ?step asize (start_loop mh mh64 errno cputype cpusubtype) \<noteq> None"
    by (simp add: start_loop_def)
  then show ?thesis
    by (auto simp: check_archive_def assms(1) split: option.splits simp del: not_None_eq)
qed

section \<open>Archives that are accepted, and one the loop never leaves\<close>

text \<open>A member with a name, a size field and contents, and an archive of two object files.\<close>

definition ar_member :: "c_string \<Rightarrow> c_string \<Rightarrow> mem \<Rightarrow> mem" where
  "ar_member name digits contents =
     take 16 (name @ replicate 16 32) @ replicate 32 32 @ take 10 (digits @ replicate 10 32) @
     [96, 10] @ contents"

definition object_header :: "byte_sex \<Rightarrow> u32 \<Rightarrow> mem" where
  "object_header s cputype =
     encode s [F32 MH_MAGIC, F32 cputype, F32 0, F32 1, F32 0, F32 0, F32 0]"

definition archive_file :: "mem \<Rightarrow> archive_ofile" where
  "archive_file m =
     \<lparr>file_addr = m, file_size = of_nat (length m), file_type = OFILE_ARCHIVE,
      fat_header_of = \<lparr>fh_magic = 0, fh_nfat_arch = 0\<rparr>,
      fat_archs = [], narch = 0, member_offset = 0, member_size = 0, object_addr = [],
      object_size = 0, object_byte_sex = UNKNOWN_BYTE_SEX, mh32 = True, headers_swapped = False,
      mh_cputype_of = 0, mh_cpusubtype_of = 0, mh_filetype_of = 0,
      archive_cputype = 0, archive_cpusubtype = 0\<rparr>"

definition two_objects :: mem where
  "two_objects =
     ARMAG @ ar_member [97] [50, 56] (object_header BIG_ENDIAN_BYTE_SEX 18) @
     ar_member [35, 49, 47, 52] [51, 50] ([98, 0, 0, 0] @ object_header LITTLE_ENDIAN_BYTE_SEX 18)"

definition no_header :: mach_header where "no_header = build mach_header_codec (replicate 7 (F32 0))"
definition no_header_64 :: mach_header_64 where
  "no_header_64 = build mach_header_64_codec (replicate 8 (F32 0))"

definition check_two_objects :: "(archive_error, archive_ofile \<times> u32 list) check option" where
  "check_two_objects =
     check_archive LITTLE_ENDIAN_BYTE_SEX no_header no_header_64 False False (archive_file two_objects)"

definition two_objects_checked :: archive_ofile where
  "two_objects_checked = (archive_file two_objects)\<lparr>archive_cputype := 18\<rparr>"

lemma two_objects_accepted: "check_two_objects = Some (CHECK_GOOD (two_objects_checked, []))"
  by code_simp

lemma two_objects_members:
  "next_member two_objects 0 8 = Some 96"
  "object_cputype LITTLE_ENDIAN_BYTE_SEX two_objects 0 188 96 = Some 18"
  "archive_range (archive_file two_objects) = Some (0, 188, 0, 0)"
  "file_addr (archive_file two_objects) = two_objects"
  by code_simp+

lemma two_objects_second: "member_from two_objects 0 188 8 96"
  by (rule later [OF _ two_objects_members(1) here]) simp_all


text \<open>An archive with one empty member, whose size is a parameter.\<close>

definition empty_member :: "c_string \<Rightarrow> mem" where
  "empty_member digits = ARMAG @ ar_member [97] digits []"

definition check_empty_member :: "c_string \<Rightarrow> (archive_error, archive_ofile \<times> u32 list) check option" where
  "check_empty_member digits =
     check_archive LITTLE_ENDIAN_BYTE_SEX no_header no_header_64 False False
       (archive_file (empty_member digits))"

lemma empty_member_ok:
  "ar_size_at (empty_member [48]) 8 = Some (0, False)" "next_member (empty_member [48]) 0 8 = Some 68"
  "archive_range (archive_file (empty_member [48])) = Some (0, 68, 0, 0)"
  "file_addr (archive_file (empty_member [48])) = empty_member [48]"
  by code_simp+

lemma empty_member_only: "member_from (empty_member [48]) 0 68 8 off \<Longrightarrow> off = 8"
  by (auto elim!: member_fromE [of _ _ _ 8] member_fromE [of _ _ _ 68] simp: empty_member_ok(2))

theorem check_archive_returns_witness: "check_empty_member [48] \<noteq> None"
  unfolding check_empty_member_def
  by (rule check_archive_returns [OF empty_member_ok(3)])
    (auto simp: empty_member_ok dest!: empty_member_only)

text \<open>
  C31: A member whose size field is 2^32 - 60 leads back to itself: check_archive does not return.\<close>

theorem check_archive_diverges: "check_empty_member (decimal (2 ^ 32 - 60)) = None"
proof -
  have d: "decimal (2 ^ 32 - 60) = [52, 50, 57, 52, 57, 54, 55, 50, 51, 54]"
    by (simp add: decimal.simps)
  let ?m = "empty_member [52, 50, 57, 52, 57, 54, 55, 50, 51, 54]"
  let ?st = "start_loop no_header no_header_64 False 0 0"
  have "check_member LITTLE_ENDIAN_BYTE_SEX ?m 0 68 False ?st = CHECK_GOOD ?st"
    by code_simp
  moreover have "al_offset ?st < 68" by (simp add: start_loop_def)
  ultimately have "check_members (check_member LITTLE_ENDIAN_BYTE_SEX ?m 0 68 False) 68 ?st = None"
    by (rule check_members_stuck)
  moreover have "archive_range (archive_file ?m) = Some (0, 68, 0, 0)" "get_bytes ?m 0 8 = Some ARMAG"
    "file_addr (archive_file ?m) = ?m"
    by code_simp+
  ultimately show ?thesis unfolding d check_empty_member_def by (simp add: check_archive_def)
qed

section \<open>The table of contents\<close>

lemma cigams: "SWAP_INT 0xcefaedfe = MH_MAGIC" "SWAP_INT 0xcffaedfe = MH_MAGIC_64"
  by code_simp+

lemma load_word_big:
  "load word_codec BIG_ENDIAN_BYTE_SEX m at = map_option SWAP_INT (load word_codec LITTLE_ENDIAN_BYTE_SEX m at)"
  using word32.load_other_sex [of LITTLE_ENDIAN_BYTE_SEX m at] by (simp add: other_byte_sex_def)

lemma toc_loop_host:
  "toc_loop BIG_ENDIAN_BYTE_SEX m stop p = toc_loop LITTLE_ENDIAN_BYTE_SEX m stop p"
proof (induction "LITTLE_ENDIAN_BYTE_SEX" m stop p rule: toc_loop.induct)
  case (1 m stop p)
  note unfold = toc_loop.simps [of BIG_ENDIAN_BYTE_SEX m stop p] toc_loop.simps [of LITTLE_ENDIAN_BYTE_SEX m stop p]
  show ?case
  proof (cases "p + 60 + 4 < stop")
    case True
    show ?thesis
    proof (cases "toc_name_size m p")
      case (Some n)
      show ?thesis
      proof (cases "load word_codec LITTLE_ENDIAN_BYTE_SEX m (p + 60 + unat n)")
        case (Some magic)
        have rest: "toc_loop BIG_ENDIAN_BYTE_SEX m stop (p + 60 + unat (round_up msize 2)) =
            toc_loop LITTLE_ENDIAN_BYTE_SEX m stop (p + 60 + unat (round_up msize 2))"
          if "ar_size_at m p = Some (msize, ov)"
            "\<not> (magic = MH_MAGIC \<or> magic = MH_MAGIC_64)"
            "\<not> (magic = SWAP_INT MH_MAGIC \<or> magic = SWAP_INT MH_MAGIC_64)" for msize ov
          using 1 [OF True \<open>toc_name_size m p = Some n\<close> Some that(2,3,1) refl] .
        have big: "load word_codec BIG_ENDIAN_BYTE_SEX m (p + 60 + unat n) = Some (SWAP_INT magic)"
          by (simp add: load_word_big Some)
        note step = unfold True \<open>toc_name_size m p = Some n\<close> Some big get_host_byte_sex_is_host
        show ?thesis
        proof (cases "magic \<in> {MH_MAGIC, MH_MAGIC_64, SWAP_INT MH_MAGIC, SWAP_INT MH_MAGIC_64}")
          case True
          then show ?thesis by (elim insertE; simp add: step magics cigams)
        next
          case False
          then have "SWAP_INT magic \<notin> {MH_MAGIC, MH_MAGIC_64, SWAP_INT MH_MAGIC, SWAP_INT MH_MAGIC_64}"
            by (auto simp del: insert_iff simp: SWAP_INT_eq_iff dest!: insertE)
          then show ?thesis using False rest
            by (cases "ar_size_at m p") (auto simp: step)
        qed
      qed (simp add: unfold True \<open>toc_name_size m p = Some n\<close> load_word_big)
    qed (simp add: unfold)
  qed (simp add: unfold)
qed

text \<open>
  The byte order that get_toc_byte_sex guesses does not depend on the byte order of the host.\<close>

theorem get_toc_byte_sex_host:
  "get_toc_byte_sex BIG_ENDIAN_BYTE_SEX m addr sz = get_toc_byte_sex LITTLE_ENDIAN_BYTE_SEX m addr sz"
  by (simp add: get_toc_byte_sex_def toc_loop_host split: option.split prod.split)

end
