(* ===== verification/FineReloc.thy ===== *)
theory FineReloc
  imports CString Version
begin

text \<open>
  Fine relocation maps of the linker, \<^verbatim>\<open>ld/objects.c\<close> and \<^verbatim>\<open>ld/sections.c\<close>: when the items of an input
  section (literals, stubs, blocks of code) are placed one by one, a map of entries says for each item
  where it was in the input file and where it is in the output file.  The map is sorted by input
  offset and searched by bisection.
\<close>

section \<open>The data\<close>

text \<open>The fields the modelled code uses: bit-fields of one bit are truth values.\<close>

record fine_reloc =
  use_contents :: bool
  live :: bool
  input_offset :: u32
  output_offset :: u32

text \<open>
  A section of the output file: what is in its header, and the order file that is mapped for it.
  \<open>order_size\<close> is the size of the file, the mapping may go on behind it.
\<close>

record merged_section =
  ms_size :: u32
  ms_align :: u32
  ms_offset :: u32
  ms_flags :: u32
  order_filename :: bool
  order_addr :: mem
  order_size :: nat

record section_map =
  sm_flags :: u32
  output_section :: nat
  fine_relocs :: "fine_reloc list"

abbreviation SECTION_TYPE :: u32 where "SECTION_TYPE \<equiv> 0xff"
abbreviation S_NON_LAZY_SYMBOL_POINTERS :: u32 where "S_NON_LAZY_SYMBOL_POINTERS \<equiv> 6"
abbreviation S_LAZY_SYMBOL_POINTERS :: u32 where "S_LAZY_SYMBOL_POINTERS \<equiv> 7"
abbreviation S_SYMBOL_STUBS :: u32 where "S_SYMBOL_STUBS \<equiv> 8"
abbreviation S_COALESCED :: u32 where "S_COALESCED \<equiv> 11"

section \<open>Bisection\<close>

text \<open>
  The variables of the loop are \<^verbatim>\<open>int\<close>s; there are less than \<open>2 ^ 30\<close> entries, so they do not overflow.
  The difference of two offsets is taken as unsigned and looked at as signed.  The result is the index
  of an entry; an empty map ends the program.
\<close>

function search_entries :: "fine_reloc list \<Rightarrow> u32 \<Rightarrow> int \<Rightarrow> int \<Rightarrow> int \<Rightarrow> int" where
  "search_entries frs off l u m =
     (if l \<le> u then
        let m = (l + u) div 2; r = sint (off - input_offset (frs ! nat m))
        in if r = 0 then m
           else if r < 0 then search_entries frs off l (m - 1) m
           else search_entries frs off (m + 1) u m
      else if m = 0 \<or> off > input_offset (frs ! nat m) then m
      else m - 1)"
  by pat_completeness auto

termination
  by (relation "measure (\<lambda>(frs, off, l, u, m). nat (u - l + 1))") auto

declare search_entries.simps [simp del]

definition fine_reloc_for_input_offset :: "section_map \<Rightarrow> u32 \<Rightarrow> nat option" where
  "fine_reloc_for_input_offset sm off =
     (if fine_relocs sm = [] then None
      else Some (nat (search_entries (fine_relocs sm) off 0 (int (length (fine_relocs sm)) - 1) 0)))"

text \<open>The output offset of a byte of the section; \<open>size\<close> is the size of the output section.\<close>

definition of_indirect_type :: "section_map \<Rightarrow> bool" where
  "of_indirect_type sm \<longleftrightarrow>
     sm_flags sm AND SECTION_TYPE \<in>
       {S_LAZY_SYMBOL_POINTERS, S_NON_LAZY_SYMBOL_POINTERS, S_SYMBOL_STUBS, S_COALESCED}"

definition fine_reloc_output_offset :: "bool \<Rightarrow> u32 \<Rightarrow> section_map \<Rightarrow> u32 \<Rightarrow> u32 option" where
  "fine_reloc_output_offset dead_strip sz sm off =
     (case fine_reloc_for_input_offset sm off of
        None \<Rightarrow> None
      | Some i \<Rightarrow>
          let fr = fine_relocs sm ! i
          in if of_indirect_type sm \<and> \<not> use_contents fr \<or> dead_strip \<and> \<not> live fr
             then Some (sz + off - input_offset fr)
             else Some (output_offset fr + off - input_offset fr))"

definition fine_reloc_offset_in_output :: "bool \<Rightarrow> section_map \<Rightarrow> u32 \<Rightarrow> bool option" where
  "fine_reloc_offset_in_output dead_strip sm off =
     (case fine_reloc_for_input_offset sm off of
        None \<Rightarrow> None
      | Some i \<Rightarrow>
          let fr = fine_relocs sm ! i
          in if dead_strip
             then (if of_indirect_type sm \<and> \<not> use_contents fr then Some False else Some (live fr))
             else Some (use_contents fr))"

definition fine_reloc_offset_in_output_for_output_offset :: "u32 \<Rightarrow> section_map \<Rightarrow> u32 \<Rightarrow> bool option" where
  "fine_reloc_offset_in_output_for_output_offset sz sm off =
     (if fine_relocs sm = [] then None else Some (\<not> off \<ge> sz))"

section \<open>Live literals and alignment\<close>

text \<open>
  The objects that are linked; an object that is the base file, a library, a bundle's loader or the
  dynamic linker has no sections in the output.
\<close>

record object_file =
  is_base_obj :: bool
  is_dylib :: bool
  is_bundle_loader :: bool
  is_dylinker :: bool
  section_maps :: "section_map list"

definition skipped_object :: "object_file \<Rightarrow> bool" where
  "skipped_object obj \<longleftrightarrow> is_base_obj obj \<or> is_dylib obj \<or> is_bundle_loader obj \<or> is_dylinker obj"

definition is_literal_output_offset_live :: "object_file list \<Rightarrow> nat \<Rightarrow> u32 \<Rightarrow> bool" where
  "is_literal_output_offset_live objects ms off =
     list_ex
       (\<lambda>obj. \<not> skipped_object obj \<and>
          (case List.find (\<lambda>sm. output_section sm = ms) (section_maps obj) of
             None \<Rightarrow> False
           | Some sm \<Rightarrow> list_ex (\<lambda>fr. output_offset fr = off \<and> live fr) (fine_relocs sm)))
       objects"

definition align_to_input_mod :: "u32 \<Rightarrow> u32 \<Rightarrow> nat \<Rightarrow> u32" where
  "align_to_input_mod output input align =
     (let output_mod = output mod push_bit align 1; input_mod = input mod push_bit align 1
      in if output_mod \<le> input_mod then output + (input_mod - output_mod)
         else round_up output (push_bit align 1) + input_mod)"

section \<open>The search is right\<close>

text \<open>Entries sorted by their input offsets, which are small enough to be compared by difference.\<close>

definition sorted_entries :: "fine_reloc list \<Rightarrow> bool" where
  "sorted_entries frs \<longleftrightarrow>
     sorted_wrt (<) (map input_offset frs) \<and> list_all (\<lambda>fr. input_offset fr < 0x80000000) frs"

lemma sint_difference:
  fixes v w :: u32
  assumes "v < 0x80000000" and "w < 0x80000000"
  shows "sint (v - w) = uint v - uint w"
proof -
  have v: "uint v < 2147483648" "0 \<le> uint v" and w: "uint w < 2147483648" "0 \<le> uint w"
    using assms by (simp_all add: word_less_def)
  then have "- 2147483648 \<le> uint v - uint w" "uint v - uint w < 2147483648" by linarith+
  note bounds = this
  have "uint (v - w) = take_bit 32 (uint v - uint w)" by (simp add: uint_word_ariths take_bit_eq_mod)
  then have "sint (v - w) = signed_take_bit 31 (uint v - uint w)"
    by (simp add: sint_uint signed_take_bit_take_bit)
  also have "\<dots> = uint v - uint w"
    by (rule signed_take_bit_int_eq_self) (use bounds in simp_all)
  finally show ?thesis .
qed


text \<open>
  The loop: entries before \<open>l\<close> are before the offset, entries after \<open>u\<close> behind it, and \<open>m\<close>, once it was
  looked at, is next to what is left.
\<close>

definition search_window :: "fine_reloc list \<Rightarrow> u32 \<Rightarrow> int \<Rightarrow> int \<Rightarrow> int \<Rightarrow> bool" where
  "search_window frs off l u m \<longleftrightarrow>
     0 \<le> l \<and> u < int (length frs) \<and> l \<le> u + 1 \<and>
     (\<forall>j < length frs. (int j < l \<longrightarrow> input_offset (frs ! j) < off) \<and>
        (u < int j \<longrightarrow> off < input_offset (frs ! j))) \<and>
     (l \<le> u \<or> m = u \<and> 0 \<le> m \<or> m = u + 1 \<and> m < int (length frs))"

lemma entries_mono:
  "sorted_entries frs \<Longrightarrow> i < j \<Longrightarrow> j < length frs \<Longrightarrow> input_offset (frs ! i) < input_offset (frs ! j)"
  by (simp add: sorted_entries_def sorted_wrt_iff_nth_less)

definition predecessor :: "fine_reloc list \<Rightarrow> u32 \<Rightarrow> nat \<Rightarrow> bool" where
  "predecessor frs off i \<longleftrightarrow>
     i < length frs \<and> (input_offset (frs ! i) \<le> off \<or> i = 0) \<and>
     (\<forall>j. i < j \<and> j < length frs \<longrightarrow> off < input_offset (frs ! j))"

lemma search_entries_predecessor:
  assumes "sorted_entries frs" and "off < 0x80000000" and "search_window frs off l u m"
  shows "0 \<le> search_entries frs off l u m \<and> predecessor frs off (nat (search_entries frs off l u m))"
  using assms
proof (induction frs off l u m rule: search_entries.induct)
  case (1 frs off l u m)
  show ?case
  proof (cases "l \<le> u")
    case True
    define k where "k = (l + u) div 2"
    have k: "l \<le> k" "k \<le> u" "0 \<le> k" "nat k < length frs" and int_k: "int (nat k) = k"
      using True 1(5) by (auto simp: k_def search_window_def)
    have small: "input_offset (frs ! nat k) < 0x80000000"
      using 1(3) k by (simp add: sorted_entries_def list_all_length)
    note r = sint_difference [OF 1(4) small]
    note unfold = search_entries.simps [of frs off l u m]
    have before: "input_offset (frs ! j) < input_offset (frs ! nat k)" if "int j < k" "j < length frs" for j
      using entries_mono [OF 1(3), of j "nat k"] that k by simp
    have behind: "input_offset (frs ! nat k) < input_offset (frs ! j)" if "k < int j" "j < length frs" for j
      using entries_mono [OF 1(3), of "nat k" j] that k by simp
    have before_le: "input_offset (frs ! j) \<le> input_offset (frs ! nat k)"
      if "int j < k + 1" "j < length frs" for j
      using before [of j] that int_k by (cases "int j = k") (auto simp: less_imp_le)
    have behind_le: "input_offset (frs ! nat k) \<le> input_offset (frs ! j)"
      if "k - 1 < int j" "j < length frs" for j
      using behind [of j] that int_k by (cases "int j = k") (auto simp: less_imp_le)
    consider "off = input_offset (frs ! nat k)" | "off < input_offset (frs ! nat k)" | "input_offset (frs ! nat k) < off"
      by (meson linorder_neqE)
    then show ?thesis
    proof cases
      case 1
      then have "search_entries frs off l u m = k"
        unfolding unfold k_def [symmetric] using True by simp
      then show ?thesis using 1 k behind by (auto simp: predecessor_def nat_less_iff)
    next
      case 2
      then have r0: "sint (off - input_offset (frs ! nat k)) < 0" by (simp add: r word_less_def)
      have "search_window frs off l (k - 1) k"
        using "1.prems"(3) k 2 behind_le by (auto simp: search_window_def intro: less_le_trans)
      then show ?thesis using "1.IH"(1) [OF True k_def refl] r0 "1.prems" True
        by (simp add: unfold k_def [symmetric])
    next
      case 3
      then have r0: "0 < sint (off - input_offset (frs ! nat k))" by (simp add: r word_less_def)
      have "search_window frs off (k + 1) u k"
        using "1.prems"(3) k 3 before_le by (auto simp: search_window_def intro: le_less_trans)
      then show ?thesis using "1.IH"(2) [OF True k_def refl] r0 "1.prems" True
        by (simp add: unfold k_def [symmetric])
    qed
  next
    case False
    have "input_offset (frs ! nat u) < off" if "0 \<le> u"
    proof -
      have "nat u < length frs" "int (nat u) < l" using "1.prems"(3) False that by (auto simp: search_window_def)
      then show ?thesis using "1.prems"(3) by (simp add: search_window_def)
    qed
    then show ?thesis using "1.prems"(3) False
      by (auto simp: search_entries.simps [of frs off l u m] search_window_def predecessor_def less_imp_le)
  qed
qed

theorem fine_reloc_search:
  assumes "fine_relocs sm \<noteq> []" and "sorted_entries (fine_relocs sm)" and "off < 0x80000000"
  obtains i where "fine_reloc_for_input_offset sm off = Some i" "predecessor (fine_relocs sm) off i"
proof -
  have "search_window (fine_relocs sm) off 0 (int (length (fine_relocs sm)) - 1) 0"
    using assms(1) by (cases "fine_relocs sm") (simp_all add: search_window_def)
  then show ?thesis
    using search_entries_predecessor [OF assms(2,3)] assms(1) that
    by (simp add: fine_reloc_for_input_offset_def)
qed

text \<open>
  C28: The bisection finds the item of an offset: in a map sorted by input offset whose first item is
  not behind the offset, the entry found is the only one such that the entries up to it are those
  that do not start behind the offset.
\<close>

theorem fine_reloc_finds_item:
  assumes "sorted_entries (fine_relocs sm)" and "off < 0x80000000"
    and "fine_relocs sm \<noteq> []" and "input_offset (fine_relocs sm ! 0) \<le> off"
  shows "\<exists>i < length (fine_relocs sm). fine_reloc_for_input_offset sm off = Some i \<and>
    (\<forall>j < length (fine_relocs sm). input_offset (fine_relocs sm ! j) \<le> off \<longleftrightarrow> j \<le> i)"
proof -
  obtain i where i: "fine_reloc_for_input_offset sm off = Some i" "predecessor (fine_relocs sm) off i"
    by (rule fine_reloc_search [OF assms(3,1,2)])
  have "input_offset (fine_relocs sm ! i) \<le> off" using i(2) assms(4) by (auto simp: predecessor_def)
  then have "input_offset (fine_relocs sm ! j) \<le> off \<longleftrightarrow> j \<le> i" if "j < length (fine_relocs sm)" for j
    using i(2) that entries_mono [OF assms(1), of j i]
    by (cases j i rule: linorder_cases) (auto simp: predecessor_def not_le)
  then show ?thesis using i by (auto simp: predecessor_def)
qed

definition three_items :: section_map where
  "three_items = \<lparr>sm_flags = 2, output_section = 0,
     fine_relocs = map (\<lambda>(i, off). \<lparr>use_contents = True, live = True, input_offset = i, output_offset = off\<rparr>)
       [(0, 40), (6, 0), (9, 6)]\<rparr>"

lemma three_items_ok:
  "length (fine_relocs three_items) = 3" "sorted_entries (fine_relocs three_items)"
  "input_offset (fine_relocs three_items ! 0) \<le> 8"
  by code_simp+

theorem fine_reloc_finds_item_witness:
  "\<exists>i < 3. fine_reloc_for_input_offset three_items 8 = Some i \<and>
     (\<forall>j < 3. input_offset (fine_relocs three_items ! j) \<le> 8 \<longleftrightarrow> j \<le> i)"
  using fine_reloc_finds_item [OF three_items_ok(2) _ _ three_items_ok(3)] three_items_ok(1) by force

text \<open>
  \<^verbatim>\<open>align_to_input_mod\<close> gives the first offset from the current one on that is congruent to the
  input offset modulo the alignment.
\<close>

theorem align_to_input_mod_least:
  assumes "align < 31" and "unat output + 2 ^ (align + 1) < 2 ^ 32"
  shows "unat (align_to_input_mod output input align) mod 2 ^ align = unat input mod 2 ^ align \<and>
    unat output \<le> unat (align_to_input_mod output input align) \<and>
    unat (align_to_input_mod output input align) < unat output + 2 ^ align"
proof -
  define A :: nat where "A = 2 ^ align"
  define x where "x = unat output mod A"
  define y where "y = unat input mod A"
  have A: "0 < A" "A < 2 ^ 31" "unat (push_bit align 1 :: u32) = A"
  proof -
    show "0 < A" "A < 2 ^ 31"
      using assms(1) power_strict_increasing [of align 31 "2 :: nat"] by (simp_all add: A_def)
    moreover have "(push_bit align 1 :: u32) = of_nat A" by (simp add: A_def push_bit_eq_mult)
    ultimately show "unat (push_bit align 1 :: u32) = A" by (simp add: unat_of_nat)
  qed
  have xy: "x < A" "y < A" "unat (output mod push_bit align 1) = x" "unat (input mod push_bit align 1) = y"
    using A by (simp_all add: x_def y_def unat_mod_distrib)
  define q where "q = unat output div A"
  have o: "unat output = q * A + x" by (simp add: q_def x_def)
  have room: "unat output + 2 * A < 2 ^ 32" using assms(2) by (simp add: A_def)
  have result: "unat (align_to_input_mod output input align) = (if x \<le> y then q * A + y else (q + 1) * A + y)"
  proof (cases "x \<le> y")
    case True
    then have "unat (input mod push_bit align 1 - output mod push_bit align 1) = y - x"
      using xy by (simp add: unat_sub word_le_nat_alt)
    then have "unat (output + (input mod push_bit align 1 - output mod push_bit align 1)) = unat output + (y - x)"
      using room xy by (subst unat_add_lem [THEN iffD1]) simp_all
    then show ?thesis using True xy o by (simp add: align_to_input_mod_def word_le_nat_alt)
  next
    case False
    have "unat (round_up output (2 ^ align)) = (unat output + 2 ^ align - 1) div 2 ^ align * 2 ^ align"
      by (rule round_up_power) (use assms in simp_all)
    also have "\<dots> = (q + 1) * A"
    proof -
      have "unat output + A - 1 = (q + 1) * A + (x - 1)" using o False A(1) by simp
      moreover have "x - 1 < A" using xy by simp
      ultimately have "(unat output + A - 1) div A = q + 1"
        by (simp only: add.commute [of "(q + 1) * A"] div_mult_self1 [OF A(1) [THEN less_imp_neq, symmetric]]
            div_less add_0_right)
      then show ?thesis by (simp add: A_def)
    qed
    finally have "unat (round_up output (2 ^ align)) = (q + 1) * A" .
    moreover have "(q + 1) * A + y < 2 ^ 32"
    proof -
      have "(q + 1) * A = q * A + A" by simp
      then show ?thesis using room xy o by linarith
    qed
    ultimately have "unat (round_up output (2 ^ align) + input mod push_bit align 1) = (q + 1) * A + y"
      using xy unat_add_lem [of "round_up output (2 ^ align)" "input mod push_bit align 1"] by simp
    then show ?thesis using False xy by (simp add: align_to_input_mod_def word_le_nat_alt push_bit_eq_mult)
  qed
  have "(k * A + y) mod A = y" for k using xy by simp
  then show ?thesis using result o xy by (auto simp: A_def [symmetric] y_def [symmetric] algebra_simps)
qed

theorem align_to_input_mod_least_witness: "unat (align_to_input_mod 21 14 3) mod 8 = 6"
  using align_to_input_mod_least [of 3 21 14] by simp

end
