(* ===== verification/Literals.thy ===== *)
theory Literals
  imports FineReloc OFile
begin

text \<open>
  What the linker's routines for literal sections have in common, \<^verbatim>\<open>ld/4byte_literals.c\<close>,
  \<^verbatim>\<open>ld/8byte_literals.c\<close> and \<^verbatim>\<open>ld/cstring_literals.c\<close>: each looks a literal up, enters it when it is new, and
  records for every literal of an input section the offset it has in the output section.  The
  contract is the locale \<open>literal_pool\<close>: the literals of the output section are a list without
  duplicates, in the order they were first seen.
\<close>

section \<open>Pools of literals\<close>

definition enter :: "'l \<Rightarrow> 'l list \<Rightarrow> 'l list" where
  "enter x p = (if x \<in> set p then p else p @ [x])"

definition offset_of :: "('l \<Rightarrow> nat) \<Rightarrow> 'l list \<Rightarrow> 'l \<Rightarrow> nat" where
  "offset_of w p x = sum_list (map w (takeWhile (\<lambda>y. y \<noteq> x) p))"

definition extent :: "('l \<Rightarrow> nat) \<Rightarrow> 'l list \<Rightarrow> nat" where
  "extent w p = sum_list (map w p)"

lemma extent_simps [simp]:
  "extent w [] = 0" "extent w (x # p) = w x + extent w p" "extent w (p @ q) = extent w p + extent w q"
  by (simp_all add: extent_def)

lemma takeWhile_new: "x \<notin> set p \<Longrightarrow> takeWhile (\<lambda>y. y \<noteq> x) p = p"
  by (auto simp: takeWhile_eq_all_conv)

lemma offset_of_append:
  "offset_of w (p @ q) x = (if x \<in> set p then offset_of w p x else extent w p + offset_of w q x)"
  by (auto simp: offset_of_def extent_def takeWhile_append takeWhile_new)

lemma offset_of_Cons: "offset_of w (y # p) x = (if y = x then 0 else w y + offset_of w p x)"
  by (simp add: offset_of_def)

lemma offset_of_fits: "x \<in> set p \<Longrightarrow> offset_of w p x + w x \<le> extent w p"
  by (induction p) (auto simp: offset_of_Cons offset_of_def [of w "[]"])

lemma set_enter [simp]: "set (enter x p) = insert x (set p)"
  by (auto simp: enter_def)

lemma distinct_enter: "distinct p \<Longrightarrow> distinct (enter x p)"
  by (simp add: enter_def)

lemma offset_of_enter: "y \<in> set p \<Longrightarrow> offset_of w (enter x p) y = offset_of w p y"
  by (simp add: enter_def offset_of_append)

lemma extent_enter: "extent w (enter x p) \<le> extent w p + w x"
  by (simp add: enter_def)

definition enter_all :: "'l list \<Rightarrow> 'l list \<Rightarrow> 'l list" where
  "enter_all xs p = fold enter xs p"

lemma enter_all_simps [simp]:
  "enter_all [] p = p" "enter_all (x # xs) p = enter_all xs (enter x p)"
  by (simp_all add: enter_all_def)

lemma enter_all_append: "enter_all (xs @ ys) p = enter_all ys (enter_all xs p)"
  by (simp add: enter_all_def)

lemma set_enter_all [simp]: "set (enter_all xs p) = set xs \<union> set p"
  by (induction xs arbitrary: p) auto

lemma distinct_enter_all: "distinct p \<Longrightarrow> distinct (enter_all xs p)"
  by (induction xs arbitrary: p) (auto intro: distinct_enter)

lemma offset_of_enter_all: "y \<in> set p \<Longrightarrow> offset_of w (enter_all xs p) y = offset_of w p y"
  by (induction xs arbitrary: p) (auto simp: offset_of_enter)

lemma extent_enter_all: "extent w (enter_all xs p) \<le> extent w p + extent w xs"
proof (induction xs arbitrary: p)
  case (Cons x xs)
  show ?case using extent_enter [of w x p] Cons [of "enter x p"] by simp
qed simp

section \<open>Merging the literals of a section\<close>

text \<open>
  An input section is a list of literals with their offsets.  The first time the map is made; the
  second time, with \<^verbatim>\<open>-dead_strip\<close>, only the entries that are live are entered again.
\<close>

fun merge_new ::
  "('l \<Rightarrow> 's \<Rightarrow> u32 \<times> 's) \<Rightarrow> (u32 \<times> 'l) list \<Rightarrow> 's \<Rightarrow> fine_reloc list \<times> 's" where
  "merge_new lookup [] s = ([], s)"
| "merge_new lookup ((i, x) # items) s =
     (let (off, s) = lookup x s;
          (frs, s) = merge_new lookup items s
      in (\<lparr>use_contents = False, live = False, input_offset = i, output_offset = off\<rparr> # frs, s))"

fun merge_live ::
  "('l \<Rightarrow> 's \<Rightarrow> u32 \<times> 's) \<Rightarrow> fine_reloc list \<Rightarrow> (u32 \<times> 'l) list \<Rightarrow> 's \<Rightarrow> fine_reloc list \<times> 's" where
  "merge_live lookup (fr # frs) ((i, x) # items) s =
     (if live fr then
        let (off, s) = lookup x s;
            (frs, s) = merge_live lookup frs items s
        in (fr\<lparr>output_offset := off\<rparr> # frs, s)
      else
        let (frs, s) = merge_live lookup frs items s
        in (fr\<lparr>output_offset := 0\<rparr> # frs, s))"
| "merge_live lookup frs items s = ([], s)"

locale literal_pool =
  fixes lookup :: "'l \<Rightarrow> 's \<Rightarrow> u32 \<times> 's"
    and pool :: "'s \<Rightarrow> 'l list"
    and width :: "'l \<Rightarrow> nat"
    and inv :: "'s \<Rightarrow> bool"
    and valid :: "'l \<Rightarrow> bool"
  assumes pool_distinct: "inv s \<Longrightarrow> distinct (pool s)"
    and lookup_pool: "inv s \<Longrightarrow> valid x \<Longrightarrow> extent width (pool s) + width x < 2 ^ 32 \<Longrightarrow> lookup x s = (off, s') \<Longrightarrow>
      inv s' \<and> pool s' = enter x (pool s) \<and> unat off = offset_of width (pool s') x"
begin

lemma merge_new_pool:
  assumes "inv s" and "extent width (pool s) + extent width (map snd items) < 2 ^ 32"
    and "merge_new lookup items s = (frs, s')" and "list_all valid (map snd items)"
  shows "inv s' \<and> pool s' = enter_all (map snd items) (pool s) \<and>
    list_all2 (\<lambda>fr (i, x). input_offset fr = i \<and> unat (output_offset fr) = offset_of width (pool s') x) frs items"
  using assms
proof (induction items arbitrary: s frs)
  case (Cons item items)
  obtain i x where item: "item = (i, x)" by force
  obtain off s1 where 1: "lookup x s = (off, s1)" by force
  obtain frs1 where 2: "merge_new lookup items s1 = (frs1, s')"
    "frs = \<lparr>use_contents = False, live = False, input_offset = i, output_offset = off\<rparr> # frs1"
    using Cons.prems(3) by (auto simp: item 1 split: prod.splits)
  have s1: "inv s1" "pool s1 = enter x (pool s)" "unat off = offset_of width (pool s1) x"
    using lookup_pool [OF Cons.prems(1) _ _ 1] Cons.prems(2,4) by (simp_all add: item)
  have "extent width (pool s1) + extent width (map snd items) < 2 ^ 32"
    using Cons.prems(2) extent_enter [of width x "pool s"] by (simp add: item s1)
  moreover have "list_all valid (map snd items)" using Cons.prems(4) by simp
  ultimately have IH: "inv s' \<and> pool s' = enter_all (map snd items) (pool s1) \<and>
    list_all2 (\<lambda>fr (i, x). input_offset fr = i \<and> unat (output_offset fr) = offset_of width (pool s') x) frs1 items"
    using Cons.IH [OF s1(1) _ 2(1)] by blast
  then have "offset_of width (pool s') x = offset_of width (pool s1) x"
    by (simp add: offset_of_enter_all s1(2))
  with IH show ?case using s1 2 by (elim conjE) (simp add: item)
qed simp

lemma merge_live_pool:
  assumes "inv s" and "extent width (pool s) + extent width (map snd items) < 2 ^ 32"
    and "merge_live lookup frs items s = (frs', s')" and "length frs = length items"
    and "list_all valid (map snd items)"
  shows "inv s' \<and>
    pool s' = enter_all (map (snd \<circ> snd) (filter (live \<circ> fst) (zip frs items))) (pool s) \<and>
    list_all2 (\<lambda>fr' (fr, i, x). fr' = fr\<lparr>output_offset := output_offset fr'\<rparr> \<and>
      (if live fr then unat (output_offset fr') = offset_of width (pool s') x else output_offset fr' = 0))
      frs' (zip frs items)"
  using assms
proof (induction frs arbitrary: items s frs')
  case (Cons fr frs)
  then obtain i x items' where items: "items = (i, x) # items'" by (cases items) auto
  show ?case
  proof (cases "live fr")
    case True
    obtain off s1 where 1: "lookup x s = (off, s1)" by force
    obtain frs1 where 2: "merge_live lookup frs items' s1 = (frs1, s')" "frs' = fr\<lparr>output_offset := off\<rparr> # frs1"
      using Cons.prems(3) True by (auto simp: items 1 split: prod.splits)
    have s1: "inv s1" "pool s1 = enter x (pool s)" "unat off = offset_of width (pool s1) x"
      using lookup_pool [OF Cons.prems(1) _ _ 1] Cons.prems(2,5) by (simp_all add: items)
    have "extent width (pool s1) + extent width (map snd items') < 2 ^ 32"
      using Cons.prems(2) extent_enter [of width x "pool s"] by (simp add: items s1)
    note IH = Cons.IH [OF s1(1) this 2(1)]
    then have "offset_of width (pool s') x = offset_of width (pool s1) x"
      using Cons.prems(4,5) by (simp add: items offset_of_enter_all s1(2))
    with IH show ?thesis using s1 2 Cons.prems(4,5) True by (simp add: items)
  next
    case False
    then obtain frs1 where 2: "merge_live lookup frs items' s = (frs1, s')" "frs' = fr\<lparr>output_offset := 0\<rparr> # frs1"
      using Cons.prems(3) by (auto simp: items split: prod.splits)
    show ?thesis using Cons.IH [OF Cons.prems(1) _ 2(1)] 2 Cons.prems False by (simp add: items)
  qed
qed simp

text \<open>Entering literals for their own sake, as for an order file.\<close>

lemma fold_lookup_pool:
  assumes "inv s" and "extent width (pool s) + extent width xs < 2 ^ 32" and "list_all valid xs"
  shows "inv (fold (\<lambda>x s. snd (lookup x s)) xs s) \<and>
    pool (fold (\<lambda>x s. snd (lookup x s)) xs s) = enter_all xs (pool s)"
  using assms
proof (induction xs arbitrary: s)
  case (Cons x xs)
  obtain off s1 where 1: "lookup x s = (off, s1)" by force
  have s1: "inv s1" "pool s1 = enter x (pool s)"
    using lookup_pool [OF Cons.prems(1) _ _ 1] Cons.prems(2,3) by simp_all
  have "extent width (pool s1) + extent width xs < 2 ^ 32"
    using Cons.prems(2) extent_enter [of width x "pool s"] by (simp add: s1)
  then show ?case using Cons.IH [OF s1(1)] Cons.prems(3) by (simp add: 1 s1)
qed simp

end

section \<open>From the input sections to the output file\<close>

text \<open>The sections of the input files, one after the other.\<close>

fun merge_all ::
  "('l \<Rightarrow> 's \<Rightarrow> u32 \<times> 's) \<Rightarrow> (u32 \<times> 'l) list list \<Rightarrow> 's \<Rightarrow> fine_reloc list list \<times> 's" where
  "merge_all lookup [] s = ([], s)"
| "merge_all lookup (items # rest) s =
     (let (frs, s) = merge_new lookup items s;
          (frss, s) = merge_all lookup rest s
      in (frs # frss, s))"

text \<open>
  A literal has bytes, and the output routine writes the literals of the pool one after the other from
  the offset of the section on.  The items of an input section lie side by side.
\<close>

fun side_by_side :: "('l \<Rightarrow> u8 list) \<Rightarrow> nat \<Rightarrow> (u32 \<times> 'l) list \<Rightarrow> bool" where
  "side_by_side enc start [] = True"
| "side_by_side enc start ((i, x) # items) \<longleftrightarrow>
     unat i = start \<and> start + length (enc x) < 2 ^ 31 \<and> side_by_side enc (start + length (enc x)) items"

lemma side_by_side_start:
  "side_by_side enc start items \<Longrightarrow> k < length items \<Longrightarrow>
    start \<le> unat (fst (items ! k)) \<and> unat (fst (items ! k)) + length (enc (snd (items ! k))) < 2 ^ 31"
proof (induction enc start items arbitrary: k rule: side_by_side.induct)
  case (2 enc start i x items)
  then show ?case by (cases k) force+
qed simp

lemma side_by_side_next:
  "side_by_side enc start items \<Longrightarrow> j < k \<Longrightarrow> k < length items \<Longrightarrow>
    unat (fst (items ! j)) + length (enc (snd (items ! j))) \<le> unat (fst (items ! k))"
proof (induction enc start items arbitrary: j k rule: side_by_side.induct)
  case (2 enc start i x items)
  then obtain k' where k: "k = Suc k'" by (cases k) auto
  show ?case
  proof (cases j)
    case 0
    then show ?thesis using 2 side_by_side_start [of enc "start + length (enc x)" items k'] by (simp add: k)
  next
    case (Suc j')
    then show ?thesis using 2 by (simp add: k)
  qed
qed simp

locale literal_section = literal_pool lookup pool width inv valid
  for lookup :: "'l \<Rightarrow> 's \<Rightarrow> u32 \<times> 's" and pool and width and inv and valid +
  fixes enc :: "'l \<Rightarrow> u8 list" and write_out :: "u32 \<Rightarrow> 's \<Rightarrow> mem \<Rightarrow> mem option"
  assumes enc_nonempty: "enc x \<noteq> []"
    and write_out_pool: "inv s \<Longrightarrow> unat base + extent width (pool s) < 2 ^ 32 \<Longrightarrow>
      write_out base s buf = Some buf' \<Longrightarrow> x \<in> set (pool s) \<Longrightarrow> r < length (enc x) \<Longrightarrow>
      buf' ! (unat base + offset_of width (pool s) x + r) = enc x ! r"
begin

lemma merge_all_pool:
  assumes "inv s" and "extent width (pool s) + extent width (map snd (concat itss)) < 2 ^ 32"
    and "merge_all lookup itss s = (frss, s')" and "list_all valid (map snd (concat itss))"
  shows "inv s' \<and> pool s' = enter_all (map snd (concat itss)) (pool s) \<and>
    list_all2 (list_all2 (\<lambda>fr (i, x). input_offset fr = i \<and>
      unat (output_offset fr) = offset_of width (pool s') x)) frss itss"
  using assms
proof (induction itss arbitrary: s frss)
  case (Cons items itss)
  obtain frs s1 where 1: "merge_new lookup items s = (frs, s1)" by force
  obtain frss1 where 2: "merge_all lookup itss s1 = (frss1, s')" "frss = frs # frss1"
    using Cons.prems(3) by (auto simp: 1 split: prod.splits)
  have s1: "inv s1" "pool s1 = enter_all (map snd items) (pool s)"
    "list_all2 (\<lambda>fr (i, x). input_offset fr = i \<and> unat (output_offset fr) = offset_of width (pool s1) x) frs items"
  proof -
    have "extent width (pool s) + extent width (map snd items) < 2 ^ 32" using Cons.prems(2) by simp
    moreover have "list_all valid (map snd items)" using Cons.prems(4) by simp
    ultimately show "inv s1" "pool s1 = enter_all (map snd items) (pool s)"
      "list_all2 (\<lambda>fr (i, x). input_offset fr = i \<and> unat (output_offset fr) = offset_of width (pool s1) x) frs items"
      using merge_new_pool [OF Cons.prems(1) _ 1] by blast+
  qed
  have "extent width (pool s1) + extent width (map snd (concat itss)) < 2 ^ 32"
    using Cons.prems(2) extent_enter_all [of width "map snd items" "pool s"] by (simp add: s1)
  moreover have "list_all valid (map snd (concat itss))" using Cons.prems(4) by simp
  ultimately have IH: "inv s' \<and> pool s' = enter_all (map snd (concat itss)) (pool s1) \<and>
    list_all2 (list_all2 (\<lambda>fr (i, x). input_offset fr = i \<and>
      unat (output_offset fr) = offset_of width (pool s') x)) frss1 itss"
    using Cons.IH [OF s1(1) _ 2(1)] by blast
  have "offset_of width (pool s') x = offset_of width (pool s1) x" if "(i, x) \<in> set items" for i x
  proof -
    have "x \<in> set (pool s1)" using that by (force simp: s1(2))
    then show ?thesis using IH offset_of_enter_all by metis
  qed
  then have "list_all2 (\<lambda>fr (i, x). input_offset fr = i \<and>
      unat (output_offset fr) = offset_of width (pool s') x) frs items"
    using s1(3) by (auto elim!: list.rel_mono_strong)
  with IH show ?case by (elim conjE) (simp add: 2 s1(2) enter_all_append)
qed simp

text \<open>The entry of a byte of an item, and what the linker puts at the output offset it stands for.\<close>

lemma item_of_byte:
  assumes "side_by_side enc 0 items" and "map input_offset (fine_relocs sm) = map fst items"
    and "i < length items" and "r < length (enc (snd (items ! i)))"
  shows "fine_reloc_for_input_offset sm (fst (items ! i) + of_nat r) = Some i"
proof -
  let ?frs = "fine_relocs sm" and ?off = "fst (items ! i) + of_nat r"
  have len: "length ?frs = length items" using assms(2) map_eq_imp_length_eq by blast
  have input: "input_offset (?frs ! j) = fst (items ! j)" if "j < length items" for j
    using assms(2) that len by (metis nth_map)
  have small: "unat (fst (items ! j)) < 2 ^ 31" if "j < length items" for j
    using side_by_side_start [OF assms(1) that] by simp
  have "fst (items ! j) < fst (items ! k)" if "j < k" "k < length items" for j k
  proof -
    have "0 < length (enc (snd (items ! j)))" using enc_nonempty by simp
    then show ?thesis using side_by_side_next [OF assms(1) that] by (simp only: word_less_nat_alt)
  qed
  then have "sorted_wrt (<) (map fst items)" by (simp add: sorted_wrt_iff_nth_less)
  moreover have "list_all (\<lambda>fr. input_offset fr < 0x80000000) ?frs"
    using input small by (simp add: list_all_length len word_less_nat_alt)
  ultimately have sorted: "sorted_entries ?frs" by (simp add: sorted_entries_def assms(2))
  have off: "unat ?off = unat (fst (items ! i)) + r"
    using side_by_side_start [OF assms(1,3)] assms(4)
    by (simp add: unat_word_ariths unat_of_nat)
  have "items \<noteq> []" using assms(3) by auto
  then have zero: "unat (input_offset (?frs ! 0)) = 0"
    using input [of 0] assms(1) by (cases items) (auto split: prod.splits)
  obtain k where k: "k < length items" "fine_reloc_for_input_offset sm ?off = Some k"
    "\<forall>j < length items. fst (items ! j) \<le> ?off \<longleftrightarrow> j \<le> k"
  proof -
    have "?frs \<noteq> []" "?off < 0x80000000" "input_offset (?frs ! 0) \<le> ?off"
      using assms(3) len off side_by_side_start [OF assms(1,3)] assms(4) zero
      by (auto simp: word_less_nat_alt word_le_nat_alt)
    then show thesis using fine_reloc_finds_item [OF sorted] input len that by auto
  qed
  have "i \<le> k" using k(3) assms(3) off by (auto simp: word_le_nat_alt)
  moreover have "\<not> i < k"
    using k side_by_side_next [OF assms(1), of i k] off assms(4) by (auto simp: word_le_nat_alt)
  ultimately show ?thesis using k(2) by simp
qed

text \<open>
  The whole way: the sections of the input files are merged, a byte of one of them is looked up in the
  map of its section, and the output file has that byte there.
\<close>

lemma linked_byte:
  assumes start: "inv s" "extent width (pool s) + extent width (map snd (concat itss)) < 2 ^ 32"
    and merged: "merge_all lookup itss s = (frss, s')" and valid: "list_all valid (map snd (concat itss))"
    and written: "write_out base s' buf = Some buf'"
    and room: "unat base + extent width (pool s') < 2 ^ 32"
    and k: "k < length itss" "side_by_side enc 0 (itss ! k)"
    and sm: "fine_relocs sm = frss ! k" "\<not> of_indirect_type sm"
    and i: "i < length (itss ! k)" "itss ! k ! i = (start, x)" "r < length (enc x)"
    and width: "length (enc x) \<le> width x"
  shows "\<exists>off. fine_reloc_output_offset False sz sm (start + of_nat r) = Some off \<and>
    buf' ! (unat base + unat off) = enc x ! r"
proof -
  have s': "inv s'" "pool s' = enter_all (map snd (concat itss)) (pool s)"
    and frss: "list_all2 (list_all2 (\<lambda>fr (i, x). input_offset fr = i \<and>
      unat (output_offset fr) = offset_of width (pool s') x)) frss itss"
    using merge_all_pool [OF start merged valid] by blast+
  then have frs: "list_all2 (\<lambda>fr (i, x). input_offset fr = i \<and>
      unat (output_offset fr) = offset_of width (pool s') x) (frss ! k) (itss ! k)"
    using k(1) by (auto simp: list_all2_conv_all_nth)
  then have at_i: "input_offset (frss ! k ! i) = start"
    "unat (output_offset (frss ! k ! i)) = offset_of width (pool s') x"
    using i by (auto simp: list_all2_conv_all_nth)
  have "map input_offset (fine_relocs sm) = map fst (itss ! k)"
    using frs by (auto simp: sm list_all2_conv_all_nth intro!: nth_equalityI split: prod.splits)
      (metis prod.collapse)
  then have found: "fine_reloc_for_input_offset sm (start + of_nat r) = Some i"
    using item_of_byte [OF k(2) _ i(1), of sm r] i by simp
  have "itss ! k ! i \<in> set (concat itss)" using i(1) k(1) by (auto intro!: bexI [of _ "itss ! k"])
  then have "x \<in> snd ` set (concat itss)" by (force simp: i(2))
  then have x: "x \<in> set (pool s')" unfolding s'(2) set_enter_all by simp
  have "extent width (pool s') < 2 ^ 32"
    using extent_enter_all [of width "map snd (concat itss)" "pool s"] start(2) s'(2) by simp
  then have "offset_of width (pool s') x + r < 2 ^ 32"
    using offset_of_fits [OF x, of width] width i(3) by linarith
  then have "unat (output_offset (frss ! k ! i) + of_nat r) = offset_of width (pool s') x + r"
    using at_i by (simp add: unat_word_ariths unat_of_nat)
  then show ?thesis
    using found at_i sm write_out_pool [OF s'(1) room written x i(3)]
    by (simp add: fine_reloc_output_offset_def algebra_simps)
qed

end

end
