(* ===== verification/FixedLiterals.thy ===== *)
theory FixedLiterals
  imports Literals SwapBits
begin

text \<open>
  Sections of literals of 4 and of 8 bytes, \<^verbatim>\<open>ld/4byte_literals.c\<close> and \<^verbatim>\<open>ld/8byte_literals.c\<close>.  The two
  files are the same code at two sizes; it is modelled once, with the size \<open>w\<close> as a parameter, and
  the routines of each file are its instances.
\<close>

section \<open>Blocks of literals\<close>

text \<open>
  A block holds up to \<open>LITERAL4_BLOCK_SIZE\<close> literals; the list of a block are those in use.  An order
  file leaves its lines behind when \<^verbatim>\<open>-dead_strip\<close> is given.
\<close>

record 'l literal_data =
  literal_blocks :: "'l list list"
  order_lines :: "('l \<times> nat \<times> u32) list"

record literal8 =
  long0 :: u32
  long1 :: u32

definition literal8_codec :: "literal8 codec" where
  "literal8_codec = \<lparr>layout = [K32, K32], parts = (\<lambda>x. [F32 (long0 x), F32 (long1 x)]),
     build = (\<lambda>fs. \<lparr>long0 = f32 (fs ! 0), long1 = f32 (fs ! 1)\<rparr>)\<rparr>"

interpretation literal8: mach_struct literal8_codec "\<lambda>_. True"
  by unfold_locales (auto simp: literal8_codec_def map_eq_Cons_conv elim!: kind_of.elims)

definition LITERAL4_BLOCK_SIZE :: nat where "LITERAL4_BLOCK_SIZE = 60"
definition LITERAL8_BLOCK_SIZE :: nat where "LITERAL8_BLOCK_SIZE = 60"

text \<open>\<^verbatim>\<open>1 << align\<close> is an \<^verbatim>\<open>int\<close>.\<close>

definition align_multiplier :: "u32 \<Rightarrow> u32 \<Rightarrow> u32" where
  "align_multiplier w align =
     (let n = push_bit (unat align) (1 :: u32)
      in if sint n > sint w then n div w else 1)"

fun index_in :: "'l \<Rightarrow> 'l list \<Rightarrow> nat option" where
  "index_in x [] = None"
| "index_in x (y # ys) = (if x = y then Some 0 else map_option Suc (index_in x ys))"

fun lookup_blocks :: "nat \<Rightarrow> u32 \<Rightarrow> 'l \<Rightarrow> 'l list list \<Rightarrow> u32 \<Rightarrow> u32 \<times> 'l list list \<times> bool" where
  "lookup_blocks n step x [] off = (off, [[x]], True)"
| "lookup_blocks n step x (b # bs) off =
     (case index_in x b of
        Some i \<Rightarrow> (off + of_nat i * step, b # bs, False)
      | None \<Rightarrow>
          if length b \<noteq> n then (off + of_nat (length b) * step, (b @ [x]) # bs, True)
          else let (o', bs, new) = lookup_blocks n step x bs (off + of_nat (length b) * step)
               in (o', b # bs, new))"

definition lookup_literal ::
  "u32 \<Rightarrow> nat \<Rightarrow> 'l \<Rightarrow> 'l literal_data \<times> merged_section \<Rightarrow> u32 \<times> 'l literal_data \<times> merged_section" where
  "lookup_literal w n x st =
     (let (data, ms) = st;
          step = w * align_multiplier w (ms_align ms);
          (off, blocks, new) = lookup_blocks n step x (literal_blocks data) 0
      in (off, data\<lparr>literal_blocks := blocks\<rparr>, if new then ms\<lparr>ms_size := ms_size ms + step\<rparr> else ms))"

definition lookup_literal4 where
  "lookup_literal4 = (lookup_literal 4 LITERAL4_BLOCK_SIZE ::
     u32 \<Rightarrow> u32 literal_data \<times> merged_section \<Rightarrow> u32 \<times> u32 literal_data \<times> merged_section)"

definition lookup_literal8 where
  "lookup_literal8 = (lookup_literal 8 LITERAL8_BLOCK_SIZE ::
     literal8 \<Rightarrow> literal8 literal_data \<times> merged_section \<Rightarrow> u32 \<times> literal8 literal_data \<times> merged_section)"

section \<open>Merging\<close>

datatype literal_error = Size_not_a_multiple | Not_terminated

text \<open>The literals of an input section, with their offsets.\<close>

definition literal_items :: "'l codec \<Rightarrow> byte_sex \<Rightarrow> mem \<Rightarrow> nat \<Rightarrow> u32 \<Rightarrow> nat \<Rightarrow> (u32 \<times> 'l) list option" where
  "literal_items C h obj base w n =
     those (map (\<lambda>i. map_option (Pair (of_nat i * w)) (load C h obj (base + i * unat w))) [0..<n])"

definition merge_literals ::
  "'l codec \<Rightarrow> u32 \<Rightarrow> ('l \<Rightarrow> 's \<Rightarrow> u32 \<times> 's) \<Rightarrow>
   byte_sex \<Rightarrow> bool \<Rightarrow> mem \<Rightarrow> u32 \<Rightarrow> u32 \<Rightarrow> section_map \<Rightarrow> 's \<Rightarrow>
     (literal_error, section_map \<times> 's) check" where
  "merge_literals C w lookup h redo_live obj soff ssize sm st =
     (if ssize = 0 then CHECK_GOOD (if redo_live then sm else sm\<lparr>fine_relocs := []\<rparr>, st)
      else if ssize mod w \<noteq> 0 then CHECK_BAD Size_not_a_multiple
      else if \<not> redo_live then
        and_then (or_fault (literal_items C h obj (unat soff) w (unat (ssize div w)))) (\<lambda>items.
          let (frs, st) = merge_new lookup items st in CHECK_GOOD (sm\<lparr>fine_relocs := frs\<rparr>, st))
      else
        and_then (or_fault (literal_items C h obj (unat soff) w (length (fine_relocs sm)))) (\<lambda>items.
          let (frs, st) = merge_live lookup (fine_relocs sm) items st
          in CHECK_GOOD (sm\<lparr>fine_relocs := frs\<rparr>, st)))"

definition literal4_merge where
  "literal4_merge = merge_literals word_codec 4 lookup_literal4"

definition literal8_merge where
  "literal8_merge = merge_literals literal8_codec 8 lookup_literal8"

section \<open>Output\<close>

text \<open>
  The literals are copied into the buffer of the output file; \<^verbatim>\<open>literal8_output\<close> then frees them,
  \<^verbatim>\<open>literal4_output\<close> does not, although its comment says so.
\<close>

definition write_literal :: "'l codec \<Rightarrow> byte_sex \<Rightarrow> mem \<Rightarrow> u32 \<Rightarrow> 'l \<Rightarrow> mem option" where
  "write_literal C h buf off x =
     (if unat off + size_of C \<le> length buf then Some (store C h buf (unat off) x) else None)"

fun output_block :: "(mem \<Rightarrow> u32 \<Rightarrow> 'l \<Rightarrow> mem option) \<Rightarrow> u32 \<Rightarrow> 'l list \<Rightarrow> u32 \<Rightarrow> mem \<Rightarrow> (u32 \<times> mem) option" where
  "output_block wr step [] off buf = Some (off, buf)"
| "output_block wr step (x # xs) off buf =
     (case wr buf off x of None \<Rightarrow> None | Some buf \<Rightarrow> output_block wr step xs (off + step) buf)"

fun output_blocks ::
  "(mem \<Rightarrow> u32 \<Rightarrow> 'l \<Rightarrow> mem option) \<Rightarrow> u32 \<Rightarrow> 'l list list \<Rightarrow> u32 \<Rightarrow> mem \<Rightarrow> (u32 \<times> mem) option" where
  "output_blocks wr step [] off buf = Some (off, buf)"
| "output_blocks wr step (b # bs) off buf =
     (case output_block wr step b off buf of
        None \<Rightarrow> None
      | Some (off, buf) \<Rightarrow> output_blocks wr step bs off buf)"

definition output_literals ::
  "'l codec \<Rightarrow> u32 \<Rightarrow> byte_sex \<Rightarrow> 'l literal_data \<times> merged_section \<Rightarrow> mem \<Rightarrow> mem option" where
  "output_literals C w h st buf =
     (let (data, ms) = st
      in map_option snd
           (output_blocks (write_literal C h) (w * align_multiplier w (ms_align ms)) (literal_blocks data)
             (ms_offset ms) buf))"

definition literal4_output where
  "literal4_output h st buf = map_option (Pair st) (output_literals word_codec 4 h st buf)"

definition literal_free :: "'l literal_data \<Rightarrow> 'l literal_data" where
  "literal_free data = data\<lparr>literal_blocks := []\<rparr>"

definition literal8_output where
  "literal8_output h st buf =
     map_option (Pair (literal_free (fst st), snd st)) (output_literals literal8_codec 8 h st buf)"

section \<open>Blocks as a pool\<close>

text \<open>Every block but the last is full, and none is empty.\<close>

fun full_blocks :: "nat \<Rightarrow> 'l list list \<Rightarrow> bool" where
  "full_blocks n [] \<longleftrightarrow> True"
| "full_blocks n [b] \<longleftrightarrow> b \<noteq> [] \<and> length b \<le> n"
| "full_blocks n (b # c # bs) \<longleftrightarrow> length b = n \<and> full_blocks n (c # bs)"

lemma index_in_None: "index_in x b = None \<longleftrightarrow> x \<notin> set b"
  by (induction b) auto

lemma index_in_Some: "index_in x b = Some i \<Longrightarrow> x \<in> set b \<and> i = length (takeWhile (\<lambda>y. y \<noteq> x) b)"
  by (induction b arbitrary: i) (auto split: if_splits)

lemma full_blocks_Cons:
  "full_blocks n (b # bs) \<longleftrightarrow> b \<noteq> [] \<and> length b \<le> n \<and> (bs \<noteq> [] \<longrightarrow> length b = n) \<and> full_blocks n bs"
  if "0 < n" for n
  using that by (cases bs) auto

lemma lookup_blocks_pool:
  assumes "full_blocks n bs" and "0 < n" and "lookup_blocks n step x bs off = (off', bs', new)"
  shows "full_blocks n bs' \<and> concat bs' = enter x (concat bs) \<and> (new \<longleftrightarrow> x \<notin> set (concat bs)) \<and>
    off' = off + of_nat (length (takeWhile (\<lambda>y. y \<noteq> x) (concat bs'))) * step"
  using assms
proof (induction n step x bs off arbitrary: off' bs' new rule: lookup_blocks.induct)
  case (1 n step x off)
  then show ?case by (auto simp: enter_def)
next
  case (2 n step x b bs off)
  note b = 2(2) [unfolded full_blocks_Cons [OF 2(3)]]
  show ?case
  proof (cases "index_in x b")
    case (Some i)
    then have i: "x \<in> set b" "i = length (takeWhile (\<lambda>y. y \<noteq> x) b)" by (simp_all add: index_in_Some)
    then have "takeWhile (\<lambda>y. y \<noteq> x) (b @ concat bs) = takeWhile (\<lambda>y. y \<noteq> x) b" by (intro takeWhile_append1) auto
    then show ?thesis using 2 Some i by (auto simp: enter_def)
  next
    case None
    then have x: "x \<notin> set b" by (simp add: index_in_None)
    show ?thesis
    proof (cases "length b = n")
      case False
      then have "bs = []" using b by blast
      then show ?thesis using 2(3,4) None False b x
        by (auto simp: full_blocks_Cons [OF 2(3)] enter_def takeWhile_new takeWhile_append)
    next
      case True
      obtain o1 bs1 new1 where rest: "lookup_blocks n step x bs (off + of_nat (length b) * step) = (o1, bs1, new1)"
        by (cases "lookup_blocks n step x bs (off + of_nat (length b) * step)") auto
      then have eq: "off' = o1" "bs' = b # bs1" "new = new1" using 2(4) None True by simp_all
      have IH: "full_blocks n bs1" "concat bs1 = enter x (concat bs)" "new1 \<longleftrightarrow> x \<notin> set (concat bs)"
        "o1 = off + of_nat (length b) * step + of_nat (length (takeWhile (\<lambda>y. y \<noteq> x) (concat bs1))) * step"
        using 2(1) [OF None _ _ 2(3) rest] True b by simp_all
      have "takeWhile (\<lambda>y. y \<noteq> x) (b @ concat bs1) = b @ takeWhile (\<lambda>y. y \<noteq> x) (concat bs1)"
        using x by (intro takeWhile_append2) auto
      then show ?thesis using IH b True x
        by (auto simp: eq full_blocks_Cons [OF 2(3)] enter_def algebra_simps)
    qed
  qed
qed

section \<open>The contract\<close>

text \<open>What a literal takes in the output section, and the invariant of the data.\<close>

definition literal_step :: "u32 \<Rightarrow> u32 \<Rightarrow> u32" where
  "literal_step w align = w * align_multiplier w align"

definition literal_pool_of :: "'l literal_data \<times> merged_section \<Rightarrow> 'l list" where
  "literal_pool_of st = concat (literal_blocks (fst st))"

definition literal_inv :: "u32 \<Rightarrow> nat \<Rightarrow> u32 \<Rightarrow> 'l literal_data \<times> merged_section \<Rightarrow> bool" where
  "literal_inv w n align st \<longleftrightarrow>
     full_blocks n (literal_blocks (fst st)) \<and> distinct (literal_pool_of st) \<and> ms_align (snd st) = align \<and>
     unat (ms_size (snd st)) = length (literal_pool_of st) * unat (literal_step w align)"

lemma extent_const: "extent (\<lambda>_. c) p = length p * c"
  by (induction p) simp_all

lemma offset_of_const: "offset_of (\<lambda>_. c) p x = length (takeWhile (\<lambda>y. y \<noteq> x) p) * c"
  using extent_const [of c "takeWhile (\<lambda>y. y \<noteq> x) p"] by (simp add: offset_of_def extent_def)

lemma lookup_literal_pool:
  assumes "literal_inv w n align st" and "0 < n"
    and "extent (\<lambda>_. unat (literal_step w align)) (literal_pool_of st) + unat (literal_step w align) < 2 ^ 32"
    and "lookup_literal w n x st = (off, st')"
  shows "literal_inv w n align st' \<and> literal_pool_of st' = enter x (literal_pool_of st) \<and>
    unat off = offset_of (\<lambda>_. unat (literal_step w align)) (literal_pool_of st') x"
proof -
  let ?step = "literal_step w align" and ?bs = "literal_blocks (fst st)"
  have inv: "full_blocks n ?bs" "distinct (literal_pool_of st)" "ms_align (snd st) = align"
    "unat (ms_size (snd st)) = length (literal_pool_of st) * unat ?step"
    using assms(1) by (simp_all add: literal_inv_def)
  obtain bs new where l: "lookup_blocks n ?step x ?bs 0 = (off, bs, new)"
    and st': "st' = ((fst st)\<lparr>literal_blocks := bs\<rparr>,
      if new then (snd st)\<lparr>ms_size := ms_size (snd st) + ?step\<rparr> else snd st)"
    using assms(4) inv(3) by (cases st) (auto simp: lookup_literal_def literal_step_def Let_def split: prod.splits)
  note pool = lookup_blocks_pool [OF inv(1) assms(2) l, folded literal_pool_of_def]
  have pool': "literal_pool_of st' = enter x (literal_pool_of st)"
    using pool by (simp add: st' literal_pool_of_def)
  have room: "length (literal_pool_of st) * unat ?step + unat ?step < 2 ^ 32"
    using assms(3) by (simp add: extent_const)
  let ?before = "length (takeWhile (\<lambda>y. y \<noteq> x) (literal_pool_of st'))"
  have "?before \<le> length (literal_pool_of st)"
    by (cases "x \<in> set (literal_pool_of st)")
      (auto simp: pool' enter_def length_takeWhile_le takeWhile_append takeWhile_new)
  then have "?before * unat ?step \<le> length (literal_pool_of st) * unat ?step" by (rule mult_le_mono1)
  then have less: "?before * unat ?step < 2 ^ 32" using room by linarith
  have "off = of_nat (?before * unat ?step)"
    using pool by (simp add: literal_pool_of_def st')
  then have off: "unat off = ?before * unat ?step"
    using less by (simp add: unat_of_nat del: of_nat_mult)
  have "unat (ms_size (snd st')) = length (literal_pool_of st') * unat ?step"
    using pool inv(4) room by (auto simp: st' pool' enter_def unat_word_ariths literal_pool_of_def)
  then show ?thesis
    using pool pool' inv off distinct_enter [of "literal_pool_of st" x]
    by (simp add: literal_inv_def st' offset_of_const)
qed

text \<open>What is written for a list of literals.\<close>

lemma output_blocks_concat: "output_blocks wr step bs off buf = output_block wr step (concat bs) off buf"
proof (induction bs arbitrary: off buf)
  case (Cons b bs)
  have "output_block wr step (b @ c) off buf =
      (case output_block wr step b off buf of None \<Rightarrow> None | Some (off, buf) \<Rightarrow> output_block wr step c off buf)" for c
    by (induction b arbitrary: off buf) (auto split: option.splits)
  then show ?case using Cons by (simp split: option.splits)
qed simp

lemma write_literal_nth:
  assumes "mach_struct C (\<lambda>_. True)" and "write_literal C h buf off x = Some buf'"
  shows "length buf' = length buf" and "r < size_of C \<Longrightarrow> buf' ! (unat off + r) = encode h (parts C x) ! r"
    and "a < unat off \<Longrightarrow> buf' ! a = buf ! a"
proof -
  have len: "length (encode h (parts C x)) = size_of C"
    using mach_struct.length_encode_parts [OF assms(1)] by simp
  have buf': "unat off + size_of C \<le> length buf" "buf' = put_bytes buf (unat off) (encode h (parts C x))"
    using assms(2) by (auto simp: write_literal_def store_def split: if_splits)
  then show "length buf' = length buf" by (simp add: len del: length_encode)
  show "r < size_of C \<Longrightarrow> buf' ! (unat off + r) = encode h (parts C x) ! r"
    using buf' len by (simp add: nth_put_bytes del: length_encode)
  show "a < unat off \<Longrightarrow> buf' ! a = buf ! a"
    using buf' len by (auto simp: put_bytes_def nth_append min_def simp del: length_encode)
qed

lemma output_block_nth:
  assumes C: "mach_struct C (\<lambda>_. True)" and step: "size_of C \<le> unat step"
    and "output_block (write_literal C h) step xs off buf = Some (off', buf')"
    and "unat off + length xs * unat step < 2 ^ 32"
  shows "(\<forall>a < unat off. buf' ! a = buf ! a) \<and>
    (\<forall>k < length xs. \<forall>r < size_of C. buf' ! (unat off + k * unat step + r) = encode h (parts C (xs ! k)) ! r)"
  using assms(3,4)
proof (induction xs arbitrary: off buf)
  case (Cons x xs)
  obtain buf1 where buf1: "write_literal C h buf off x = Some buf1"
    "output_block (write_literal C h) step xs (off + step) buf1 = Some (off', buf')"
    using Cons.prems(1) by (auto split: option.splits)
  note w = write_literal_nth [OF C buf1(1)]
  have next_off: "unat (off + step) = unat off + unat step"
    using Cons.prems(2) by (simp add: unat_word_ariths)
  note IH = Cons.IH [OF buf1(2), unfolded next_off]
  have rest: "\<forall>a < unat off + unat step. buf' ! a = buf1 ! a"
    "\<forall>k < length xs. \<forall>r < size_of C.
      buf' ! (unat off + unat step + k * unat step + r) = encode h (parts C (xs ! k)) ! r"
    using IH Cons.prems(2) by simp_all
  have "buf' ! (unat off + k * unat step + r) = encode h (parts C ((x # xs) ! k)) ! r"
    if "k < length (x # xs)" "r < size_of C" for k r
  proof (cases k)
    case 0
    then show ?thesis using rest(1) w(2) [OF that(2)] that(2) step by simp
  next
    case (Suc k')
    then show ?thesis using rest(2) that by (simp add: algebra_simps)
  qed
  then show ?case using rest(1) w(3) by simp
qed simp

lemma output_literals_pool:
  assumes "mach_struct C (\<lambda>_. True)" and "size_of C = unat w" and "unat w \<le> unat (literal_step w align)"
    and "literal_inv w n align st"
    and "unat base + extent (\<lambda>_. unat (literal_step w align)) (literal_pool_of st) < 2 ^ 32"
    and "output_literals C w h (fst st, (snd st)\<lparr>ms_offset := base\<rparr>) buf = Some buf'"
    and x: "x \<in> set (literal_pool_of st)" and r: "r < size_of C"
  shows "buf' ! (unat base + offset_of (\<lambda>_. unat (literal_step w align)) (literal_pool_of st) x + r) =
    encode h (parts C x) ! r"
proof -
  let ?step = "literal_step w align" and ?p = "literal_pool_of st"
  obtain off' where o: "output_block (write_literal C h) ?step ?p base buf = Some (off', buf')"
    using assms(4,6)
    by (auto simp: output_literals_def output_blocks_concat literal_inv_def literal_step_def literal_pool_of_def)
  let ?k = "length (takeWhile (\<lambda>y. y \<noteq> x) ?p)"
  have "?k < length ?p" "?p ! ?k = x"
  proof -
    show less: "?k < length ?p"
      using x length_takeWhile_le [of "\<lambda>y. y \<noteq> x" ?p] takeWhile_eq_all_conv [of "\<lambda>y. y \<noteq> x" ?p]
        takeWhile_eq_take [of "\<lambda>y. y \<noteq> x" ?p]
      by (metis le_neq_implies_less take_all_iff order_refl)
    show "?p ! ?k = x" using nth_length_takeWhile [OF less] by simp
  qed
  then show ?thesis
    using output_block_nth [OF assms(1) _ o] assms(2,3,5) r by (simp add: extent_const offset_of_const)
qed

text \<open>Both sizes keep the contract, whatever the alignment of the output section.\<close>

definition step_for :: "u32 \<Rightarrow> nat \<Rightarrow> u32" where
  "step_for w k = (let n = push_bit k (1 :: u32) in w * (if sint n > sint w then n div w else 1))"

lemma step_for_small:
  "list_all (\<lambda>k. 4 \<le> step_for 4 k \<and> 8 \<le> step_for 8 k) [0..<32]"
  by code_simp

lemma literal_step_large:
  assumes "w = 4 \<or> w = 8"
  shows "unat w \<le> unat (literal_step w align)"
proof -
  have step: "literal_step w align = step_for w (unat align)"
    by (simp add: literal_step_def align_multiplier_def step_for_def Let_def)
  show ?thesis
  proof (cases "unat align < 32")
    case True
    then show ?thesis using step_for_small assms by (auto simp: step list_all_iff word_le_nat_alt)
  next
    case False
    then have zero: "push_bit (unat align) (1 :: u32) = 0" by (intro bit_word_eqI, simp only: bit_push_bit_iff) simp
    show ?thesis unfolding step step_for_def Let_def zero using assms by auto
  qed
qed

definition literal_writer ::
  "'l codec \<Rightarrow> u32 \<Rightarrow> byte_sex \<Rightarrow> u32 \<Rightarrow> 'l literal_data \<times> merged_section \<Rightarrow> mem \<Rightarrow> mem option" where
  "literal_writer C w h base st = output_literals C w h (fst st, (snd st)\<lparr>ms_offset := base\<rparr>)"

lemma fixed_section:
  assumes "mach_struct C (\<lambda>_. True)" and "size_of C = unat w" and "w = 4 \<or> w = 8" and "0 < n"
  shows "literal_section (lookup_literal w n) literal_pool_of (\<lambda>_. unat (literal_step w align))
    (literal_inv w n align) (\<lambda>_. True) (\<lambda>x. encode h (parts C x)) (literal_writer C w h)"
proof unfold_locales
  note large = literal_step_large [OF assms(3)]
  have len: "length (encode h (parts C x)) = unat w" for x
    using mach_struct.length_encode_parts [OF assms(1)] assms(2) by simp
  show "encode h (parts C x) \<noteq> []" for x using len [of x] assms(3) by force
  show "literal_inv w n align s \<Longrightarrow> distinct (literal_pool_of s)" for s :: "'a literal_data \<times> merged_section"
    by (simp add: literal_inv_def)
  show "literal_inv w n align s' \<and> literal_pool_of s' = enter x (literal_pool_of s) \<and>
      unat off = offset_of (\<lambda>_. unat (literal_step w align)) (literal_pool_of s') x"
    if "literal_inv w n align s"
      "extent (\<lambda>_. unat (literal_step w align)) (literal_pool_of s) + unat (literal_step w align) < 2 ^ 32"
      "lookup_literal w n x s = (off, s')" for s x off s'
    using lookup_literal_pool [OF that(1) assms(4) that(2,3)] .
  show "buf' ! (unat base + offset_of (\<lambda>_. unat (literal_step w align)) (literal_pool_of s) x + r) =
      encode h (parts C x) ! r"
    if "literal_inv w n align s"
      "unat base + extent (\<lambda>_. unat (literal_step w align)) (literal_pool_of s) < 2 ^ 32"
      "literal_writer C w h base s buf = Some buf'" "x \<in> set (literal_pool_of s)"
      "r < length (encode h (parts C x))" for s base buf buf' x r
    using output_literals_pool [OF assms(1,2) large that(1,2) that(3) [unfolded literal_writer_def] that(4)] that(5) len assms(2)
    by simp
qed

interpretation literal4_section: literal_section lookup_literal4 literal_pool_of
  "\<lambda>_. unat (literal_step 4 align)" "literal_inv 4 LITERAL4_BLOCK_SIZE align"
  "\<lambda>_. True" "\<lambda>x. encode h (parts word_codec x)" "literal_writer word_codec 4 h" for align h
  unfolding lookup_literal4_def
  by (rule fixed_section) (simp_all add: word32.mach_struct_axioms LITERAL4_BLOCK_SIZE_def)

lemma size_of_literal8 [simp]: "size_of literal8_codec = 8"
  by (simp add: size_of_def literal8_codec_def)

interpretation literal8_section: literal_section lookup_literal8 literal_pool_of
  "\<lambda>_. unat (literal_step 8 align)" "literal_inv 8 LITERAL8_BLOCK_SIZE align"
  "\<lambda>_. True" "\<lambda>x. encode h (parts literal8_codec x)" "literal_writer literal8_codec 8 h" for align h
  unfolding lookup_literal8_def
  by (rule fixed_section) (simp_all add: literal8.mach_struct_axioms LITERAL8_BLOCK_SIZE_def)

section \<open>From the input files to the output file\<close>

text \<open>The sections of the input files with the memory they lie in, where, how large, and their maps.\<close>

fun merge_sections ::
  "(mem \<Rightarrow> u32 \<Rightarrow> u32 \<Rightarrow> section_map \<Rightarrow> 's \<Rightarrow> ('e, section_map \<times> 's) check) \<Rightarrow>
   (mem \<times> u32 \<times> u32 \<times> section_map) list \<Rightarrow> 's \<Rightarrow> ('e, section_map list \<times> 's) check" where
  "merge_sections merge [] st = CHECK_GOOD ([], st)"
| "merge_sections merge ((obj, off, sz, sm) # rest) st =
     and_then (merge obj off sz sm st) (\<lambda>(sm, st).
     and_then (merge_sections merge rest st) (\<lambda>(sms, st). CHECK_GOOD (sm # sms, st)))"

context mach_struct
begin

lemma encode_load: "load C h m off = Some x \<Longrightarrow> get_bytes m off (size_of C) = Some (encode h (parts C x))"
  using store_load [of h m off x] load_wf [of h m off x] load_bound [of C h m off x]
    get_put_same [of off "encode h (parts C x)" m] length_encode_parts [of x h]
  by (simp add: store_def del: length_encode)

end

lemma those_nth: "those xs = Some ys \<longleftrightarrow> length ys = length xs \<and> (\<forall>i < length xs. xs ! i = Some (ys ! i))"
proof (induction xs arbitrary: ys)
  case (Cons x xs)
  show ?case
  proof (cases ys)
    case Nil
    then show ?thesis by (auto split: option.splits)
  next
    case c: (Cons y ys')
    have "(\<forall>i < length (x # xs). (x # xs) ! i = Some (ys ! i)) \<longleftrightarrow>
        x = Some y \<and> (\<forall>i < length xs. xs ! i = Some (ys' ! i))"
      by (simp only: c length_Cons All_less_Suc2 nth_Cons_0 nth_Cons_Suc)
    then show ?thesis using Cons [of ys'] by (auto simp: c split: option.splits)
  qed
qed auto

lemma literal_items_nth:
  assumes "literal_items C h obj base w n = Some items"
  shows "length items = n" and "i < n \<Longrightarrow> fst (items ! i) = of_nat i * w"
    and "i < n \<Longrightarrow> load C h obj (base + i * unat w) = Some (snd (items ! i))"
  using assms by (auto simp: literal_items_def those_nth) (metis fst_conv, metis snd_conv)

lemma literal_items_side_by_side:
  assumes items: "literal_items C h obj base w n = Some items" and len: "\<And>x. length (enc x) = unat w"
    and small: "n * unat w < 2 ^ 31"
  shows "side_by_side enc 0 items"
proof -
  have "side_by_side enc (k * unat w) (drop k items)" if "k \<le> n" for k
    using that
  proof (induction "n - k" arbitrary: k)
    case 0
    then show ?case using literal_items_nth(1) [OF items] by simp
  next
    case (Suc m)
    then have k: "k < n" by simp
    obtain i x where item: "items ! k = (i, x)" by force
    have "i = of_nat (k * unat w)" using literal_items_nth(2) [OF items k] item by simp
    moreover have "(k + 1) * unat w \<le> n * unat w" using k by (intro mult_le_mono1) simp
    then have end_of: "k * unat w + unat w \<le> n * unat w" by simp
    ultimately have "unat i = k * unat w" using small by (simp add: unat_of_nat del: of_nat_mult)
    moreover have "drop k items = (i, x) # drop (Suc k) items"
      using k item literal_items_nth(1) [OF items] by (metis Cons_nth_drop_Suc)
    moreover have "side_by_side enc (Suc k * unat w) (drop (Suc k) items)"
      using Suc.hyps(1) [of "Suc k"] Suc.hyps(2) k by simp
    ultimately show ?case using len end_of small by (simp add: algebra_simps)
  qed
  from this [of 0] show ?thesis by simp
qed

text \<open>What the sections of a run of merges were.\<close>

lemma merge_literals_new:
  assumes "merge_literals C w lookup h False obj off sz sm st = CHECK_GOOD (sm', st')" and "w \<noteq> 0"
  shows "\<exists>items. literal_items C h obj (unat off) w (unat (sz div w)) = Some items \<and> sz mod w = 0 \<and>
    fine_relocs sm' = fst (merge_new lookup items st) \<and> st' = snd (merge_new lookup items st) \<and>
    sm_flags sm' = sm_flags sm"
proof (cases "sz = 0")
  case True
  moreover have "literal_items C h obj b w 0 = Some []" for b by (simp add: literal_items_def)
  ultimately show ?thesis using assms by (auto simp: merge_literals_def)
next
  case False
  obtain items where "literal_items C h obj (unat off) w (unat (sz div w)) = Some items" "sz mod w = 0"
    "(let (frs, st) = merge_new lookup items st in CHECK_GOOD (sm\<lparr>fine_relocs := frs\<rparr>, st)) =
      (CHECK_GOOD (sm', st') :: (literal_error, _) check)"
    using assms False by (simp add: merge_literals_def and_then_GOOD_iff del: mod_0_imp_dvd split: if_split_asm) blast
  then show ?thesis by (cases "merge_new lookup items st") (auto simp del: mod_0_imp_dvd)
qed

lemma merge_sections_new:
  assumes "merge_sections (merge_literals C w lookup h False) secs st = CHECK_GOOD (sms, st')" and "w \<noteq> 0"
  shows "\<exists>itss. merge_all lookup itss st = (map fine_relocs sms, st') \<and>
    list_all2 (\<lambda>(obj, off, sz, sm) items. literal_items C h obj (unat off) w (unat (sz div w)) = Some items \<and>
      sz mod w = 0) secs itss \<and>
    list_all2 (\<lambda>(obj, off, sz, sm) sm'. sm_flags sm' = sm_flags sm) secs sms"
  using assms(1)
proof (induction secs arbitrary: st sms)
  case (Cons sec rest)
  obtain obj off sz sm where sec: "sec = (obj, off, sz, sm)" by (metis prod_cases4)
  obtain sm1 st1 sms1 where 1: "merge_literals C w lookup h False obj off sz sm st = CHECK_GOOD (sm1, st1)"
    and 2: "merge_sections (merge_literals C w lookup h False) rest st1 = CHECK_GOOD (sms1, st')" "sms = sm1 # sms1"
    using Cons.prems by (auto simp: sec and_then_GOOD_iff)
  obtain items where "literal_items C h obj (unat off) w (unat (sz div w)) = Some items" "sz mod w = 0"
    "merge_new lookup items st = (fine_relocs sm1, st1)" "sm_flags sm1 = sm_flags sm"
    using merge_literals_new [OF 1 assms(2)] by (metis prod.collapse)
  moreover obtain itss where "merge_all lookup itss st1 = (map fine_relocs sms1, st')"
    "list_all2 (\<lambda>(obj, off, sz, sm) items. literal_items C h obj (unat off) w (unat (sz div w)) = Some items \<and>
      sz mod w = 0) rest itss"
    "list_all2 (\<lambda>(obj, off, sz, sm) sm'. sm_flags sm' = sm_flags sm) rest sms1"
    using Cons.IH [OF 2(1)] by blast
  ultimately show ?case
    by (intro exI [of _ "items # itss"]) (simp add: sec 2(2))
qed simp

definition literal_count :: "u32 \<Rightarrow> (mem \<times> u32 \<times> u32 \<times> section_map) list \<Rightarrow> nat" where
  "literal_count w secs = sum_list (map (\<lambda>(obj, off, sz, sm). unat (sz div w)) secs)"

lemma literal_count_items:
  assumes "list_all2 (\<lambda>(obj, off, sz, sm) items.
    literal_items C h obj (unat off) w (unat (sz div w)) = Some items \<and> sz mod w = 0) secs itss"
  shows "length (concat itss) = literal_count w secs"
  using assms by (induction rule: list_all2_induct) (auto simp: literal_count_def dest: literal_items_nth(1))

text \<open>A byte of a literal is the byte of the section it was read from.\<close>

lemma literal_byte:
  assumes "mach_struct C (\<lambda>_. True)" and "size_of C = unat w" and "w \<noteq> 0"
    and items: "literal_items C h obj base w (unat (sz div w)) = Some items" and "sz mod w = 0"
    and o': "o' < unat sz"
  shows "o' div unat w < length items"
    and "encode h (parts C (snd (items ! (o' div unat w)))) ! (o' mod unat w) = obj ! (base + o')"
proof -
  let ?i = "o' div unat w" and ?r = "o' mod unat w"
  have w: "0 < unat w" using assms(3) by (simp add: unat_gt_0)
  have "unat sz mod unat w = 0" using assms(5) by (metis unat_mod unat_0)
  then have "unat sz = unat (sz div w) * unat w" 
    using div_mult_mod_eq [of "unat sz" "unat w"] by (simp add: unat_div)
  then have i: "?i < unat (sz div w)" using o' w by (simp add: less_mult_imp_div_less)
  then show "?i < length items" by (simp add: literal_items_nth(1) [OF items])
  have "get_bytes obj (base + ?i * unat w) (unat w) = Some (encode h (parts C (snd (items ! ?i))))"
    using mach_struct.encode_load [OF assms(1) literal_items_nth(3) [OF items i]] assms(2) by simp
  then have enc: "encode h (parts C (snd (items ! ?i))) = take (unat w) (drop (base + ?i * unat w) obj)"
    and bound: "base + ?i * unat w + unat w \<le> length obj"
    unfolding get_bytes_def by (metis option.inject option.distinct(1))+
  have "encode h (parts C (snd (items ! ?i))) ! ?r = obj ! (base + ?i * unat w + ?r)"
    unfolding enc using w bound by (simp only: nth_take nth_drop mod_less_divisor)
  then show "encode h (parts C (snd (items ! ?i))) ! ?r = obj ! (base + o')"
    by (simp only: add.assoc div_mult_mod_eq)
qed

lemma fixed_linked:
  assumes C: "mach_struct C (\<lambda>_. True)" "size_of C = unat w" "w = 4 \<or> w = 8" "0 < n"
    and merged: "merge_sections (merge_literals C w (lookup_literal w n) h False) secs st0 = CHECK_GOOD (sms, st)"
    and written: "literal_writer C w h base st buf = Some buf'"
    and start: "literal_inv w n align st0"
    and room: "unat base + (length (literal_pool_of st0) + literal_count w secs) * unat (literal_step w align) < 2 ^ 32"
    and k: "k < length secs" "secs ! k = (obj, off, sz, sm)" "unat sz < 2 ^ 31" "\<not> of_indirect_type sm"
    and o': "o' < unat sz"
  shows "\<exists>out. fine_reloc_output_offset False size' (sms ! k) (of_nat o') = Some out \<and>
    buf' ! (unat base + unat out) = obj ! (unat off + o')"
proof -
  let ?enc = "\<lambda>x. encode h (parts C x)" and ?width = "\<lambda>_ :: 'a. unat (literal_step w align)"
  have w0: "w \<noteq> 0" using C(3) by auto
  have len: "length (?enc x) = unat w" for x
    using mach_struct.length_encode_parts [OF C(1)] C(2) by simp
  obtain itss where itss: "merge_all (lookup_literal w n) itss st0 = (map fine_relocs sms, st)"
    "list_all2 (\<lambda>(obj, off, sz, sm) items. literal_items C h obj (unat off) w (unat (sz div w)) = Some items \<and>
      sz mod w = 0) secs itss"
    "list_all2 (\<lambda>(obj, off, sz, sm) sm'. sm_flags sm' = sm_flags sm) secs sms"
    using merge_sections_new [OF merged w0] by blast
  have items: "literal_items C h obj (unat off) w (unat (sz div w)) = Some (itss ! k)" "sz mod w = 0"
    using itss(2) k by (auto simp: list_all2_conv_all_nth split: prod.splits simp del: mod_0_imp_dvd dest: spec [of _ k])
  have kk: "k < length itss" "k < length sms" "sm_flags (sms ! k) = sm_flags sm"
    using itss(2,3) k by (auto simp: list_all2_conv_all_nth split: prod.splits)
  let ?i = "o' div unat w" and ?r = "o' mod unat w"
  note byte = literal_byte [OF C(1,2) w0 items o']
  obtain start' x where item: "itss ! k ! ?i = (start', x)" by force
  have total: "extent ?width (literal_pool_of st0) + extent ?width (map snd (concat itss)) =
      (length (literal_pool_of st0) + literal_count w secs) * unat (literal_step w align)"
    using literal_count_items [OF itss(2)] by (simp only: extent_const length_map add_mult_distrib)
  note ls = fixed_section [OF C, of align h]
  have st: "literal_pool_of st = enter_all (map snd (concat itss)) (literal_pool_of st0)"
    using literal_section.merge_all_pool [OF ls start _ itss(1)] total room by (simp add: list_all_iff)
  have r: "?r < length (?enc x)" using len w0 by (simp add: unat_gt_0)
  have small: "unat (sz div w) * unat w < 2 ^ 31"
    using k(3) by (simp add: unat_div) (meson div_times_less_eq_dividend le_less_trans)
  have "\<exists>out. fine_reloc_output_offset False size' (sms ! k) (start' + of_nat ?r) = Some out \<and>
      buf' ! (unat base + unat out) = ?enc x ! ?r"
  proof (rule literal_section.linked_byte [OF ls start _ itss(1) _ written _ kk(1) _ _ _ byte(1) item r])
    show "extent ?width (literal_pool_of st0) + extent ?width (map snd (concat itss)) < 2 ^ 32"
      using total room by simp
    show "list_all (\<lambda>_. True) (map snd (concat itss))" by (simp add: list_all_iff)
    show "unat base + extent ?width (literal_pool_of st) < 2 ^ 32"
      using extent_enter_all [of ?width "map snd (concat itss)" "literal_pool_of st0"] total room
      unfolding st by linarith
    show "side_by_side ?enc 0 (itss ! k)"
      by (rule literal_items_side_by_side [OF items(1) len small])
    show "fine_relocs (sms ! k) = map fine_relocs sms ! k" using kk by simp
    show "\<not> of_indirect_type (sms ! k)" using k(4) kk by (simp add: of_indirect_type_def)
    show "length (?enc x) \<le> ?width x" using len literal_step_large [OF C(3)] by simp
  qed
  moreover have "start' + of_nat ?r = of_nat o'"
  proof -
    have "start' = of_nat ?i * w"
      using literal_items_nth(1,2) [OF items(1)] byte(1) item by (metis fst_conv)
    then have "start' + of_nat ?r = of_nat (?i * unat w + ?r)"
      by (simp only: of_nat_add of_nat_mult of_nat_unat ucast_id)
    then show ?thesis by (simp only: div_mult_mod_eq)
  qed
  moreover have "?enc x ! ?r = obj ! (unat off + o')" using byte(2) item by simp
  ultimately show ?thesis by simp
qed


text \<open>
  The same for the sections of 8 byte literals.
\<close>

theorem literal8_linked:
  assumes "merge_sections (literal8_merge h False) secs st0 = CHECK_GOOD (sms, st)"
    and "literal8_output h (fst st, (snd st)\<lparr>ms_offset := base\<rparr>) buf = Some (st', buf')"
    and "literal_inv 8 LITERAL8_BLOCK_SIZE align st0"
    and "unat base + (length (literal_pool_of st0) + literal_count 8 secs) * unat (literal_step 8 align) < 2 ^ 32"
    and "k < length secs" and "secs ! k = (obj, off, sz, sm)" and "unat sz < 2 ^ 31"
    and "\<not> of_indirect_type sm" and "i < unat sz"
  shows "\<exists>out. fine_reloc_output_offset False size' (sms ! k) (of_nat i) = Some out \<and>
    buf' ! (unat base + unat out) = obj ! (unat off + i)"
proof (rule fixed_linked [OF literal8.mach_struct_axioms _ _ _ _ _ assms(3-9)])
  show "merge_sections (merge_literals literal8_codec 8 (lookup_literal 8 LITERAL8_BLOCK_SIZE) h False) secs st0 =
      CHECK_GOOD (sms, st)"
    using assms(1) by (simp add: literal8_merge_def lookup_literal8_def)
  show "literal_writer literal8_codec 8 h base st buf = Some buf'"
    using assms(2) by (auto simp: literal8_output_def literal_writer_def)
qed (simp_all add: LITERAL8_BLOCK_SIZE_def)

section \<open>An example\<close>

text \<open>Two input sections with a literal in common, merged into a section aligned to 8 bytes.\<close>

definition empty_section :: "u32 \<Rightarrow> merged_section" where
  "empty_section align = \<lparr>ms_size = 0, ms_align = align, ms_offset = 0, ms_flags = 0, order_filename = False,
     order_addr = [], order_size = 0\<rparr>"

definition empty_map :: "u32 \<Rightarrow> section_map" where
  "empty_map flags = \<lparr>sm_flags = flags, output_section = 0, fine_relocs = []\<rparr>"

definition no_literals :: "u32 \<Rightarrow> 'l literal_data \<times> merged_section" where
  "no_literals align = (\<lparr>literal_blocks = [], order_lines = []\<rparr>, empty_section align)"

lemma no_literals_inv: "literal_inv w n align (no_literals align)" "literal_pool_of (no_literals align) = []"
  by (simp_all add: no_literals_def literal_inv_def literal_pool_of_def empty_section_def)

definition first_input :: mem where "first_input = [1, 2, 3, 4, 5, 6, 7, 8, 9, 10, 11, 12, 13, 14, 15, 16]"
definition second_input :: mem where "second_input = [0, 9, 10, 11, 12, 13, 14, 15, 16, 20, 21, 22, 23, 24, 25, 26, 27]"

definition two_inputs :: "(mem \<times> u32 \<times> u32 \<times> section_map) list" where
  "two_inputs = [(first_input, 0, 16, empty_map 3), (second_input, 1, 16, empty_map 3)]"

definition merged4 where
  "merged4 = merge_sections (literal4_merge LITTLE_ENDIAN_BYTE_SEX False) two_inputs (no_literals 3)"

definition merged8 where
  "merged8 = merge_sections (literal8_merge LITTLE_ENDIAN_BYTE_SEX False) two_inputs (no_literals 4)"

definition section4 where
  "section4 = literal4_output LITTLE_ENDIAN_BYTE_SEX
     (fst (snd (good merged4)), (snd (snd (good merged4)))\<lparr>ms_offset := 2\<rparr>) (replicate 60 0)"

definition section8 where
  "section8 = literal8_output LITTLE_ENDIAN_BYTE_SEX
     (fst (snd (good merged8)), (snd (snd (good merged8)))\<lparr>ms_offset := 2\<rparr>) (replicate 60 0)"

lemma examples_run:
  "is_good merged4" "section4 \<noteq> None" "is_good merged8" "section8 \<noteq> None"
  by code_simp+

lemmas merged4_good = is_good_pairD [OF examples_run(1)] and merged8_good = is_good_pairD [OF examples_run(3)]

lemma section4_written: "section4 = Some (fst (the section4), snd (the section4))"
  and section8_written: "section8 = Some (fst (the section8), snd (the section8))"
  using examples_run(2,4) by auto

lemma two_inputs_ok:
  "two_inputs ! 1 = (second_input, 1, 16, empty_map 3)" "second_input ! 10 = 21" "length two_inputs = 2"
  "literal_count 4 two_inputs * unat (literal_step 4 3) = 64"
  "literal_count 8 two_inputs * unat (literal_step 8 4) = 64"
  "\<not> of_indirect_type (empty_map 3)"
  by code_simp+


theorem literal8_linked_witness:
  "\<exists>out. fine_reloc_output_offset False 0 (fst (good merged8) ! 1) 9 = Some out \<and>
     snd (the section8) ! (2 + unat out) = 21"
  using literal8_linked [OF merged8_good [unfolded merged8_def] section8_written [unfolded section8_def merged8_def]
      no_literals_inv(1) _ _ two_inputs_ok(1) _ two_inputs_ok(6), where i = 9 and size' = 0]
  unfolding merged8_def [symmetric] section8_def [symmetric]
  by (simp add: no_literals_inv(2) two_inputs_ok)

end
