(* ===== verification/CStringLiterals.thy ===== *)
theory CStringLiterals
  imports FixedLiterals
begin

text \<open>
  Sections of C strings, \<^verbatim>\<open>ld/cstring_literals.c\<close>.  A string that is new is copied to a block of
  memory, which starts as large as a page, and entered in a hash table with the offset it will have
  in the output section, the size of the section so far.  The blocks are written one after the other,
  so the offset is right only if strings never go to a block in front of the last.
\<close>

section \<open>The data\<close>

text \<open>
  A bucket points to its string in a block; the bytes of a string in a block are not written again, so
  the model keeps the string.  The bytes of a block are those in use.
\<close>

record cstring_bucket =
  cb_string :: c_string
  cb_offset :: u32

record cstring_block =
  cblock_size :: u32
  cblock_used :: u32
  cblock_full :: bool
  cblock_strings :: "u8 list"

record cstring_data =
  hashtable :: "cstring_bucket list list option"
  cstring_blocks :: "cstring_block list"
  cstring_load_order_data :: "(nat \<times> u32) list option"

definition CSTRING_HASHSIZE :: u32 where "CSTRING_HASHSIZE = 1022"

section \<open>Lookup\<close>

text \<open>
  A string and the zeros behind it, up to \<open>len\<close> bytes; the first block that is not full and has room
  takes it, those that do not have room are full from then on.
\<close>

definition padded :: "c_string \<Rightarrow> u32 \<Rightarrow> u8 list" where
  "padded s len = s @ replicate (unat len - length s) 0"

fun place_cstring :: "u32 \<Rightarrow> u32 \<Rightarrow> u8 list \<Rightarrow> cstring_block list \<Rightarrow> cstring_block list" where
  "place_cstring pagesize len bytes [] =
     (let sz = (if len > pagesize then len else pagesize)
      in [\<lparr>cblock_size = sz, cblock_used = len, cblock_full = (len = sz), cblock_strings = bytes\<rparr>])"
| "place_cstring pagesize len bytes (b # bs) =
     (if cblock_full b then b # place_cstring pagesize len bytes bs
      else if len > cblock_size b - cblock_used b
        then b\<lparr>cblock_full := True\<rparr> # place_cstring pagesize len bytes bs
      else b\<lparr>cblock_strings := cblock_strings b @ bytes, cblock_used := cblock_used b + len\<rparr> # bs)"

definition lookup_cstring ::
  "u32 \<Rightarrow> c_string \<Rightarrow> cstring_data \<times> merged_section \<Rightarrow> u32 \<times> cstring_data \<times> merged_section" where
  "lookup_cstring pagesize s st =
     (let (data, ms) = st;
          table = (case hashtable data of None \<Rightarrow> replicate (unat CSTRING_HASHSIZE) [] | Some t \<Rightarrow> t);
          data = data\<lparr>hashtable := Some table\<rparr>;
          hashval = unat (hash_string s mod CSTRING_HASHSIZE)
      in case List.find (\<lambda>bp. cb_string bp = s) (table ! hashval) of
           Some bp \<Rightarrow> (cb_offset bp, data, ms)
         | None \<Rightarrow>
             let cstring_len = of_nat (length s) + 1;
                 len = round_up cstring_len (push_bit (unat (ms_align ms)) 1);
                 blocks = place_cstring pagesize len (padded s len) (cstring_blocks data);
                 bp = \<lparr>cb_string = s, cb_offset = ms_size ms\<rparr>
             in (ms_size ms,
                 data\<lparr>hashtable := Some (table[hashval := bp # table ! hashval]), cstring_blocks := blocks\<rparr>,
                 ms\<lparr>ms_size := ms_size ms + len\<rparr>))"

section \<open>Merging and output\<close>

text \<open>The strings of a section of which the last byte is zero.\<close>

function cstring_items :: "nat \<Rightarrow> u8 list \<Rightarrow> (u32 \<times> c_string) list" where
  "cstring_items p bs =
     (if bs = [] then []
      else let s = takeWhile (\<lambda>c. c \<noteq> 0) bs
           in (of_nat p, s) # cstring_items (p + length s + 1) (drop (length s + 1) bs))"
  by pat_completeness auto

termination by (relation "measure (\<lambda>(p, bs). length bs)") auto

declare cstring_items.simps [simp del]

definition cstring_merge ::
  "u32 \<Rightarrow> bool \<Rightarrow> mem \<Rightarrow> u32 \<Rightarrow> u32 \<Rightarrow> section_map \<Rightarrow> cstring_data \<times> merged_section \<Rightarrow>
     (literal_error, section_map \<times> cstring_data \<times> merged_section) check" where
  "cstring_merge pagesize redo_live obj soff ssize sm st =
     (if ssize = 0 then CHECK_GOOD (if redo_live then sm else sm\<lparr>fine_relocs := []\<rparr>, st)
      else and_then (or_fault (get_bytes obj (unat soff) (unat ssize))) (\<lambda>bs.
        if last bs \<noteq> 0 then CHECK_BAD Not_terminated
        else
          let items = cstring_items 0 bs;
              (frs, st) = (if \<not> redo_live then merge_new (lookup_cstring pagesize) items st
                           else merge_live (lookup_cstring pagesize) (fine_relocs sm) items st)
          in CHECK_GOOD (sm\<lparr>fine_relocs := frs\<rparr>, st)))"

definition write_bytes :: "mem \<Rightarrow> u32 \<Rightarrow> u8 list \<Rightarrow> mem option" where
  "write_bytes buf off bs = (if unat off + length bs \<le> length buf then Some (put_bytes buf (unat off) bs) else None)"

fun output_cstrings :: "cstring_block list \<Rightarrow> u32 \<Rightarrow> mem \<Rightarrow> mem option" where
  "output_cstrings [] off buf = Some buf"
| "output_cstrings (b # bs) off buf =
     (case write_bytes buf off (take (unat (cblock_used b)) (cblock_strings b)) of
        None \<Rightarrow> None
      | Some buf \<Rightarrow> output_cstrings bs (off + cblock_used b) buf)"

definition cstring_free :: "cstring_data \<Rightarrow> cstring_data" where
  "cstring_free data = data\<lparr>hashtable := None, cstring_blocks := []\<rparr>"

definition cstring_output ::
  "cstring_data \<times> merged_section \<Rightarrow> mem \<Rightarrow> ((cstring_data \<times> merged_section) \<times> mem) option" where
  "cstring_output st buf =
     map_option (Pair (cstring_free (fst st), snd st))
       (output_cstrings (cstring_blocks (fst st)) (ms_offset (snd st)) buf)"

section \<open>Strings side by side\<close>

text \<open>What a string takes in a section of an alignment, and the strings in the bytes of one.\<close>

definition string_width :: "u32 \<Rightarrow> c_string \<Rightarrow> nat" where
  "string_width align s = (length s + 2 ^ unat align) div 2 ^ unat align * 2 ^ unat align"

definition pad :: "u32 \<Rightarrow> c_string \<Rightarrow> u8 list" where
  "pad align s = s @ replicate (string_width align s - length s) 0"

lemma string_width_less: "length s < string_width align s"
proof -
  have "length s + 2 ^ unat align < string_width align s + 2 ^ unat align"
    unfolding string_width_def by (metis dividend_less_div_times add.commute mult.commute zero_less_numeral zero_less_power)
  then show ?thesis by simp
qed

function strings_in :: "u32 \<Rightarrow> u8 list \<Rightarrow> c_string list" where
  "strings_in align bs =
     (if bs = [] then []
      else let s = takeWhile (\<lambda>c. c \<noteq> 0) bs in s # strings_in align (drop (string_width align s) bs))"
  by pat_completeness auto

termination
  by (relation "measure (\<lambda>(align, bs). length bs)")
    (auto intro: diff_less dest: less_le_trans [OF string_width_less] intro!: le_less_trans [OF _ string_width_less])

declare strings_in.simps [simp del]

lemma length_pad: "length (pad align s) = string_width align s"
  using string_width_less [of s align] by (simp add: pad_def)

lemma takeWhile_pad: "c_string_ok s \<Longrightarrow> takeWhile (\<lambda>c. c \<noteq> 0) (pad align s @ bs) = s"
  using string_width_less [of s align]
  by (cases "string_width align s - length s") (auto simp: pad_def c_string_ok_def takeWhile_append)

lemma strings_in_pads: "list_all c_string_ok ss \<Longrightarrow> strings_in align (concat (map (pad align) ss)) = ss"
proof (induction ss)
  case Nil
  then show ?case by (simp add: strings_in.simps)
next
  case (Cons s ss)
  have "pad align s \<noteq> []" using length_pad [of align s] string_width_less [of s align] by force
  then show ?case
    using Cons takeWhile_pad [of s align "concat (map (pad align) ss)"]
    by (subst strings_in.simps) (simp add: Let_def flip: length_pad)
qed

section \<open>The contract\<close>

text \<open>
  Of the blocks only the last has room; the table has every string of the section under its hash
  code, with its offset.
\<close>

definition section_bytes :: "cstring_data \<Rightarrow> u8 list" where
  "section_bytes data = concat (map cblock_strings (cstring_blocks data))"

definition strings_of :: "cstring_data \<times> merged_section \<Rightarrow> c_string list" where
  "strings_of st = strings_in (ms_align (snd st)) (section_bytes (fst st))"

fun blocks_ok :: "cstring_block list \<Rightarrow> bool" where
  "blocks_ok [] \<longleftrightarrow> True"
| "blocks_ok (b # bs) \<longleftrightarrow>
     unat (cblock_used b) = length (cblock_strings b) \<and> cblock_used b \<le> cblock_size b \<and>
     (bs \<noteq> [] \<longrightarrow> cblock_full b) \<and> blocks_ok bs"

definition hash_of :: "c_string \<Rightarrow> nat" where
  "hash_of s = unat (hash_string s mod CSTRING_HASHSIZE)"

definition table_ok :: "(c_string \<Rightarrow> nat) \<Rightarrow> c_string list \<Rightarrow> cstring_bucket list list \<Rightarrow> bool" where
  "table_ok w ss t \<longleftrightarrow>
     length t = 1022 \<and>
     (\<forall>h < 1022. \<forall>bp \<in> set (t ! h). hash_of (cb_string bp) = h \<and> cb_string bp \<in> set ss \<and>
        unat (cb_offset bp) = offset_of w ss (cb_string bp)) \<and>
     (\<forall>s \<in> set ss. s \<in> cb_string ` set (t ! hash_of s))"

definition cstring_inv :: "u32 \<Rightarrow> cstring_data \<times> merged_section \<Rightarrow> bool" where
  "cstring_inv align st \<longleftrightarrow>
     unat align < 32 \<and> ms_align (snd st) = align \<and>
     list_all c_string_ok (strings_of st) \<and> distinct (strings_of st) \<and>
     section_bytes (fst st) = concat (map (pad align) (strings_of st)) \<and>
     blocks_ok (cstring_blocks (fst st)) \<and> unat (ms_size (snd st)) = length (section_bytes (fst st)) \<and>
     (case hashtable (fst st) of None \<Rightarrow> strings_of st = []
      | Some t \<Rightarrow> table_ok (string_width align) (strings_of st) t)"

lemma hash_of_less: "hash_of s < 1022"
proof -
  have "unat (hash_string s mod 1022) < unat (1022 :: u32)" by (intro unat_mono word_mod_less_divisor) simp
  then show ?thesis by (simp add: hash_of_def CSTRING_HASHSIZE_def)
qed

lemma length_pads: "length (concat (map (pad align) ss)) = extent (string_width align) ss"
  by (induction ss) (simp_all add: length_pad)

lemma place_cstring_ok:
  assumes "blocks_ok bs" and "length bytes = unat len"
  shows "blocks_ok (place_cstring pagesize len bytes bs) \<and> place_cstring pagesize len bytes bs \<noteq> [] \<and>
    concat (map cblock_strings (place_cstring pagesize len bytes bs)) = concat (map cblock_strings bs) @ bytes"
  using assms
proof (induction bs)
  case Nil
  then show ?case by (auto simp: Let_def)
next
  case (Cons b bs)
  show ?case
  proof (cases "cblock_full b \<or> len > cblock_size b - cblock_used b")
    case True
    then show ?thesis using Cons by auto
  next
    case False
    then have "unat len \<le> unat (cblock_size b) - unat (cblock_used b)" "unat (cblock_used b) \<le> unat (cblock_size b)"
      using Cons.prems by (auto simp: word_le_nat_alt unat_sub not_less)
    then have "unat (cblock_used b + len) = unat (cblock_used b) + unat len"
      "unat (cblock_used b) + unat len \<le> unat (cblock_size b)"
      using unsigned_less [of "cblock_size b", where ?'a = nat] by (simp_all add: unat_word_ariths)
    then show ?thesis using Cons.prems False by (auto simp: word_le_nat_alt)
  qed
qed

lemma round_up_string:
  assumes "unat align < 32" and "string_width align s < 2 ^ 32"
  shows "unat (round_up (of_nat (length s) + 1) (push_bit (unat align) 1)) = string_width align s"
proof -
  let ?A = "2 ^ unat align :: nat"
  have len: "unat (of_nat (length s) + 1 :: u32) = length s + 1"
    using string_width_less [of s align] assms(2) by (simp add: unat_word_ariths unat_of_nat)
  have "length s + ?A < 2 ^ 32"
  proof -
    define q where "q = (length s + ?A) div ?A"
    have split: "length s + ?A = q * ?A + (length s + ?A) mod ?A"
      by (simp only: q_def div_mult_mod_eq)
    have 32: "(2 :: nat) ^ 32 = 2 ^ (32 - unat align) * ?A" using assms(1) by (simp flip: power_add)
    have "q * ?A < 2 ^ (32 - unat align) * ?A" using assms(2) unfolding 32 by (simp add: string_width_def q_def)
    then have "Suc q \<le> 2 ^ (32 - unat align)" by simp
    then have "Suc q * ?A \<le> 2 ^ 32" unfolding 32 by (rule mult_le_mono1)
    then have "q * ?A + ?A \<le> 2 ^ 32" by simp
    moreover have "(length s + ?A) mod ?A < ?A" by (rule mod_less_divisor) simp
    ultimately show ?thesis using split by linarith
  qed
  then show ?thesis
    using round_up_power [OF assms(1), of "of_nat (length s) + 1"] len
    by (simp add: string_width_def)
qed

lemma find_bucket_Some:
  assumes "table_ok w ss t" and "List.find (\<lambda>bp. cb_string bp = s) (t ! hash_of s) = Some bp"
  shows "s \<in> set ss" and "unat (cb_offset bp) = offset_of w ss s"
proof -
  have bp: "bp \<in> set (t ! hash_of s)" "cb_string bp = s"
    using assms(2) nth_mem by (auto simp: find_Some_iff)
  have "cb_string bp \<in> set ss \<and> unat (cb_offset bp) = offset_of w ss (cb_string bp)"
    using assms(1) bp(1) hash_of_less [of s] unfolding table_ok_def by blast
  then show "s \<in> set ss" "unat (cb_offset bp) = offset_of w ss s" by (simp_all add: bp(2))
qed

lemma find_bucket_None:
  assumes "table_ok w ss t" and "List.find (\<lambda>bp. cb_string bp = s) (t ! hash_of s) = None"
  shows "s \<notin> set ss"
proof
  assume "s \<in> set ss"
  then have "s \<in> cb_string ` set (t ! hash_of s)" using assms(1) by (simp add: table_ok_def)
  then show False using assms(2) by (auto simp: find_None_iff)
qed

lemma table_ok_insert:
  assumes "table_ok w ss t" and "s \<notin> set ss" and "unat off = extent w ss"
  shows "table_ok w (ss @ [s]) (t[hash_of s := \<lparr>cb_string = s, cb_offset = off\<rparr> # t ! hash_of s])"
proof -
  let ?t = "t[hash_of s := \<lparr>cb_string = s, cb_offset = off\<rparr> # t ! hash_of s]"
  have len: "length t = 1022" using assms(1) by (simp add: table_ok_def)
  have set_t: "set (?t ! h) =
      (if h = hash_of s then insert \<lparr>cb_string = s, cb_offset = off\<rparr> (set (t ! h)) else set (t ! h))"
    if "h < 1022" for h
    using that by (simp add: nth_list_update len)
  have old: "hash_of (cb_string bp) = h \<and> cb_string bp \<in> set (ss @ [s]) \<and>
      unat (cb_offset bp) = offset_of w (ss @ [s]) (cb_string bp)" if "h < 1022" "bp \<in> set (t ! h)" for h bp
    using assms(1) that by (simp add: table_ok_def offset_of_append)
  have new: "unat off = offset_of w (ss @ [s]) s"
    using assms(2,3) by (simp add: offset_of_append offset_of_Cons)
  show ?thesis
    unfolding table_ok_def
  proof (intro conjI allI impI ballI)
    show "length ?t = 1022" by (simp add: len)
    fix x assume "x \<in> set (ss @ [s])"
    then have "x = s \<or> x \<in> cb_string ` set (t ! hash_of x)" using assms(1) by (auto simp: table_ok_def)
    then show "x \<in> cb_string ` set (?t ! hash_of x)" using set_t [OF hash_of_less, of x] by force
  next
    fix h bp assume h: "h < (1022 :: nat)" and bp: "bp \<in> set (?t ! h)"
    consider "h = hash_of s" "bp = \<lparr>cb_string = s, cb_offset = off\<rparr>" | "bp \<in> set (t ! h)"
      using set_t [OF h] bp by (auto split: if_splits)
    then have "hash_of (cb_string bp) = h \<and> cb_string bp \<in> set (ss @ [s]) \<and>
        unat (cb_offset bp) = offset_of w (ss @ [s]) (cb_string bp)"
      using old [OF h] new by cases simp_all
    then show "hash_of (cb_string bp) = h" "cb_string bp \<in> set (ss @ [s])"
      "unat (cb_offset bp) = offset_of w (ss @ [s]) (cb_string bp)" by simp_all
  qed
qed

lemma table_irrelevant [simp]:
  "section_bytes (data\<lparr>hashtable := x\<rparr>) = section_bytes data"
  "strings_of (data\<lparr>hashtable := x\<rparr>, ms) = strings_of (data, ms)"
  by (simp_all add: strings_of_def section_bytes_def)

lemma lookup_cstring_pool:
  assumes "cstring_inv align st" and "c_string_ok s"
    and "extent (string_width align) (strings_of st) + string_width align s < 2 ^ 32"
    and "lookup_cstring pagesize s st = (off, st')"
  shows "cstring_inv align st' \<and> strings_of st' = enter s (strings_of st) \<and>
    unat off = offset_of (string_width align) (strings_of st') s"
proof -
  let ?w = "string_width align" and ?ss = "strings_of st"
  obtain data ms where st: "st = (data, ms)" by force
  note inv = assms(1) [unfolded cstring_inv_def st fst_conv snd_conv]
  define t where "t = (case hashtable data of None \<Rightarrow> replicate (unat CSTRING_HASHSIZE) [] | Some t \<Rightarrow> t)"
  have t: "table_ok ?w ?ss t"
    using inv hash_of_less by (auto simp: t_def st table_ok_def CSTRING_HASHSIZE_def split: option.splits)
  show ?thesis
  proof (cases "List.find (\<lambda>bp. cb_string bp = s) (t ! hash_of s)")
    case (Some bp)
    then have "off = cb_offset bp" "st' = (data\<lparr>hashtable := Some t\<rparr>, ms)"
      using assms(4) by (simp_all add: lookup_cstring_def st Let_def hash_of_def flip: t_def)
    then show ?thesis
      using find_bucket_Some [OF t Some] inv t by (simp add: cstring_inv_def enter_def st)
  next
    case None
    note new = find_bucket_None [OF t None]
    define len where "len = round_up (of_nat (length s) + 1) (push_bit (unat align) 1)"
    have len: "unat len = ?w s" using round_up_string [of align s] inv assms(3) by (simp add: len_def)
    have bytes: "padded s len = pad align s" by (simp add: padded_def pad_def len)
    define blocks where "blocks = place_cstring pagesize len (pad align s) (cstring_blocks data)"
    have "(off, st') = (ms_size ms, data\<lparr>hashtable := Some (t[hash_of s := \<lparr>cb_string = s, cb_offset = ms_size ms\<rparr> # t ! hash_of s]),
        cstring_blocks := blocks\<rparr>, ms\<lparr>ms_size := ms_size ms + len\<rparr>)"
      using assms(4) [symmetric] None inv bytes
      by (simp add: lookup_cstring_def st Let_def blocks_def len_def hash_of_def flip: t_def)
    then have st': "st' = (data\<lparr>hashtable := Some (t[hash_of s := \<lparr>cb_string = s, cb_offset = ms_size ms\<rparr> # t ! hash_of s]),
        cstring_blocks := blocks\<rparr>, ms\<lparr>ms_size := ms_size ms + len\<rparr>)" and off: "off = ms_size ms"
      by blast+
    have placed: "blocks_ok blocks" "concat (map cblock_strings blocks) = section_bytes data @ pad align s"
      using place_cstring_ok [of "cstring_blocks data" "pad align s" len pagesize] inv len
      by (simp_all add: blocks_def section_bytes_def length_pad)
    have size: "unat (ms_size ms) = extent ?w ?ss" using inv by (simp add: st length_pads)
    have all: "section_bytes (fst st') = concat (map (pad align) (?ss @ [s]))"
      using inv placed(2) by (simp add: st' section_bytes_def st)
    moreover have ok: "list_all c_string_ok (?ss @ [s])" using inv assms(2) by (simp add: st)
    ultimately have ss: "strings_of st' = ?ss @ [s]"
      using strings_in_pads [OF ok, of align] inv by (simp add: strings_of_def st')
    have "unat (ms_size ms + len) = length (section_bytes (fst st'))"
      unfolding all length_pads using size len assms(3) by (simp add: unat_word_ariths)
    then have "cstring_inv align st'"
      using inv ok ss all placed(1) new table_ok_insert [OF t new, of "ms_size ms"] size
      by (simp add: cstring_inv_def st' st)
    then show ?thesis using new size by (simp add: ss enter_def off offset_of_append offset_of_Cons)
  qed
qed

section \<open>Output\<close>

lemma put_bytes_append:
  assumes "a + length xs + length ys \<le> length m"
  shows "put_bytes (put_bytes m a xs) (a + length xs) ys = put_bytes m a (xs @ ys)"
  using assms by (intro nth_equalityI) (auto simp: nth_put_bytes nth_append)

lemma output_cstrings_bytes:
  assumes "output_cstrings bs off buf = Some buf'" and "blocks_ok bs"
    and "unat off + length (concat (map cblock_strings bs)) < 2 ^ 32" and "bs \<noteq> []"
  shows "buf' = put_bytes buf (unat off) (concat (map cblock_strings bs)) \<and>
    unat off + length (concat (map cblock_strings bs)) \<le> length buf"
  using assms
proof (induction bs arbitrary: off buf)
  case (Cons b bs)
  have used: "unat (cblock_used b) = length (cblock_strings b)" "blocks_ok bs" using Cons.prems(2) by simp_all
  obtain buf1 where buf1: "write_bytes buf off (cblock_strings b) = Some buf1"
    "output_cstrings bs (off + cblock_used b) buf1 = Some buf'"
    using Cons.prems(1) used(1) by (auto split: option.splits)
  then have w: "buf1 = put_bytes buf (unat off) (cblock_strings b)" "unat off + length (cblock_strings b) \<le> length buf"
    by (simp_all add: write_bytes_def split: if_splits)
  have off: "unat (off + cblock_used b) = unat off + length (cblock_strings b)"
    using Cons.prems(3) used(1) by (simp add: unat_word_ariths)
  show ?case
  proof (cases "bs = []")
    case True
    then show ?thesis using buf1 w by simp
  next
    case False
    then show ?thesis using Cons.IH [OF buf1(2) used(2)] Cons.prems(3) off w
      by (simp add: put_bytes_append add.assoc)
  qed
qed simp

text \<open>A string of the section stands where the lookup said.\<close>

lemma pads_nth:
  assumes "s \<in> set ss" and "r < length s + 1"
  shows "concat (map (pad align) ss) ! (offset_of (string_width align) ss s + r) = (s @ [0]) ! r"
proof -
  obtain before rest where ss: "ss = before @ s # rest" "s \<notin> set before"
    using split_list_first [OF assms(1)] by blast
  then have "offset_of (string_width align) ss s = length (concat (map (pad align) before))"
    by (simp add: offset_of_append offset_of_Cons length_pads)
  then have "concat (map (pad align) ss) ! (offset_of (string_width align) ss s + r) =
      (pad align s @ concat (map (pad align) rest)) ! r"
    by (simp add: ss(1) nth_append)
  also have "\<dots> = (s @ [0]) ! r"
    using assms(2) string_width_less [of s align] by (auto simp: pad_def nth_append length_pad less_Suc_eq)
  finally show ?thesis .
qed

definition cstring_writer :: "u32 \<Rightarrow> cstring_data \<times> merged_section \<Rightarrow> mem \<Rightarrow> mem option" where
  "cstring_writer base st buf = map_option snd (cstring_output (fst st, (snd st)\<lparr>ms_offset := base\<rparr>) buf)"

lemma cstring_writer_pool:
  assumes "cstring_inv align st" and "unat base + extent (string_width align) (strings_of st) < 2 ^ 32"
    and "cstring_writer base st buf = Some buf'" and s: "s \<in> set (strings_of st)" and r: "r < length (s @ [0])"
  shows "buf' ! (unat base + offset_of (string_width align) (strings_of st) s + r) = (s @ [0]) ! r"
proof -
  let ?bs = "cstring_blocks (fst st)" and ?w = "string_width align" and ?ss = "strings_of st"
  have inv: "section_bytes (fst st) = concat (map (pad align) ?ss)" "blocks_ok ?bs"
    using assms(1) by (simp_all add: cstring_inv_def)
  have len: "length (section_bytes (fst st)) = extent ?w ?ss" by (simp add: inv(1) length_pads)
  have "?bs \<noteq> []"
    using s by (auto simp: strings_of_def section_bytes_def strings_in.simps)
  moreover have "output_cstrings ?bs base buf = Some buf'"
    using assms(3) by (auto simp: cstring_writer_def cstring_output_def)
  ultimately have buf': "buf' = put_bytes buf (unat base) (section_bytes (fst st))"
    "unat base + extent ?w ?ss \<le> length buf"
    using output_cstrings_bytes [of ?bs base buf buf'] inv(2) assms(2) len
    by (simp_all add: section_bytes_def)
  have "offset_of ?w ?ss s + r < extent ?w ?ss"
    using offset_of_fits [OF s, of ?w] string_width_less [of s align] r by simp
  then show ?thesis
    using pads_nth [OF s] buf' len r by (simp add: nth_put_bytes inv(1) add.assoc)
qed

interpretation cstring_section: literal_section "lookup_cstring pagesize" strings_of "string_width align"
  "cstring_inv align" c_string_ok "\<lambda>s. s @ [0]" cstring_writer for pagesize align
proof unfold_locales
  show "s @ [0] \<noteq> []" for s :: c_string by simp
  show "cstring_inv align st \<Longrightarrow> distinct (strings_of st)" for st by (simp add: cstring_inv_def)
qed (rule lookup_cstring_pool cstring_writer_pool; assumption)+

section \<open>From the input files to the output file\<close>

lemma takeWhile_string:
  assumes "bs \<noteq> []" and "last bs = 0" and "s = takeWhile (\<lambda>c. c \<noteq> 0) bs"
  shows "c_string_ok s" and "bs = s @ [0] @ drop (length s + 1) bs"
    and "drop (length s + 1) bs \<noteq> [] \<longrightarrow> last (drop (length s + 1) bs) = (0 :: u8)"
proof -
  have "0 \<in> set bs" using assms(1,2) last_in_set by force
  then have "dropWhile (\<lambda>c. c \<noteq> 0) bs \<noteq> []" "hd (dropWhile (\<lambda>c. c \<noteq> 0) bs) = 0"
    using hd_dropWhile [of "\<lambda>c. c \<noteq> 0" bs] by (auto simp: dropWhile_eq_Nil_conv)
  then obtain rest where rest: "dropWhile (\<lambda>c. c \<noteq> 0) bs = 0 # rest" by (metis list.collapse)
  then have bs: "bs = s @ 0 # rest" using takeWhile_dropWhile_id [of "\<lambda>c. c \<noteq> 0" bs] assms(3) by simp
  show "c_string_ok s" using assms(3) by (auto simp: c_string_ok_def dest: set_takeWhileD)
  show "bs = s @ [0] @ drop (length s + 1) bs"
    using bs by (metis append.assoc append_Cons append_Nil append_eq_conv_conj length_append_singleton Suc_eq_plus1)
  show "drop (length s + 1) bs \<noteq> [] \<longrightarrow> last (drop (length s + 1) bs) = 0"
    using assms(2) by (simp add: last_drop)
qed

lemma cstring_items_facts:
  assumes "bs = [] \<or> last bs = 0" and "p + length bs < 2 ^ 31"
  shows "side_by_side (\<lambda>s. s @ [0]) p (cstring_items p bs) \<and>
    list_all c_string_ok (map snd (cstring_items p bs)) \<and>
    (\<forall>i < length bs. \<exists>j start s r. j < length (cstring_items p bs) \<and> cstring_items p bs ! j = (start, s) \<and>
      r < length (s @ [0]) \<and> start + of_nat r = of_nat (p + i) \<and> (s @ [0]) ! r = bs ! i)"
  using assms
proof (induction p bs rule: cstring_items.induct)
  case (1 p bs)
  show ?case
  proof (cases "bs = []")
    case True
    then show ?thesis by (simp add: cstring_items.simps)
  next
    case False
    define s where "s = takeWhile (\<lambda>c. c \<noteq> 0) bs"
    let ?rest = "drop (length s + 1) bs"
    have last: "last bs = 0" using 1(2) False by simp
    note str = takeWhile_string [OF False last s_def]
    have items: "cstring_items p bs = (of_nat p, s) # cstring_items (p + length s + 1) ?rest"
      using False by (subst cstring_items.simps) (simp add: Let_def s_def)
    have len: "length bs = length s + 1 + length ?rest" by (subst str(2)) simp
    have IH: "side_by_side (\<lambda>s. s @ [0]) (p + length s + 1) (cstring_items (p + length s + 1) ?rest) \<and>
      list_all c_string_ok (map snd (cstring_items (p + length s + 1) ?rest)) \<and>
      (\<forall>i < length ?rest. \<exists>j start s' r. j < length (cstring_items (p + length s + 1) ?rest) \<and>
        cstring_items (p + length s + 1) ?rest ! j = (start, s') \<and>
        r < length (s' @ [0]) \<and> start + of_nat r = of_nat (p + length s + 1 + i) \<and> (s' @ [0]) ! r = ?rest ! i)"
    proof (rule 1(1) [OF False s_def])
      show "?rest = [] \<or> last ?rest = 0" using str(3) by blast
      show "p + length s + 1 + length ?rest < 2 ^ 31" using 1(3) len by linarith
    qed
    have "\<exists>j start s' r. j < length (cstring_items p bs) \<and> cstring_items p bs ! j = (start, s') \<and>
        r < length (s' @ [0]) \<and> start + of_nat r = of_nat (p + i) \<and> (s' @ [0]) ! r = bs ! i"
      if i: "i < length bs" for i
    proof (cases "i < length s + 1")
      case True
      then have "bs ! i = (s @ [0]) ! i" by (subst str(2)) (simp add: nth_append)
      then have "0 < length (cstring_items p bs) \<and> cstring_items p bs ! 0 = (of_nat p, s) \<and>
          i < length (s @ [0]) \<and> of_nat p + (of_nat i :: u32) = of_nat (p + i) \<and> (s @ [0]) ! i = bs ! i"
        using True by (simp add: items)
      then show ?thesis by blast
    next
      case i_rest: False
      define k where "k = i - (length s + 1)"
      have k: "i = length s + 1 + k" "k < length ?rest" using i i_rest len unfolding k_def by linarith+
      obtain j start s' r where j: "j < length (cstring_items (p + length s + 1) ?rest)"
        "cstring_items (p + length s + 1) ?rest ! j = (start, s')"
        "r < length (s' @ [0])" "start + of_nat r = of_nat (p + length s + 1 + k)" "(s' @ [0]) ! r = ?rest ! k"
        using IH k(2) by blast
      have "bs ! i = ?rest ! k" using i by (simp add: k(1))
      moreover have at: "p + length s + 1 + k = p + i" by (simp add: k(1))
      ultimately have "Suc j < length (cstring_items p bs) \<and> cstring_items p bs ! Suc j = (start, s') \<and>
          r < length (s' @ [0]) \<and> start + of_nat r = of_nat (p + i) \<and> (s' @ [0]) ! r = bs ! i"
        using j(1-3,5) j(4) [unfolded at] by (simp add: items)
      then show ?thesis by blast
    qed
    moreover have "side_by_side (\<lambda>s. s @ [0]) p (cstring_items p bs)"
    proof -
      have "unat (of_nat p :: u32) = p" using 1(3) by (simp add: unat_of_nat)
      moreover have "p + length (s @ [0]) < 2 ^ 31" using 1(3) len by (simp only: length_append_singleton)
      ultimately show ?thesis using conjunct1 [OF IH] by (simp add: items)
    qed
    moreover have "list_all c_string_ok (map snd (cstring_items p bs))"
      using conjunct1 [OF conjunct2 [OF IH]] str(1) by (simp add: items)
    ultimately show ?thesis by blast
  qed
qed

text \<open>The strings of the sections of a run of merges.\<close>

definition input_strings :: "mem \<times> u32 \<times> u32 \<times> section_map \<Rightarrow> (u32 \<times> c_string) list" where
  "input_strings = (\<lambda>(obj, off, sz, sm). cstring_items 0 (take (unat sz) (drop (unat off) obj)))"

lemma cstring_merge_new:
  assumes "cstring_merge pagesize False obj off sz sm st = CHECK_GOOD (sm', st')"
  shows "merge_new (lookup_cstring pagesize) (input_strings (obj, off, sz, sm)) st = (fine_relocs sm', st')"
    and "sm_flags sm' = sm_flags sm"
    and "sz \<noteq> 0 \<longrightarrow> unat off + unat sz \<le> length obj \<and> last (take (unat sz) (drop (unat off) obj)) = 0"
proof -
  let ?items = "input_strings (obj, off, sz, sm)"
  have "merge_new (lookup_cstring pagesize) ?items st = (fine_relocs sm', st') \<and> sm_flags sm' = sm_flags sm \<and>
    (sz \<noteq> 0 \<longrightarrow> unat off + unat sz \<le> length obj \<and> last (take (unat sz) (drop (unat off) obj)) = 0)"
  proof (cases "sz = 0")
    case True
    then show ?thesis using assms by (auto simp: cstring_merge_def input_strings_def cstring_items.simps)
  next
    case False
    obtain bs where bs: "get_bytes obj (unat off) (unat sz) = Some bs" "last bs = 0"
      and m: "(let (frs, st) = merge_new (lookup_cstring pagesize) (cstring_items 0 bs) st
        in CHECK_GOOD (sm\<lparr>fine_relocs := frs\<rparr>, st)) = (CHECK_GOOD (sm', st') :: (literal_error, _) check)"
      using assms False by (simp add: cstring_merge_def and_then_GOOD_iff Let_def split: if_split_asm)
    have bytes: "unat off + unat sz \<le> length obj" "bs = take (unat sz) (drop (unat off) obj)"
      using bs(1) by (simp_all add: get_bytes_def split: if_split_asm)
    obtain frs st1 where new: "merge_new (lookup_cstring pagesize) (cstring_items 0 bs) st = (frs, st1)"
      by (metis surj_pair)
    then have "sm' = sm\<lparr>fine_relocs := frs\<rparr>" "st' = st1" using m by simp_all
    then show ?thesis using new bytes bs(2) by (simp add: input_strings_def cong: if_cong)
  qed
  then show "merge_new (lookup_cstring pagesize) ?items st = (fine_relocs sm', st')" "sm_flags sm' = sm_flags sm"
    "sz \<noteq> 0 \<longrightarrow> unat off + unat sz \<le> length obj \<and> last (take (unat sz) (drop (unat off) obj)) = 0" by blast+
qed

lemma cstring_sections_new:
  assumes "merge_sections (cstring_merge pagesize False) secs st = CHECK_GOOD (sms, st')"
  shows "merge_all (lookup_cstring pagesize) (map input_strings secs) st = (map fine_relocs sms, st') \<and>
    list_all2 (\<lambda>(obj, off, sz, sm) sm'. sm_flags sm' = sm_flags sm \<and>
      (sz \<noteq> 0 \<longrightarrow> unat off + unat sz \<le> length obj \<and> last (take (unat sz) (drop (unat off) obj)) = 0)) secs sms"
  using assms
proof (induction secs arbitrary: st sms)
  case (Cons sec rest)
  obtain obj off sz sm where sec: "sec = (obj, off, sz, sm)" by (metis prod_cases4)
  obtain sm1 st1 sms1 where 1: "cstring_merge pagesize False obj off sz sm st = CHECK_GOOD (sm1, st1)"
    and 2: "merge_sections (cstring_merge pagesize False) rest st1 = CHECK_GOOD (sms1, st')" "sms = sm1 # sms1"
    using Cons.prems by (auto simp: sec and_then_GOOD_iff)
  show ?case
    using cstring_merge_new [OF 1] Cons.IH [OF 2(1)] by (simp add: sec 2(2))
qed simp

text \<open>
  C12: The linker puts a string where its map says: when the sections of strings of the input files are
  merged and the section is written, the byte of the output file at the output offset of a byte of an
  input section, in a string or the zero behind it, is that byte.
\<close>

theorem cstring_linked:
  assumes merged: "merge_sections (cstring_merge pagesize False) secs st0 = CHECK_GOOD (sms, st)"
    and written: "cstring_output (fst st, (snd st)\<lparr>ms_offset := base\<rparr>) buf = Some (st', buf')"
    and start: "cstring_inv align st0"
    and room: "unat base + extent (string_width align) (strings_of st0 @ map snd (concat (map input_strings secs))) < 2 ^ 32"
    and small: "list_all (\<lambda>(obj, off, sz, sm). sz < 0x80000000) secs"
    and k: "k < length secs" and sec: "secs ! k = (obj, off, sz, sm)" and "\<not> of_indirect_type sm"
    and i: "i < unat sz"
  shows "\<exists>out. fine_reloc_output_offset False size' (sms ! k) (of_nat i) = Some out \<and>
    buf' ! (unat base + unat out) = obj ! (unat off + i)"
proof -
  let ?w = "string_width align" and ?itss = "map input_strings secs"
  note new = cstring_sections_new [OF merged]
  have len: "length sms = length secs" using new by (auto dest: list_all2_lengthD)
  have at_j: "sm_flags (sms ! j) = sm_flags sm \<and>
      (sz \<noteq> 0 \<longrightarrow> unat off + unat sz \<le> length obj \<and> last (take (unat sz) (drop (unat off) obj)) = 0)"
    if "j < length secs" "secs ! j = (obj, off, sz, sm)" for j obj off sz sm
    using list_all2_nthD [OF conjunct2 [OF new] that(1)] that(2) by simp
  have facts: "side_by_side (\<lambda>s. s @ [0]) 0 (input_strings (obj, off, sz, sm)) \<and>
      list_all c_string_ok (map snd (input_strings (obj, off, sz, sm))) \<and>
      (\<forall>i < unat sz. \<exists>l start s r. l < length (input_strings (obj, off, sz, sm)) \<and>
        input_strings (obj, off, sz, sm) ! l = (start, s) \<and> r < length (s @ [0]) \<and>
        start + of_nat r = of_nat i \<and> (s @ [0]) ! r = obj ! (unat off + i))"
    if j: "j < length secs" "secs ! j = (obj, off, sz, sm)" for j obj off sz sm
  proof -
    let ?bs = "take (unat sz) (drop (unat off) obj)"
    have "sz < 0x80000000" using small j by (auto simp: list_all_length)
    then have "0 + length ?bs < 2 ^ 31" by (simp add: word_less_nat_alt)
    moreover have "?bs = [] \<or> last ?bs = 0" using at_j [OF j] by auto
    ultimately show ?thesis
      using cstring_items_facts [of ?bs 0] at_j [OF j] by (cases "sz = 0") (auto simp: input_strings_def)
  qed
  have kk: "k < length ?itss" "k < length (map fine_relocs sms)" and item_k: "?itss ! k = input_strings (obj, off, sz, sm)"
    using k sec len by simp_all
  note at_k = at_j [OF k sec] and facts_k = facts [OF k sec]
  obtain l start s r where l: "l < length (?itss ! k)" "?itss ! k ! l = (start, s)" "r < length (s @ [0])"
    and byte: "start + of_nat r = of_nat i" "(s @ [0]) ! r = obj ! (unat off + i)"
    using facts_k i item_k by metis
  have valid: "list_all c_string_ok (map snd (concat ?itss))"
  proof -
    have "list_all c_string_ok (map snd (input_strings sec))" if sec: "sec \<in> set secs" for sec
    proof -
      obtain j where "j < length secs" "secs ! j = sec" using sec by (metis in_set_conv_nth)
      then show ?thesis using facts by (metis prod_cases4)
    qed
    then show ?thesis by (fastforce simp: list_all_iff)
  qed
  have total: "extent ?w (strings_of st0) + extent ?w (map snd (concat ?itss)) < 2 ^ 32" using room by simp
  have st: "strings_of st = enter_all (map snd (concat ?itss)) (strings_of st0)"
    using cstring_section.merge_all_pool [OF start total conjunct1 [OF new] valid] by blast
  have "\<exists>out. fine_reloc_output_offset False size' (sms ! k) (start + of_nat r) = Some out \<and>
      buf' ! (unat base + unat out) = (s @ [0]) ! r"
  proof (rule cstring_section.linked_byte [OF start total conjunct1 [OF new] valid _ _ kk(1) _ _ _ l])
    show "cstring_writer base st buf = Some buf'" using written by (simp add: cstring_writer_def)
    show "unat base + extent ?w (strings_of st) < 2 ^ 32"
      using extent_enter_all [of ?w "map snd (concat ?itss)" "strings_of st0"] room unfolding st by simp
    show "side_by_side (\<lambda>s. s @ [0]) 0 (?itss ! k)" using facts_k item_k by simp
    show "fine_relocs (sms ! k) = map fine_relocs sms ! k" using k len by simp
    show "\<not> of_indirect_type (sms ! k)" using assms(8) at_k by (simp add: of_indirect_type_def)
    show "length (s @ [0]) \<le> ?w s" using string_width_less [of s align] by simp
  qed
  then show ?thesis by (simp only: byte)
qed

section \<open>An example\<close>

text \<open>Two input sections with a string in common, merged into a section aligned to 4 bytes.\<close>

definition no_strings :: "u32 \<Rightarrow> cstring_data \<times> merged_section" where
  "no_strings align = (\<lparr>hashtable = None, cstring_blocks = [], cstring_load_order_data = None\<rparr>, empty_section align)"

definition two_string_inputs :: "(mem \<times> u32 \<times> u32 \<times> section_map) list" where
  "two_string_inputs =
     [([97, 98, 0, 99, 0, 0], 0, 6, empty_map 2), ([7, 100, 101, 102, 103, 0, 99, 0], 1, 7, empty_map 2)]"

definition merged_strings where
  "merged_strings = merge_sections (cstring_merge 4096 False) two_string_inputs (no_strings 2)"

definition section_strings where
  "section_strings = cstring_output
     (fst (snd (good merged_strings)), (snd (snd (good merged_strings)))\<lparr>ms_offset := 3\<rparr>) (replicate 40 255)"

lemma no_strings_inv: "unat align < 32 \<Longrightarrow> cstring_inv align (no_strings align)" "strings_of (no_strings align) = []"
  by (simp_all add: no_strings_def cstring_inv_def strings_of_def section_bytes_def empty_section_def strings_in.simps)

lemma strings_run:
  "is_good merged_strings" "section_strings \<noteq> None"
  by code_simp+

lemma strings_merged:
  "merged_strings = CHECK_GOOD (fst (good merged_strings), snd (good merged_strings))"
  "section_strings = Some (fst (the section_strings), snd (the section_strings))"
  using is_good_pairD [OF strings_run(1)] strings_run(2) by auto

lemma two_string_inputs_ok:
  "two_string_inputs ! 1 = ([7, 100, 101, 102, 103, 0, 99, 0], 1, 7, empty_map 2)" "length two_string_inputs = 2"
  "extent (string_width 2) (map snd (concat (map input_strings two_string_inputs))) = 24"
  "list_all (\<lambda>(obj, off, sz, sm). sz < 0x80000000) two_string_inputs"
  "\<not> of_indirect_type (empty_map 2)"
  by code_simp+

theorem cstring_linked_witness:
  "\<exists>out. fine_reloc_output_offset False 0 (fst (good merged_strings) ! 1) 5 = Some out \<and>
     snd (the section_strings) ! (3 + unat out) = 99"
  using cstring_linked [OF strings_merged(1) [unfolded merged_strings_def]
      strings_merged(2) [unfolded section_strings_def merged_strings_def] no_strings_inv(1) _
      two_string_inputs_ok(4) _ two_string_inputs_ok(1) two_string_inputs_ok(5), where i = 5 and size' = 0]
    two_string_inputs_ok(2,3)
  unfolding merged_strings_def [symmetric] section_strings_def [symmetric]
  by (simp add: no_strings_inv(2))

end
