(* ===== verification/LiteralOrder.thy ===== *)
theory LiteralOrder
  imports FixedLiterals
begin

text \<open>
  Order files and dead stripping of literal sections, \<^verbatim>\<open>ld/4byte_literals.c\<close> and \<^verbatim>\<open>ld/8byte_literals.c\<close>.
  An order file has a literal per line, in hexadecimal; they are entered first.  With
  \<^verbatim>\<open>-dead_strip\<close> the pool is thrown away after all sections are merged, the lines of the order file
  whose literal is live are entered again, and then the live literals of the sections.
\<close>

section \<open>Numbers of an order file\<close>

datatype order_error = No_hex_number | Too_many_digits | Missing_second_number

text \<open>
  A byte of the file; the routine also looks at the one behind the end, which may not be mapped.
\<close>

definition order_byte :: "merged_section \<Rightarrow> nat \<Rightarrow> u8 option" where
  "order_byte ms i = (if i < length (order_addr ms) then Some (order_addr ms ! i) else None)"

definition order_rest :: "merged_section \<Rightarrow> nat \<Rightarrow> u8 list" where
  "order_rest ms i = drop i (take (order_size ms) (order_addr ms))"

definition is_hex :: "u8 \<Rightarrow> bool" where
  "is_hex c \<longleftrightarrow> 48 \<le> c \<and> c \<le> 57 \<or> 97 \<le> c \<and> c \<le> 102 \<or> 65 \<le> c \<and> c \<le> 70"

definition hex_digit :: "u8 \<Rightarrow> u32" where
  "hex_digit c = ucast (if c \<le> 57 then c - 48 else if c \<le> 70 then c - 55 else c - 87)"

definition hex_value :: "u8 list \<Rightarrow> u32" where
  "hex_value ds = foldl (\<lambda>v d. 16 * v + hex_digit d) 0 ds"

text \<open>
  The result has the index behind what was read, the errors that were printed, and the number, if there
  is one; \<open>None\<close> is a read behind the mapped file.
\<close>

definition get_hex_from_sectorder :: "merged_section \<Rightarrow> nat \<Rightarrow> (nat \<times> order_error list \<times> u32 option) option" where
  "get_hex_from_sectorder ms i =
     (let i = i + length (takeWhile (\<lambda>c. c = 32 \<or> c = 9) (order_rest ms i))
      in if i > order_size ms then Some (i, [], None)
         else case order_byte ms i of
           None \<Rightarrow> None
         | Some c \<Rightarrow>
             if c \<noteq> 48 then Some (i, [No_hex_number], None)
             else if i + 1 > order_size ms then Some (i + 1, [No_hex_number], None)
             else case order_byte ms (i + 1) of
               None \<Rightarrow> None
             | Some c \<Rightarrow>
                 if c \<noteq> 120 then Some (i + 1, [No_hex_number], None)
                 else
                   let digits = takeWhile is_hex (order_rest ms (i + 2)); i = i + 2 + length digits
                   in if length digits > 8 then Some (i, [Too_many_digits], None)
                      else Some (i, [], Some (hex_value digits)))"

definition next_line :: "merged_section \<Rightarrow> nat \<Rightarrow> nat" where
  "next_line ms i =
     (let i = i + length (takeWhile (\<lambda>c. c \<noteq> 10) (order_rest ms i))
      in if i < order_size ms then i + 1 else i)"

lemma get_hex_forward: "get_hex_from_sectorder ms i = Some (j, errs, v) \<Longrightarrow> i \<le> j"
  by (auto simp: get_hex_from_sectorder_def Let_def split: if_splits option.splits)

lemma next_line_forward: "i \<le> next_line ms i" "i < order_size ms \<Longrightarrow> i < next_line ms i"
  by (auto simp: next_line_def Let_def)

section \<open>Entering an order file\<close>

text \<open>A line of the file for each size of literal: the literal, if it could be read.\<close>

definition read_literal4 :: "merged_section \<Rightarrow> nat \<Rightarrow> (nat \<times> order_error list \<times> u32 option) option" where
  "read_literal4 ms i = get_hex_from_sectorder ms i"

definition read_literal8 :: "merged_section \<Rightarrow> nat \<Rightarrow> (nat \<times> order_error list \<times> literal8 option) option" where
  "read_literal8 ms i =
     (case get_hex_from_sectorder ms i of
        None \<Rightarrow> None
      | Some (i, errs, None) \<Rightarrow> Some (i, errs, None)
      | Some (i, errs, Some v) \<Rightarrow>
          (case get_hex_from_sectorder ms i of
             None \<Rightarrow> None
           | Some (i, errs', None) \<Rightarrow> Some (i, errs @ errs' @ [Missing_second_number], None)
           | Some (i, errs', Some v') \<Rightarrow> Some (i, errs @ errs', Some \<lparr>long0 = v, long1 = v'\<rparr>)))"

lemma read_literal4_forward: "read_literal4 ms i = Some (j, errs, v) \<Longrightarrow> i \<le> j"
  by (auto simp: read_literal4_def dest: get_hex_forward)

lemma read_literal8_forward: "read_literal8 ms i = Some (j, errs, v) \<Longrightarrow> i \<le> j"
  by (force simp: read_literal8_def dest!: get_hex_forward split: option.splits)

lemma line_measure: "i < order_size ms \<Longrightarrow> i \<le> j \<Longrightarrow> order_size ms - next_line ms j < order_size ms - i"
  using next_line_forward [of j ms] by (cases "j < order_size ms") linarith+

text \<open>
  The lines one by one.  A result is the lines with the offset of their literal, the errors, and the
  data.
\<close>

definition enter_line where
  "enter_line lookup line v st =
     (case v of
        None \<Rightarrow> ([], st)
      | Some x \<Rightarrow> let (off, st) = lookup x st in ([(x, line, off)], st))"

function literal4_lines ::
  "merged_section \<Rightarrow> nat \<Rightarrow> nat \<Rightarrow> u32 literal_data \<times> merged_section \<Rightarrow>
     ((u32 \<times> nat \<times> u32) list \<times> order_error list \<times> u32 literal_data \<times> merged_section) option" where
  "literal4_lines file i line st =
     (if i < order_size file then
        case read_literal4 file i of
          None \<Rightarrow> None
        | Some (j, errs, v) \<Rightarrow>
            let (ls, st) = enter_line lookup_literal4 line v st
            in map_option (\<lambda>(ls', errs', st). (ls @ ls', errs @ errs', st))
                 (literal4_lines file (next_line file j) (line + 1) st)
      else Some ([], [], st))"
  by pat_completeness auto

termination
  by (relation "measure (\<lambda>(file, i, line, st). order_size file - i)")
    (auto intro: line_measure dest!: read_literal4_forward)

declare literal4_lines.simps [simp del]

function literal8_lines ::
  "merged_section \<Rightarrow> nat \<Rightarrow> nat \<Rightarrow> literal8 literal_data \<times> merged_section \<Rightarrow>
     ((literal8 \<times> nat \<times> u32) list \<times> order_error list \<times> literal8 literal_data \<times> merged_section) option" where
  "literal8_lines file i line st =
     (if i < order_size file then
        case read_literal8 file i of
          None \<Rightarrow> None
        | Some (j, errs, v) \<Rightarrow>
            let (ls, st) = enter_line lookup_literal8 line v st
            in map_option (\<lambda>(ls', errs', st). (ls @ ls', errs @ errs', st))
                 (literal8_lines file (next_line file j) (line + 1) st)
      else Some ([], [], st))"
  by pat_completeness auto

termination
  by (relation "measure (\<lambda>(file, i, line, st). order_size file - i)")
    (auto intro: line_measure dest!: read_literal8_forward)

declare literal8_lines.simps [simp del]

text \<open>The lines are kept when the dead are to be stripped.\<close>

definition order_literals where
  "order_literals lines_of dead_strip st =
     map_option
       (\<lambda>(ls, errs, data, ms). (errs, if dead_strip then data\<lparr>order_lines := ls\<rparr> else data, ms))
       (lines_of (snd st) 0 1 st)"

definition literal4_order where
  "literal4_order = order_literals literal4_lines"

definition literal8_order where
  "literal8_order = order_literals literal8_lines"

section \<open>Starting again with the live literals\<close>

text \<open>\<open>this\<close> is the section's name in the maps of the objects.\<close>

definition live_lines :: "object_file list \<Rightarrow> nat \<Rightarrow> 'l literal_data \<Rightarrow> 'l list" where
  "live_lines objects this data =
     map fst (filter (\<lambda>(x, line, off). is_literal_output_offset_live objects this off) (order_lines data))"

definition reset_live where
  "reset_live lookup objects this st =
     (let (data, ms) = st;
          ms = ms\<lparr>ms_size := 0\<rparr>;
          st = (literal_free data, ms)
      in if order_filename ms then
           let (data', ms) = fold (\<lambda>x st. snd (lookup x st)) (live_lines objects this data) st
           in (data'\<lparr>order_lines := []\<rparr>, ms)
         else st)"

definition literal4_reset_live where
  "literal4_reset_live = reset_live lookup_literal4"

definition literal8_reset_live where
  "literal8_reset_live = reset_live lookup_literal8"

section \<open>What is left\<close>

text \<open>The literals of a section that are merged again, and of all sections.\<close>

definition live_items :: "'l codec \<Rightarrow> byte_sex \<Rightarrow> u32 \<Rightarrow> mem \<times> u32 \<times> u32 \<times> section_map \<Rightarrow> 'l list" where
  "live_items C h w sec =
     (case sec of (obj, off, sz, sm) \<Rightarrow>
        if sz = 0 then []
        else case literal_items C h obj (unat off) w (length (fine_relocs sm)) of
          None \<Rightarrow> []
        | Some items \<Rightarrow> map (snd \<circ> snd) (filter (live \<circ> fst) (zip (fine_relocs sm) items)))"

lemma filter_zip_extent:
  "length frs = length items \<Longrightarrow>
    extent w (map (snd \<circ> snd) (filter (live \<circ> fst) (zip frs items))) \<le> extent w (map snd items)"
  by (induction frs items rule: list_induct2) auto

context literal_pool
begin

lemma merge_live_sections:
  assumes "merge_sections (merge_literals C w lookup h True) secs st = CHECK_GOOD (sms, st')" and "inv st"
    and "extent width (pool st) +
      extent width (concat (map (\<lambda>sec. case sec of (obj, off, sz, sm) \<Rightarrow>
        (case literal_items C h obj (unat off) w (length (fine_relocs sm)) of None \<Rightarrow> [] | Some items \<Rightarrow> map snd items)) secs))
      < 2 ^ 32"
    and valid: "\<And>x. valid x"
  shows "inv st' \<and> pool st' = enter_all (concat (map (live_items C h w) secs)) (pool st)"
  using assms(1-3)
proof (induction secs arbitrary: st sms)
  case (Cons sec rest)
  obtain obj off sz sm where sec: "sec = (obj, off, sz, sm)" by (metis prod_cases4)
  obtain sm1 st1 sms1 where 1: "merge_literals C w lookup h True obj off sz sm st = CHECK_GOOD (sm1, st1)"
    and 2: "merge_sections (merge_literals C w lookup h True) rest st1 = CHECK_GOOD (sms1, st')"
    using Cons.prems by (auto simp: sec and_then_GOOD_iff)
  have list_all_valid: "list_all valid xs" for xs by (simp add: list_all_iff valid)
  let ?all = "\<lambda>(obj, off, sz, sm). case literal_items C h obj (unat off) w (length (fine_relocs sm)) of
      None \<Rightarrow> [] | Some items \<Rightarrow> map snd items"
  have room: "extent width (pool st) + extent width (?all sec) + extent width (concat (map ?all rest)) < 2 ^ 32"
    using Cons.prems(3) by simp
  have st1: "inv st1 \<and> pool st1 = enter_all (live_items C h w sec) (pool st) \<and>
      extent width (pool st1) \<le> extent width (pool st) + extent width (?all sec)"
  proof (cases "sz = 0")
    case True
    then show ?thesis using 1 Cons.prems(2) by (auto simp: merge_literals_def sec live_items_def)
  next
    case False
    obtain items frs where items: "literal_items C h obj (unat off) w (length (fine_relocs sm)) = Some items"
      and m: "merge_live lookup (fine_relocs sm) items st = (frs, st1)"
      using 1 False
      by (cases "literal_items C h obj (unat off) w (length (fine_relocs sm))")
        (auto simp: merge_literals_def or_fault_def split: if_split_asm prod.splits)
    have len: "length (fine_relocs sm) = length items" using literal_items_nth(1) [OF items] by simp
    have "extent width (pool st) + extent width (map snd items) < 2 ^ 32"
      using room by (simp add: sec items)
    note merged = merge_live_pool [OF Cons.prems(2) this m len list_all_valid]
    have "extent width (pool st1) \<le> extent width (pool st) + extent width (live_items C h w sec)"
      using merged False by (simp add: extent_enter_all sec live_items_def items)
    also have "extent width (live_items C h w sec) \<le> extent width (map snd items)"
      using False by (simp add: sec live_items_def items filter_zip_extent [OF len])
    finally show ?thesis using merged False by (simp add: sec live_items_def items)
  qed
  have "extent width (pool st1) + extent width (concat (map ?all rest)) < 2 ^ 32"
    using st1 room by linarith
  then have "inv st' \<and> pool st' = enter_all (concat (map (live_items C h w) rest)) (pool st1)"
    using Cons.IH [OF 2] st1 by blast
  then show ?case using st1 by (simp add: enter_all_append)
qed simp

end

lemma reset_live_pool:
  assumes "literal_section lookup literal_pool_of width (literal_inv w n align) (\<lambda>_. True) enc wr"
    and "ms_align (snd st) = align"
    and "extent width (live_lines objects this (fst st)) < 2 ^ 32"
  shows "literal_inv w n align (reset_live lookup objects this st) \<and>
    literal_pool_of (reset_live lookup objects this st) =
      (if order_filename (snd st) then enter_all (live_lines objects this (fst st)) [] else [])"
proof -
  let ?st0 = "(literal_free (fst st), (snd st)\<lparr>ms_size := 0\<rparr>)"
  have start: "literal_inv w n align ?st0" "literal_pool_of ?st0 = []"
    using assms(2) by (simp_all add: literal_inv_def literal_pool_of_def literal_free_def)
  have pool: "literal_pool lookup literal_pool_of width (literal_inv w n align) (\<lambda>_. True)"
    using assms(1) by (simp add: literal_section_def)
  note run = literal_pool.fold_lookup_pool [OF pool start(1), of "live_lines objects this (fst st)"]
  have "list_all (\<lambda>_. True) (live_lines objects this (fst st))" by (simp add: list_all_iff)
  note run = run [OF _ this]
  have "literal_inv w n align (data\<lparr>order_lines := ls\<rparr>, ms) = literal_inv w n align (data, ms)"
    "literal_pool_of (data\<lparr>order_lines := ls\<rparr>, ms) = literal_pool_of (data, ms)" for data :: "'a literal_data" and ls ms
    by (simp_all add: literal_inv_def literal_pool_of_def)
  then show ?thesis
    using run assms(3) start
    by (cases st) (auto simp: reset_live_def Let_def split: prod.splits)
qed

text \<open>
  Dead stripping keeps the live: after the pool of 4 byte literals is reset and the sections are
  merged again, it has the live literals of the order file and of the sections, in this order and each
  once, no other, and the size of the output section is theirs.
\<close>

theorem literal4_dead_strip:
  assumes "merge_sections (literal4_merge h True) secs (literal4_reset_live objects this st) = CHECK_GOOD (sms, st')"
    and "(length (order_lines (fst st)) + sum_list (map (\<lambda>(obj, off, sz, sm). length (fine_relocs sm)) secs)) *
      unat (literal_step 4 (ms_align (snd st))) < 2 ^ 32"
  shows "distinct (literal_pool_of st') \<and>
    literal_pool_of st' = enter_all
      ((if order_filename (snd st) then live_lines objects this (fst st) else []) @
        concat (map (live_items word_codec h 4) secs)) [] \<and>
    unat (ms_size (snd st')) = length (literal_pool_of st') * unat (literal_step 4 (ms_align (snd st)))"
proof -
  let ?align = "ms_align (snd st)" and ?lines = "live_lines objects this (fst st)"
  let ?width = "\<lambda>_ :: u32. unat (literal_step 4 ?align)"
  let ?all = "\<lambda>(obj, off, sz, sm). case literal_items word_codec h obj (unat off) 4 (length (fine_relocs sm)) of
      None \<Rightarrow> [] | Some items \<Rightarrow> map snd items"
  have "length (?all sec) \<le> (case sec of (obj, off, sz, sm) \<Rightarrow> length (fine_relocs sm))" for sec
    by (cases sec) (auto split: option.splits dest: literal_items_nth(1))
  then have "length (concat (map ?all secs)) \<le>
      sum_list (map (\<lambda>(obj, off, sz, sm). length (fine_relocs sm)) secs)"
    unfolding length_concat map_map comp_def by (rule sum_list_mono)
  moreover have "length ?lines \<le> length (order_lines (fst st))" by (simp add: live_lines_def)
  ultimately have "(length ?lines + length (concat (map ?all secs))) * unat (literal_step 4 ?align) < 2 ^ 32"
    using assms(2) by (meson add_mono le_less_trans mult_le_mono1)
  then have room: "extent ?width ?lines + extent ?width (concat (map ?all secs)) < 2 ^ 32"
    unfolding extent_const by (simp only: add_mult_distrib)
  let ?st0 = "literal4_reset_live objects this st"
  have st0: "literal_inv 4 LITERAL4_BLOCK_SIZE ?align ?st0"
    "literal_pool_of ?st0 = (if order_filename (snd st) then enter_all ?lines [] else [])"
    using reset_live_pool [OF literal4_section.literal_section_axioms refl, where objects = objects and this = this] room
    by (simp_all add: literal4_reset_live_def)
  have "extent ?width (literal_pool_of ?st0) \<le> extent ?width ?lines"
    using extent_enter_all [of ?width ?lines "[]"] by (simp add: st0(2))
  then have "extent ?width (literal_pool_of ?st0) + extent ?width (concat (map ?all secs)) < 2 ^ 32"
    using room by linarith
  then have "literal_inv 4 LITERAL4_BLOCK_SIZE ?align st' \<and>
      literal_pool_of st' = enter_all (concat (map (live_items word_codec h 4) secs)) (literal_pool_of ?st0)"
    using literal4_section.merge_live_sections [OF assms(1) [unfolded literal4_merge_def] st0(1)] by simp
  then show ?thesis
    by (auto simp: literal_inv_def st0(2) enter_all_append)
qed

section \<open>An example\<close>

text \<open>
  An order file of two lines, \<open>0x04030201\<close> and \<open>0x63\<close>; the sections of the example of
  \<open>FixedLiterals\<close>, of which three literals are live.
\<close>

definition order_text :: mem where
  "order_text = [48, 120, 48, 52, 48, 51, 48, 50, 48, 49, 10, 48, 120, 54, 51, 10]"

definition ordered4 :: "order_error list \<times> u32 literal_data \<times> merged_section" where
  "ordered4 = the (literal4_order True (\<lparr>literal_blocks = [], order_lines = []\<rparr>,
     (empty_section 2)\<lparr>order_filename := True, order_addr := order_text, order_size := 16\<rparr>))"

definition merged_once where
  "merged_once = good (merge_sections (literal4_merge LITTLE_ENDIAN_BYTE_SEX False) two_inputs (snd ordered4))"

definition live_maps :: "section_map list" where
  "live_maps = map2 (\<lambda>ls sm. sm\<lparr>fine_relocs := map2 (\<lambda>l fr. fr\<lparr>live := l\<rparr>) ls (fine_relocs sm)\<rparr>)
     [[True, False, False, True], [False, True, False, False]] (fst merged_once)"

definition live_inputs where
  "live_inputs = map2 (\<lambda>(obj, off, sz, _) sm. (obj, off, sz, sm)) two_inputs live_maps"

definition live_objects :: "object_file list" where
  "live_objects = [\<lparr>is_base_obj = False, is_dylib = False, is_bundle_loader = False, is_dylinker = False,
     section_maps = live_maps\<rparr>]"

definition merged_twice where
  "merged_twice = merge_sections (literal4_merge LITTLE_ENDIAN_BYTE_SEX True) live_inputs
     (literal4_reset_live live_objects 0 (snd merged_once))"

lemma merged_twice_runs: "is_good merged_twice"
  by code_simp

lemmas merged_twice_good = is_good_pairD [OF merged_twice_runs]

lemma dead_strip_example:
  "ms_align (snd (snd merged_once)) = 2" "order_filename (snd (snd merged_once))"
  "length (order_lines (fst (snd merged_once))) = 2" "literal_step 4 2 = 4"
  "sum_list (map (\<lambda>(obj, off, sz, sm). length (fine_relocs sm)) live_inputs) = 8"
  "enter_all (live_lines live_objects 0 (fst (snd merged_once)) @
     concat (map (live_items word_codec LITTLE_ENDIAN_BYTE_SEX 4) live_inputs)) [] = [0x04030201, 0x100f0e0d]"
  by code_simp+

theorem literal4_dead_strip_witness:
  "literal_pool_of (snd (good merged_twice)) = [0x04030201, 0x100f0e0d] \<and>
   unat (ms_size (snd (snd (good merged_twice)))) = 8"
  using literal4_dead_strip [OF merged_twice_good [unfolded merged_twice_def]]
  unfolding merged_twice_def [symmetric]
  by (simp add: dead_strip_example del: enter_all_simps)

end
