(* ===== verification/CStringOrder.thy ===== *)
theory CStringOrder
  imports CStringLiterals LiteralOrder
begin

text \<open>
  Order files of sections of C strings, \<^verbatim>\<open>ld/cstring_literals.c\<close>: a string per line, with the escape
  sequences of C.  The strings of the file are entered before those of the input files; with
  \<^verbatim>\<open>-dead_strip\<close> those of them that are live are read and entered again.
\<close>

section \<open>Escape sequences\<close>

datatype string_error = Char_out_of_range | Hex_out_of_range | Unknown_escape
datatype string_fatal = Illegal_null | Backslash_at_end

definition is_octal :: "u8 \<Rightarrow> bool" where
  "is_octal c \<longleftrightarrow> 48 \<le> c \<and> c \<le> 55"

text \<open>
  \<^verbatim>\<open>strtol\<close> of digits of a base, for a \<^verbatim>\<open>long\<close> of 32 bits; \<^verbatim>\<open>char\<close> is signed.
\<close>

definition LONG_MAX :: int where "LONG_MAX = 0x7fffffff"
definition CHAR_MAX :: int where "CHAR_MAX = 127"

definition strtol_digits :: "int \<Rightarrow> u8 list \<Rightarrow> int" where
  "strtol_digits base ds = min LONG_MAX (foldl (\<lambda>v d. base * v + uint (hex_digit d)) 0 ds)"

definition char_of_value :: "int \<Rightarrow> u8 \<times> string_error list" where
  "char_of_value v = (word_of_int v, if v > CHAR_MAX then [Char_out_of_range] else [])"

text \<open>
  What a backslash and the character \<open>d\<close> behind it stand for, and how many of the characters \<open>ds\<close> that
  follow are part of it.
\<close>

definition escape :: "u8 \<Rightarrow> u8 list \<Rightarrow> u8 list \<times> string_error list \<times> nat" where
  "escape d ds =
     (if is_octal d then
        let more = takeWhile is_octal (take 2 ds); (c, errs) = char_of_value (strtol_digits 8 (d # more))
        in ([c], errs, length more)
      else if d = 110 then ([10], [], 0)
      else if d = 116 then ([9], [], 0)
      else if d = 118 then ([11], [], 0)
      else if d = 98 then ([8], [], 0)
      else if d = 114 then ([13], [], 0)
      else if d = 102 then ([12], [], 0)
      else if d = 97 then ([7], [], 0)
      else if d = 92 then ([92], [], 0)
      else if d = 63 then ([63], [], 0)
      else if d = 39 then ([39], [], 0)
      else if d = 34 then ([34], [], 0)
      else if d = 120 then
        let digits = takeWhile is_hex ds
        in if length digits > 8 then ([], [Hex_out_of_range], length digits)
           else let (c, errs) = char_of_value (strtol_digits 16 digits) in ([c], errs, length digits)
      else ([d], [Unknown_escape], 0))"

text \<open>A line of the file, up to a zero or the end: what goes to the buffer, and the length of the line.\<close>

function unescape :: "u8 list \<Rightarrow> (string_fatal, u8 list \<times> string_error list \<times> nat) check" where
  "unescape [] = CHECK_GOOD ([], [], 0)"
| "unescape (c # cs) =
     (if c = 0 then CHECK_GOOD ([], [], 0)
      else if c = 92 then
        case cs of
          [] \<Rightarrow> CHECK_BAD Backslash_at_end
        | d # ds \<Rightarrow>
            if d = 0 then CHECK_BAD Backslash_at_end
            else
              let (out, errs, used) = escape d ds
              in and_then (unescape (drop used ds)) (\<lambda>(out', errs', n).
                   CHECK_GOOD (out @ out', errs @ errs', n + used + 2))
      else and_then (unescape cs) (\<lambda>(out', errs', n). CHECK_GOOD (c # out', errs', n + 1)))"
  by pat_completeness auto

termination by (relation "measure length") auto

declare unescape.simps [simp del]

definition get_cstring_from_sectorder ::
  "merged_section \<Rightarrow> nat \<Rightarrow> (string_fatal, u8 list \<times> string_error list \<times> nat) check" where
  "get_cstring_from_sectorder ms i =
     and_then (unescape (order_rest ms i)) (\<lambda>(out, errs, n). CHECK_GOOD (out, errs, i + n))"

lemma get_cstring_forward: "get_cstring_from_sectorder ms i = CHECK_GOOD (out, errs, j) \<Longrightarrow> i \<le> j"
  by (auto simp: get_cstring_from_sectorder_def and_then_GOOD_iff)

section \<open>Entering an order file\<close>

text \<open>
  The lines of the file are counted by their newlines, which become zeros, and the buffer has room for
  the longest of them.
\<close>

fun max_line :: "nat \<Rightarrow> u8 list \<Rightarrow> nat" where
  "max_line line_length [] = 1"
| "max_line line_length (c # cs) =
     (if c = 10 then max line_length (max_line 1 cs) else max_line (line_length + 1) cs)"

definition zero_newlines :: "nat \<Rightarrow> mem \<Rightarrow> mem" where
  "zero_newlines n m = map (\<lambda>c. if c = 10 then 0 else c) (take n m) @ drop n m"

text \<open>
  The lines one by one, \<open>i\<close> the index of a character and \<open>ls\<close> the lines before it.  \<open>room\<close> is the size
  of the buffer and \<open>count\<close> that of the array of lines, if there is one; a write behind their end is a
  fault.
\<close>

function cstring_lines ::
  "u32 \<Rightarrow> merged_section \<Rightarrow> nat \<Rightarrow> nat option \<Rightarrow> nat \<Rightarrow> (nat \<times> u32) list \<Rightarrow> cstring_data \<times> merged_section \<Rightarrow>
     (string_fatal, (nat \<times> u32) list \<times> string_error list \<times> cstring_data \<times> merged_section) check" where
  "cstring_lines pagesize file room count i ls st =
     (if i < order_size file then
        if (case count of None \<Rightarrow> False | Some n \<Rightarrow> n \<le> length ls) then FAULT
        else
          case get_cstring_from_sectorder file i of
            CHECK_GOOD (buffer, errs, j) \<Rightarrow>
              if length buffer + 1 > room then FAULT
              else
                let (off, st) = lookup_cstring pagesize (takeWhile (\<lambda>c. c \<noteq> 0) buffer) st
                in and_then (cstring_lines pagesize file room count (j + 1) (ls @ [(i, off)]) st)
                     (\<lambda>(ls, errs', st). CHECK_GOOD (ls, errs @ errs', st))
          | CHECK_BAD e \<Rightarrow> CHECK_BAD e
          | FAULT \<Rightarrow> FAULT
      else CHECK_GOOD (ls, [], st))"
  by pat_completeness auto

termination
  by (relation "measure (\<lambda>(pagesize, file, room, count, i, ls, st). order_size file - i)")
    (auto dest: get_cstring_forward)

declare cstring_lines.simps [simp del]

definition cstring_order ::
  "u32 \<Rightarrow> bool \<Rightarrow> cstring_data \<times> merged_section \<Rightarrow>
     (string_fatal, string_error list \<times> cstring_data \<times> merged_section) check" where
  "cstring_order pagesize dead_strip st =
     (let (data, ms) = st; text = take (order_size ms) (order_addr ms)
      in if 0 \<in> set text then CHECK_BAD Illegal_null
         else
           let n = length (filter (\<lambda>c. c = 10) text);
               ms = ms\<lparr>order_addr := zero_newlines (order_size ms) (order_addr ms)\<rparr>
           in and_then
                (cstring_lines pagesize ms (max_line 1 text + 1) (if dead_strip then Some n else None) 0 [] (data, ms))
                (\<lambda>(ls, errs, data, ms).
                   CHECK_GOOD (errs,
                     if dead_strip then (data\<lparr>cstring_load_order_data := Some ls\<rparr>, ms)
                     else (data, ms\<lparr>order_addr := []\<rparr>))))"

section \<open>Starting again with the live strings\<close>

text \<open>\<open>this\<close> is the section's name in the maps of the objects.  A line is read a second time.\<close>

fun relive_lines ::
  "u32 \<Rightarrow> object_file list \<Rightarrow> nat \<Rightarrow> merged_section \<Rightarrow> (nat \<times> u32) list \<Rightarrow> cstring_data \<times> merged_section \<Rightarrow>
     (string_fatal, cstring_data \<times> merged_section) check" where
  "relive_lines pagesize objects this file [] st = CHECK_GOOD st"
| "relive_lines pagesize objects this file ((i, off) # ls) st =
     (if is_literal_output_offset_live objects this off then
        and_then (get_cstring_from_sectorder file i) (\<lambda>(buffer, errs, j).
          relive_lines pagesize objects this file ls
            (snd (lookup_cstring pagesize (takeWhile (\<lambda>c. c \<noteq> 0) buffer) st)))
      else relive_lines pagesize objects this file ls st)"

definition cstring_reset_live ::
  "u32 \<Rightarrow> object_file list \<Rightarrow> nat \<Rightarrow> cstring_data \<times> merged_section \<Rightarrow>
     (string_fatal, cstring_data \<times> merged_section) check" where
  "cstring_reset_live pagesize objects this st =
     (let (data, ms) = st;
          ms = ms\<lparr>ms_size := 0\<rparr>;
          st = (cstring_free data, ms)
      in if order_filename ms then
           case cstring_load_order_data data of
             None \<Rightarrow> FAULT
           | Some ls \<Rightarrow>
               and_then (relive_lines pagesize objects this ms ls st) (\<lambda>(data, ms).
                 CHECK_GOOD (data\<lparr>cstring_load_order_data := None\<rparr>, ms\<lparr>order_addr := []\<rparr>))
         else CHECK_GOOD st)"

section \<open>Writing an order file\<close>

text \<open>A string with its backslashes and newlines escaped, and a file with one on every line.\<close>

definition quote_char :: "u8 \<Rightarrow> u8 list" where
  "quote_char c = (if c = 92 then [92, 92] else if c = 10 then [92, 110] else [c])"

definition quote :: "c_string \<Rightarrow> u8 list" where
  "quote s = concat (map quote_char s)"

definition order_file :: "c_string list \<Rightarrow> u8 list" where
  "order_file ss = concat (map (\<lambda>s. quote s @ [10]) ss)"

definition zeroed_file :: "c_string list \<Rightarrow> u8 list" where
  "zeroed_file ss = concat (map (\<lambda>s. quote s @ [0]) ss)"

lemma file_simps [simp]:
  "quote [] = []" "quote (c # s) = quote_char c @ quote s"
  "order_file [] = []" "order_file (s # ss) = quote s @ 10 # order_file ss"
  "zeroed_file [] = []" "zeroed_file (s # ss) = quote s @ 0 # zeroed_file ss"
  by (simp_all add: quote_def order_file_def zeroed_file_def)

lemma c_string_ok_Cons [simp]: "c_string_ok (c # s) \<longleftrightarrow> c \<noteq> 0 \<and> c_string_ok s"
  by (auto simp: c_string_ok_def)

lemma unescape_quote:
  assumes "c_string_ok s" and "rest = [] \<or> hd rest = 0"
  shows "unescape (quote s @ rest) = CHECK_GOOD (s, [], length (quote s))"
  using assms(1)
proof (induction s)
  case Nil
  then show ?case using assms(2) by (cases rest) (simp_all add: unescape.simps)
next
  case (Cons c s)
  then show ?case
    by (simp add: quote_char_def unescape.simps escape_def is_octal_def word_le_nat_alt)
qed

lemma quote_no_newline: "c_string_ok s \<Longrightarrow> 10 \<notin> set (quote s) \<and> 0 \<notin> set (quote s)"
  by (induction s) (auto simp: quote_char_def)

lemma length_quote: "length s \<le> length (quote s)"
  by (induction s) (auto simp: quote_char_def)

lemma max_line_append:
  "10 \<notin> set xs \<Longrightarrow> max_line n (xs @ 10 # ys) = max (n + length xs) (max_line 1 ys)"
  by (induction xs arbitrary: n) auto

lemma order_file_facts:
  assumes "list_all c_string_ok ss"
  shows "0 \<notin> set (order_file ss)"
    and "n = length (order_file ss) \<Longrightarrow> zero_newlines n (order_file ss @ beyond) = zeroed_file ss @ beyond"
    and "length (filter (\<lambda>c. c = 10) (order_file ss)) = length ss"
    and "length (zeroed_file ss) = length (order_file ss)"
    and "s \<in> set ss \<Longrightarrow> length (quote s) + 1 \<le> max_line 1 (order_file ss)"
proof -
  have zero: "map (\<lambda>c. if c = 10 then 0 else c) (quote s) = quote s" "filter (\<lambda>c. c = 10) (quote s) = []"
    if "c_string_ok s" for s
    using quote_no_newline [OF that] by (auto intro!: map_idI simp: filter_empty_conv)
  show "0 \<notin> set (order_file ss)"
    using assms by (induction ss) (auto dest: quote_no_newline)
  show "zero_newlines n (order_file ss @ beyond) = zeroed_file ss @ beyond" if "n = length (order_file ss)"
  proof -
    have "map (\<lambda>c. if c = 10 then 0 else c) (order_file ss) = zeroed_file ss"
      using assms by (induction ss) (simp_all add: zero)
    then show ?thesis by (simp add: zero_newlines_def that)
  qed
  show "length (filter (\<lambda>c. c = 10) (order_file ss)) = length ss"
    using assms by (induction ss) (simp_all add: zero)
  show "length (zeroed_file ss) = length (order_file ss)" by (induction ss) simp_all
  show "length (quote s) + 1 \<le> max_line 1 (order_file ss)" if "s \<in> set ss"
    using assms that by (induction ss) (auto simp: max_line_append dest: quote_no_newline)
qed

text \<open>A lookup changes only the table, the blocks and the size of the section.\<close>

lemma lookup_cstring_frame:
  assumes "lookup_cstring pagesize s st = (off, st')"
  shows "cstring_load_order_data (fst st') = cstring_load_order_data (fst st)"
    and "snd st' = (snd st)\<lparr>ms_size := ms_size (snd st')\<rparr>"
  using assms by (cases st; force simp: lookup_cstring_def Let_def split: option.splits)+

text \<open>The lines of a file that holds quoted strings, from the line at \<open>i\<close> on.\<close>

definition line_of :: "merged_section \<Rightarrow> c_string \<Rightarrow> nat \<Rightarrow> bool" where
  "line_of file s i \<longleftrightarrow> (\<exists>j. get_cstring_from_sectorder file i = CHECK_GOOD (s, [], j))"

lemma takeWhile_c_string: "c_string_ok s \<Longrightarrow> takeWhile (\<lambda>c. c \<noteq> 0) s = s"
  by (auto simp: c_string_ok_def takeWhile_eq_all_conv)

lemma order_rest_drop: "order_rest file (i + n) = drop n (order_rest file i)"
  by (simp add: order_rest_def add.commute)

lemma get_cstring_quoted:
  assumes "c_string_ok s" and "order_rest file i = quote s @ 0 # rest"
  shows "get_cstring_from_sectorder file i = CHECK_GOOD (s, [], i + length (quote s))"
    and "order_rest file (i + length (quote s) + 1) = rest"
proof -
  show "get_cstring_from_sectorder file i = CHECK_GOOD (s, [], i + length (quote s))"
    using unescape_quote [OF assms(1), of "0 # rest"] assms(2) by (simp add: get_cstring_from_sectorder_def)
  show "order_rest file (i + length (quote s) + 1) = rest"
    by (simp only: add.assoc order_rest_drop assms(2)) simp
qed

lemma cstring_lines_quoted:
  assumes "cstring_inv align st" and "list_all c_string_ok ss"
    and "extent (string_width align) (strings_of st) + extent (string_width align) ss < 2 ^ 32"
    and "order_rest file i = zeroed_file ss" and "order_size file \<le> length (order_addr file)"
    and "\<forall>s \<in> set ss. length (quote s) + 2 \<le> room"
    and "case count of None \<Rightarrow> True | Some n \<Rightarrow> length ls + length ss \<le> n"
  shows "\<exists>new st'. cstring_lines pagesize file room count i ls st = CHECK_GOOD (ls @ new, [], st') \<and>
    cstring_inv align st' \<and> strings_of st' = enter_all ss (strings_of st) \<and>
    list_all2 (\<lambda>(i, off) s. line_of file s i \<and> unat off = offset_of (string_width align) (strings_of st') s) new ss \<and>
    cstring_load_order_data (fst st') = cstring_load_order_data (fst st) \<and>
    snd st' = (snd st)\<lparr>ms_size := ms_size (snd st')\<rparr>"
  using assms
proof (induction ss arbitrary: i ls st)
  case Nil
  then have "\<not> i < order_size file" by (simp add: order_rest_def)
  then show ?case using Nil by (subst cstring_lines.simps) simp
next
  case (Cons s ss)
  let ?w = "string_width align"
  have s: "c_string_ok s" "list_all c_string_ok ss" using Cons.prems(2) by simp_all
  note line = get_cstring_quoted [OF s(1) Cons.prems(4) [unfolded file_simps]]
  have "order_rest file i \<noteq> []" using Cons.prems(4) by simp
  then have i: "i < order_size file" by (simp add: order_rest_def)
  have room: "length s + 1 \<le> room" using Cons.prems(6) length_quote [of s] by fastforce
  obtain off st1 where l: "lookup_cstring pagesize s st = (off, st1)" by (metis surj_pair)
  have "extent ?w (strings_of st) + ?w s < 2 ^ 32" using Cons.prems(3) by simp
  note st1 = lookup_cstring_pool [OF Cons.prems(1) s(1) this l]
  note frame = lookup_cstring_frame [OF l]
  have "extent ?w (strings_of st1) + extent ?w ss < 2 ^ 32"
    using Cons.prems(3) extent_enter [of ?w s "strings_of st"] st1 by simp
  note IH = Cons.IH [OF conjunct1 [OF st1] s(2) this line(2) Cons.prems(5)]
  have room': "\<forall>s \<in> set ss. length (quote s) + 2 \<le> room" using Cons.prems(6) by simp
  have "case count of None \<Rightarrow> True | Some n \<Rightarrow> length (ls @ [(i, off)]) + length ss \<le> n"
    using Cons.prems(7) by (simp split: option.splits)
  then obtain new st' where new:
    "cstring_lines pagesize file room count (i + length (quote s) + 1) (ls @ [(i, off)]) st1 =
      CHECK_GOOD ((ls @ [(i, off)]) @ new, [], st')"
    "cstring_inv align st'" "strings_of st' = enter_all ss (strings_of st1)"
    "list_all2 (\<lambda>(i, off) s. line_of file s i \<and> unat off = offset_of ?w (strings_of st') s) new ss"
    "cstring_load_order_data (fst st') = cstring_load_order_data (fst st1)"
    "snd st' = (snd st1)\<lparr>ms_size := ms_size (snd st')\<rparr>"
    using IH [OF room'] by blast
  have "s \<in> set (strings_of st1)" using st1 by simp
  then have "offset_of ?w (strings_of st') s = offset_of ?w (strings_of st1) s"
    by (simp add: new(3) offset_of_enter_all)
  then have this_line: "line_of file s i \<and> unat off = offset_of ?w (strings_of st') s"
    using line(1) st1 by (simp add: line_of_def)
  have "\<not> (case count of None \<Rightarrow> False | Some n \<Rightarrow> n \<le> length ls)"
    using Cons.prems(7) by (simp split: option.splits)
  then have run: "cstring_lines pagesize file room count i ls st = CHECK_GOOD (ls @ (i, off) # new, [], st')"
    using i line(1) room l new(1) by (subst cstring_lines.simps) (simp add: takeWhile_c_string [OF s(1)])
  have rest: "snd st' = (snd st)\<lparr>ms_size := ms_size (snd st')\<rparr>"
  proof -
    have "(snd st1)\<lparr>ms_size := x\<rparr> = (snd st)\<lparr>ms_size := x\<rparr>" for x by (subst frame(2)) simp
    with new(6) show ?thesis by (simp only:)
  qed
  show ?case
  proof (intro exI [of _ "(i, off) # new"] exI [of _ st'] conjI)
    show "strings_of st' = enter_all (s # ss) (strings_of st)" using st1 by (simp add: new(3))
    show "list_all2 (\<lambda>(i, off) s. line_of file s i \<and> unat off = offset_of ?w (strings_of st') s)
        ((i, off) # new) (s # ss)" using this_line new(4) by simp
    show "cstring_load_order_data (fst st') = cstring_load_order_data (fst st)" by (simp only: new(5) frame(1))
  qed (fact run new(2) rest)+
qed

lemma order_irrelevant [simp]:
  "strings_of (data\<lparr>cstring_load_order_data := x\<rparr>, ms) = strings_of (data, ms)"
  "cstring_inv align (data\<lparr>cstring_load_order_data := x\<rparr>, ms) = cstring_inv align (data, ms)"
  "strings_of (data, ms\<lparr>order_addr := m\<rparr>) = strings_of (data, ms)"
  "cstring_inv align (data, ms\<lparr>order_addr := m\<rparr>) = cstring_inv align (data, ms)"
  by (simp_all add: cstring_inv_def strings_of_def section_bytes_def cong: option.case_cong)

lemma cstring_order_quoted:
  assumes "cstring_inv align (data, ms)" and "list_all c_string_ok ss"
    and "extent (string_width align) (strings_of (data, ms)) + extent (string_width align) ss < 2 ^ 32"
    and "order_addr ms = order_file ss @ beyond" and "order_size ms = length (order_file ss)"
  shows "\<exists>ls data' ms'. cstring_order pagesize dead_strip (data, ms) =
      CHECK_GOOD ([], if dead_strip then (data'\<lparr>cstring_load_order_data := Some ls\<rparr>, ms')
        else (data', ms'\<lparr>order_addr := []\<rparr>)) \<and>
    cstring_inv align (data', ms') \<and> strings_of (data', ms') = enter_all ss (strings_of (data, ms)) \<and>
    list_all2 (\<lambda>(i, off) s. line_of ms' s i \<and>
      unat off = offset_of (string_width align) (strings_of (data', ms')) s) ls ss \<and>
    order_filename ms' = order_filename ms"
proof -
  note facts = order_file_facts [OF assms(2)]
  let ?ms = "ms\<lparr>order_addr := zeroed_file ss @ beyond\<rparr>" and ?text = "take (order_size ms) (order_addr ms)"
  let ?n = "length (filter (\<lambda>c. c = 10) ?text)"
  have bytes: "?text = order_file ss" by (simp add: assms(4,5))
  have zeroed: "ms\<lparr>order_addr := zero_newlines (order_size ms) (order_addr ms)\<rparr> = ?ms"
    using facts(2) [OF refl, of beyond] by (simp add: assms(4,5))
  have st: "cstring_inv align (data, ?ms)"
    "extent (string_width align) (strings_of (data, ?ms)) + extent (string_width align) ss < 2 ^ 32"
    using assms(1,3) by simp_all
  have lines_text: "order_rest ?ms 0 = zeroed_file ss" "order_size ?ms \<le> length (order_addr ?ms)"
    by (simp_all add: order_rest_def assms(5) facts(4))
  have room: "\<forall>s \<in> set ss. length (quote s) + 2 \<le> max_line 1 ?text + 1"
    using facts(5) unfolding bytes by fastforce
  have count: "case (if dead_strip then Some ?n else None) of None \<Rightarrow> True | Some n \<Rightarrow> length [] + length ss \<le> n"
    using facts(3) unfolding bytes by simp
  note run = cstring_lines_quoted [OF st(1) assms(2) _ lines_text room count, of pagesize, unfolded append_Nil]
  obtain ls st' where run: "cstring_lines pagesize ?ms (max_line 1 ?text + 1)
      (if dead_strip then Some ?n else None) 0 [] (data, ?ms) = CHECK_GOOD (ls, [], st')"
    "cstring_inv align st'" "strings_of st' = enter_all ss (strings_of (data, ?ms))"
    "list_all2 (\<lambda>(i, off) s. line_of ?ms s i \<and>
      unat off = offset_of (string_width align) (strings_of st') s) ls ss"
    "snd st' = ?ms\<lparr>ms_size := ms_size (snd st')\<rparr>"
    using run [OF st(2)] unfolding snd_conv by blast
  obtain data' ms' where st': "st' = (data', ms')" by (metis surj_pair)
  note lines = run [unfolded st' snd_conv]
  have "order_rest ms' = order_rest ?ms" unfolding order_rest_def by (subst (1 2) lines(5)) simp
  then have same: "line_of ms' = line_of ?ms"
    by (intro ext) (simp add: line_of_def get_cstring_from_sectorder_def)
  have name: "order_filename ms' = order_filename ms" by (subst lines(5)) simp
  have "cstring_order pagesize dead_strip (data, ms) =
      CHECK_GOOD ([], if dead_strip then (data'\<lparr>cstring_load_order_data := Some ls\<rparr>, ms')
        else (data', ms'\<lparr>order_addr := []\<rparr>))"
    using facts(1) lines(1) unfolding cstring_order_def Let_def prod.case zeroed bytes by simp
  then show ?thesis
    using lines(2-4) same name by (intro exI [of _ ls] exI [of _ data'] exI [of _ ms']) simp
qed

text \<open>
  C13: An order file with one string per line, its backslashes and newlines escaped, is taken without
  an error, and the section then has the strings of the file, in their order and each once.
\<close>

theorem cstring_order_strings:
  assumes "cstring_inv align (data, ms)" and "list_all c_string_ok ss"
    and "extent (string_width align) (strings_of (data, ms)) + extent (string_width align) ss < 2 ^ 32"
    and "order_addr ms = order_file ss @ beyond" and "order_size ms = length (order_file ss)"
  shows "\<exists>st. cstring_order pagesize dead_strip (data, ms) = CHECK_GOOD ([], st) \<and>
    cstring_inv align st \<and> strings_of st = enter_all ss (strings_of (data, ms))"
  using cstring_order_quoted [OF assms, of pagesize dead_strip] by (cases dead_strip) auto

section \<open>Dead stripping\<close>

text \<open>What a merge leaves alone.\<close>

definition order_state where
  "order_state st = (cstring_load_order_data (fst st), order_addr (snd st), order_size (snd st),
     order_filename (snd st), ms_align (snd st))"

lemma lookup_cstring_order_state: "order_state (snd (lookup_cstring pagesize s st)) = order_state st"
proof -
  obtain off st' where l: "lookup_cstring pagesize s st = (off, st')" by (metis surj_pair)
  have "order_addr (snd st') = order_addr (snd st)" "order_size (snd st') = order_size (snd st)"
    "order_filename (snd st') = order_filename (snd st)" "ms_align (snd st') = ms_align (snd st)"
    by (subst lookup_cstring_frame(2) [OF l]; simp)+
  then show ?thesis by (simp add: l order_state_def lookup_cstring_frame(1) [OF l])
qed

lemma merge_new_order_state:
  "order_state (snd (merge_new (lookup_cstring pagesize) items st)) = order_state st"
proof (induction items arbitrary: st)
  case (Cons item items)
  obtain i x where item: "item = (i, x)" by force
  show ?case
    using Cons [of "snd (lookup_cstring pagesize x st)"] lookup_cstring_order_state [of pagesize x st]
    by (simp add: item split_beta Let_def)
qed simp

lemma merge_all_order_state:
  "order_state (snd (merge_all (lookup_cstring pagesize) itss st)) = order_state st"
proof (induction itss arbitrary: st)
  case (Cons items itss)
  show ?case
    using Cons [of "snd (merge_new (lookup_cstring pagesize) items st)"] merge_new_order_state [of pagesize items st]
    by (simp add: split_beta Let_def)
qed simp

text \<open>The lines that are read again.\<close>

lemma relive_lines_quoted:
  assumes "cstring_inv align st" and "list_all2 (\<lambda>(i, off) s. line_of file s i) ls ss"
    and "list_all c_string_ok ss"
    and "extent (string_width align) (strings_of st) + extent (string_width align) ss < 2 ^ 32"
  shows "\<exists>st'. relive_lines pagesize objects this file ls st = CHECK_GOOD st' \<and> cstring_inv align st' \<and>
    strings_of st' =
      enter_all (map snd (filter (\<lambda>(l, s). is_literal_output_offset_live objects this (snd l)) (zip ls ss))) (strings_of st)"
  using assms
proof (induction ls arbitrary: ss st)
  case Nil
  then show ?case by simp
next
  case (Cons l ls)
  let ?w = "string_width align"
  obtain s ss' where ss: "ss = s # ss'" using Cons.prems(2) by (cases ss) auto
  obtain i off where l: "l = (i, off)" by force
  have line: "line_of file s i" and rest: "list_all2 (\<lambda>(i, off) s. line_of file s i) ls ss'"
    and ok: "c_string_ok s" "list_all c_string_ok ss'"
    using Cons.prems(2,3) by (simp_all add: ss l)
  show ?case
  proof (cases "is_literal_output_offset_live objects this off")
    case False
    have "extent ?w (strings_of st) + extent ?w ss' < 2 ^ 32" using Cons.prems(4) by (simp add: ss)
    then show ?thesis using Cons.IH [OF Cons.prems(1) rest ok(2)] False by (simp add: ss l)
  next
    case True
    obtain off1 st1 where look: "lookup_cstring pagesize s st = (off1, st1)" by (metis surj_pair)
    have "extent ?w (strings_of st) + ?w s < 2 ^ 32" using Cons.prems(4) by (simp add: ss)
    note st1 = lookup_cstring_pool [OF Cons.prems(1) ok(1) this look]
    have "extent ?w (strings_of st1) + extent ?w ss' < 2 ^ 32"
      using Cons.prems(4) extent_enter [of ?w s "strings_of st"] st1 by (simp add: ss)
    note IH = Cons.IH [OF conjunct1 [OF st1] rest ok(2) this]
    obtain j where j: "get_cstring_from_sectorder file i = CHECK_GOOD (s, [], j)" using line by (auto simp: line_of_def)
    have "relive_lines pagesize objects this file (l # ls) st = relive_lines pagesize objects this file ls st1"
      using True by (simp add: l j takeWhile_c_string [OF ok(1)] look)
    then show ?thesis using IH True st1 by (simp add: ss l)
  qed
qed

text \<open>The strings of a section that are merged again.\<close>

definition live_strings :: "mem \<times> u32 \<times> u32 \<times> section_map \<Rightarrow> c_string list" where
  "live_strings sec =
     map (snd \<circ> snd) (filter (live \<circ> fst) (zip (fine_relocs (snd (snd (snd sec)))) (input_strings sec)))"

definition same_count :: "mem \<times> u32 \<times> u32 \<times> section_map \<Rightarrow> bool" where
  "same_count sec \<longleftrightarrow> length (fine_relocs (snd (snd (snd sec)))) = length (input_strings sec)"

lemma cstring_merge_live:
  assumes "cstring_merge pagesize True obj off sz sm st = CHECK_GOOD (sm', st')" and "same_count (obj, off, sz, sm)"
  shows "merge_live (lookup_cstring pagesize) (fine_relocs sm) (input_strings (obj, off, sz, sm)) st =
    (fine_relocs sm', st')"
    and "sz \<noteq> 0 \<longrightarrow> last (take (unat sz) (drop (unat off) obj)) = 0"
proof -
  have "merge_live (lookup_cstring pagesize) (fine_relocs sm) (input_strings (obj, off, sz, sm)) st = (fine_relocs sm', st') \<and>
    (sz \<noteq> 0 \<longrightarrow> last (take (unat sz) (drop (unat off) obj)) = 0)"
  proof (cases "sz = 0")
    case True
    then show ?thesis
      using assms by (auto simp: cstring_merge_def same_count_def input_strings_def cstring_items.simps)
  next
    case False
    obtain bs where bs: "get_bytes obj (unat off) (unat sz) = Some bs" "last bs = 0"
      and m: "(let (frs, st) = merge_live (lookup_cstring pagesize) (fine_relocs sm) (cstring_items 0 bs) st
        in CHECK_GOOD (sm\<lparr>fine_relocs := frs\<rparr>, st)) = (CHECK_GOOD (sm', st') :: (literal_error, _) check)"
      using assms(1) False by (simp add: cstring_merge_def and_then_GOOD_iff Let_def split: if_split_asm)
    have bytes: "bs = take (unat sz) (drop (unat off) obj)"
      using bs(1) by (simp_all add: get_bytes_def split: if_split_asm)
    obtain frs st1 where new: "merge_live (lookup_cstring pagesize) (fine_relocs sm) (cstring_items 0 bs) st = (frs, st1)"
      by (metis surj_pair)
    then have "sm' = sm\<lparr>fine_relocs := frs\<rparr>" "st' = st1" using m by simp_all
    then show ?thesis using new bytes bs(2) by (simp add: input_strings_def)
  qed
  then show "merge_live (lookup_cstring pagesize) (fine_relocs sm) (input_strings (obj, off, sz, sm)) st =
      (fine_relocs sm', st')" "sz \<noteq> 0 \<longrightarrow> last (take (unat sz) (drop (unat off) obj)) = 0" by blast+
qed

lemma input_strings_ok: "list_all c_string_ok (map snd (input_strings sec))"
proof -
  have "list_all c_string_ok (map snd (cstring_items p bs))" for p bs
  proof (induction p bs rule: cstring_items.induct)
    case (1 p bs)
    then show ?case
      by (subst cstring_items.simps) (auto simp: Let_def c_string_ok_def list_all_iff dest: set_takeWhileD)
  qed
  then show ?thesis by (cases sec) (simp add: input_strings_def)
qed

lemma cstring_sections_live:
  assumes "merge_sections (cstring_merge pagesize True) secs st = CHECK_GOOD (sms, st')" and "cstring_inv align st"
    and "list_all same_count secs"
    and "extent (string_width align) (strings_of st) +
      extent (string_width align) (map snd (concat (map input_strings secs))) < 2 ^ 32"
  shows "cstring_inv align st' \<and> strings_of st' = enter_all (concat (map live_strings secs)) (strings_of st)"
  using assms
proof (induction secs arbitrary: st sms)
  case (Cons sec rest)
  let ?w = "string_width align"
  obtain obj off sz sm where sec: "sec = (obj, off, sz, sm)" by (metis prod_cases4)
  obtain sm1 st1 sms1 where 1: "cstring_merge pagesize True obj off sz sm st = CHECK_GOOD (sm1, st1)"
    and 2: "merge_sections (cstring_merge pagesize True) rest st1 = CHECK_GOOD (sms1, st')"
    using Cons.prems(1) by (auto simp: sec and_then_GOOD_iff)
  have len: "length (fine_relocs sm) = length (input_strings sec)" "same_count (obj, off, sz, sm)"
    using Cons.prems(3) by (simp_all add: sec same_count_def)
  have room: "extent ?w (strings_of st) + extent ?w (map snd (input_strings sec)) < 2 ^ 32"
    using Cons.prems(4) by simp
  have st1: "cstring_inv align st1 \<and> strings_of st1 = enter_all (live_strings sec) (strings_of st)"
    using cstring_section.merge_live_pool [OF Cons.prems(2) room cstring_merge_live(1) [OF 1 len(2), folded sec] len(1)
        input_strings_ok] by (simp add: live_strings_def sec)
  have "extent ?w (live_strings sec) \<le> extent ?w (map snd (input_strings sec))"
    using filter_zip_extent [OF len(1)] by (simp add: live_strings_def sec)
  then have "extent ?w (strings_of st1) + extent ?w (map snd (concat (map input_strings rest))) < 2 ^ 32"
    using Cons.prems(4) extent_enter_all [of ?w "live_strings sec" "strings_of st"] st1 by simp
  moreover have "list_all same_count rest" using Cons.prems(3) by simp
  ultimately have "cstring_inv align st' \<and> strings_of st' = enter_all (concat (map live_strings rest)) (strings_of st1)"
    using Cons.IH [OF 2] st1 by blast
  then show ?case using st1 by (simp add: enter_all_append)
qed simp

lemma cstring_reset_live_quoted:
  assumes "cstring_load_order_data (fst st) = Some ls" and "order_filename (snd st)" and "ms_align (snd st) = align"
    and "unat align < 32" and "list_all2 (\<lambda>(i, off) s. line_of ((snd st)\<lparr>ms_size := 0\<rparr>) s i) ls ss"
    and "list_all c_string_ok ss" and "extent (string_width align) ss < 2 ^ 32"
  shows "\<exists>st'. cstring_reset_live pagesize objects this st = CHECK_GOOD st' \<and> cstring_inv align st' \<and>
    strings_of st' =
      enter_all (map snd (filter (\<lambda>(l, s). is_literal_output_offset_live objects this (snd l)) (zip ls ss))) []"
proof -
  let ?st0 = "(cstring_free (fst st), (snd st)\<lparr>ms_size := 0\<rparr>)"
  have start: "cstring_inv align ?st0" "strings_of ?st0 = []"
    using assms(3,4)
    by (simp_all add: cstring_inv_def strings_of_def section_bytes_def cstring_free_def strings_in.simps)
  obtain st' where st': "relive_lines pagesize objects this ((snd st)\<lparr>ms_size := 0\<rparr>) ls ?st0 = CHECK_GOOD st'"
    "cstring_inv align st'" "strings_of st' =
      enter_all (map snd (filter (\<lambda>(l, s). is_literal_output_offset_live objects this (snd l)) (zip ls ss))) []"
    using relive_lines_quoted [OF start(1) assms(5,6), of pagesize objects this] assms(7) start(2) by auto
  obtain data ms where parts: "st' = (data, ms)" by (metis surj_pair)
  have "cstring_reset_live pagesize objects this st =
      CHECK_GOOD (data\<lparr>cstring_load_order_data := None\<rparr>, ms\<lparr>order_addr := []\<rparr>)"
    using st'(1) assms(1,2) by (cases st) (simp add: cstring_reset_live_def parts)
  then show ?thesis using st'(2,3) by (simp add: parts)
qed

lemma line_of_same:
  "order_addr ms = order_addr ms' \<Longrightarrow> order_size ms = order_size ms' \<Longrightarrow> line_of ms = line_of ms'"
  by (intro ext) (simp add: line_of_def get_cstring_from_sectorder_def order_rest_def)

lemma filter_lines:
  assumes "list_all2 (\<lambda>(i, off) s. P s i \<and> unat off = f s) ls ss"
  shows "map snd (filter (\<lambda>(l, s). Q (snd l)) (zip ls ss)) = filter (\<lambda>s. Q (of_nat (f s))) ss"
  using assms
proof (induction rule: list_all2_induct)
  case (Cons l ls s ss)
  have "unat (snd l) = f s" using Cons.hyps(1) by (simp add: split_beta)
  then have "snd l = of_nat (f s)" by (metis of_nat_unat ucast_id)
  then show ?case using Cons.IH by simp
qed simp

text \<open>Whether the string of a line of the file is live, by the offset it had before.\<close>

definition live_line :: "object_file list \<Rightarrow> nat \<Rightarrow> u32 \<Rightarrow> c_string list \<Rightarrow> c_string \<Rightarrow> bool" where
  "live_line objects this align ss s \<longleftrightarrow>
     is_literal_output_offset_live objects this (of_nat (offset_of (string_width align) (enter_all ss []) s))"

text \<open>
  C11: Dead stripping keeps the live strings: when an order file is taken, the sections are merged, the
  data is reset and the sections are merged again, the output section has the strings of the file whose
  offset some object holds live and then those live in the sections, in this order, each once and no
  other, and the size of the section is what they take.
\<close>

theorem cstring_dead_strip:
  assumes start: "cstring_inv align (data, ms)" "strings_of (data, ms) = []" "order_filename ms"
    and text_of: "order_addr ms = order_file ss @ beyond" "order_size ms = length (order_file ss)" "list_all c_string_ok ss"
    and ordered: "cstring_order pagesize True (data, ms) = CHECK_GOOD (errs, st1)"
    and merged: "merge_sections (cstring_merge pagesize False) secs st1 = CHECK_GOOD (sms, st2)"
    and reset: "cstring_reset_live pagesize objects this st2 = CHECK_GOOD st3"
    and again: "merge_sections (cstring_merge pagesize True) secs' st3 = CHECK_GOOD (sms', st4)"
    and count: "list_all same_count secs'"
    and room: "extent (string_width align) (ss @ map snd (concat (map input_strings secs'))) < 2 ^ 32"
  shows "strings_of st4 = enter_all (filter (live_line objects this align ss) ss @ concat (map live_strings secs')) [] \<and>
    distinct (strings_of st4) \<and> unat (ms_size (snd st4)) = extent (string_width align) (strings_of st4)"
proof -
  let ?w = "string_width align"
  have room_ss: "extent ?w ss < 2 ^ 32" using room by simp
  obtain ls data' ms' where o: "cstring_order pagesize True (data, ms) =
      CHECK_GOOD ([], data'\<lparr>cstring_load_order_data := Some ls\<rparr>, ms')"
    and inv: "cstring_inv align (data', ms')" and pool: "strings_of (data', ms') = enter_all ss []"
    and lines: "list_all2 (\<lambda>(i, off) s. line_of ms' s i \<and> unat off = offset_of ?w (strings_of (data', ms')) s) ls ss"
    and name: "order_filename ms'"
    using cstring_order_quoted [OF start(1) text_of(3) _ text_of(1,2), of pagesize True] room_ss start(2,3) by auto
  have st1: "st1 = (data'\<lparr>cstring_load_order_data := Some ls\<rparr>, ms')" using ordered unfolding o by simp
  note ls = lines [unfolded pool]
  have "order_state st2 = order_state st1"
    using merge_all_order_state [of pagesize "map input_strings secs" st1]
      conjunct1 [OF cstring_sections_new [OF merged]] by simp
  then have st2: "cstring_load_order_data (fst st2) = Some ls" "order_filename (snd st2)"
    "ms_align (snd st2) = ms_align ms'" "order_addr (snd st2) = order_addr ms'" "order_size (snd st2) = order_size ms'"
    using st1 name by (simp_all add: order_state_def)
  have align: "ms_align ms' = align" "unat align < 32" using inv by (simp_all add: cstring_inv_def)
  have "line_of ((snd st2)\<lparr>ms_size := 0\<rparr>) = line_of ms'" using st2 by (intro line_of_same) simp_all
  then have again_lines: "list_all2 (\<lambda>(i, off) s. line_of ((snd st2)\<lparr>ms_size := 0\<rparr>) s i) ls ss"
    using ls by (auto elim!: list.rel_mono_strong)
  then have st3: "cstring_inv align st3" "strings_of st3 =
      enter_all (map snd (filter (\<lambda>(l, s). is_literal_output_offset_live objects this (snd l)) (zip ls ss))) []"
    using cstring_reset_live_quoted [OF st2(1,2) st2(3) [unfolded align(1)] align(2) again_lines text_of(3) room_ss,
        of pagesize objects this] reset by auto
  have lines: "strings_of st3 = enter_all (filter (live_line objects this align ss) ss) []"
    unfolding st3(2) filter_lines [OF ls] by (simp add: live_line_def [abs_def])
  have "extent ?w (filter P ts) \<le> extent ?w ts" for P ts by (induction ts) auto
  from this [of "live_line objects this align ss" ss]
  have "extent ?w (filter (live_line objects this align ss) ss) \<le> extent ?w ss" .
  then have "extent ?w (strings_of st3) \<le> extent ?w ss"
    using extent_enter_all [of ?w "filter (live_line objects this align ss) ss" "[]"] by (simp add: lines)
  then have "extent ?w (strings_of st3) + extent ?w (map snd (concat (map input_strings secs'))) < 2 ^ 32"
    using room by simp
  then have st4: "cstring_inv align st4 \<and> strings_of st4 = enter_all (concat (map live_strings secs')) (strings_of st3)"
    using cstring_sections_live [OF again st3(1) count] by blast
  then have "unat (ms_size (snd st4)) = extent ?w (strings_of st4)" "distinct (strings_of st4)"
    unfolding cstring_inv_def by (metis length_pads, blast)
  then show ?thesis using st4 by (simp add: lines enter_all_append)
qed

section \<open>An example\<close>

text \<open>
  An order file of three strings, one with a backslash and a newline in it; the sections of the example
  of \<open>CStringLiterals\<close>, of which the second string of each is live.
\<close>

definition string_order :: "c_string list" where
  "string_order = [[120, 92, 10], [99], [97, 98]]"

definition ordered_section :: merged_section where
  "ordered_section = (empty_section 2)\<lparr>order_filename := True,
     order_addr := [120, 92, 92, 92, 110, 10, 99, 10, 97, 98, 10], order_size := 11\<rparr>"

definition no_data :: cstring_data where
  "no_data = \<lparr>hashtable = None, cstring_blocks = [], cstring_load_order_data = None\<rparr>"

lemma ordered_start:
  "cstring_inv 2 (no_data, ordered_section)" "strings_of (no_data, ordered_section) = []"
  by (simp_all add: no_data_def ordered_section_def cstring_inv_def strings_of_def section_bytes_def
      empty_section_def strings_in.simps)

lemma string_order_ok:
  "order_addr ordered_section = order_file string_order @ []" "order_size ordered_section = length (order_file string_order)"
  "list_all c_string_ok string_order" "order_filename ordered_section" "extent (string_width 2) string_order = 12"
  by code_simp+

theorem cstring_order_strings_witness:
  "\<exists>st. cstring_order 4096 True (no_data, ordered_section) = CHECK_GOOD ([], st) \<and>
     cstring_inv 2 st \<and> strings_of st = enter_all string_order []"
  using cstring_order_strings [OF ordered_start(1) string_order_ok(3) _ string_order_ok(1,2),
      where pagesize = 4096 and dead_strip = True]
  by (simp add: ordered_start(2) string_order_ok(5) del: enter_all_simps)

definition ordered_strings where
  "ordered_strings = good (cstring_order 4096 True (no_data, ordered_section))"

definition strings_once where
  "strings_once = good (merge_sections (cstring_merge 4096 False) two_string_inputs (snd ordered_strings))"

definition live_string_maps :: "section_map list" where
  "live_string_maps = map2 (\<lambda>ls sm. sm\<lparr>fine_relocs := map2 (\<lambda>l fr. fr\<lparr>live := l\<rparr>) ls (fine_relocs sm)\<rparr>)
     [[False, True, False], [True, True]] (fst strings_once)"

definition live_string_inputs where
  "live_string_inputs = map2 (\<lambda>(obj, off, sz, _) sm. (obj, off, sz, sm)) two_string_inputs live_string_maps"

definition live_string_objects :: "object_file list" where
  "live_string_objects = [\<lparr>is_base_obj = False, is_dylib = False, is_bundle_loader = False, is_dylinker = False,
     section_maps = live_string_maps\<rparr>]"

definition strings_reset where
  "strings_reset = good (cstring_reset_live 4096 live_string_objects 0 (snd strings_once))"

definition strings_twice where
  "strings_twice = merge_sections (cstring_merge 4096 True) live_string_inputs strings_reset"

lemma string_steps_run:
  "is_good (cstring_order 4096 True (no_data, ordered_section))"
  "is_good (merge_sections (cstring_merge 4096 False) two_string_inputs (snd ordered_strings))"
  "is_good (cstring_reset_live 4096 live_string_objects 0 (snd strings_once))"
  "is_good strings_twice"
  by code_simp+

lemmas string_run = is_good_pairD [OF string_steps_run(1), folded ordered_strings_def]
  is_good_pairD [OF string_steps_run(2), folded strings_once_def]
  is_goodD [OF string_steps_run(3), folded strings_reset_def]
  is_good_pairD [OF string_steps_run(4), unfolded strings_twice_def]

lemma live_string_inputs_ok:
  "list_all same_count live_string_inputs"
  "extent (string_width 2) (string_order @ map snd (concat (map input_strings live_string_inputs))) = 36"
  "enter_all (filter (live_line live_string_objects 0 2 string_order) string_order @
     concat (map live_strings live_string_inputs)) [] = [[99], [100, 101, 102, 103]]"
  by code_simp+

theorem cstring_dead_strip_witness:
  "strings_of (snd (good strings_twice)) = [[99], [100, 101, 102, 103]]"
  using cstring_dead_strip [OF ordered_start string_order_ok(4,1,2,3) string_run live_string_inputs_ok(1)]
  by (simp only: strings_twice_def [symmetric] live_string_inputs_ok(2,3)) simp

text \<open>
  The last line of a file that has no newline at its end is not counted: neither the buffer nor the
  array of lines has room for it.
\<close>

lemma last_line_not_counted:
  "cstring_order 4096 dead_strip (no_data, ordered_section\<lparr>order_addr := [97, 98], order_size := 2\<rparr>) = FAULT"
  by (cases dead_strip; simp only:; code_simp)

end
