(* ===== verification/Lipo.thy ===== *)
theory Lipo
  imports Archive "HOL-Library.Multiset"
begin

text \<open>
  The program \<^verbatim>\<open>misc/lipo.c\<close>, which makes fat files from thin ones and takes fat files apart: the list
  of thin files, the operations \<^verbatim>\<open>-create\<close>, \<^verbatim>\<open>-thin\<close>, \<^verbatim>\<open>-extract\<close>, \<^verbatim>\<open>-remove\<close>, \<^verbatim>\<open>-replace\<close> and \<^verbatim>\<open>-verify_arch\<close> on
  it, the file that \<^verbatim>\<open>create_fat\<close> writes, and how a fat file is read.  A call of \<^verbatim>\<open>fatal\<close> is \<open>CHECK_BAD\<close>.
\<close>

section \<open>Thin files\<close>

datatype lipo_error =
  Same_architectures
| One_input_file
| Input_not_fat
| No_such_arch
| Arch_twice
| Nothing_left
| Not_power_of_two
| Segalign_too_large
| Fat_archs_past_end
| Slice_past_end
| Slice_align_too_large
| Slice_not_aligned

text \<open>
  \<open>tf_addr\<close> is the mapped memory from the start of the thin file on; its size is in the \<^verbatim>\<open>fat_arch\<close>.  The
  name of the file is used for messages only.
\<close>

record thin_file =
  tf_addr :: mem
  tf_fat_arch :: fat_arch
  from_fat :: bool
  tf_extract :: bool
  tf_remove :: bool

definition new_thin :: "mem \<Rightarrow> fat_arch \<Rightarrow> thin_file" where
  "new_thin addr a = \<lparr>tf_addr = addr, tf_fat_arch = a, from_fat = False, tf_extract = False, tf_remove = False\<rparr>"

definition thin_is :: "arch_flag \<Rightarrow> thin_file \<Rightarrow> bool" where
  "thin_is f t \<longleftrightarrow>
     af_cputype f = fa_cputype (tf_fat_arch t) \<and>
     subtype_of (af_cpusubtype f) = subtype_of (fa_cpusubtype (tf_fat_arch t))"

definition same_flag :: "arch_flag \<Rightarrow> arch_flag \<Rightarrow> bool" where
  "same_flag f g \<longleftrightarrow> af_cputype f = af_cputype g \<and> subtype_of (af_cpusubtype f) = subtype_of (af_cpusubtype g)"

definition same_thin :: "thin_file \<Rightarrow> thin_file \<Rightarrow> bool" where
  "same_thin s t \<longleftrightarrow> same_arch (tf_fat_arch s) (tf_fat_arch t)"

text \<open>The loops over two indices that look for an entry that is there twice.\<close>

fun twice :: "('a \<Rightarrow> 'a \<Rightarrow> bool) \<Rightarrow> 'a list \<Rightarrow> bool" where
  "twice eq [] \<longleftrightarrow> False"
| "twice eq (x # xs) \<longleftrightarrow> list_ex (eq x) xs \<or> twice eq xs"

text \<open>The change of the first thin file of an architecture, if there is one.\<close>

fun update_first :: "('a \<Rightarrow> bool) \<Rightarrow> ('a \<Rightarrow> 'a) \<Rightarrow> 'a list \<Rightarrow> 'a list option" where
  "update_first P f [] = None"
| "update_first P f (x # xs) = (if P x then Some (f x # xs) else map_option (Cons x) (update_first P f xs))"

section \<open>Segment alignments\<close>

text \<open>
  The argument of \<^verbatim>\<open>-segalign\<close>, as a number.  Both loops shift it to the right until its lowest bit is set.
\<close>

function shift_to_odd :: "u32 \<Rightarrow> u32 \<Rightarrow> u32 \<times> u32" where
  "shift_to_odd x n = (if x = 0 \<or> x AND 1 = 1 then (x, n) else shift_to_odd (drop_bit 1 x) (n + 1))"
  by pat_completeness auto

termination
  by (relation "measure (\<lambda>(x, n). unat x)") (auto simp: drop_bit_Suc unat_div unat_gt_0 intro!: div_less_dividend)

declare shift_to_odd.simps [simp del]

definition ispoweroftwo :: "u32 \<Rightarrow> bool" where
  "ispoweroftwo x \<longleftrightarrow> (if x = 0 then True else fst (shift_to_odd x 0) AND NOT 1 = 0)"

definition segalign_of :: "u32 \<Rightarrow> (lipo_error, u32) check" where
  "segalign_of v =
     (if \<not> ispoweroftwo v \<or> v = 0 then CHECK_BAD Not_power_of_two
      else if v > push_bit (unat MAXSECTALIGN) 1 then CHECK_BAD Segalign_too_large
      else CHECK_GOOD (snd (shift_to_odd v 0)))"

record segalign =
  sa_arch_flag :: arch_flag
  sa_align :: u32

fun set_aligns :: "segalign list \<Rightarrow> thin_file list \<Rightarrow> (lipo_error, thin_file list) check" where
  "set_aligns [] ts = CHECK_GOOD ts"
| "set_aligns (s # ss) ts =
     (case update_first (thin_is (sa_arch_flag s))
        (\<lambda>t. t\<lparr>tf_fat_arch := (tf_fat_arch t)\<lparr>fa_align := sa_align s\<rparr>\<rparr>) ts of
        None \<Rightarrow> CHECK_BAD No_such_arch
      | Some ts \<Rightarrow> set_aligns ss ts)"

definition fold_segaligns :: "segalign list \<Rightarrow> thin_file list \<Rightarrow> (lipo_error, thin_file list) check" where
  "fold_segaligns ss ts =
     (if twice same_flag (map sa_arch_flag ss) then CHECK_BAD Arch_twice else set_aligns ss ts)"

section \<open>Writing a fat file\<close>

text \<open>The offsets, one after the other, each rounded to its alignment.  They are 32-bit sums.\<close>

fun assign_offsets :: "u32 \<Rightarrow> thin_file list \<Rightarrow> thin_file list" where
  "assign_offsets off [] = []"
| "assign_offsets off (t # ts) =
     (let off = round_up off (push_bit (unat (fa_align (tf_fat_arch t))) 1)
      in t\<lparr>tf_fat_arch := (tf_fat_arch t)\<lparr>fa_offset := off\<rparr>\<rparr> #
         assign_offsets (off + fa_size (tf_fat_arch t)) ts)"

text \<open>
  A write at a position of the output file: behind the end the file is filled with zeros, but a write
  of no bytes does nothing.
\<close>

definition write_at :: "mem \<Rightarrow> nat \<Rightarrow> u8 list \<Rightarrow> mem" where
  "write_at f pos bs =
     (if bs = [] then f
      else take pos (f @ replicate (pos - length f) 0) @ bs @ drop (pos + length bs) f)"

definition contents :: "thin_file \<Rightarrow> u8 list option" where
  "contents t = get_bytes (tf_addr t) 0 (unat (fa_size (tf_fat_arch t)))"

text \<open>A struct as it is written: on a little endian host it is swapped first, and swapped back then.\<close>

definition struct_bytes :: "'a codec \<Rightarrow> ('a \<Rightarrow> 'a) \<Rightarrow> byte_sex \<Rightarrow> 'a \<Rightarrow> u8 list" where
  "struct_bytes C swap h x = encode h (parts C (if h = LITTLE_ENDIAN_BYTE_SEX then swap x else x))"

definition fat_head :: "byte_sex \<Rightarrow> thin_file list \<Rightarrow> u8 list" where
  "fat_head h ts =
     struct_bytes fat_header_codec swap_fat_header h
       \<lparr>fh_magic = FAT_MAGIC, fh_nfat_arch = of_nat (length ts)\<rparr> @
     concat (map (\<lambda>t. struct_bytes fat_arch_codec swap_fat_arch h (tf_fat_arch t)) ts)"

fun write_slices :: "thin_file list \<Rightarrow> mem \<Rightarrow> (lipo_error, mem) check" where
  "write_slices [] f = CHECK_GOOD f"
| "write_slices (t # ts) f =
     and_then (or_fault (contents t)) (\<lambda>bs. write_slices ts (write_at f (unat (fa_offset (tf_fat_arch t))) bs))"

text \<open>
  \<open>qs\<close> is \<^verbatim>\<open>qsort\<close> of the C library, which says nothing about files of the same alignment.  A family
  of one file is written as it is.
\<close>

definition qsort_ok :: "(thin_file list \<Rightarrow> thin_file list) \<Rightarrow> bool" where
  "qsort_ok qs \<longleftrightarrow>
     (\<forall>ts. mset (qs ts) = mset ts \<and> sorted (map (\<lambda>t. fa_align (tf_fat_arch t)) (qs ts)))"

definition create_fat ::
  "(thin_file list \<Rightarrow> thin_file list) \<Rightarrow> byte_sex \<Rightarrow> bool \<Rightarrow> segalign list \<Rightarrow> thin_file list \<Rightarrow>
     (lipo_error, mem) check" where
  "create_fat qs h extract_family segaligns ts =
     and_then (fold_segaligns segaligns ts) (\<lambda>ts.
     let ts = assign_offsets (8 + of_nat (length ts) * 20) (qs ts)
     in if extract_family \<and> length ts = 1 then or_fault (contents (hd ts))
        else write_slices ts (fat_head h ts))"

section \<open>Reading a fat file\<close>

text \<open>
  The case of \<^verbatim>\<open>process_input_file\<close> for a fat file: the structs are swapped in memory on a little endian
  host, then every slice is checked and becomes a thin file of this memory.
\<close>

definition swapped_load :: "'a codec \<Rightarrow> ('a \<Rightarrow> 'a) \<Rightarrow> byte_sex \<Rightarrow> mem \<Rightarrow> nat \<Rightarrow> 'a option" where
  "swapped_load C swap h m off =
     map_option (\<lambda>x. if h = LITTLE_ENDIAN_BYTE_SEX then swap x else x) (load C h m off)"

definition is_fat_file :: "byte_sex \<Rightarrow> mem \<Rightarrow> bool" where
  "is_fat_file h m \<longleftrightarrow>
     length m \<ge> 8 \<and>
     load word_codec h m 0 = Some (if h = LITTLE_ENDIAN_BYTE_SEX then SWAP_INT FAT_MAGIC else FAT_MAGIC)"

definition lipo_arch_tests :: "u32 \<Rightarrow> fat_arch \<Rightarrow> (bool \<times> lipo_error) list" where
  "lipo_arch_tests sz a =
     [(fa_offset a + fa_size a > sz, Slice_past_end),
      (fa_align a > MAXSECTALIGN, Slice_align_too_large),
      (fa_offset a mod push_bit (unat (fa_align a)) 1 \<noteq> 0, Slice_not_aligned)]"

definition thin_of_slice :: "mem \<Rightarrow> fat_arch \<Rightarrow> thin_file" where
  "thin_of_slice m a = (new_thin (drop (unat (fa_offset a)) m) a)\<lparr>from_fat := True\<rparr>"

text \<open>The mapped file, in which the structs were swapped.\<close>

definition fat_memory :: "byte_sex \<Rightarrow> nat \<Rightarrow> mem \<Rightarrow> mem option" where
  "fat_memory h n m =
     (if h = LITTLE_ENDIAN_BYTE_SEX then
        Option.bind (swap_at fat_header_codec swap_fat_header h m 0) (\<lambda>m. swap_fat_arch_array h m 8 n)
      else Some m)"

definition process_fat_file :: "byte_sex \<Rightarrow> mem \<Rightarrow> (lipo_error, thin_file list) check" where
  "process_fat_file h m =
     and_then (or_fault (swapped_load fat_header_codec swap_fat_header h m 0)) (\<lambda>fh.
     let n = unat (fh_nfat_arch fh)
     in if n * 20 + 8 > length m then CHECK_BAD Fat_archs_past_end
        else and_then
          (or_fault (those (map (\<lambda>i. swapped_load fat_arch_codec swap_fat_arch h m (8 + 20 * i)) [0..<n]))) (\<lambda>as.
          case first_error (concat (map (lipo_arch_tests (of_nat (length m))) as)) of
            Some e \<Rightarrow> CHECK_BAD e
          | None \<Rightarrow>
              if twice same_arch as then CHECK_BAD Same_architectures
              else and_then (or_fault (fat_memory h n m)) (\<lambda>m. CHECK_GOOD (map (thin_of_slice m) as))))"

section \<open>The operations\<close>

definition lipo_create ::
  "(thin_file list \<Rightarrow> thin_file list) \<Rightarrow> byte_sex \<Rightarrow> segalign list \<Rightarrow> thin_file list \<Rightarrow> (lipo_error, mem) check" where
  "lipo_create qs h segaligns ts =
     (if twice same_thin ts then CHECK_BAD Same_architectures
      else create_fat qs h False segaligns ts)"

text \<open>The other operations want one input file, which is fat; \<open>inputs\<close> says of each whether it is.\<close>

definition one_fat_input :: "bool list \<Rightarrow> (lipo_error, unit) check" where
  "one_fat_input inputs =
     (if length inputs \<noteq> 1 then CHECK_BAD One_input_file
      else if \<not> hd inputs then CHECK_BAD Input_not_fat
      else CHECK_GOOD ())"

definition lipo_thin :: "bool list \<Rightarrow> arch_flag \<Rightarrow> thin_file list \<Rightarrow> (lipo_error, mem) check" where
  "lipo_thin inputs flag ts =
     and_then (one_fat_input inputs) (\<lambda>_.
       case List.find (thin_is flag) ts of
         None \<Rightarrow> CHECK_BAD No_such_arch
       | Some t \<Rightarrow> or_fault (contents t))"

text \<open>
  The test of \<^verbatim>\<open>-extract\<close> for flags that are given twice compares the subtype of a flag with that of the
  thin file of the same index as the other flag, which need not exist.
\<close>

fun extract_twice :: "arch_flag list \<Rightarrow> thin_file list \<Rightarrow> (nat \<times> nat) list \<Rightarrow> (lipo_error, unit) check" where
  "extract_twice fs ts [] = CHECK_GOOD ()"
| "extract_twice fs ts ((i, j) # ijs) =
     (if af_cputype (fs ! i) \<noteq> af_cputype (fs ! j) then extract_twice fs ts ijs
      else if length ts \<le> j then FAULT
      else if subtype_of (af_cpusubtype (fs ! i)) = subtype_of (fa_cpusubtype (tf_fat_arch (ts ! j)))
      then CHECK_BAD Arch_twice
      else extract_twice fs ts ijs)"

definition index_pairs :: "nat \<Rightarrow> (nat \<times> nat) list" where
  "index_pairs n = concat (map (\<lambda>i. map (Pair i) [i + 1..<n]) [0..<n])"

definition extracts :: "bool \<Rightarrow> arch_flag \<Rightarrow> thin_file \<Rightarrow> bool" where
  "extracts extract_family f t \<longleftrightarrow>
     af_cputype f = fa_cputype (tf_fat_arch t) \<and>
     (subtype_of (af_cpusubtype f) = subtype_of (fa_cpusubtype (tf_fat_arch t)) \<or> extract_family)"

fun mark_extract :: "bool \<Rightarrow> arch_flag list \<Rightarrow> thin_file list \<Rightarrow> (lipo_error, thin_file list) check" where
  "mark_extract extract_family [] ts = CHECK_GOOD ts"
| "mark_extract extract_family (f # fs) ts =
     (if list_ex (extracts extract_family f) ts
      then mark_extract extract_family fs
        (map (\<lambda>t. if extracts extract_family f t then t\<lparr>tf_extract := True\<rparr> else t) ts)
      else CHECK_BAD No_such_arch)"

definition lipo_extract ::
  "(thin_file list \<Rightarrow> thin_file list) \<Rightarrow> byte_sex \<Rightarrow> bool \<Rightarrow> segalign list \<Rightarrow> bool list \<Rightarrow> arch_flag list \<Rightarrow>
     thin_file list \<Rightarrow> (lipo_error, mem) check" where
  "lipo_extract qs h extract_family segaligns inputs flags ts =
     and_then (one_fat_input inputs) (\<lambda>_.
     and_then (extract_twice flags ts (index_pairs (length flags))) (\<lambda>_.
     and_then (mark_extract extract_family flags ts) (\<lambda>ts.
     create_fat qs h extract_family segaligns (filter tf_extract ts))))"

fun mark_remove :: "arch_flag list \<Rightarrow> thin_file list \<Rightarrow> (lipo_error, thin_file list) check" where
  "mark_remove [] ts = CHECK_GOOD ts"
| "mark_remove (f # fs) ts =
     (case update_first (thin_is f) (\<lambda>t. t\<lparr>tf_remove := True\<rparr>) ts of
        None \<Rightarrow> CHECK_BAD No_such_arch
      | Some ts \<Rightarrow> mark_remove fs ts)"

definition lipo_remove ::
  "(thin_file list \<Rightarrow> thin_file list) \<Rightarrow> byte_sex \<Rightarrow> segalign list \<Rightarrow> bool list \<Rightarrow> arch_flag list \<Rightarrow>
     thin_file list \<Rightarrow> (lipo_error, mem) check" where
  "lipo_remove qs h segaligns inputs flags ts =
     and_then (one_fat_input inputs) (\<lambda>_.
     if twice same_flag flags then CHECK_BAD Arch_twice
     else and_then (mark_remove flags ts) (\<lambda>ts.
       let ts = filter (\<lambda>t. \<not> tf_remove t) ts
       in if ts = [] then CHECK_BAD Nothing_left else create_fat qs h False segaligns ts))"

text \<open>The replacement files have been read, and are of the architectures of their flags.\<close>

fun put_replaces :: "(arch_flag \<times> thin_file) list \<Rightarrow> thin_file list \<Rightarrow> (lipo_error, thin_file list) check" where
  "put_replaces [] ts = CHECK_GOOD ts"
| "put_replaces ((f, new) # rs) ts =
     (case update_first (thin_is f) (\<lambda>_. new) ts of
        None \<Rightarrow> CHECK_BAD No_such_arch
      | Some ts \<Rightarrow> put_replaces rs ts)"

definition lipo_replace ::
  "(thin_file list \<Rightarrow> thin_file list) \<Rightarrow> byte_sex \<Rightarrow> segalign list \<Rightarrow> bool list \<Rightarrow> (arch_flag \<times> thin_file) list \<Rightarrow>
     thin_file list \<Rightarrow> (lipo_error, mem) check" where
  "lipo_replace qs h segaligns inputs replaces ts =
     and_then (one_fat_input inputs) (\<lambda>_.
     if twice same_flag (map fst replaces) then CHECK_BAD Arch_twice
     else and_then (put_replaces replaces ts) (create_fat qs h False segaligns))"

text \<open>\<^verbatim>\<open>-verify_arch\<close> answers with the exit status.\<close>

definition lipo_verify :: "arch_flag list \<Rightarrow> thin_file list \<Rightarrow> bool" where
  "lipo_verify flags ts = list_all (\<lambda>f. list_ex (thin_is f) ts) flags"

end
