(* ===== verification/LipoSound.thy ===== *)
theory LipoSound
  imports Lipo
begin

text \<open>
  What the files of \<open>Lipo\<close> hold: a fat file that is created is read back as the thin files it was
  created from, and is accepted by the checks of \<open>OFile\<close>.
\<close>

section \<open>The layout of a fat file\<close>

text \<open>Slices one behind the other, none empty.\<close>

fun laid_out :: "nat \<Rightarrow> thin_file list \<Rightarrow> bool" where
  "laid_out start [] \<longleftrightarrow> True"
| "laid_out start (t # ts) \<longleftrightarrow>
     start \<le> unat (fa_offset (tf_fat_arch t)) \<and> 0 < unat (fa_size (tf_fat_arch t)) \<and>
     laid_out (unat (fa_offset (tf_fat_arch t)) + unat (fa_size (tf_fat_arch t))) ts"

lemma laid_out_from:
  "laid_out start ts \<Longrightarrow> t \<in> set ts \<Longrightarrow> start \<le> unat (fa_offset (tf_fat_arch t))"
proof (induction ts arbitrary: start)
  case (Cons s ts)
  have "unat (fa_offset (tf_fat_arch s)) + unat (fa_size (tf_fat_arch s)) \<le> unat (fa_offset (tf_fat_arch t))"
    if "t \<in> set ts"
    using Cons.prems(1) by (intro Cons.IH that) simp
  then show ?case using Cons.prems by auto
qed simp

lemma write_at_end:
  "length f \<le> pos \<Longrightarrow> bs \<noteq> [] \<Longrightarrow> write_at f pos bs = f @ replicate (pos - length f) 0 @ bs"
  by (simp add: write_at_def)

lemma contents_length: "contents t = Some bs \<Longrightarrow> length bs = unat (fa_size (tf_fat_arch t))"
  by (auto simp: contents_def dest: get_bytes_length)

lemma get_bytes_append:
  "off + n \<le> length m \<Longrightarrow> get_bytes (m @ rest) off n = get_bytes m off n"
  by (simp add: get_bytes_def)

lemma write_slices_laid_out:
  assumes "write_slices ts f = CHECK_GOOD out" and "laid_out (length f) ts"
  shows "\<exists>rest. out = f @ rest \<and>
    list_all (\<lambda>t. contents t \<noteq> None \<and>
      contents t = get_bytes out (unat (fa_offset (tf_fat_arch t))) (unat (fa_size (tf_fat_arch t)))) ts"
  using assms
proof (induction ts arbitrary: f)
  case (Cons t ts)
  let ?off = "unat (fa_offset (tf_fat_arch t))" and ?size = "unat (fa_size (tf_fat_arch t))"
  obtain bs where bs: "contents t = Some bs" and run: "write_slices ts (write_at f ?off bs) = CHECK_GOOD out"
    using Cons.prems(1) by (auto simp: and_then_GOOD_iff)
  have len: "length bs = ?size" using bs by (rule contents_length)
  then have "bs \<noteq> []" using Cons.prems(2) by auto
  then have at: "write_at f ?off bs = f @ replicate (?off - length f) 0 @ bs"
    using Cons.prems(2) by (intro write_at_end) simp_all
  then have end_of: "length (write_at f ?off bs) = ?off + ?size" using Cons.prems(2) len by simp
  obtain rest where rest: "out = write_at f ?off bs @ rest"
    "list_all (\<lambda>t. contents t \<noteq> None \<and>
      contents t = get_bytes out (unat (fa_offset (tf_fat_arch t))) (unat (fa_size (tf_fat_arch t)))) ts"
    using Cons.IH [OF run] Cons.prems(2) end_of by auto
  have "get_bytes out ?off ?size = get_bytes (write_at f ?off bs) ?off ?size"
    unfolding rest(1) using end_of by (intro get_bytes_append) simp
  also have "\<dots> = Some bs" unfolding at using Cons.prems(2) len by (simp add: get_bytes_def)
  finally show ?case using rest bs by (simp add: at)
qed simp

text \<open>The offsets, when none of the sums wraps.\<close>

definition arch_of :: "thin_file \<Rightarrow> u32 \<times> u32" where
  "arch_of t = (fa_cputype (tf_fat_arch t), fa_cpusubtype (tf_fat_arch t))"

definition room_for :: "thin_file list \<Rightarrow> nat" where
  "room_for ts = sum_list (map (\<lambda>t. unat (fa_size (tf_fat_arch t)) + 2 ^ 15) ts)"

definition sized :: "thin_file \<Rightarrow> bool" where
  "sized t \<longleftrightarrow> 0 < fa_size (tf_fat_arch t) \<and> fa_align (tf_fat_arch t) \<le> MAXSECTALIGN"

lemma assign_offsets_ok:
  assumes "unat start + room_for ts < 2 ^ 32" and "list_all sized ts"
  shows "laid_out (unat start) (assign_offsets start ts) \<and>
    list_all (\<lambda>t. 2 ^ unat (fa_align (tf_fat_arch t)) dvd unat (fa_offset (tf_fat_arch t)) \<and>
      unat (fa_offset (tf_fat_arch t)) + unat (fa_size (tf_fat_arch t)) < 2 ^ 32 \<and>
      fa_align (tf_fat_arch t) \<le> MAXSECTALIGN) (assign_offsets start ts) \<and>
    map contents (assign_offsets start ts) = map contents ts \<and>
    map arch_of (assign_offsets start ts) = map arch_of ts"
  using assms
proof (induction ts arbitrary: start)
  case (Cons t ts)
  let ?a = "tf_fat_arch t"
  let ?off = "round_up start (push_bit (unat (fa_align ?a)) 1)"
  have small: "0 < unat (fa_size ?a)" "fa_align ?a \<le> MAXSECTALIGN"
    using Cons.prems(2) by (simp_all add: sized_def word_less_nat_alt)
  then have align: "unat (fa_align ?a) \<le> 15" by (simp add: word_le_nat_alt)
  then have "(2 :: nat) ^ unat (fa_align ?a) \<le> 2 ^ 15" by (intro power_increasing) simp_all
  moreover have "unat start + unat (fa_size ?a) + 2 ^ 15 + room_for ts < 2 ^ 32"
    using Cons.prems(1) by (simp add: room_for_def)
  moreover have "2 ^ unat (fa_align ?a) dvd unat ?off" "unat start \<le> unat ?off"
    "unat ?off < unat start + 2 ^ unat (fa_align ?a)"
    using round_up_spec [of "unat (fa_align ?a)" start] align calculation by simp_all
  ultimately have off: "2 ^ unat (fa_align ?a) dvd unat ?off" "unat start \<le> unat ?off"
    "unat ?off + unat (fa_size ?a) + room_for ts < 2 ^ 32" by linarith+
  then have sum: "unat (?off + fa_size ?a) = unat ?off + unat (fa_size ?a)"
    by (simp add: unat_word_ariths)
  have "list_all sized ts" using Cons.prems(2) by simp
  note IH = Cons.IH [of "?off + fa_size ?a", unfolded sum, OF off(3) this]
  show ?case
    using IH off small by (simp add: Let_def contents_def arch_of_def)
qed simp

section \<open>The head of a fat file\<close>

lemma load_encode:
  assumes "mach_struct C (\<lambda>_. True)" and "off = length xs"
  shows "load C h (xs @ encode h (parts C y) @ ys) off = Some y"
proof -
  let ?m = "xs @ replicate (size_of C) 0 @ ys"
  have "xs @ encode h (parts C y) @ ys = store C h ?m off y"
    using mach_struct.length_encode_parts [OF assms(1), where x = y and h = h] assms(2)
    by (simp add: store_def put_bytes_def del: length_encode)
  then show ?thesis
    using mach_struct.load_store [OF assms(1), where off = off and m = ?m and x = y and h = h] assms(2) by simp
qed

lemma struct_bytes_load:
  assumes "swappable_struct C (\<lambda>_. True) swap"
  shows "length (struct_bytes C swap h x) = size_of C"
    and "off = length xs \<Longrightarrow> swapped_load C swap h (xs @ struct_bytes C swap h x @ ys) off = Some x"
proof -
  have C: "mach_struct C (\<lambda>_. True)" using assms by (simp add: swappable_struct_def)
  show "length (struct_bytes C swap h x) = size_of C"
    using mach_struct.length_encode_parts [OF C] by (simp add: struct_bytes_def del: length_encode)
  show "swapped_load C swap h (xs @ struct_bytes C swap h x @ ys) off = Some x" if "off = length xs"
    using load_encode [OF C that] swappable_struct.swap_swap [OF assms, of x]
    by (simp add: swapped_load_def struct_bytes_def)
qed

lemmas header_bytes = struct_bytes_load [OF fat_header.swappable_struct_axioms, unfolded size_of_fat_header]
lemmas arch_bytes = struct_bytes_load [OF fat_arch.swappable_struct_axioms, unfolded size_of_fat_arch]

lemma arch_bytes_length:
  "length (concat (map (\<lambda>t. struct_bytes fat_arch_codec swap_fat_arch h (tf_fat_arch t)) ts)) = 20 * length ts"
  by (induction ts) (simp_all add: arch_bytes(1))

lemma length_fat_head: "length (fat_head h ts) = 8 + 20 * length ts"
  by (simp add: fat_head_def header_bytes(1) arch_bytes_length)

lemma fat_head_header:
  "swapped_load fat_header_codec swap_fat_header h (fat_head h ts @ rest) 0 =
     Some \<lparr>fh_magic = FAT_MAGIC, fh_nfat_arch = of_nat (length ts)\<rparr>"
  using header_bytes(2) [of 0 "[]"] by (simp add: fat_head_def)

lemma fat_head_arch:
  assumes "i < length ts"
  shows "swapped_load fat_arch_codec swap_fat_arch h (fat_head h ts @ rest) (8 + 20 * i) = Some (tf_fat_arch (ts ! i))"
proof -
  let ?bytes = "\<lambda>t. struct_bytes fat_arch_codec swap_fat_arch h (tf_fat_arch t)"
  let ?hd = "struct_bytes fat_header_codec swap_fat_header h \<lparr>fh_magic = FAT_MAGIC, fh_nfat_arch = of_nat (length ts)\<rparr>"
  have "concat (map ?bytes (take i ts @ ts ! i # drop (Suc i) ts)) =
      concat (map ?bytes (take i ts)) @ ?bytes (ts ! i) @ concat (map ?bytes (drop (Suc i) ts))" by simp
  then have "concat (map ?bytes ts) =
      concat (map ?bytes (take i ts)) @ ?bytes (ts ! i) @ concat (map ?bytes (drop (Suc i) ts))"
    by (simp only: id_take_nth_drop [OF assms, symmetric])
  then have split: "fat_head h ts @ rest = (?hd @ concat (map ?bytes (take i ts))) @ ?bytes (ts ! i) @
      (concat (map ?bytes (drop (Suc i) ts)) @ rest)"
    by (simp only: fat_head_def append.assoc)
  have "8 + 20 * i = length (?hd @ concat (map ?bytes (take i ts)))"
    using assms by (simp add: header_bytes(1) arch_bytes_length)
  then show ?thesis unfolding split by (rule arch_bytes(2))
qed

lemma fat_head_archs:
  "those (map (\<lambda>i. swapped_load fat_arch_codec swap_fat_arch h (fat_head h ts @ rest) (8 + 20 * i)) [0..<length ts]) =
     Some (map tf_fat_arch ts)"
proof -
  have "map (\<lambda>i. swapped_load fat_arch_codec swap_fat_arch h (fat_head h ts @ rest) (8 + 20 * i)) [0..<length ts] =
      map (\<lambda>i. Some (tf_fat_arch (ts ! i))) [0..<length ts]"
    by (rule map_cong) (simp_all add: fat_head_arch)
  also have "\<dots> = map Some (map tf_fat_arch ts)" by (rule nth_equalityI) simp_all
  finally have eq: "map (\<lambda>i. swapped_load fat_arch_codec swap_fat_arch h (fat_head h ts @ rest) (8 + 20 * i)) [0..<length ts] =
      map Some (map tf_fat_arch ts)" .
  have "those (map Some xs) = Some xs" for xs :: "fat_arch list" by (induction xs) simp_all
  then show ?thesis unfolding eq .
qed

lemma is_fat_file_head: "is_fat_file h (fat_head h ts @ rest)"
proof -
  let ?fh = "\<lparr>fh_magic = FAT_MAGIC, fh_nfat_arch = of_nat (length ts)\<rparr>"
  let ?y = "if h = LITTLE_ENDIAN_BYTE_SEX then swap_fat_header ?fh else ?fh"
  obtain bs where head: "fat_head h ts @ rest = [] @ encode h (parts word_codec (fh_magic ?y)) @ bs"
    by (simp add: fat_head_def struct_bytes_def fat_header_codec_def word_codec_def)
  have "load word_codec h (fat_head h ts @ rest) 0 = Some (fh_magic ?y)"
    unfolding head by (rule load_encode [OF word32.mach_struct_axioms]) simp
  then show ?thesis
    by (cases h) (simp_all add: is_fat_file_def length_fat_head swap_fat_header_def)
qed

text \<open>The tests of \<^verbatim>\<open>lipo\<close> are those of \<^verbatim>\<open>check_fat\<close>.\<close>

lemma lipo_arch_tests_iff:
  "(\<forall>(c, e) \<in> set (lipo_arch_tests sz a). \<not> c) \<longleftrightarrow> arch_in_file (unat sz) a"
proof -
  have "(\<forall>(c, e) \<in> set (lipo_arch_tests sz a). \<not> c) \<longleftrightarrow> (\<forall>(c, e) \<in> set (fat_arch_tests sz a). \<not> c)"
    by (simp only: lipo_arch_tests_def fat_arch_tests_def Let_def list.set ball_simps case_prod_conv)
  then show ?thesis by (simp only: fat_arch_tests_iff)
qed

lemma twice_same_arch: "\<not> twice same_arch as \<longleftrightarrow> all_different as"
  by (induction as) (auto simp: list_ex_iff)

text \<open>The swaps change nothing behind the structs.\<close>

lemma drop_put_bytes: "off + length bs \<le> k \<Longrightarrow> k \<le> length m \<Longrightarrow> drop k (put_bytes m off bs) = drop k m"
  by (simp add: put_bytes_def)

context swappable_struct
begin

lemma drop_swap_at:
  "swap_at C swap h m off = Some m' \<Longrightarrow> off + size_of C \<le> k \<Longrightarrow> k \<le> length m \<Longrightarrow> drop k m' = drop k m"
  by (auto simp: swap_at_def store_def kinds_parts load_wf wf_swap size_of_def intro!: drop_put_bytes)

lemma drop_swap_array:
  assumes "swap_array_at C swap h m off n = Some m'" and "off + n * size_of C \<le> k" and "k \<le> length m"
  shows "drop k m' = drop k m"
  using assms
proof (induction n arbitrary: m off)
  case (Suc n)
  then obtain m1 where m1: "swap_at C swap h m off = Some m1" "swap_array_at C swap h m1 (off + size_of C) n = Some m'"
    by (auto split: option.splits)
  then have "drop k m' = drop k m1" using Suc swap_at_length [OF m1(1)] by auto
  also have "\<dots> = drop k m" using drop_swap_at [OF m1(1)] Suc.prems(2,3) by simp
  finally show ?case .
qed simp

end

lemma size_fat: "size_of fat_header_codec = 8" "size_of fat_arch_codec = 20"
  by (simp_all add: size_of_def fat_header_codec_def fat_arch_codec_def)

lemma fat_memory_total:
  assumes "8 + 20 * n \<le> length m"
  shows "\<exists>m'. fat_memory h n m = Some m' \<and> (\<forall>k. 8 + 20 * n \<le> k \<longrightarrow> drop k m' = drop k m)"
proof (cases "h = LITTLE_ENDIAN_BYTE_SEX")
  case little: True
  have "\<exists>m1. swap_at fat_header_codec swap_fat_header h m 0 = Some m1"
    unfolding fat_header.swap_at_Some_iff size_fat using assms by simp
  then obtain m1 where m1: "swap_at fat_header_codec swap_fat_header h m 0 = Some m1" ..
  have len: "length m1 = length m" by (rule fat_header.swap_at_length [OF m1])
  have "\<exists>m'. swap_array_at fat_arch_codec swap_fat_arch h m1 8 n = Some m'"
    unfolding fat_arch.swap_array_Some_iff size_fat len using assms by simp
  then obtain m' where m': "swap_array_at fat_arch_codec swap_fat_arch h m1 8 n = Some m'" ..
  have len': "length m' = length m" using fat_arch.swap_array_length [OF m'] len by simp
  have "drop k m' = drop k m" if "8 + 20 * n \<le> k" for k
  proof (cases "k \<le> length m")
    case True
    then have "drop k m' = drop k m1" "drop k m1 = drop k m"
      using fat_arch.drop_swap_array [OF m', of k] fat_header.drop_swap_at [OF m1, of k] that len
      by (simp_all add: size_fat)
    then show ?thesis by simp
  next
    case False
    then show ?thesis using len' by simp
  qed
  then show ?thesis using m1 m' little by (auto simp: fat_memory_def swap_fat_arch_array_def)
next
  case False
  then have "fat_memory h n m = Some m" unfolding fat_memory_def by simp
  then show ?thesis by blast
qed

lemma process_fat_head:
  assumes "length ts < 2 ^ 32" and "length (fat_head h ts @ rest) < 2 ^ 32"
    and "list_all (arch_in_file (length (fat_head h ts @ rest))) (map tf_fat_arch ts)"
    and "all_different (map tf_fat_arch ts)"
    and behind: "list_all (\<lambda>t. 8 + 20 * length ts \<le> unat (fa_offset (tf_fat_arch t))) ts"
  shows "process_fat_file h (fat_head h ts @ rest) =
    CHECK_GOOD (map (\<lambda>t. thin_of_slice (fat_head h ts @ rest) (tf_fat_arch t)) ts)"
proof -
  let ?m = "fat_head h ts @ rest"
  have n: "unat (of_nat (length ts) :: u32) = length ts" and m: "unat (of_nat (length ?m) :: u32) = length ?m"
    using assms(1,2) by (simp_all add: unat_of_nat del: of_nat_add length_append)
  have errors: "first_error (concat (map (lipo_arch_tests (of_nat (length ?m))) (map tf_fat_arch ts))) = None"
  proof -
    have "\<forall>(c, e) \<in> set (lipo_arch_tests (of_nat (length ?m)) (tf_fat_arch t)). \<not> c" if "t \<in> set ts" for t
      unfolding lipo_arch_tests_iff m using assms(3) that by (simp only: list_all_iff set_map ball_simps)
    then show ?thesis unfolding first_error_None_iff by fastforce
  qed
  obtain m' where m': "fat_memory h (length ts) ?m = Some m'" "\<forall>k. 8 + 20 * length ts \<le> k \<longrightarrow> drop k m' = drop k ?m"
    using fat_memory_total [of "length ts" ?m h] by (auto simp: length_fat_head)
  have "thin_of_slice m' (tf_fat_arch t) = thin_of_slice ?m (tf_fat_arch t)" if "t \<in> set ts" for t
  proof -
    have "8 + 20 * length ts \<le> unat (fa_offset (tf_fat_arch t))" using behind that by (auto simp: list_all_iff)
    then show ?thesis using m'(2) by (simp only: thin_of_slice_def)
  qed
  then have "map (thin_of_slice m') (map tf_fat_arch ts) = map (\<lambda>t. thin_of_slice ?m (tf_fat_arch t)) ts" by simp
  then show ?thesis
    using assms(4) n length_fat_head [of h ts] fat_head_archs [of h ts rest] errors m'(1)
    by (simp add: process_fat_file_def fat_head_header or_fault_def twice_same_arch Let_def comp_def)
qed

section \<open>Creating a fat file\<close>

text \<open>What a thin file is: its architecture and its bytes.\<close>

definition key :: "thin_file \<Rightarrow> (u32 \<times> u32) \<times> u8 list option" where
  "key t = (arch_of t, contents t)"

definition types_of :: "fat_arch \<Rightarrow> u32 \<times> u32" where
  "types_of a = (fa_cputype a, subtype_of (fa_cpusubtype a))"

lemma all_different_distinct: "all_different as \<longleftrightarrow> distinct (map types_of as)"
  by (induction as) (auto simp: same_arch_def types_of_def)

lemma all_different_mset:
  assumes "mset (map arch_of ts) = mset (map arch_of ts')"
  shows "all_different (map tf_fat_arch ts) \<longleftrightarrow> all_different (map tf_fat_arch ts')"
proof -
  have types: "map types_of (map tf_fat_arch ts) = map (\<lambda>(c, s). (c, subtype_of s)) (map arch_of ts)" for ts
    by (simp add: types_of_def arch_of_def)
  have "mset (map types_of (map tf_fat_arch ts)) = mset (map types_of (map tf_fat_arch ts'))"
    unfolding types using assms by (simp only: mset_map)
  then show ?thesis unfolding all_different_distinct by (rule mset_eq_imp_distinct_iff)
qed

lemma update_first_map:
  "update_first P f xs = Some ys \<Longrightarrow> (\<And>x. g (f x) = g x) \<Longrightarrow> map g ys = map g xs"
  by (induction xs arbitrary: ys) (auto split: if_splits)

lemma update_first_all:
  "update_first P f xs = Some ys \<Longrightarrow> list_all Q xs \<Longrightarrow> (\<And>x. Q x \<Longrightarrow> Q (f x)) \<Longrightarrow> list_all Q ys"
  by (induction xs arbitrary: ys) (auto split: if_splits)

lemma set_aligns_keeps:
  assumes "set_aligns ss ts = CHECK_GOOD ts'" and "list_all (\<lambda>s. sa_align s \<le> MAXSECTALIGN) ss" and "list_all sized ts"
  shows "list_all sized ts' \<and> map key ts' = map key ts \<and>
    map (\<lambda>t. fa_size (tf_fat_arch t)) ts' = map (\<lambda>t. fa_size (tf_fat_arch t)) ts"
  using assms
proof (induction ss arbitrary: ts)
  case (Cons s ss)
  let ?f = "\<lambda>t. t\<lparr>tf_fat_arch := (tf_fat_arch t)\<lparr>fa_align := sa_align s\<rparr>\<rparr>"
  obtain ts1 where 1: "update_first (thin_is (sa_arch_flag s)) ?f ts = Some ts1" "set_aligns ss ts1 = CHECK_GOOD ts'"
    using Cons.prems(1) by (auto split: option.splits)
  have "list_all sized ts1"
    by (rule update_first_all [OF 1(1) Cons.prems(3)]) (use Cons.prems(2) in \<open>simp add: sized_def\<close>)
  then have IH: "list_all sized ts' \<and> map key ts' = map key ts1 \<and>
    map (\<lambda>t. fa_size (tf_fat_arch t)) ts' = map (\<lambda>t. fa_size (tf_fat_arch t)) ts1"
    using Cons.IH [OF 1(2)] Cons.prems(2) by simp
  have "map key ts1 = map key ts"
    by (rule update_first_map [OF 1(1)]) (simp add: key_def arch_of_def contents_def)
  moreover have "map (\<lambda>t. fa_size (tf_fat_arch t)) ts1 = map (\<lambda>t. fa_size (tf_fat_arch t)) ts"
    by (rule update_first_map [OF 1(1)]) simp
  ultimately show ?case using IH by argo
qed simp

lemma write_slices_length:
  assumes "write_slices ts f = CHECK_GOOD out" and "length f \<le> b"
    and "list_all (\<lambda>t. unat (fa_offset (tf_fat_arch t)) + unat (fa_size (tf_fat_arch t)) \<le> b) ts"
  shows "length out \<le> b"
  using assms
proof (induction ts arbitrary: f)
  case (Cons t ts)
  obtain bs where bs: "contents t = Some bs"
    "write_slices ts (write_at f (unat (fa_offset (tf_fat_arch t))) bs) = CHECK_GOOD out"
    using Cons.prems(1) by (auto simp: and_then_GOOD_iff)
  have "length (write_at f pos bs) \<le> max (length f) (pos + length bs)" for pos
    by (auto simp: write_at_def min_def max_def)
  then have "length (write_at f (unat (fa_offset (tf_fat_arch t))) bs) \<le> b"
    by (rule order_trans) (use Cons.prems(2,3) contents_length [OF bs(1)] in simp)
  then show ?case using Cons.IH [OF bs(2)] Cons.prems(3) by simp
qed simp

lemma room_for_sizes: "map (\<lambda>t. fa_size (tf_fat_arch t)) ts = map (\<lambda>t. fa_size (tf_fat_arch t)) ts' \<Longrightarrow> room_for ts = room_for ts'"
proof -
  have "room_for ts = sum_list (map (\<lambda>w. unat w + 2 ^ 15) (map (\<lambda>t. fa_size (tf_fat_arch t)) ts))" for ts
    by (simp add: room_for_def comp_def)
  then show "map (\<lambda>t. fa_size (tf_fat_arch t)) ts = map (\<lambda>t. fa_size (tf_fat_arch t)) ts' \<Longrightarrow> ?thesis" by metis
qed

lemma room_for_mset: "mset ts = mset ts' \<Longrightarrow> room_for ts = room_for ts'"
proof -
  let ?f = "\<lambda>t. unat (fa_size (tf_fat_arch t)) + 2 ^ 15"
  assume "mset ts = mset ts'"
  then have "sum_mset (mset (map ?f ts)) = sum_mset (mset (map ?f ts'))" by (simp only: mset_map)
  then show "room_for ts = room_for ts'" by (simp only: room_for_def sum_mset_sum_list)
qed

lemma create_fat_written:
  assumes qs: "qsort_ok qs" and out: "create_fat qs h False segaligns ts = CHECK_GOOD out"
    and sized: "list_all sized ts" and aligns: "list_all (\<lambda>s. sa_align s \<le> MAXSECTALIGN) segaligns"
    and room: "8 + 20 * length ts + room_for ts < 2 ^ 32"
  shows "\<exists>ts' rest. out = fat_head h ts' @ rest \<and> length out < 2 ^ 32 \<and> mset (map key ts') = mset (map key ts) \<and>
    list_all (\<lambda>t. contents t \<noteq> None \<and> arch_in_file (length out) (tf_fat_arch t) \<and>
      contents t = get_bytes out (unat (fa_offset (tf_fat_arch t))) (unat (fa_size (tf_fat_arch t)))) ts' \<and>
    list_all (\<lambda>t. 8 + 20 * length ts' \<le> unat (fa_offset (tf_fat_arch t))) ts'"
proof -
  obtain ts1 where ts1: "set_aligns segaligns ts = CHECK_GOOD ts1"
    and run: "(let ts = assign_offsets (8 + of_nat (length ts1) * 20) (qs ts1)
      in write_slices ts (fat_head h ts)) = CHECK_GOOD out"
    using out by (auto simp: create_fat_def fold_segaligns_def and_then_GOOD_iff split: if_splits)
  note keep = set_aligns_keeps [OF ts1 aligns sized]
  let ?sizes = "map (\<lambda>t. fa_size (tf_fat_arch t))"
  have len: "length ts1 = length ts" using keep map_eq_imp_length_eq by blast
  have perm: "mset (qs ts1) = mset ts1" using qs by (simp add: qsort_ok_def)
  have sized1: "list_all sized (qs ts1)" using keep mset_eq_setD [OF perm] by (simp add: list_all_iff)
  have room1: "room_for (qs ts1) = room_for ts"
    using room_for_sizes [of ts1 ts] keep room_for_mset [OF perm] by simp
  have start: "unat (8 + of_nat (length ts1) * 20 :: u32) = 8 + 20 * length ts"
    using room by (simp add: len unat_word_ariths unat_of_nat)
  define ts' where "ts' = assign_offsets (8 + of_nat (length ts1) * 20) (qs ts1)"
  have ok: "laid_out (8 + 20 * length ts) ts' \<and>
    list_all (\<lambda>t. 2 ^ unat (fa_align (tf_fat_arch t)) dvd unat (fa_offset (tf_fat_arch t)) \<and>
      unat (fa_offset (tf_fat_arch t)) + unat (fa_size (tf_fat_arch t)) < 2 ^ 32 \<and>
      fa_align (tf_fat_arch t) \<le> MAXSECTALIGN) ts' \<and>
    map contents ts' = map contents (qs ts1) \<and> map arch_of ts' = map arch_of (qs ts1)"
    using assign_offsets_ok [of "8 + of_nat (length ts1) * 20" "qs ts1", unfolded start room1, OF room sized1]
    unfolding ts'_def by blast
  have len': "length ts' = length ts"
    using ok mset_eq_length [OF perm] len by (metis map_eq_imp_length_eq)
  have slices: "write_slices ts' (fat_head h ts') = CHECK_GOOD out"
    using run by (simp add: ts'_def Let_def)
  obtain rest where rest: "out = fat_head h ts' @ rest"
    "list_all (\<lambda>t. contents t \<noteq> None \<and>
      contents t = get_bytes out (unat (fa_offset (tf_fat_arch t))) (unat (fa_size (tf_fat_arch t)))) ts'"
    using write_slices_laid_out [OF slices] ok by (auto simp: length_fat_head len')
  have "length out \<le> 2 ^ 32 - 1"
    using ok room by (intro write_slices_length [OF slices]) (auto simp: length_fat_head len' list_all_iff)
  then have small: "length out < 2 ^ 32" by simp
  have in_file: "arch_in_file (length out) (tf_fat_arch t)" if "t \<in> set ts'" for t
  proof -
    have "get_bytes out (unat (fa_offset (tf_fat_arch t))) (unat (fa_size (tf_fat_arch t))) \<noteq> None"
      using rest(2) that unfolding list_all_iff by metis
    then have "unat (fa_offset (tf_fat_arch t)) + unat (fa_size (tf_fat_arch t)) \<le> length out"
      by (auto simp: get_bytes_def split: if_splits)
    then show ?thesis using ok that small by (auto simp: arch_in_file_def list_all_iff)
  qed
  have "map key ts' = map key (qs ts1)"
    using ok unfolding key_def by (simp add: list_eq_iff_nth_eq)
  then have "mset (map key ts') = mset (map key ts)"
    using keep perm by (metis mset_map)
  moreover have "list_all (\<lambda>t. contents t \<noteq> None \<and> arch_in_file (length out) (tf_fat_arch t) \<and>
      contents t = get_bytes out (unat (fa_offset (tf_fat_arch t))) (unat (fa_size (tf_fat_arch t)))) ts'"
    using rest(2) in_file unfolding list_all_iff by blast
  moreover have "list_all (\<lambda>t. 8 + 20 * length ts' \<le> unat (fa_offset (tf_fat_arch t))) ts'"
    unfolding len' list_all_iff using ok laid_out_from by blast
  ultimately show ?thesis using rest(1) small by blast
qed

lemma key_thin_of_slice:
  assumes "contents t \<noteq> None" and "contents t = get_bytes m (unat (fa_offset (tf_fat_arch t))) (unat (fa_size (tf_fat_arch t)))"
  shows "key (thin_of_slice m (tf_fat_arch t)) = key t"
proof -
  have "unat (fa_offset (tf_fat_arch t)) + unat (fa_size (tf_fat_arch t)) \<le> length m"
    using assms unfolding get_bytes_def by metis
  then show ?thesis
    unfolding key_def assms(2)
    by (simp add: thin_of_slice_def new_thin_def arch_of_def contents_def get_bytes_def)
qed

lemma create_fat_reads_back:
  assumes "qsort_ok qs" and "create_fat qs h False segaligns ts = CHECK_GOOD out"
    and "list_all sized ts" and "list_all (\<lambda>s. sa_align s \<le> MAXSECTALIGN) segaligns"
    and "8 + 20 * length ts + room_for ts < 2 ^ 32" and "all_different (map tf_fat_arch ts)"
  shows "is_fat_file h out \<and> (\<exists>ts'. process_fat_file h out = CHECK_GOOD ts' \<and>
    mset (map key ts') = mset (map key ts) \<and> all_different (map tf_fat_arch ts') \<and>
    list_all (arch_in_file (length out)) (map tf_fat_arch ts') \<and> length out < 2 ^ 32 \<and>
    swapped_load fat_header_codec swap_fat_header h out 0 =
      Some \<lparr>fh_magic = FAT_MAGIC, fh_nfat_arch = of_nat (length ts')\<rparr>)"
proof -
  obtain ts' rest where out: "out = fat_head h ts' @ rest" "length out < 2 ^ 32"
    and keys: "mset (map key ts') = mset (map key ts)"
    and slices: "list_all (\<lambda>t. contents t \<noteq> None \<and> arch_in_file (length out) (tf_fat_arch t) \<and>
      contents t = get_bytes out (unat (fa_offset (tf_fat_arch t))) (unat (fa_size (tf_fat_arch t)))) ts'"
      "list_all (\<lambda>t. 8 + 20 * length ts' \<le> unat (fa_offset (tf_fat_arch t))) ts'"
    using create_fat_written [OF assms(1-5)] by blast
  have "map arch_of ts = map fst (map key ts)" for ts by (simp add: key_def)
  then have "mset (map arch_of ts') = mset (map arch_of ts)" using keys by (simp only: mset_map)
  then have diff: "all_different (map tf_fat_arch ts')" using all_different_mset assms(6) by blast
  have in_file: "list_all (arch_in_file (length out)) (map tf_fat_arch ts')"
    using slices(1) by (simp add: list_all_iff)
  have "length ts' < 2 ^ 32" using out by (simp add: length_fat_head)
  then have process: "process_fat_file h out = CHECK_GOOD (map (\<lambda>t. thin_of_slice out (tf_fat_arch t)) ts')"
    using process_fat_head [of ts' h rest] out in_file diff slices(2) by simp
  have "key (thin_of_slice out (tf_fat_arch t)) = key t" if "t \<in> set ts'" for t
    by (rule key_thin_of_slice) (use slices(1) that in \<open>unfold list_all_iff, blast+\<close>)
  then have "map key (map (\<lambda>t. thin_of_slice out (tf_fat_arch t)) ts') = map key ts'" by simp
  moreover have "map tf_fat_arch (map (\<lambda>t. thin_of_slice out (tf_fat_arch t)) ts') = map tf_fat_arch ts'"
    by (simp add: thin_of_slice_def new_thin_def)
  moreover have "is_fat_file h out" "swapped_load fat_header_codec swap_fat_header h out 0 =
      Some \<lparr>fh_magic = FAT_MAGIC, fh_nfat_arch = of_nat (length ts')\<rparr>"
    unfolding out(1) by (rule is_fat_file_head, rule fat_head_header)
  ultimately show ?thesis
    using process keys diff in_file out(2)
    by (intro conjI exI [of _ "map (\<lambda>t. thin_of_slice out (tf_fat_arch t)) ts'"]) (simp_all only: length_map)
qed

section \<open>Properties\<close>

text \<open>
  The thin file that a flag names, among thin files of different architectures.
\<close>

lemma find_thin:
  assumes "all_different (map tf_fat_arch ts)" and "t \<in> set ts" and "thin_is f t"
  shows "List.find (thin_is f) ts = Some t"
  using assms
proof (induction ts)
  case (Cons s ts)
  have "thin_is f s \<longrightarrow> s = t"
  proof
    assume "thin_is f s"
    then have "same_arch (tf_fat_arch s) (tf_fat_arch t)" using Cons.prems(3) by (simp add: thin_is_def same_arch_def)
    then show "s = t" using Cons.prems(1,2) by auto
  qed
  then show ?case using Cons by auto
qed simp

lemma create_checks_archs:
  "lipo_create qs h segaligns ts = CHECK_GOOD out \<Longrightarrow>
    create_fat qs h False segaligns ts = CHECK_GOOD out \<and> all_different (map tf_fat_arch ts)"
proof -
  have "twice same_thin ts = twice same_arch (map tf_fat_arch ts)"
    by (induction ts) (simp_all add: same_thin_def list_ex_iff)
  then show "lipo_create qs h segaligns ts = CHECK_GOOD out \<Longrightarrow> ?thesis"
    by (auto simp: lipo_create_def twice_same_arch split: if_splits)
qed

text \<open>
  C16: What \<^verbatim>\<open>lipo -create\<close> puts together \<^verbatim>\<open>lipo -thin\<close> takes apart: the file that is created from thin
  files, none empty and together below \<open>2 ^ 32\<close> with their alignments, is read as a fat file, and
  thinning it to the architecture of one of the files gives the bytes of that file.
\<close>

theorem lipo_create_thin:
  assumes "qsort_ok qs" and "lipo_create qs h segaligns ts = CHECK_GOOD out"
    and "list_all sized ts" and "list_all (\<lambda>s. sa_align s \<le> MAXSECTALIGN) segaligns"
    and "8 + 20 * length ts + room_for ts < 2 ^ 32"
    and t: "t \<in> set ts" "contents t = Some bs" "thin_is f t"
  shows "is_fat_file h out \<and>
    (\<exists>ts'. process_fat_file h out = CHECK_GOOD ts' \<and> lipo_thin [True] f ts' = CHECK_GOOD bs)"
proof -
  note created = create_checks_archs [OF assms(2)]
  obtain ts' where ts': "is_fat_file h out" "process_fat_file h out = CHECK_GOOD ts'"
    "mset (map key ts') = mset (map key ts)" "all_different (map tf_fat_arch ts')"
    using create_fat_reads_back [OF assms(1) conjunct1 [OF created] assms(3-5) conjunct2 [OF created]] by blast
  have "key t \<in> set (map key ts')" using mset_eq_setD [OF ts'(3)] t(1) by auto
  then obtain t' where t': "t' \<in> set ts'" "key t' = key t" by auto
  then have "thin_is f t'" "contents t' = Some bs"
    using t by (simp_all add: key_def arch_of_def thin_is_def)
  then have "lipo_thin [True] f ts' = CHECK_GOOD bs"
    using find_thin [OF ts'(4) t'(1)] by (simp add: lipo_thin_def one_fat_input_def)
  then show ?thesis using ts' by blast
qed

text \<open>
  C15: A file that \<^verbatim>\<open>lipo -create\<close> writes from at least one thin file is one that the checks of \<^verbatim>\<open>libstuff\<close>
  accept: \<^verbatim>\<open>check_fat\<close> of an \<^verbatim>\<open>ofile\<close> with its header, its architectures and its size is good.
\<close>

theorem lipo_create_check_fat:
  assumes "qsort_ok qs" and "lipo_create qs h segaligns ts = CHECK_GOOD out"
    and "list_all sized ts" and "list_all (\<lambda>s. sa_align s \<le> MAXSECTALIGN) segaligns"
    and "8 + 20 * length ts + room_for ts < 2 ^ 32" and "ts \<noteq> []"
    and "process_fat_file h out = CHECK_GOOD ts'"
    and "swapped_load fat_header_codec swap_fat_header h out 0 = Some (fat_header_of ofile)"
    and "fat_archs ofile = map tf_fat_arch ts'" and "file_type ofile = OFILE_FAT"
    and "unat (file_size ofile) = length out"
  shows "check_fat ofile = CHECK_GOOD ()"
proof -
  note created = create_checks_archs [OF assms(2)]
  have ts': "mset (map key ts') = mset (map key ts)" "all_different (map tf_fat_arch ts')"
    "list_all (arch_in_file (length out)) (map tf_fat_arch ts')" "length out < 2 ^ 32"
    "fat_header_of ofile = \<lparr>fh_magic = FAT_MAGIC, fh_nfat_arch = of_nat (length ts')\<rparr>"
    using create_fat_reads_back [OF assms(1) conjunct1 [OF created] assms(3-5) conjunct2 [OF created]] assms(7,8)
    by auto
  have len: "length ts' = length ts" using mset_eq_length [OF ts'(1)] by simp
  have "length ts < 2 ^ 32" using assms(5) by linarith
  then have "unat (of_nat (length ts') :: u32) = length ts'" by (simp add: unat_of_nat len)
  then show ?thesis
    using ts' len assms(6,9-11) by (simp add: check_fat_accepts Let_def)
qed

section \<open>Taking a fat file apart\<close>

lemma process_fat_file_thins:
  assumes "process_fat_file h m = CHECK_GOOD ts"
  shows "all_different (map tf_fat_arch ts)" and "list_all (\<lambda>t. \<not> tf_extract t \<and> \<not> tf_remove t) ts"
    and "list_all (\<lambda>t. fa_align (tf_fat_arch t) \<le> MAXSECTALIGN) ts"
proof -
  obtain as m' where as: "first_error (concat (map (lipo_arch_tests (of_nat (length m))) as)) = None"
    "\<not> twice same_arch as" "ts = map (thin_of_slice m') as"
    using assms
    by (auto simp: process_fat_file_def and_then_GOOD_iff Let_def split: if_splits option.splits)
  have archs: "map tf_fat_arch ts = as" by (simp add: as(3) thin_of_slice_def new_thin_def comp_def)
  show "all_different (map tf_fat_arch ts)" using as(2) by (simp add: archs twice_same_arch)
  show "list_all (\<lambda>t. \<not> tf_extract t \<and> \<not> tf_remove t) ts"
    by (simp add: as(3) thin_of_slice_def new_thin_def list_all_iff)
  have "fa_align a \<le> MAXSECTALIGN" if "a \<in> set as" for a
  proof -
    have "\<forall>(c, e) \<in> set (lipo_arch_tests (of_nat (length m)) a). \<not> c"
      using as(1) that unfolding first_error_None_iff by auto
    then show ?thesis unfolding lipo_arch_tests_iff arch_in_file_def by blast
  qed
  then show "list_all (\<lambda>t. fa_align (tf_fat_arch t) \<le> MAXSECTALIGN) ts"
    by (simp add: as(3) thin_of_slice_def new_thin_def list_all_iff)
qed

text \<open>Marks: the thin files of the flags, and no others.\<close>

definition flagged :: "arch_flag list \<Rightarrow> thin_file \<Rightarrow> bool" where
  "flagged fs t \<longleftrightarrow> list_ex (\<lambda>f. thin_is f t) fs"

lemma update_first_only:
  assumes "update_first (thin_is f) g ts = Some ts'" and "all_different (map tf_fat_arch ts)"
  shows "ts' = map (\<lambda>t. if thin_is f t then g t else t) ts"
  using assms
proof (induction ts arbitrary: ts')
  case (Cons t ts)
  show ?case
  proof (cases "thin_is f t")
    case True
    then have "\<not> thin_is f s" if "s \<in> set ts" for s
      using Cons.prems(2) that by (auto simp: thin_is_def same_arch_def)
    then show ?thesis using Cons.prems(1) True by (auto intro: map_idI [symmetric])
  next
    case False
    then show ?thesis using Cons by auto
  qed
qed simp

lemma mark_remove_marks:
  assumes "mark_remove fs ts = CHECK_GOOD ts'" and "all_different (map tf_fat_arch ts)"
  shows "ts' = map (\<lambda>t. if flagged fs t then t\<lparr>tf_remove := True\<rparr> else t) ts"
  using assms
proof (induction fs arbitrary: ts)
  case Nil
  then show ?case by (simp add: flagged_def)
next
  case (Cons f fs)
  obtain ts1 where 1: "update_first (thin_is f) (\<lambda>t. t\<lparr>tf_remove := True\<rparr>) ts = Some ts1"
    "mark_remove fs ts1 = CHECK_GOOD ts'"
    using Cons.prems(1) by (auto split: option.splits)
  note ts1 = update_first_only [OF 1(1) Cons.prems(2)]
  have "map tf_fat_arch ts1 = map tf_fat_arch ts" by (simp add: ts1)
  then have "ts' = map (\<lambda>t. if flagged fs t then t\<lparr>tf_remove := True\<rparr> else t) ts1"
    using Cons.IH [OF 1(2)] Cons.prems(2) by simp
  then show ?case by (simp add: ts1 flagged_def thin_is_def)
qed

lemma mark_extract_marks:
  assumes "mark_extract False fs ts = CHECK_GOOD ts'"
  shows "ts' = map (\<lambda>t. if flagged fs t then t\<lparr>tf_extract := True\<rparr> else t) ts"
  using assms
proof (induction fs arbitrary: ts)
  case Nil
  then show ?case by (simp add: flagged_def)
next
  case (Cons f fs)
  let ?ts1 = "map (\<lambda>t. if extracts False f t then t\<lparr>tf_extract := True\<rparr> else t) ts"
  have "ts' = map (\<lambda>t. if flagged fs t then t\<lparr>tf_extract := True\<rparr> else t) ?ts1"
    using Cons.prems by (intro Cons.IH) (simp split: if_splits)
  then show ?case by (simp add: flagged_def thin_is_def extracts_def)
qed

lemma extracted:
  assumes "mark_extract False fs ts = CHECK_GOOD ts'" and "list_all (\<lambda>t. \<not> tf_extract t \<and> \<not> tf_remove t) ts"
    and "\<And>t. g (t\<lparr>tf_extract := True\<rparr>) = g t"
  shows "map g (filter tf_extract ts') = map g (filter (flagged fs) ts)"
  unfolding mark_extract_marks [OF assms(1)] using assms(2,3) by (induction ts) auto

lemma not_removed:
  assumes "mark_remove fs ts = CHECK_GOOD ts'" and "list_all (\<lambda>t. \<not> tf_extract t \<and> \<not> tf_remove t) ts"
    and "all_different (map tf_fat_arch ts)"
  shows "filter (\<lambda>t. \<not> tf_remove t) ts' = filter (\<lambda>t. \<not> flagged fs t) ts"
  unfolding mark_remove_marks [OF assms(1,3)] using assms(2) by (induction ts) auto

lemma all_different_filter: "all_different (map tf_fat_arch ts) \<Longrightarrow> all_different (map tf_fat_arch (filter P ts))"
  by (induction ts) auto

lemma room_for_filter: "20 * length (filter P ts) + room_for (filter P ts) \<le> 20 * length ts + room_for ts"
  by (induction ts) (auto simp: room_for_def)

text \<open>The file of some of the thin files.\<close>

lemma create_part:
  assumes "qsort_ok qs" and "create_fat qs h False segaligns part = CHECK_GOOD out"
    and "map key part = map key (filter P ts)" and "map tf_fat_arch part = map tf_fat_arch (filter P ts)"
    and "list_all sized ts" and "list_all (\<lambda>s. sa_align s \<le> MAXSECTALIGN) segaligns"
    and "8 + 20 * length ts + room_for ts < 2 ^ 32" and "all_different (map tf_fat_arch ts)"
  shows "\<exists>ts'. process_fat_file h out = CHECK_GOOD ts' \<and> mset (map key ts') = mset (map key (filter P ts))"
proof -
  have len: "length part = length (filter P ts)" using assms(3) by (rule map_eq_imp_length_eq)
  have "map (\<lambda>t. fa_size (tf_fat_arch t)) part = map (\<lambda>t. fa_size (tf_fat_arch t)) (filter P ts)"
    using arg_cong [OF assms(4), of "map fa_size"] by (simp only: map_map comp_def)
  then have "8 + 20 * length part + room_for part < 2 ^ 32"
    using room_for_filter [of P ts] room_for_sizes [of part "filter P ts"] assms(7) len by linarith
  moreover have "list_all (\<lambda>a. 0 < fa_size a \<and> fa_align a \<le> MAXSECTALIGN) (map tf_fat_arch part)"
    using assms(5) unfolding assms(4) by (auto simp: list_all_iff sized_def)
  then have "list_all sized part" by (simp add: list_all_iff sized_def)
  moreover have "all_different (map tf_fat_arch part)"
    unfolding assms(4) using assms(8) by (rule all_different_filter)
  ultimately show ?thesis
    using create_fat_reads_back [OF assms(1,2) _ assms(6)] assms(3) by metis
qed

text \<open>
  C17: \<^verbatim>\<open>lipo -extract\<close> and \<^verbatim>\<open>lipo -remove\<close> with the same architectures split a fat file: when both succeed,
  the one file has the slices of these architectures and the other all the rest, each with its bytes.
\<close>

theorem lipo_extract_remove_split:
  assumes "qsort_ok qs" and inp: "process_fat_file h m = CHECK_GOOD ts"
    and kept: "lipo_extract qs h False segaligns [True] flags ts = CHECK_GOOD out1"
    and left: "lipo_remove qs h segaligns' [True] flags ts = CHECK_GOOD out2"
    and sizes: "list_all (\<lambda>t. 0 < fa_size (tf_fat_arch t)) ts"
    and aligns: "list_all (\<lambda>s. sa_align s \<le> MAXSECTALIGN) (segaligns @ segaligns')"
    and room: "8 + 20 * length ts + room_for ts < 2 ^ 32"
  shows "\<exists>ts1 ts2. process_fat_file h out1 = CHECK_GOOD ts1 \<and> process_fat_file h out2 = CHECK_GOOD ts2 \<and>
    mset (map key ts1) = mset (map key (filter (flagged flags) ts)) \<and>
    mset (map key ts1) + mset (map key ts2) = mset (map key ts)"
proof -
  note thins = process_fat_file_thins [OF inp]
  have sized: "list_all sized ts" using sizes thins(3) by (simp add: list_all_iff sized_def)
  have aligns': "list_all (\<lambda>s. sa_align s \<le> MAXSECTALIGN) segaligns" "list_all (\<lambda>s. sa_align s \<le> MAXSECTALIGN) segaligns'"
    using aligns by simp_all
  obtain te where te: "mark_extract False flags ts = CHECK_GOOD te"
    "create_fat qs h False segaligns (filter tf_extract te) = CHECK_GOOD out1"
    using kept by (auto simp: lipo_extract_def one_fat_input_def and_then_GOOD_iff)
  obtain tr where tr: "mark_remove flags ts = CHECK_GOOD tr"
    "create_fat qs h False segaligns' (filter (\<lambda>t. \<not> tf_remove t) tr) = CHECK_GOOD out2"
    using left by (auto simp: lipo_remove_def one_fat_input_def and_then_GOOD_iff Let_def split: if_splits)
  have "map key (filter tf_extract te) = map key (filter (flagged flags) ts)"
    "map tf_fat_arch (filter tf_extract te) = map tf_fat_arch (filter (flagged flags) ts)"
    by (rule extracted [OF te(1) thins(2)]; simp add: key_def arch_of_def contents_def)+
  then obtain ts1 where ts1: "process_fat_file h out1 = CHECK_GOOD ts1"
    "mset (map key ts1) = mset (map key (filter (flagged flags) ts))"
    using create_part [OF assms(1) te(2) _ _ sized aligns'(1) room thins(1)] by blast
  obtain ts2 where ts2: "process_fat_file h out2 = CHECK_GOOD ts2"
    "mset (map key ts2) = mset (map key (filter (\<lambda>t. \<not> flagged flags t) ts))"
    using create_part [OF assms(1) tr(2) _ _ sized aligns'(2) room thins(1)] not_removed [OF tr(1) thins(2,1)] by metis
  have "mset (map key (filter (flagged flags) ts)) + mset (map key (filter (\<lambda>t. \<not> flagged flags t) ts)) =
      mset (map key ts)"
    by (induction ts) auto
  then show ?thesis using ts1 ts2 by metis
qed

section \<open>Segment alignments\<close>

text \<open>The alignments the option takes are the powers of two up to the largest.\<close>

lemma shift_to_odd_spec:
  assumes "x \<noteq> 0"
  shows "\<exists>m y. shift_to_odd x n = (y, n + of_nat m) \<and> unat x = unat y * 2 ^ m \<and> y AND 1 = 1"
  using assms
proof (induction x n rule: shift_to_odd.induct)
  case (1 x n)
  show ?case
  proof (cases "x AND 1 = 1")
    case True
    then show ?thesis by (intro exI [of _ 0] exI [of _ x]) (simp add: shift_to_odd.simps)
  next
    case False
    then have even: "x AND 1 = 0" by (simp add: and_one_eq mod2_eq_if split: if_splits)
    have half: "unat (drop_bit 1 x) = unat x div 2" by (simp add: drop_bit_Suc unat_div)
    have "even (unat x)"
    proof -
      have "unat x AND 1 = 0" using arg_cong [OF even, of unat] by (simp add: unsigned_and_eq)
      then show ?thesis by (simp add: and_one_eq even_iff_mod_2_eq_zero)
    qed
    then have x: "unat x = unat (drop_bit 1 x) * 2" using half by simp
    then have "drop_bit 1 x \<noteq> 0" using 1(2) unat_eq_0 [of x] by auto
    then obtain m y where "shift_to_odd (drop_bit 1 x) (n + 1) = (y, n + 1 + of_nat m)"
      "unat (drop_bit 1 x) = unat y * 2 ^ m" "y AND 1 = 1"
      using 1(1) 1(2) False by blast
    then show ?thesis
      using 1(2) False x by (intro exI [of _ "Suc m"] exI [of _ y]) (simp add: shift_to_odd.simps [of x])
  qed
qed

lemma segalign_of_power:
  assumes "segalign_of v = CHECK_GOOD k"
  shows "k \<le> MAXSECTALIGN \<and> unat v = 2 ^ unat k"
proof -
  have v: "v \<noteq> 0" "ispoweroftwo v" "v \<le> push_bit (unat MAXSECTALIGN) 1" "k = snd (shift_to_odd v 0)"
    using assms by (auto simp: segalign_of_def split: if_splits)
  obtain m y where m: "shift_to_odd v 0 = (y, 0 + of_nat m)" "unat v = unat y * 2 ^ m" "y AND 1 = 1"
    using shift_to_odd_spec [OF v(1), of 0] by blast
  have "y AND NOT 1 = 0" using v(1,2) m(1) by (simp add: ispoweroftwo_def)
  have "y = (y AND 1) OR (y AND NOT 1)"
    by (rule bit_word_eqI) (auto simp: bit_and_iff bit_or_iff bit_not_iff)
  then have "y = 1" using m(3) \<open>y AND NOT 1 = 0\<close> by simp
  then have v2: "unat v = 2 ^ m" using m(2) by simp
  have "unat v \<le> 2 ^ 15" using v(3) by (simp add: word_le_nat_alt)
  then have "m \<le> 15" unfolding v2 by (rule power_le_imp_le_exp [rotated]) simp
  moreover have "unat k = m" using v(4) m(1) calculation by (simp add: unat_of_nat)
  ultimately show ?thesis using v2 by (simp add: word_le_nat_alt)
qed

section \<open>Examples\<close>

text \<open>Two thin files, for PowerPC and for i386.\<close>

definition by_align :: "thin_file list \<Rightarrow> thin_file list" where
  "by_align = sort_key (\<lambda>t. fa_align (tf_fat_arch t))"

lemma by_align_ok: "qsort_ok by_align"
  by (simp add: qsort_ok_def by_align_def)

definition flag_of :: "u32 \<Rightarrow> u32 \<Rightarrow> arch_flag" where
  "flag_of c s = \<lparr>af_name = None, af_cputype = c, af_cpusubtype = s\<rparr>"

definition ppc_thin :: thin_file where
  "ppc_thin = new_thin [1, 2, 3, 4, 5] \<lparr>fa_cputype = 18, fa_cpusubtype = 0, fa_offset = 0, fa_size = 5, fa_align = 4\<rparr>"

definition i386_thin :: thin_file where
  "i386_thin = new_thin [6, 7, 8, 9] \<lparr>fa_cputype = 7, fa_cpusubtype = 3, fa_offset = 0, fa_size = 3, fa_align = 2\<rparr>"

definition two_thins :: "thin_file list" where "two_thins = [ppc_thin, i386_thin]"

definition segalign_i386 :: "segalign list" where
  "segalign_i386 = [\<lparr>sa_arch_flag = flag_of 7 3, sa_align = 3\<rparr>]"

definition two_fat :: mem where
  "two_fat =
     [202, 254, 186, 190, 0, 0, 0, 2, 0, 0, 0, 7, 0, 0, 0, 3, 0, 0, 0, 48, 0, 0, 0, 3, 0, 0, 0, 3,
      0, 0, 0, 18, 0, 0, 0, 0, 0, 0, 0, 64, 0, 0, 0, 5, 0, 0, 0, 4,
      6, 7, 8, 0, 0, 0, 0, 0, 0, 0, 0, 0, 0, 0, 0, 0, 1, 2, 3, 4, 5]"

definition two_slices :: "thin_file list" where
  "two_slices =
     [thin_of_slice two_fat \<lparr>fa_cputype = 7, fa_cpusubtype = 3, fa_offset = 48, fa_size = 3, fa_align = 3\<rparr>,
      thin_of_slice two_fat \<lparr>fa_cputype = 18, fa_cpusubtype = 0, fa_offset = 64, fa_size = 5, fa_align = 4\<rparr>]"

lemma two_thins_run:
  "lipo_create by_align LITTLE_ENDIAN_BYTE_SEX segalign_i386 two_thins = CHECK_GOOD two_fat"
  "process_fat_file LITTLE_ENDIAN_BYTE_SEX two_fat = CHECK_GOOD two_slices"
  "list_all sized two_thins" "list_all (\<lambda>s. sa_align s \<le> MAXSECTALIGN) segalign_i386"
  "contents ppc_thin = Some [1, 2, 3, 4, 5]" "thin_is (flag_of 18 0) ppc_thin"
  by code_simp+

lemma two_thins_room:
  "8 + 20 * length two_thins + room_for two_thins < 2 ^ 32" "two_thins \<noteq> []" "ppc_thin \<in> set two_thins"
  by (simp_all add: two_thins_def room_for_def ppc_thin_def i386_thin_def new_thin_def)

theorem lipo_create_thin_witness:
  "is_fat_file LITTLE_ENDIAN_BYTE_SEX two_fat \<and>
   (\<exists>ts'. process_fat_file LITTLE_ENDIAN_BYTE_SEX two_fat = CHECK_GOOD ts' \<and>
      lipo_thin [True] (flag_of 18 0) ts' = CHECK_GOOD [1, 2, 3, 4, 5])"
  by (rule lipo_create_thin [OF by_align_ok two_thins_run(1,3,4) two_thins_room(1,3) two_thins_run(5,6)])

definition two_ofile :: ofile where
  "two_ofile = \<lparr>file_addr = two_fat, file_size = 69, file_type = OFILE_FAT,
     fat_header_of = \<lparr>fh_magic = FAT_MAGIC, fh_nfat_arch = 2\<rparr>, fat_archs = map tf_fat_arch two_slices, narch = 0,
     member_offset = 0, member_size = 0, object_addr = [], object_size = 0,
     object_byte_sex = BIG_ENDIAN_BYTE_SEX, mh32 = False, headers_swapped = False,
     mh_cputype_of = 0, mh_cpusubtype_of = 0, mh_filetype_of = 0\<rparr>"

lemma two_ofile_ok:
  "swapped_load fat_header_codec swap_fat_header LITTLE_ENDIAN_BYTE_SEX two_fat 0 = Some (fat_header_of two_ofile)"
  by code_simp

theorem lipo_create_check_fat_witness: "check_fat two_ofile = CHECK_GOOD ()"
  by (rule lipo_create_check_fat [OF by_align_ok two_thins_run(1,3,4) two_thins_room(1,2) two_thins_run(2) two_ofile_ok])
    (simp_all add: two_ofile_def two_fat_def)

definition ppc_taken :: mem where
  "ppc_taken = [202, 254, 186, 190, 0, 0, 0, 1, 0, 0, 0, 18, 0, 0, 0, 0, 0, 0, 0, 32, 0, 0, 0, 5, 0, 0, 0, 4,
     0, 0, 0, 0, 1, 2, 3, 4, 5]"

definition ppc_removed :: mem where
  "ppc_removed = [202, 254, 186, 190, 0, 0, 0, 1, 0, 0, 0, 7, 0, 0, 0, 3, 0, 0, 0, 32, 0, 0, 0, 3, 0, 0, 0, 3,
     0, 0, 0, 0, 6, 7, 8]"

lemma ppc_run:
  "lipo_extract by_align LITTLE_ENDIAN_BYTE_SEX False [] [True] [flag_of 18 0] two_slices = CHECK_GOOD ppc_taken"
  "lipo_remove by_align LITTLE_ENDIAN_BYTE_SEX [] [True] [flag_of 18 0] two_slices = CHECK_GOOD ppc_removed"
  "list_all (\<lambda>t. 0 < fa_size (tf_fat_arch t)) two_slices"
  "map key (filter (flagged [flag_of 18 0]) two_slices) = [((18, 0), Some [1, 2, 3, 4, 5])]"
  by code_simp+

lemma ppc_room: "8 + 20 * length two_slices + room_for two_slices < 2 ^ 32"
  by (simp add: two_slices_def room_for_def thin_of_slice_def new_thin_def)

theorem lipo_extract_remove_split_witness:
  "\<exists>ts1 ts2. process_fat_file LITTLE_ENDIAN_BYTE_SEX ppc_taken = CHECK_GOOD ts1 \<and>
     process_fat_file LITTLE_ENDIAN_BYTE_SEX ppc_removed = CHECK_GOOD ts2 \<and>
     mset (map key ts1) = {#((18, 0), Some [1, 2, 3, 4, 5])#} \<and>
     mset (map key ts1) + mset (map key ts2) = mset (map key two_slices)"
  using lipo_extract_remove_split [OF by_align_ok two_thins_run(2) ppc_run(1-3) _ ppc_room]
  by (simp add: ppc_run(4) del: mset_map)

text \<open>
  Two different architectures of one cputype are refused by \<^verbatim>\<open>-extract\<close>, because the second flag is not
  looked at, and flags without a thin file of their index are compared with memory behind the array.
\<close>

lemma extract_refuses_different:
  "extract_twice [flag_of 18 0, flag_of 18 9] [ppc_thin, ppc_thin] (index_pairs 2) = CHECK_BAD Arch_twice"
  "extract_twice [flag_of 18 0, flag_of 18 9] [ppc_thin] (index_pairs 2) = FAULT"
  by code_simp+

end
