(* ===== verification/LipoInput.thy ===== *)
theory LipoInput
  imports LipoSound
begin

text \<open>
  How \<^verbatim>\<open>misc/lipo.c\<close> takes its input files: fat files, object files, whose alignment it guesses,
  archives, which it checks with a routine of its own, and anything else when an architecture is given
  for it; replacement files; and the empty libraries of \<^verbatim>\<open>-arch_blank\<close>.
\<close>

abbreviation MH_OBJECT :: u32 where "MH_OBJECT \<equiv> 1"
abbreviation MH_DYLIB_STUB :: u32 where "MH_DYLIB_STUB \<equiv> 9"

section \<open>Alignments of object files\<close>

datatype input_error =
  Lipo lipo_error
| Commands_past_end
| Cmdsize_zero_in nat
| Command_past_end nat
| Empty_archive
| First_member_past_end
| Archive_error archive_error
| Fat_archive_member
| Member_cputype
| Arch_mismatch
| Arch_for_fat
| No_arch_for_archive
| Unknown_file
| Replacement_fat
| Replacement_mismatch

text \<open>
  The loop finds the lowest bit of the address, which is not zero.
\<close>

function guess_loop :: "u32 \<Rightarrow> nat \<Rightarrow> u32" where
  "guess_loop vmaddr align =
     (if align < 32 \<and> push_bit align 1 AND vmaddr = 0 then guess_loop vmaddr (align + 1) else of_nat align)"
  by pat_completeness auto

termination by (relation "measure (\<lambda>(vmaddr, align). 32 - align)") auto

declare guess_loop.simps [simp del]

definition guess_align :: "u32 \<Rightarrow> u32" where
  "guess_align vmaddr =
     (if vmaddr = 0 then MAXSECTALIGN
      else let align = guess_loop vmaddr 0
           in if align < 2 then 2 else if align > MAXSECTALIGN then MAXSECTALIGN else align)"

definition read_struct :: "'a codec \<Rightarrow> ('a \<Rightarrow> 'a) \<Rightarrow> byte_sex \<Rightarrow> bool \<Rightarrow> mem \<Rightarrow> nat \<Rightarrow> 'a option" where
  "read_struct C swap h swapped m off = map_option (\<lambda>x. if swapped then swap x else x) (load C h m off)"

text \<open>The alignment of a segment; in an object file that of its sections.\<close>

definition sections_align :: "u32 \<Rightarrow> u32 list \<Rightarrow> u32" where
  "sections_align least aligns = foldl (\<lambda>align a. if a > align then a else align) least aligns"

definition segment_align :: "byte_sex \<Rightarrow> bool \<Rightarrow> u32 \<Rightarrow> mem \<Rightarrow> nat \<Rightarrow> u32 option" where
  "segment_align h swapped filetype m off =
     (case read_struct segment_command_codec swap_segment_command h swapped m off of
        None \<Rightarrow> None
      | Some sg \<Rightarrow>
          if filetype = MH_OBJECT then
            map_option (\<lambda>ss. sections_align 2 (map s_align ss))
              (those (map (\<lambda>j. read_struct section_codec swap_section h swapped m (off + 56 + 68 * j))
                 [0..<unat (sg_nsects sg)]))
          else Some (guess_align (sg_vmaddr sg)))"

definition segment_align_64 :: "byte_sex \<Rightarrow> bool \<Rightarrow> u32 \<Rightarrow> mem \<Rightarrow> nat \<Rightarrow> u32 option" where
  "segment_align_64 h swapped filetype m off =
     (case read_struct segment_command_64_codec swap_segment_command_64 h swapped m off of
        None \<Rightarrow> None
      | Some sg \<Rightarrow>
          if filetype = MH_OBJECT then
            map_option (\<lambda>ss. sections_align 3 (map s64_align ss))
              (those (map (\<lambda>j. read_struct section_64_codec swap_section_64 h swapped m (off + 72 + 80 * j))
                 [0..<unat (sg64_nsects sg)]))
          else Some (guess_align (ucast (sg64_vmaddr sg))))"

text \<open>
  The loop over the load commands of the object at the start of \<open>m\<close>, which end at \<open>stop\<close>; a size that is
  not a multiple of a word is reported, but nothing depends on it.
\<close>

fun align_loop ::
  "(nat \<Rightarrow> load_command option) \<Rightarrow> u32 \<Rightarrow> (nat \<Rightarrow> u32 option) \<Rightarrow> nat \<Rightarrow> nat \<Rightarrow> nat \<Rightarrow> nat \<Rightarrow> u32 \<Rightarrow>
     (input_error, u32) check" where
  "align_loop lc LC seg stop i 0 off cur = CHECK_GOOD cur"
| "align_loop lc LC seg stop i (Suc n) off cur =
     and_then (or_fault (lc off)) (\<lambda>l.
       if lc_cmdsize l = 0 then CHECK_BAD (Cmdsize_zero_in i)
       else if off + unat (lc_cmdsize l) > stop then CHECK_BAD (Command_past_end i)
       else and_then
         (if lc_cmd l = LC
          then and_then (or_fault (seg off)) (\<lambda>align. CHECK_GOOD (if align < cur then align else cur))
          else CHECK_GOOD cur)
         (align_loop lc LC seg stop (i + 1) n (off + unat (lc_cmdsize l))))"

definition page_aligned :: "u32 \<Rightarrow> bool" where
  "page_aligned cputype \<longleftrightarrow>
     cputype = CPU_TYPE_POWERPC \<or> cputype = CPU_TYPE_POWERPC64 \<or> cputype = CPU_TYPE_I386 \<or> cputype = CPU_TYPE_X86_64"

definition get_align :: "byte_sex \<Rightarrow> mach_header \<Rightarrow> mem \<Rightarrow> u32 \<Rightarrow> bool \<Rightarrow> (input_error, u32) check" where
  "get_align h mh m sz swapped =
     (if page_aligned (mh_cputype mh) then CHECK_GOOD 12
      else if mh_sizeofcmds mh + 28 > sz then CHECK_BAD Commands_past_end
      else align_loop (read_struct load_command_codec swap_load_command h swapped m) LC_SEGMENT
        (segment_align h swapped (mh_filetype mh) m) (28 + unat (mh_sizeofcmds mh)) 0 (unat (mh_ncmds mh)) 28
        MAXSECTALIGN)"

definition get_align_64 :: "byte_sex \<Rightarrow> mach_header_64 \<Rightarrow> mem \<Rightarrow> u32 \<Rightarrow> bool \<Rightarrow> (input_error, u32) check" where
  "get_align_64 h mh64 m sz swapped =
     (if page_aligned (mh64_cputype mh64) then CHECK_GOOD 12
      else if mh64_sizeofcmds mh64 + 32 > sz then CHECK_BAD Commands_past_end
      else align_loop (read_struct load_command_codec swap_load_command h swapped m) LC_SEGMENT_64
        (segment_align_64 h swapped (mh64_filetype mh64) m) (32 + unat (mh64_sizeofcmds mh64)) 0
        (unat (mh64_ncmds mh64)) 32 MAXSECTALIGN)"

section \<open>Archives\<close>

text \<open>
  The loop of \<^verbatim>\<open>check_archive\<close> of this program: unlike that of \<open>Archive\<close> the size of the extended name is
  added to the size of what is left when the program asks whether there is a magic number, the magic
  number of a fat file is that of the host, and a mismatch ends the program.  \<^verbatim>\<open>check_extend_format_1\<close> is
  the same routine.  Offsets are 32-bit sums; \<open>None\<close> is a run that does not end.
\<close>

record lipo_archive =
  la_offset :: u32
  la_cputype :: u32
  la_cpusubtype :: u32
  la_errno :: bool

definition lipo_match :: "u32 \<Rightarrow> u32 \<Rightarrow> lipo_archive \<Rightarrow> (input_error, lipo_archive) check" where
  "lipo_match cputype cpusubtype st =
     (if la_cputype st = 0 then CHECK_GOOD (st\<lparr>la_cputype := cputype, la_cpusubtype := cpusubtype\<rparr>)
      else if la_cputype st \<noteq> cputype then CHECK_BAD Member_cputype
      else CHECK_GOOD st)"

definition lipo_member_object ::
  "byte_sex \<Rightarrow> mem \<Rightarrow> nat \<Rightarrow> u32 \<Rightarrow> u32 \<Rightarrow> lipo_archive \<Rightarrow> (input_error, lipo_archive) check" where
  "lipo_member_object h m at left magic st =
     (if left \<ge> 28 \<and> (magic = MH_MAGIC \<or> magic = SWAP_INT MH_MAGIC) then
        and_then (or_fault (read_struct mach_header_codec swap_mach_header h (magic = SWAP_INT MH_MAGIC) m at))
          (\<lambda>mh. lipo_match (mh_cputype mh) (mh_cpusubtype mh) st)
      else if left \<ge> 32 \<and> (magic = MH_MAGIC_64 \<or> magic = SWAP_INT MH_MAGIC_64) then
        and_then (or_fault (read_struct mach_header_64_codec swap_mach_header_64 h (magic = SWAP_INT MH_MAGIC_64) m at))
          (\<lambda>mh. lipo_match (mh64_cputype mh) (mh64_cpusubtype mh) st)
      else CHECK_GOOD st)"

definition archive_check :: "(archive_error, 'a) check \<Rightarrow> (input_error, 'a) check" where
  "archive_check c = (case c of CHECK_GOOD x \<Rightarrow> CHECK_GOOD x | CHECK_BAD e \<Rightarrow> CHECK_BAD (Archive_error e) | FAULT \<Rightarrow> FAULT)"

definition lipo_member :: "byte_sex \<Rightarrow> mem \<Rightarrow> u32 \<Rightarrow> lipo_archive \<Rightarrow> (input_error, lipo_archive) check" where
  "lipo_member h m sz st =
     (let hdr = unat (la_offset st); offset = la_offset st + 60 in
     and_then (or_fault (ar_name_at m hdr)) (\<lambda>ar_name.
     and_then
       (if strncmp_equal ar_name AR_EFMT1 3
        then archive_check (check_extend_format_1 ar_name (sz - offset) (la_errno st))
        else CHECK_GOOD (0, la_errno st)) (\<lambda>(ar_name_size, errno).
     and_then
       (if sz + ar_name_size - offset > 4 then
          and_then (or_fault (load word_codec h m (unat offset + unat ar_name_size))) (\<lambda>magic.
          if magic = FAT_MAGIC then CHECK_BAD Fat_archive_member
          else lipo_member_object h m (unat offset + unat ar_name_size) ((sz - ar_name_size) - offset) magic
            (st\<lparr>la_errno := errno\<rparr>))
        else CHECK_GOOD (st\<lparr>la_errno := errno\<rparr>)) (\<lambda>st.
     and_then (or_fault (ar_size_at m hdr)) (\<lambda>(member_size, overflow).
     CHECK_GOOD (st\<lparr>la_offset := offset + round_up member_size 2, la_errno := la_errno st \<or> overflow\<rparr>))))))"

partial_function (option) lipo_members ::
  "(lipo_archive \<Rightarrow> (input_error, lipo_archive) check) \<Rightarrow> u32 \<Rightarrow> lipo_archive \<Rightarrow>
     (input_error, lipo_archive) check option" where
  "lipo_members step sz st =
     (if sz > la_offset st then
        (case step st of
           CHECK_GOOD st' \<Rightarrow> lipo_members step sz st'
         | CHECK_BAD e \<Rightarrow> Some (CHECK_BAD e)
         | FAULT \<Rightarrow> Some FAULT)
      else Some (CHECK_GOOD st))"

declare lipo_members.simps [code]

definition lipo_check_archive :: "byte_sex \<Rightarrow> bool \<Rightarrow> mem \<Rightarrow> u32 \<Rightarrow> (input_error, u32 \<times> u32) check option" where
  "lipo_check_archive h errno m sz =
     (if sz = 8 then Some (CHECK_BAD Empty_archive)
      else if 8 + 60 > sz then Some (CHECK_BAD First_member_past_end)
      else map_option (\<lambda>r. and_then r (\<lambda>st. CHECK_GOOD (la_cputype st, la_cpusubtype st)))
        (lipo_members (lipo_member h m sz) sz
          \<lparr>la_offset = 8, la_cputype = 0, la_cpusubtype = 0, la_errno = errno\<rparr>))"

section \<open>Input files\<close>

text \<open>
  The architecture that was given for a file must have its cputype.  A thin file covers the whole
  mapped file.
\<close>

definition check_arch :: "arch_flag \<Rightarrow> u32 \<Rightarrow> (input_error, unit) check" where
  "check_arch f cputype =
     (if af_name f \<noteq> None \<and> af_cputype f \<noteq> cputype then CHECK_BAD Arch_mismatch else CHECK_GOOD ())"

definition whole_file :: "mem \<Rightarrow> u32 \<Rightarrow> u32 \<Rightarrow> u32 \<Rightarrow> u32 \<Rightarrow> thin_file" where
  "whole_file m sz cputype cpusubtype align =
     new_thin m \<lparr>fa_cputype = cputype, fa_cpusubtype = cpusubtype, fa_offset = 0, fa_size = sz, fa_align = align\<rparr>"

definition has_magic :: "byte_sex \<Rightarrow> mem \<Rightarrow> u32 \<Rightarrow> bool" where
  "has_magic h m magic \<longleftrightarrow>
     load word_codec h m 0 = Some magic \<or> load word_codec h m 0 = Some (SWAP_INT magic)"

text \<open>An object file of 32 or of 64 bits, if the file is one.\<close>

definition thin_object :: "byte_sex \<Rightarrow> mem \<Rightarrow> u32 \<Rightarrow> (input_error, thin_file) check" where
  "thin_object h m sz =
     (let swapped = (load word_codec h m 0 = Some (SWAP_INT MH_MAGIC)) in
     and_then (or_fault (read_struct mach_header_codec swap_mach_header h swapped m 0)) (\<lambda>mh.
     and_then (get_align h mh m sz swapped) (\<lambda>align.
     CHECK_GOOD (whole_file m sz (mh_cputype mh) (mh_cpusubtype mh) align))))"

definition thin_object_64 :: "byte_sex \<Rightarrow> mem \<Rightarrow> u32 \<Rightarrow> (input_error, thin_file) check" where
  "thin_object_64 h m sz =
     (let swapped = (load word_codec h m 0 = Some (SWAP_INT MH_MAGIC_64)) in
     and_then (or_fault (read_struct mach_header_64_codec swap_mach_header_64 h swapped m 0)) (\<lambda>mh.
     and_then (get_align_64 h mh m sz swapped) (\<lambda>align.
     CHECK_GOOD (whole_file m sz (mh64_cputype mh) (mh64_cpusubtype mh) align))))"

definition lipo_check :: "(lipo_error, 'a) check \<Rightarrow> (input_error, 'a) check" where
  "lipo_check c = (case c of CHECK_GOOD x \<Rightarrow> CHECK_GOOD x | CHECK_BAD e \<Rightarrow> CHECK_BAD (Lipo e) | FAULT \<Rightarrow> FAULT)"

definition matching :: "arch_flag \<Rightarrow> thin_file \<Rightarrow> (input_error, thin_file list) check" where
  "matching f t = and_then (check_arch f (fa_cputype (tf_fat_arch t))) (\<lambda>_. CHECK_GOOD [t])"

text \<open>The flag is without a name when no architecture was given.  The size has 32 bits.\<close>

definition process_input_file ::
  "byte_sex \<Rightarrow> bool \<Rightarrow> arch_flag \<Rightarrow> mem \<Rightarrow> (input_error, bool \<times> thin_file list) check option" where
  "process_input_file h errno f m =
     (let sz = of_nat (length m);
          not_fat = (\<lambda>c. and_then c (\<lambda>ts. CHECK_GOOD (False, ts)))
      in if is_fat_file h m then
           Some (if af_name f \<noteq> None then CHECK_BAD Arch_for_fat
                 else and_then (lipo_check (process_fat_file h m)) (\<lambda>ts. CHECK_GOOD (True, ts)))
         else if sz \<ge> 28 \<and> has_magic h m MH_MAGIC then
           Some (not_fat (and_then (thin_object h m sz) (matching f)))
         else if sz \<ge> 32 \<and> has_magic h m MH_MAGIC_64 then
           Some (not_fat (and_then (thin_object_64 h m sz) (matching f)))
         else if sz \<ge> 8 \<and> take 8 m = ARMAG then
           map_option
             (\<lambda>r. not_fat (and_then r (\<lambda>(cputype, cpusubtype).
                if af_name f \<noteq> None then
                  if cputype = 0 then CHECK_GOOD [whole_file m sz (af_cputype f) (af_cpusubtype f) 2]
                  else matching f (whole_file m sz cputype cpusubtype 2)
                else if cputype = 0 then CHECK_BAD No_arch_for_archive
                else CHECK_GOOD [whole_file m sz cputype cpusubtype 2])))
             (lipo_check_archive h errno m sz)
         else
           Some (not_fat (if af_name f \<noteq> None then CHECK_GOOD [whole_file m sz (af_cputype f) (af_cpusubtype f) 0]
                          else CHECK_BAD Unknown_file)))"

text \<open>A replacement: here a fat file is looked for in the byte order of the host.\<close>

definition process_replace_file ::
  "byte_sex \<Rightarrow> bool \<Rightarrow> arch_flag \<Rightarrow> mem \<Rightarrow> (input_error, thin_file) check option" where
  "process_replace_file h errno f m =
     (let sz = of_nat (length m);
          of_arch = (\<lambda>t. if thin_is f t then CHECK_GOOD t else CHECK_BAD Replacement_mismatch)
      in if sz \<ge> 8 \<and> load word_codec h m 0 = Some FAT_MAGIC then Some (CHECK_BAD Replacement_fat)
         else if sz \<ge> 28 \<and> has_magic h m MH_MAGIC then Some (and_then (thin_object h m sz) of_arch)
         else if sz \<ge> 32 \<and> has_magic h m MH_MAGIC_64 then Some (and_then (thin_object_64 h m sz) of_arch)
         else if sz \<ge> 8 \<and> take 8 m = ARMAG then
           map_option (\<lambda>r. and_then r (\<lambda>(cputype, cpusubtype). of_arch (whole_file m sz cputype cpusubtype 2)))
             (lipo_check_archive h errno m sz)
         else Some (of_arch (whole_file m sz (af_cputype f) (af_cpusubtype f) 0)))"

section \<open>Blank libraries\<close>

text \<open>
  A header and zeros, in the byte order of the architecture; for other architectures only zeros.
\<close>

definition blank_header :: "u32 \<Rightarrow> u32 \<Rightarrow> mach_header" where
  "blank_header cputype cpusubtype =
     \<lparr>mh_magic = MH_MAGIC, mh_cputype = cputype, mh_cpusubtype = cpusubtype, mh_filetype = MH_DYLIB_STUB,
      mh_ncmds = 0, mh_sizeofcmds = 0, mh_flags = 0\<rparr>"

definition blank_header_64 :: "u32 \<Rightarrow> u32 \<Rightarrow> mach_header_64" where
  "blank_header_64 cputype cpusubtype =
     \<lparr>mh64_magic = MH_MAGIC_64, mh64_cputype = cputype, mh64_cpusubtype = cpusubtype, mh64_filetype = MH_DYLIB_STUB,
      mh64_ncmds = 0, mh64_sizeofcmds = 0, mh64_flags = 0, mh64_reserved = 0\<rparr>"

definition new_blank_dylib :: "byte_sex \<Rightarrow> arch_flag \<Rightarrow> thin_file" where
  "new_blank_dylib h arch =
     (let zeros = replicate 4096 0; c = af_cputype arch;
          hdr = (\<lambda>other s. let mh = blank_header c s in if h = other then swap_mach_header mh else mh);
          hdr64 = (\<lambda>other s. let mh = blank_header_64 c s in if h = other then swap_mach_header_64 mh else mh)
      in if c = CPU_TYPE_POWERPC then
           whole_file (store mach_header_codec h zeros 0 (hdr LITTLE_ENDIAN_BYTE_SEX CPU_SUBTYPE_POWERPC_ALL))
             4096 c CPU_SUBTYPE_POWERPC_ALL 12
         else if c = CPU_TYPE_POWERPC64 then
           whole_file (store mach_header_64_codec h zeros 0 (hdr64 LITTLE_ENDIAN_BYTE_SEX CPU_SUBTYPE_POWERPC_ALL))
             4096 c CPU_SUBTYPE_POWERPC_ALL 12
         else if c = CPU_TYPE_I386 then
           whole_file (store mach_header_codec h zeros 0 (hdr BIG_ENDIAN_BYTE_SEX CPU_SUBTYPE_I386_ALL))
             4096 c CPU_SUBTYPE_I386_ALL 12
         else if c = CPU_TYPE_X86_64 then
           whole_file (store mach_header_64_codec h zeros 0 (hdr64 BIG_ENDIAN_BYTE_SEX CPU_SUBTYPE_X86_64_ALL))
             4096 c CPU_SUBTYPE_X86_64_ALL 12
         else whole_file zeros 4096 0 0 12)"

section \<open>What a thin file of an input is\<close>

lemma align_loop_bound:
  "align_loop lc LC seg stop i n off cur = CHECK_GOOD a \<Longrightarrow> a \<le> cur"
proof (induction lc LC seg stop i n off cur rule: align_loop.induct)
  case (2 lc LC seg stop i n off cur)
  then obtain l cur' where l: "lc off = Some l"
    "(if lc_cmd l = LC
      then and_then (or_fault (seg off)) (\<lambda>align. CHECK_GOOD (if align < cur then align else cur))
      else CHECK_GOOD cur) = (CHECK_GOOD cur' :: (input_error, u32) check)"
    "lc_cmdsize l \<noteq> 0" "\<not> off + unat (lc_cmdsize l) > stop"
    "align_loop lc LC seg stop (i + 1) n (off + unat (lc_cmdsize l)) cur' = CHECK_GOOD a"
    by (auto simp: and_then_GOOD_iff split: if_split_asm)
  have "cur' \<le> cur" using l(2) by (auto simp: and_then_GOOD_iff split: if_splits)
  moreover have "a \<le> cur'" using 2(1) l by blast
  ultimately show ?case by (rule order_trans [rotated])
qed simp

lemma get_align_bound:
  "get_align h mh m sz swapped = CHECK_GOOD a \<Longrightarrow> a \<le> MAXSECTALIGN"
  "get_align_64 h mh64 m sz swapped = CHECK_GOOD a \<Longrightarrow> a \<le> MAXSECTALIGN"
  by (auto simp: get_align_def get_align_64_def dest!: align_loop_bound split: if_splits)

lemma tf_fat_arch_whole [simp]:
  "tf_fat_arch (whole_file m sz c s a) =
     \<lparr>fa_cputype = c, fa_cpusubtype = s, fa_offset = 0, fa_size = sz, fa_align = a\<rparr>"
  "tf_addr (whole_file m sz c s a) = m"
  by (simp_all add: whole_file_def new_thin_def)

definition is_whole :: "mem \<Rightarrow> u32 \<Rightarrow> thin_file \<Rightarrow> bool" where
  "is_whole m sz t \<longleftrightarrow> (\<exists>c s a. t = whole_file m sz c s a \<and> a \<le> MAXSECTALIGN)"

lemma is_wholeI: "a \<le> MAXSECTALIGN \<Longrightarrow> is_whole m sz (whole_file m sz c s a)"
  by (auto simp: is_whole_def)

lemma thin_object_whole:
  assumes "thin_object h m sz = CHECK_GOOD t \<or> thin_object_64 h m sz = CHECK_GOOD t"
  shows "is_whole m sz t"
  using assms
proof
  assume "thin_object h m sz = CHECK_GOOD t"
  then show ?thesis by (auto simp: thin_object_def and_then_GOOD_iff Let_def intro!: is_wholeI get_align_bound(1))
next
  assume "thin_object_64 h m sz = CHECK_GOOD t"
  then show ?thesis by (auto simp: thin_object_64_def and_then_GOOD_iff Let_def intro!: is_wholeI get_align_bound(2))
qed

lemma matching_GOOD: "matching f t = CHECK_GOOD ts \<Longrightarrow> ts = [t]"
  by (auto simp: matching_def and_then_GOOD_iff)

lemma process_input_file_thins:
  assumes "process_input_file h errno f m = Some (CHECK_GOOD (fat, ts))"
  shows "if fat then process_fat_file h m = CHECK_GOOD ts
    else \<exists>t. ts = [t] \<and> is_whole m (of_nat (length m)) t"
proof -
  let ?sz = "of_nat (length m) :: u32"
  consider (fat) "is_fat_file h m" | (object) "\<not> is_fat_file h m" "?sz \<ge> 28 \<and> has_magic h m MH_MAGIC"
    | (object64) "\<not> is_fat_file h m" "\<not> (?sz \<ge> 28 \<and> has_magic h m MH_MAGIC)" "?sz \<ge> 32 \<and> has_magic h m MH_MAGIC_64"
    | (archive) "\<not> is_fat_file h m" "\<not> (?sz \<ge> 28 \<and> has_magic h m MH_MAGIC)"
        "\<not> (?sz \<ge> 32 \<and> has_magic h m MH_MAGIC_64)" "?sz \<ge> 8 \<and> take 8 m = ARMAG"
    | (other) "\<not> is_fat_file h m" "\<not> (?sz \<ge> 28 \<and> has_magic h m MH_MAGIC)"
        "\<not> (?sz \<ge> 32 \<and> has_magic h m MH_MAGIC_64)" "\<not> (?sz \<ge> 8 \<and> take 8 m = ARMAG)"
    by blast
  then show ?thesis
  proof cases
    case fat
    then show ?thesis using assms
      by (auto simp: process_input_file_def and_then_GOOD_iff lipo_check_def Let_def split: if_splits check.splits)
  next
    case object
    then obtain t where "thin_object h m ?sz = CHECK_GOOD t" "matching f t = CHECK_GOOD ts" "\<not> fat"
      using assms by (auto simp: process_input_file_def and_then_GOOD_iff Let_def)
    then show ?thesis using thin_object_whole [of h m ?sz t] matching_GOOD [of f t ts] by simp
  next
    case object64
    then obtain t where "thin_object_64 h m ?sz = CHECK_GOOD t" "matching f t = CHECK_GOOD ts" "\<not> fat"
      using assms by (auto simp: process_input_file_def and_then_GOOD_iff Let_def)
    then show ?thesis using thin_object_whole [of h m ?sz t] matching_GOOD [of f t ts] by simp
  next
    case archive
    then show ?thesis using assms
      by (auto simp: process_input_file_def and_then_GOOD_iff Let_def split: if_splits dest!: matching_GOOD intro!: is_wholeI)
  next
    case other
    then show ?thesis using assms
      by (auto simp: process_input_file_def and_then_GOOD_iff Let_def split: if_splits intro!: is_wholeI)
  qed
qed

lemma contents_whole:
  assumes "is_whole m (of_nat (length m)) t" and "length m < 2 ^ 32"
  shows "contents t = Some m"
proof -
  obtain c s a where t: "t = whole_file m (of_nat (length m)) c s a" using assms(1) by (auto simp: is_whole_def)
  have "unat (of_nat (length m) :: u32) = length m" using assms(2) by (simp add: unat_of_nat)
  then show ?thesis by (simp add: t contents_def get_bytes_def)
qed

lemma process_input_file_bound:
  assumes "process_input_file h errno f m = Some (CHECK_GOOD (fat, ts))"
  shows "list_all (\<lambda>t. fa_align (tf_fat_arch t) \<le> MAXSECTALIGN) ts"
proof (cases fat)
  case True
  then show ?thesis using process_input_file_thins [OF assms] process_fat_file_thins(3) by simp
next
  case False
  then show ?thesis using process_input_file_thins [OF assms] by (auto simp: is_whole_def)
qed

text \<open>The run over all input files, each with the flag that was given for it.\<close>

definition taken :: "byte_sex \<Rightarrow> bool \<times> arch_flag \<times> mem \<Rightarrow> thin_file list \<Rightarrow> bool" where
  "taken h inp ts \<longleftrightarrow>
     (case inp of (errno, f, m) \<Rightarrow> \<exists>fat. process_input_file h errno f m = Some (CHECK_GOOD (fat, ts)))"

lemma taken_sized:
  assumes "list_all2 (taken h) inputs tss" and "list_all (\<lambda>t. 0 < fa_size (tf_fat_arch t)) (concat tss)"
  shows "list_all sized (concat tss)"
  using assms
proof (induction rule: list_all2_induct)
  case (Cons inp inputs ts tss)
  have "list_all (\<lambda>t. fa_align (tf_fat_arch t) \<le> MAXSECTALIGN) ts"
    using Cons.hyps(1) process_input_file_bound by (auto simp: taken_def)
  then show ?case using Cons by (auto simp: list_all_iff sized_def)
qed simp

lemma taken_in: "list_all2 (taken h) inputs tss \<Longrightarrow> inp \<in> set inputs \<Longrightarrow> \<exists>ts\<in>set tss. taken h inp ts"
  by (induction rule: list_all2_induct) auto

lemma process_fat_input:
  assumes "is_fat_file h m" and "process_fat_file h m = CHECK_GOOD ts" and "af_name f = None"
  shows "process_input_file h errno f m = Some (CHECK_GOOD (True, ts))"
  using assms by (simp add: process_input_file_def lipo_check_def)

lemma taken_not_fat:
  assumes "process_input_file h errno f m = Some (CHECK_GOOD (False, ts))" and "taken h (errno, f, m) ts'"
  shows "ts' = ts"
  using assms by (auto simp: taken_def)

text \<open>
  C14: Every input file of \<^verbatim>\<open>lipo -create\<close> that is not itself a fat file comes back unchanged: the program
  takes the file it wrote as a fat file, and \<^verbatim>\<open>lipo -thin\<close> with the architecture that was found for the
  input (from its header, its members or the command line) gives all its bytes.
\<close>

theorem lipo_inputs_come_back:
  assumes "qsort_ok qs" and inputs: "list_all2 (taken h) inputs tss"
    and out: "lipo_create qs h segaligns (concat tss) = CHECK_GOOD out"
    and "list_all (\<lambda>t. 0 < fa_size (tf_fat_arch t)) (concat tss)"
    and aligns: "list_all (\<lambda>s. sa_align s \<le> MAXSECTALIGN) segaligns"
    and room: "8 + 20 * length (concat tss) + room_for (concat tss) < 2 ^ 32"
    and inp: "(errno, f, m) \<in> set inputs" "length m < 2 ^ 32"
      "process_input_file h errno f m = Some (CHECK_GOOD (False, ts))" "list_all (thin_is arch) ts"
    and "af_name none = None"
  shows "\<exists>ts'. process_input_file h errno' none out = Some (CHECK_GOOD (True, ts')) \<and>
    lipo_thin [True] arch ts' = CHECK_GOOD m"
proof -
  note sized = taken_sized [OF inputs assms(4)]
  obtain t where t: "ts = [t]" "is_whole m (of_nat (length m)) t"
    using process_input_file_thins [OF inp(3)] by auto
  obtain ts1 where ts1: "ts1 \<in> set tss" "taken h (errno, f, m) ts1" using taken_in [OF inputs inp(1)] by blast
  have "ts1 = [t]" using taken_not_fat [OF inp(3) ts1(2)] t(1) by simp
  then have "t \<in> set (concat tss)" using ts1(1) by (auto intro: bexI [of _ "[t]"])
  moreover have "thin_is arch t" using inp(4) t(1) by simp
  ultimately obtain ts' where ts': "is_fat_file h out" "process_fat_file h out = CHECK_GOOD ts'"
    "lipo_thin [True] arch ts' = CHECK_GOOD m"
    using lipo_create_thin [OF assms(1) out sized aligns room] contents_whole [OF t(2) inp(2)] by blast
  then show ?thesis using process_fat_input [OF ts'(1,2) assms(11)] by blast
qed

section \<open>Examples\<close>

text \<open>A file of no known kind, given as a file for PowerPC, and a fat file with a slice for i386.\<close>

definition as_ppc :: arch_flag where
  "as_ppc = \<lparr>af_name = Some ''ppc'', af_cputype = 18, af_cpusubtype = 0\<rparr>"

definition ppc_file :: mem where "ppc_file = [1, 2, 3, 4, 5]"

definition i386_slices :: "thin_file list" where
  "i386_slices =
     [thin_of_slice ppc_removed \<lparr>fa_cputype = 7, fa_cpusubtype = 3, fa_offset = 32, fa_size = 3, fa_align = 3\<rparr>]"

definition both_fat :: mem where
  "both_fat =
     [202, 254, 186, 190, 0, 0, 0, 2, 0, 0, 0, 18, 0, 0, 0, 0, 0, 0, 0, 48, 0, 0, 0, 5, 0, 0, 0, 0,
      0, 0, 0, 7, 0, 0, 0, 3, 0, 0, 0, 56, 0, 0, 0, 3, 0, 0, 0, 3, 1, 2, 3, 4, 5, 0, 0, 0, 6, 7, 8]"

lemma inputs_run:
  "process_input_file LITTLE_ENDIAN_BYTE_SEX False as_ppc ppc_file =
     Some (CHECK_GOOD (False, [whole_file ppc_file 5 18 0 0]))"
  "process_input_file LITTLE_ENDIAN_BYTE_SEX False (flag_of 0 0) ppc_removed = Some (CHECK_GOOD (True, i386_slices))"
  "lipo_create by_align LITTLE_ENDIAN_BYTE_SEX [] (whole_file ppc_file 5 18 0 0 # i386_slices) = CHECK_GOOD both_fat"
  by code_simp+

lemma inputs_taken:
  "list_all2 (taken LITTLE_ENDIAN_BYTE_SEX) [(False, as_ppc, ppc_file), (False, flag_of 0 0, ppc_removed)]
     [[whole_file ppc_file 5 18 0 0], i386_slices]"
  unfolding taken_def by (auto simp: inputs_run(1,2))

lemma inputs_room:
  "8 + 20 * length (concat [[whole_file ppc_file 5 18 0 0], i386_slices]) +
     room_for (concat [[whole_file ppc_file 5 18 0 0], i386_slices]) < 2 ^ 32"
  by (simp add: i386_slices_def room_for_def thin_of_slice_def new_thin_def)

theorem lipo_inputs_come_back_witness:
  "\<exists>ts'. process_input_file LITTLE_ENDIAN_BYTE_SEX False (flag_of 0 0) both_fat = Some (CHECK_GOOD (True, ts')) \<and>
     lipo_thin [True] (flag_of 18 0) ts' = CHECK_GOOD [1, 2, 3, 4, 5]"
  using lipo_inputs_come_back [OF by_align_ok inputs_taken _ _ _ inputs_room, where out = both_fat and segaligns = "[]"
      and errno = False and errno' = False and f = as_ppc and m = ppc_file and none = "flag_of 0 0"
      and arch = "flag_of 18 0" and ts = "[whole_file ppc_file 5 18 0 0]"]
  using inputs_run
  by (simp add: i386_slices_def thin_of_slice_def new_thin_def ppc_file_def flag_of_def thin_is_def)

text \<open>
  On a little endian host a fat file is not recognised as a replacement: it is taken as a file of the
  architecture of the flag, and so a fat file can come to stand within a fat file.
\<close>

lemma fat_replacement:
  "process_replace_file BIG_ENDIAN_BYTE_SEX False as_ppc two_fat = Some (CHECK_BAD Replacement_fat)"
  "process_replace_file LITTLE_ENDIAN_BYTE_SEX False as_ppc two_fat = Some (CHECK_GOOD (whole_file two_fat 69 18 0 0))"
  by code_simp+

end
