(* ===== verification/ShortName.thy ===== *)
theory ShortName
  imports Prelude
begin

text \<open>
  \<^verbatim>\<open>libstuff/guess_short_name.c\<close>: the short name of a dynamic library, guessed from its path name.  Names are
  strings without the terminating zero; a pointer into the name is an index.
\<close>

abbreviation NUL :: char where "NUL \<equiv> CHR 0x00"

section \<open>String functions\<close>

definition strrchr :: "string \<Rightarrow> char \<Rightarrow> nat option" where
  "strrchr s c = List.find (\<lambda>i. s ! i = c) (rev [0..<length s])"

text \<open>\<^verbatim>\<open>strchr(name + start, c)\<close>, as an index into the name.\<close>

definition strchr_from :: "string \<Rightarrow> nat \<Rightarrow> char \<Rightarrow> nat option" where
  "strchr_from s start c = List.find (\<lambda>i. s ! i = c) [start..<length s]"

text \<open>\<^verbatim>\<open>strncmp(s, t, n) == 0\<close>; the terminators take part in the comparison.\<close>

definition strncmp_0 :: "string \<Rightarrow> string \<Rightarrow> nat \<Rightarrow> bool" where
  "strncmp_0 s t n \<longleftrightarrow> take n (s @ [NUL]) = take n (t @ [NUL])"

definition look_back_for_slash :: "string \<Rightarrow> nat \<Rightarrow> nat option" where
  "look_back_for_slash name p = List.find (\<lambda>i. name ! i = CHR ''/'') (rev [0..<p])"

section \<open>Frameworks\<close>

text \<open>
  The first part gives the suffix it found, which stays set when the name is no framework, and the
  guess.
\<close>

definition framework_suffix :: "string \<Rightarrow> nat \<times> string option" where
  "framework_suffix foo =
     (case strrchr foo CHR ''_'' of
        None \<Rightarrow> (length foo, None)
      | Some u \<Rightarrow> if u = 0 \<or> length foo - u < 2 then (length foo, None) else (u, Some (drop u foo)))"

definition framework_at :: "string \<Rightarrow> string \<Rightarrow> nat \<Rightarrow> nat \<Rightarrow> string option" where
  "framework_at name foo l i =
     (if strncmp_0 (drop i name) foo l \<and> strncmp_0 (drop (i + l) name) ''.framework/'' 11
      then Some (take l (drop i name)) else None)"

definition guess_framework :: "string \<Rightarrow> string option \<times> string option" where
  "guess_framework name =
     (case strrchr name CHR ''/'' of
        None \<Rightarrow> (None, None)
      | Some a \<Rightarrow>
          if a = 0 then (None, None)
          else let foo = drop (a + 1) name; (l, suffix) = framework_suffix foo in
            (suffix,
             case look_back_for_slash name a of
               None \<Rightarrow> framework_at name foo l 0
             | Some b \<Rightarrow>
                 (case framework_at name foo l (b + 1) of
                    Some guess \<Rightarrow> Some guess
                  | None \<Rightarrow>
                      if b = 0 then None
                      else case look_back_for_slash name b of
                        None \<Rightarrow> None
                      | Some c \<Rightarrow>
                          if c = 0 \<or> \<not> strncmp_0 (drop (c + 1) name) ''Versions/'' 9 then None
                          else case look_back_for_slash name c of
                            None \<Rightarrow> framework_at name foo l 0
                          | Some d \<Rightarrow> framework_at name foo l (d + 1))))"

section \<open>Libraries\<close>

text \<open>
  \<open>Out_of_bounds\<close> is a read or write outside the memory of a string: the search for the end of a suffix
  that has none, and the terminator of the guess for a \<^verbatim>\<open>.qtx\<close> file, which is written one byte behind
  the memory that was allocated.
\<close>

datatype short_name = No_guess | Guess string | Out_of_bounds

definition drop_version :: "string \<Rightarrow> nat \<Rightarrow> nat \<Rightarrow> nat" where
  "drop_version name start l = (if l \<ge> 3 \<and> name ! (start + l - 2) = CHR ''.'' then l - 2 else l)"

definition guess_dylib :: "string \<Rightarrow> nat \<Rightarrow> nat \<Rightarrow> string option \<Rightarrow> short_name \<times> string option" where
  "guess_dylib name a start suffix =
     (let guess = (\<lambda>l. Guess (take (drop_version name start l) (drop start name))) in
      case strchr_from name start CHR ''_'' of
        None \<Rightarrow> (guess (a - start), suffix)
      | Some c \<Rightarrow>
          if c = start then (guess (a - start), suffix)
          else if CHR ''.'' \<notin> set (drop c name) then (Out_of_bounds, suffix)
          else (guess (c - start), Some (takeWhile (\<lambda>x. x \<noteq> CHR ''.'') (drop c name))))"

definition guess_qtx :: "string \<Rightarrow> nat \<Rightarrow> short_name" where
  "guess_qtx name a =
     (if drop a name \<noteq> ''.qtx'' then No_guess
      else if look_back_for_slash name a = Some 0 then No_guess
      else Out_of_bounds)"

definition guess_library :: "string \<Rightarrow> string option \<Rightarrow> short_name \<times> string option" where
  "guess_library name suffix =
     (case strrchr name CHR ''.'' of
        None \<Rightarrow> (No_guess, suffix)
      | Some a \<Rightarrow>
          if a = 0 then (No_guess, suffix)
          else if drop a name \<noteq> ''.dylib'' then (guess_qtx name a, suffix)
          else let a = if a \<ge> 3 \<and> name ! (a - 2) = CHR ''.'' then a - 2 else a in
            case look_back_for_slash name a of
              None \<Rightarrow> guess_dylib name a 0 suffix
            | Some b \<Rightarrow> if b = 0 then (No_guess, suffix) else guess_dylib name a (b + 1) suffix)"

text \<open>The guess, whether it is of a framework, and the suffix.\<close>

definition guess_short_name :: "string \<Rightarrow> short_name \<times> bool \<times> string option" where
  "guess_short_name name =
     (case guess_framework name of
        (suffix, Some guess) \<Rightarrow> (Guess guess, True, suffix)
      | (suffix, None) \<Rightarrow> (case guess_library name suffix of (guess, suffix) \<Rightarrow> (guess, False, suffix)))"

lemma examples:
  "guess_short_name ''/System/Foo.framework/Versions/A/Foo_debug'' = (Guess ''Foo'', True, Some ''_debug'')"
  "guess_short_name ''Foo.framework/Foo'' = (Guess ''Foo'', True, None)"
  "guess_short_name ''/usr/lib/libFoo_profile.A.dylib'' = (Guess ''libFoo'', False, Some ''_profile'')"
  "guess_short_name ''libFoo.A.dylib'' = (Guess ''libFoo'', False, None)"
  "guess_short_name ''/usr/lib/libATS.A_profile.dylib'' = (Guess ''libATS'', False, Some ''_profile'')"
  "guess_short_name ''/libFoo.dylib'' = (No_guess, False, None)"
  "guess_short_name ''/usr/lib/QT.qtx'' = (Out_of_bounds, False, None)"
  "guess_short_name ''/usr/lib/_x_y.dylib'' = (Guess ''_x_y'', False, Some ''_y.dylib'')"
  "guess_short_name ''/usr/lib/foo_bar'' = (No_guess, False, Some ''_bar'')"
  by code_simp+

section \<open>Searching\<close>

lemma find_from_end:
  assumes "P i" and "i < n" and "\<And>j. i < j \<Longrightarrow> j < n \<Longrightarrow> \<not> P j"
  shows "List.find P (rev [0..<n]) = Some i"
  unfolding find_Some_iff using assms by (intro exI [of _ "n - 1 - i"]) (auto simp: rev_nth)

lemma find_from_start:
  assumes "P i" and "start \<le> i" and "i < n" and "\<And>j. start \<le> j \<Longrightarrow> j < i \<Longrightarrow> \<not> P j"
  shows "List.find P [start..<n] = Some i"
  unfolding find_Some_iff using assms by (intro exI [of _ "i - start"]) auto

lemma strrchr_append_Cons [simp]: "c \<notin> set ys \<Longrightarrow> strrchr (xs @ c # ys) c = Some (length xs)"
  unfolding strrchr_def by (rule find_from_end) (auto simp: nth_append nth_Cons' in_set_conv_nth)

lemma strrchr_None [simp]: "strrchr s c = None \<longleftrightarrow> c \<notin> set s"
  by (auto simp: strrchr_def find_None_iff in_set_conv_nth)

lemma strrchr_not_in [simp]: "c \<notin> set s \<Longrightarrow> strrchr s c = None"
  by simp

lemma strrchr_SomeD:
  assumes "strrchr s c = Some i"
  shows "s = take i s @ c # drop (Suc i) s \<and> c \<notin> set (drop (Suc i) s)"
proof -
  have "c \<in> set s" using assms strrchr_None [of s c] by fastforce
  then obtain xs ys where s: "s = xs @ c # ys" "c \<notin> set ys" using split_list_last by fastforce
  then show ?thesis using assms by simp
qed

lemma look_back_take: "p \<le> length name \<Longrightarrow> look_back_for_slash name p = strrchr (take p name) CHR ''/''"
  by (auto simp: look_back_for_slash_def strrchr_def intro!: find_cong)

lemma look_back_dir:
  assumes "dir = [] \<or> last dir = CHR ''/''" and "CHR ''/'' \<notin> set xs"
  shows "look_back_for_slash (dir @ xs @ rest) (length dir + length xs) =
    (if dir = [] then None else Some (length dir - 1))"
proof (cases dir rule: rev_cases)
  case Nil
  then show ?thesis using assms by (simp add: look_back_take)
next
  case (snoc d c)
  then show ?thesis using assms by (simp add: look_back_take)
qed

lemma strchr_from_append:
  assumes "c \<notin> set xs" and "start = length dir"
  shows "strchr_from (dir @ xs @ c # rest) start c = Some (start + length xs)"
  unfolding strchr_from_def
proof (rule find_from_start)
  fix j
  assume "start \<le> j" "j < start + length xs"
  then have "j - length dir < length xs" "\<not> j < length dir" using assms(2) by linarith+
  then have "(dir @ xs @ c # rest) ! j \<in> set xs" by (simp add: nth_append)
  then show "(dir @ xs @ c # rest) ! j \<noteq> c" using assms(1) by metis
qed (simp_all add: assms(2) nth_append)

lemma strchr_from_None:
  assumes "c \<notin> set rest" and "start = length dir"
  shows "strchr_from (dir @ rest) start c = None"
  unfolding strchr_from_def find_None_iff using assms by (auto simp: nth_append)

lemma strncmp_0_append: "l \<le> length s \<Longrightarrow> l \<le> length t \<Longrightarrow> strncmp_0 s t l \<longleftrightarrow> take l s = take l t"
  by (simp add: strncmp_0_def)

lemma strncmp_0_prefix:
  assumes "strncmp_0 s t l" and "l \<le> length t" and "NUL \<notin> set t"
  shows "take l s = take l t \<and> l \<le> length s"
proof -
  have eq: "take l (s @ [NUL]) = take l t" using assms(1,2) by (simp add: strncmp_0_def)
  have "l \<le> length s"
  proof (rule ccontr)
    assume "\<not> l \<le> length s"
    then have "NUL \<in> set (take l (s @ [NUL]))" by (simp add: take_Cons' not_le)
    then have "NUL \<in> set t" unfolding eq by (rule in_set_takeD)
    then show False using assms(3) by simp
  qed
  then show ?thesis using eq by simp
qed

section \<open>Names that are recognised\<close>

text \<open>A suffix is empty, or an underbar and something behind it.\<close>

definition suffix_of :: "string \<Rightarrow> string option" where
  "suffix_of suf = (if suf = [] then None else Some suf)"

definition is_dir :: "string \<Rightarrow> bool" where
  "is_dir dir \<longleftrightarrow> dir = [] \<or> last dir = CHR ''/''"

lemma framework_suffix_form:
  assumes "CHR ''_'' \<notin> set foo" and "suf = [] \<or> (\<exists>r. suf = CHR ''_'' # r \<and> r \<noteq> [] \<and> CHR ''_'' \<notin> set r)" and "foo \<noteq> []"
  shows "framework_suffix (foo @ suf) = (length foo, suffix_of suf)"
  using assms by (auto simp: framework_suffix_def suffix_of_def Suc_le_eq)

lemma framework_at_form:
  assumes "NUL \<notin> set foo"
  shows "framework_at (dir @ foo @ ''.framework/'' @ rest) (foo @ suf) (length foo) (length dir) = Some foo"
  by (simp add: framework_at_def strncmp_0_def)

lemma framework_at_guess:
  assumes "framework_at name (foo @ suf) (length foo) i = Some g" and "NUL \<notin> set foo"
  shows "g = foo"
proof -
  have "strncmp_0 (drop i name) (foo @ suf) (length foo)" "g = take (length foo) (drop i name)"
    using assms(1) by (simp_all add: framework_at_def split: if_splits)
  then show ?thesis using strncmp_0_prefix [of "drop i name" foo "length foo"] assms(2) by (simp add: strncmp_0_def)
qed

lemma is_dir_or: "is_dir dir \<Longrightarrow> look_back_for_slash (dir @ xs @ rest) (length dir + length xs) =
    (if dir = [] then None else Some (length dir - 1))" if "CHR ''/'' \<notin> set xs"
  using look_back_dir that by (simp add: is_dir_def)

lemma drop_prefix: "drop (length xs) (xs @ ys) = ys"
  by simp

lemma guess_framework_versions:
  assumes "strrchr n CHR ''/'' = Some a" "a > 0" "look_back_for_slash n a = Some b" "b > 0"
    "look_back_for_slash n b = Some c" "c > 0" "strncmp_0 (drop (c + 1) n) ''Versions/'' 9"
    and "look_back_for_slash n c = (if dir = 0 then None else Some (dir - 1))"
    and "framework_suffix (drop (a + 1) n) = (l, suffix)"
    and "framework_at n (drop (a + 1) n) l dir = Some g"
    and "framework_at n (drop (a + 1) n) l (b + 1) = None \<or> framework_at n (drop (a + 1) n) l (b + 1) = Some g"
  shows "guess_framework n = (suffix, Some g)"
  using assms by (auto simp: guess_framework_def Let_def split: if_splits)


lemma nth_take_drop: "length (take k (drop j n)) = k \<Longrightarrow> i < k \<Longrightarrow> n ! (j + i) = take k (drop j n) ! i \<and> j + i < length n"
  by auto

text \<open>A framework in \<open>name\<close> shows in its directories.\<close>

lemma framework_at_dir:
  assumes "framework_at (dir @ rest) foo l i = Some g" and "CHR ''/'' \<notin> set rest"
  shows "\<exists>xs ys. dir = xs @ ''.framework/'' @ ys"
proof -
  have "strncmp_0 (drop (i + l) (dir @ rest)) ''.framework/'' 11"
    using assms(1) by (simp add: framework_at_def split: if_splits)
  then have fw: "take 11 (drop (i + l) (dir @ rest)) = ''.framework/''"
    using strncmp_0_prefix [of "drop (i + l) (dir @ rest)" "''.framework/''" 11] by simp
  have "\<not> i + l + 10 \<ge> length dir"
  proof
    assume "i + l + 10 \<ge> length dir"
    have len: "length (take 11 (drop (i + l) (dir @ rest))) = 11" unfolding fw by simp
    have "(dir @ rest) ! (i + l + 10) = take 11 (drop (i + l) (dir @ rest)) ! 10 \<and> i + l + 10 < length (dir @ rest)"
      using nth_take_drop [OF len, of 10] by simp
    then have "(dir @ rest) ! (i + l + 10) = CHR ''/''" "i + l + 10 < length (dir @ rest)" unfolding fw by simp_all
    then have "rest ! (i + l + 10 - length dir) = CHR ''/''" "i + l + 10 - length dir < length rest"
      using \<open>i + l + 10 \<ge> length dir\<close> by (auto simp: nth_append)
    then have "CHR ''/'' \<in> set rest" by (metis nth_mem)
    then show False using assms(2) by simp
  qed
  then have "take 11 (drop (i + l) dir) = ''.framework/''" using fw by simp
  then have "dir = take (i + l) dir @ ''.framework/'' @ drop 11 (drop (i + l) dir)"
    by (metis append_take_drop_id)
  then show ?thesis by blast
qed

lemma no_framework:
  assumes "is_dir dir" and "CHR ''/'' \<notin> set rest" and "\<nexists>xs ys. dir = xs @ ''.framework/'' @ ys"
  shows "\<exists>suffix. guess_framework (dir @ rest) = (suffix, None) \<and> (CHR ''_'' \<notin> set rest \<longrightarrow> suffix = None)"
proof (cases dir rule: rev_cases)
  case Nil
  then show ?thesis using assms(2) by (simp add: guess_framework_def)
next
  case (snoc d c)
  then have dir: "dir = d @ ''/''" using assms(1) by (simp add: is_dir_def)
  have slash: "strrchr (dir @ rest) CHR ''/'' = Some (length d)" using assms(2) by (simp add: dir)
  have none: "framework_at (dir @ rest) foo l i = None" for foo l i
    using framework_at_dir [OF _ assms(2)] assms(3) by fastforce
  have rest: "drop (length d + 1) (dir @ rest) = rest" by (simp add: dir)
  obtain l suffix where suf: "framework_suffix rest = (l, suffix)" by fastforce
  then have "CHR ''_'' \<notin> set rest \<longrightarrow> suffix = None" by (auto simp: framework_suffix_def)
  moreover have "guess_framework (dir @ rest) = (if d = [] then None else suffix, None)"
    unfolding guess_framework_def slash option.case Let_def rest suf using none by (auto split: option.splits)
  ultimately show ?thesis by auto
qed

lemma drop_version_none:
  assumes "length foo \<le> length name - length dir" and "take (length foo) (drop (length dir) name) = foo"
    and "CHR ''.'' \<notin> set foo"
  shows "drop_version name (length dir) (length foo) = length foo"
proof -
  have "name ! (length dir + length foo - 2) = foo ! (length foo - 2)" if "length foo \<ge> 3"
    using arg_cong [OF assms(2), of "\<lambda>s. s ! (length foo - 2)"] assms(1) that by simp
  moreover have "foo ! (length foo - 2) \<in> set foo" if "length foo \<ge> 3" using that by (intro nth_mem) simp
  ultimately show ?thesis using assms(3) by (auto simp: drop_version_def)
qed


section \<open>Names that lead out of bounds\<close>

lemma guess_dylib_in_bounds:
  assumes "drop a name = ''.dylib''"
  shows "fst (guess_dylib name a' start suffix) \<noteq> Out_of_bounds"
proof -
  have "CHR ''.'' \<in> set (drop c name)" if "strchr_from name start CHR ''_'' = Some c" for c
  proof -
    have c: "c < length name" "name ! c = CHR ''_''"
      using that by (auto simp: strchr_from_def find_Some_iff)
    have "a < length name" using arg_cong [OF assms, of length] by simp
    have "c < a"
    proof (rule ccontr)
      assume "\<not> c < a"
      then have "name ! c = drop a name ! (c - a)" "c - a < length (drop a name)" using c(1) by auto
      then have "CHR ''_'' \<in> set (drop a name)" using c(2) by (metis nth_mem)
      then show False using assms by simp
    qed
    moreover have "drop a name ! 0 = CHR ''.''" by (simp only: assms nth_Cons_0)
    ultimately have "drop c name ! (a - c) = CHR ''.''" "a - c < length (drop c name)"
      using \<open>a < length name\<close> by auto
    then show ?thesis by (metis nth_mem)
  qed
  then show ?thesis by (auto simp: guess_dylib_def Let_def split: option.splits)
qed



lemma no_framework_usr_lib: "\<nexists>xs ys. ''/usr/lib/'' = xs @ ''.framework/'' @ ys"
proof
  assume "\<exists>xs ys. ''/usr/lib/'' = xs @ ''.framework/'' @ ys"
  then obtain xs ys where "''/usr/lib/'' = xs @ ''.framework/'' @ ys" by blast
  from arg_cong [OF this, of length] show False by simp
qed


end
