(* ===== verification/Flonum.thy ===== *)
theory Flonum
  imports ByteSex
begin

text \<open>
  The floating point numbers of the assembler before they are encoded for a machine: \<^verbatim>\<open>as/flonum.h\<close>,
  \<^verbatim>\<open>as/flonum-mult.c\<close> and \<^verbatim>\<open>as/flonum-copy.c\<close>.  A number is an array of littlenums of 16 bits, the lowest first,
  with a pointer to the leading one and an exponent to the base \<open>2 ^ 16\<close>.
\<close>

section \<open>Numbers\<close>

text \<open>
  \<open>fl_low\<close> is the array from \<^verbatim>\<open>low\<close> to \<^verbatim>\<open>high\<close>; \<open>fl_leader\<close> is \<^verbatim>\<open>leader - low\<close>, which is \<open>-1\<close> for zero.
\<close>

record flonum =
  fl_low :: "u16 list"
  fl_leader :: int
  fl_exponent :: int
  fl_sign :: char

definition digits_of :: "flonum \<Rightarrow> u16 list" where
  "digits_of f = take (nat (fl_leader f + 1)) (fl_low f)"

definition leader_ok :: "flonum \<Rightarrow> bool" where
  "leader_ok f \<longleftrightarrow> -1 \<le> fl_leader f \<and> fl_leader f < int (length (fl_low f))"

definition signed :: "flonum \<Rightarrow> bool" where
  "signed f \<longleftrightarrow> fl_sign f = CHR ''-'' \<or> fl_sign f = CHR ''+''"

definition put :: "u16 list \<Rightarrow> int \<Rightarrow> u16 \<Rightarrow> u16 list option" where
  "put low i w = (if 0 \<le> i \<and> nat i < length low then Some (low[nat i := w]) else None)"

section \<open>Multiplication\<close>

text \<open>
  The products that belong to position \<open>N\<close> of the result, and the loop that adds them to \<^verbatim>\<open>work\<close> and \<^verbatim>\<open>carry\<close>,
  which have 32 bits.
\<close>

definition row_products :: "u16 list \<Rightarrow> u16 list \<Rightarrow> nat \<Rightarrow> u32 list" where
  "row_products as bs N =
     map (\<lambda>A. ucast (as ! A) * ucast (bs ! (N - A))) (filter (\<lambda>A. A < length as \<and> N - A < length bs) [0..<N + 1])"

fun add_product :: "u32 \<times> u32 \<Rightarrow> u32 \<Rightarrow> u32 \<times> u32" where
  "add_product (work, carry) p =
     (let work = work + p in (work AND 0xFFFF, carry + drop_bit 16 work))"

definition row :: "u16 list \<Rightarrow> u16 list \<Rightarrow> nat \<Rightarrow> u32 \<Rightarrow> u32 \<times> u32" where
  "row as bs N carry = foldl add_product (carry, 0) (row_products as bs N)"

text \<open>
  Low-order zeros are not stored, they raise the exponent; positions below \<open>0\<close> are those for which the
  product has no room.
\<close>

record product_state =
  pr_P :: int
  pr_extra :: int
  pr_exponent :: int
  pr_carry :: u32
  pr_significant :: u32
  pr_low :: "u16 list"

fun product_loop :: "u16 list \<Rightarrow> u16 list \<Rightarrow> nat \<Rightarrow> nat \<Rightarrow> product_state \<Rightarrow> product_state option" where
  "product_loop as bs N 0 st = Some st"
| "product_loop as bs N (Suc n) st =
     (let (work, carry) = row as bs N (pr_carry st);
          st = st\<lparr>pr_carry := carry, pr_significant := pr_significant st OR work\<rparr>
      in if pr_significant st \<noteq> 0 \<or> pr_P st < 0 then
           Option.bind (if pr_P st \<ge> 0 then put (pr_low st) (pr_P st) (ucast work) else Some (pr_low st))
             (\<lambda>low. product_loop as bs (N + 1) n (st\<lparr>pr_low := low, pr_P := pr_P st + 1\<rparr>))
         else product_loop as bs (N + 1) n
           (st\<lparr>pr_extra := pr_extra st + 1, pr_exponent := pr_exponent st + 1\<rparr>))"

text \<open>The loop that shifts the first \<open>n\<close> littlenums down by one, with the carry at their end.\<close>

fun shift_in :: "nat \<Rightarrow> u32 \<Rightarrow> u16 list \<Rightarrow> u16 list" where
  "shift_in 0 carry low = low"
| "shift_in (Suc q) carry low = shift_in q (ucast (low ! q)) (low[q := ucast carry])"

text \<open>The new littlenums, leader and exponent.\<close>

definition place_carry :: "product_state \<Rightarrow> (u16 list \<times> int \<times> int) option" where
  "place_carry st =
     (let P = pr_P st in
      if pr_carry st = 0 then Some (pr_low st, P - 1, pr_exponent st)
      else if pr_extra st > 0 then
        map_option (\<lambda>low. (low, P, pr_exponent st)) (put (pr_low st) P (ucast (pr_carry st)))
      else if P \<le> int (length (pr_low st)) then
        Some (shift_in (nat P) (pr_carry st) (pr_low st), P - 1, pr_exponent st + 1)
      else None)"

text \<open>\<open>None\<close> is an access outside the arrays.\<close>

definition flonum_multip :: "flonum \<Rightarrow> flonum \<Rightarrow> flonum \<Rightarrow> flonum option" where
  "flonum_multip a b product =
     (if \<not> (signed a \<and> signed b) then Some (product\<lparr>fl_sign := CHR 0x00\<rparr>)
      else if \<not> (leader_ok a \<and> leader_ok b) then None
      else
        let sign = if fl_sign a = fl_sign b then CHR ''+'' else CHR ''-'';
            size_of_sum = fl_leader a + fl_leader b;
            extra = int (length (fl_low product)) - 1 - size_of_sum;
            exponent = fl_exponent a + fl_exponent b;
            st = \<lparr>pr_P = min extra 0, pr_extra = extra, pr_exponent = exponent - min extra 0,
                  pr_carry = 0, pr_significant = 0, pr_low = fl_low product\<rparr>
        in Option.bind (product_loop (digits_of a) (digits_of b) 0 (nat (size_of_sum + 1)) st) (\<lambda>st.
           map_option (\<lambda>(low, leader, exponent).
             product\<lparr>fl_sign := sign, fl_low := low, fl_leader := leader, fl_exponent := exponent\<rparr>)
             (place_carry st)))"

section \<open>Copying\<close>

text \<open>
  \<^verbatim>\<open>memset\<close> with zero for \<open>n\<close> bytes from a littlenum on; an odd byte is the first of its littlenum in memory.
\<close>

definition clear_bytes :: "byte_sex \<Rightarrow> nat \<Rightarrow> nat \<Rightarrow> u16 list \<Rightarrow> u16 list" where
  "clear_bytes h start n low =
     map (\<lambda>i. if i < start \<or> n \<le> 2 * (i - start) then low ! i
              else if n = 2 * (i - start) + 1
              then low ! i AND (if h = LITTLE_ENDIAN_BYTE_SEX then 0xFF00 else 0x00FF)
              else 0) [0..<length low]"

definition flonum_copy :: "byte_sex \<Rightarrow> flonum \<Rightarrow> flonum \<Rightarrow> flonum option" where
  "flonum_copy h src out =
     (let out = out\<lparr>fl_sign := fl_sign src\<rparr>;
          in_length = fl_leader src;
          out_length = int (length (fl_low out)) - 1
      in if in_length < 0 then Some (out\<lparr>fl_leader := -1\<rparr>)
         else if \<not> leader_ok src then None
         else if in_length \<le> out_length then
           let low = (if in_length < out_length
                      then clear_bytes h (nat in_length + 1) (nat (out_length - in_length)) (fl_low out)
                      else fl_low out)
           in Some (out\<lparr>fl_low := digits_of src @ drop (nat in_length + 1) low,
                fl_exponent := fl_exponent src, fl_leader := in_length\<rparr>)
         else
           let shorten = in_length - out_length
           in Some (out\<lparr>fl_low := take (nat (out_length + 1)) (drop (nat shorten) (fl_low src)),
                fl_leader := out_length, fl_exponent := fl_exponent src + shorten\<rparr>))"

section \<open>Examples\<close>

definition flonum_of :: "u16 list \<Rightarrow> int \<Rightarrow> flonum" where
  "flonum_of ds e = \<lparr>fl_low = ds, fl_leader = int (length ds) - 1, fl_exponent = e, fl_sign = CHR ''+''\<rparr>"

text \<open>
  With 32 bits the work overflows when a row has three large products: the square of \<open>2 ^ 48 - 1\<close> is wrong
  in its fifth littlenum, which should be \<open>65535\<close>.  And with a leading carry the lowest littlenum is lost although there
  is room, when the product had too little room for the zeros below.
\<close>

lemma multip_runs:
  "flonum_multip (flonum_of [65535, 65535, 65535] 0) (flonum_of [65535, 65535, 65535] 0) (flonum_of [9, 9, 9, 9, 9, 9] 0) =
     Some (flonum_of [1, 0, 0, 65534, 65535, 65534] 0)"
  "flonum_multip (flonum_of [0, 0, 65535] 0) (flonum_of [3] 0) (flonum_of [9, 9] 0) =
     Some \<lparr>fl_low = [2, 9], fl_leader = 0, fl_exponent = 3, fl_sign = CHR ''+''\<rparr>"
  "flonum_multip (flonum_of [4, 1] 2) (flonum_of [0, 0, 5] (- 1)) (flonum_of [9, 9, 9] 0) =
     Some \<lparr>fl_low = [20, 5, 9], fl_leader = 1, fl_exponent = 3, fl_sign = CHR ''+''\<rparr>"
  by code_simp+

end
