(* ===== verification/FlonumSound.thy ===== *)
theory FlonumSound
  imports Flonum
begin

text \<open>
  What the multiplication and the copy of floating point numbers of the assembler do to their values: a
  product is the exact product, cut off where it has no room, unless a sum of 32 bits overflows.
\<close>

section \<open>Values\<close>

fun mantissa :: "u16 list \<Rightarrow> nat" where
  "mantissa [] = 0"
| "mantissa (d # ds) = unat d + 2 ^ 16 * mantissa ds"

abbreviation radix :: nat where "radix \<equiv> 2 ^ 16"

lemma unat16_less [simp]: "unat (d :: u16) < 65536"
  using unsigned_less [of d] by simp

lemma unat16_le: "unat (d :: u16) \<le> 65535"
  using unat16_less [of d] by linarith

lemma radix_mono: "a < b \<Longrightarrow> radix * a < radix * b"
  by simp

lemma mantissa_append: "mantissa (xs @ ys) = mantissa xs + radix ^ length xs * mantissa ys"
  by (induction xs) (simp_all add: algebra_simps)

lemma mantissa_snoc: "mantissa (xs @ [d]) = mantissa xs + radix ^ length xs * unat d"
  by (simp add: mantissa_append)

lemma mantissa_less: "mantissa ds < radix ^ length ds"
proof (induction ds)
  case (Cons d ds)
  have "mantissa (d # ds) < radix * (mantissa ds + 1)" using unat16_less [of d] by simp
  also have "\<dots> \<le> radix * radix ^ length ds" by (rule mult_le_mono2) (use Cons in simp)
  finally show ?case by simp
qed simp

lemma mantissa_sum: "mantissa ds = (\<Sum>i<length ds. unat (ds ! i) * radix ^ i)"
proof (induction ds rule: rev_induct)
  case (snoc d ds)
  have "(\<Sum>i<length ds. unat ((ds @ [d]) ! i) * radix ^ i) = mantissa ds"
    unfolding snoc by (rule sum.cong) (simp_all add: nth_append)
  then show ?case by (simp add: mantissa_snoc nth_append)
qed simp

lemma mantissa_replicate_0 [simp]: "mantissa (replicate n 0) = 0"
  by (induction n) simp_all

lemma mantissa_drop: "mantissa (drop n ds) = mantissa ds div radix ^ n"
proof (cases "n \<le> length ds")
  case True
  have "mantissa ds = mantissa (take n ds) + radix ^ n * mantissa (drop n ds)"
    using mantissa_append [of "take n ds" "drop n ds"] True by simp
  moreover have "mantissa (take n ds) < radix ^ n" using mantissa_less [of "take n ds"] True by simp
  ultimately show ?thesis by simp
next
  case False
  then have "radix ^ length ds \<le> radix ^ n" by (intro power_increasing) simp_all
  then have "mantissa ds < radix ^ n" using mantissa_less [of ds] by (rule order_less_le_trans [rotated])
  then show ?thesis using False by simp
qed

section \<open>A row of products\<close>

definition row_sum :: "u16 list \<Rightarrow> u16 list \<Rightarrow> nat \<Rightarrow> nat" where
  "row_sum as bs N = sum_list (map unat (row_products as bs N))"

text \<open>Products of littlenums of at most \<open>q\<close>; with a carry from before the first sum must not overflow.\<close>

lemma add_products:
  assumes "foldl add_product (work, carry) ps = (work', carry')"
    and "\<forall>p\<in>set ps. unat p \<le> q" and "q \<le> (radix - 1) ^ 2" and "ps \<noteq> [] \<longrightarrow> unat work + q < 2 ^ 32"
    and "radix * unat carry + unat work + sum_list (map unat ps) < radix * 2 ^ 32"
  shows "radix * unat carry' + unat work' = radix * unat carry + unat work + sum_list (map unat ps) \<and>
    (ps \<noteq> [] \<longrightarrow> unat work' < radix)"
  using assms
proof (induction ps arbitrary: work carry)
  case (Cons p ps)
  let ?w = "work + p"
  have p: "unat p \<le> q" using Cons.prems(2) by simp
  then have w: "unat ?w = unat work + unat p" using Cons.prems(4) by (simp add: unat_word_ariths)
  have low: "unat (?w AND 0xFFFF) = unat ?w mod radix"
  proof -
    have "?w AND 0xFFFF = take_bit 16 ?w" by (simp add: take_bit_eq_mask mask_eq_exp_minus_1)
    then have "unat (?w AND 0xFFFF) = take_bit 16 (unat ?w)" by (simp only: unsigned_take_bit_eq)
    then show ?thesis by (simp only: take_bit_eq_mod)
  qed
  have high: "unat (drop_bit 16 ?w) = unat ?w div radix"
    by (simp add: drop_bit_eq_div unat_div)
  have split: "radix * (unat ?w div radix) + unat ?w mod radix = unat work + unat p" using w by simp
  have "radix * unat carry + (unat work + unat p) < radix * 2 ^ 32" using Cons.prems(5) by simp
  then have "radix * (unat carry + unat ?w div radix) < radix * 2 ^ 32" using split by (simp add: algebra_simps)
  then have "unat carry + unat ?w div radix < 2 ^ 32" by (simp only: mult_less_cancel1)
  then have c: "unat (carry + drop_bit 16 ?w) = unat carry + unat ?w div radix"
    by (simp add: unat_word_ariths high)
  have total: "radix * unat (carry + drop_bit 16 ?w) + unat (?w AND 0xFFFF) + sum_list (map unat ps) =
      radix * unat carry + unat work + sum_list (map unat (p # ps))"
    unfolding c low using split by (simp add: algebra_simps)
  have room: "unat (?w AND 0xFFFF) + q < 2 ^ 32"
  proof -
    have "unat (?w AND 0xFFFF) < radix" unfolding low by simp
    then show ?thesis using Cons.prems(3) by (simp add: power2_eq_square)
  qed
  show ?case
  proof (cases "ps = []")
    case True
    then have "work' = ?w AND 0xFFFF" "carry' = carry + drop_bit 16 ?w"
      using Cons.prems(1) by (simp_all add: Let_def)
    then show ?thesis using total True low by simp
  next
    case False
    have step: "foldl add_product (?w AND 0xFFFF, carry + drop_bit 16 ?w) ps = (work', carry')"
      using Cons.prems(1) by (simp add: Let_def)
    have "radix * unat carry' + unat work' =
        radix * unat (carry + drop_bit 16 ?w) + unat (?w AND 0xFFFF) + sum_list (map unat ps) \<and>
        (ps \<noteq> [] \<longrightarrow> unat work' < radix)"
      using Cons.prems(2,3,5) room total by (intro Cons.IH [OF step]) simp_all
    then show ?thesis using total False by simp
  qed
qed simp

text \<open>
  The carries stay below \<open>k * m\<close> when a row has at most \<open>k\<close> products and none of them is above \<open>m\<close> times
  the largest littlenum.
\<close>

definition room_to_add :: "u16 list \<Rightarrow> u16 list \<Rightarrow> nat \<Rightarrow> bool" where
  "room_to_add as bs m \<longleftrightarrow>
     (\<forall>x\<in>set as. \<forall>y\<in>set bs. unat x * unat y \<le> m * (radix - 1)) \<and>
     m * (radix - 1 + min (length as) (length bs)) < 2 ^ 32"

lemma row_indices:
  "length (filter (\<lambda>A. A < length as \<and> N - A < length bs) [0..<N + 1]) \<le> min (length as) (length bs)"
proof -
  let ?f = "filter (\<lambda>A. A < length as \<and> N - A < length bs) [0..<N + 1]"
  have "length ?f = card (set ?f)" by (rule distinct_card [symmetric]) (simp del: upt_Suc)
  moreover have "card (set ?f) \<le> card {..<length as}" by (rule card_mono) auto
  moreover have "card (set ?f) \<le> card ((\<lambda>B. N - B) ` {..<length bs})"
  proof (rule card_mono)
    show "set ?f \<subseteq> (\<lambda>B. N - B) ` {..<length bs}"
    proof
      fix A
      assume "A \<in> set ?f"
      then have "A = N - (N - A)" "N - A < length bs" by (auto simp del: upt_Suc)
      then show "A \<in> (\<lambda>B. N - B) ` {..<length bs}" by blast
    qed
  qed simp
  moreover have "card ((\<lambda>B. N - B) ` {..<length bs}) \<le> length bs"
    using card_image_le [of "{..<length bs}" "\<lambda>B. N - B"] by simp
  ultimately show ?thesis by simp
qed

lemma unat_product: "unat (ucast (x :: u16) * ucast (y :: u16) :: u32) = unat x * unat y"
proof -
  have "unat x * unat y \<le> 65535 * 65535" by (intro mult_le_mono unat16_le)
  then have "unat x * unat y < 2 ^ 32" by simp
  moreover have "unat x < 2 ^ 32" "unat y < 2 ^ 32"
    using order_less_trans [OF unat16_less, of "2 ^ 32"] by simp_all
  ultimately show ?thesis by (simp add: unat_word_ariths unsigned_ucast_eq take_bit_eq_mod)
qed

lemma row_product_bounds:
  assumes "p \<in> set (row_products as bs N)"
  shows "\<exists>x\<in>set as. \<exists>y\<in>set bs. unat p = unat x * unat y"
proof -
  obtain A where A: "p = ucast (as ! A) * ucast (bs ! (N - A))" "A < length as" "N - A < length bs"
    using assms by (auto simp: row_products_def simp del: upt_Suc)
  then have "unat p = unat (as ! A) * unat (bs ! (N - A))" by (simp only: unat_product)
  then show ?thesis using A by (meson nth_mem)
qed

lemma row_spec:
  assumes "room_to_add as bs m" and "unat c \<le> min (length as) (length bs) * m"
    and "row_products as bs N \<noteq> [] \<or> c = 0" and run: "row as bs N c = (w', c')"
  shows "radix * unat c' + unat w' = unat c + row_sum as bs N \<and> unat w' < radix \<and>
    unat c' \<le> min (length as) (length bs) * m"
proof -
  let ?k = "min (length as) (length bs)" and ?ps = "row_products as bs N"
  let ?q = "min (m * (radix - 1)) ((radix - 1) ^ 2)"
  have q: "\<forall>p\<in>set ?ps. unat p \<le> ?q"
  proof
    fix p
    assume "p \<in> set ?ps"
    then obtain x y where xy: "x \<in> set as" "y \<in> set bs" "unat p = unat x * unat y"
      using row_product_bounds by blast
    have "unat x * unat y \<le> 65535 * 65535" by (intro mult_le_mono unat16_le)
    then show "unat p \<le> ?q" using xy assms(1) by (simp add: room_to_add_def power2_eq_square)
  qed
  have len: "length ?ps \<le> ?k" using row_indices by (simp only: row_products_def length_map)
  have "sum_list (map unat ?ps) \<le> length ?ps * (m * (radix - 1))"
    using sum_list_mono [of ?ps unat "\<lambda>_. m * (radix - 1)"] q by (simp add: sum_list_triv)
  also have "\<dots> \<le> ?k * (m * (radix - 1))" using len by (rule mult_le_mono1)
  finally have sum: "row_sum as bs N \<le> ?k * m * (radix - 1)" by (simp add: row_sum_def mult.assoc)
  have room: "m * (radix - 1) + ?k * m < 2 ^ 32" using assms(1) by (simp add: room_to_add_def algebra_simps)
  have km: "unat c + row_sum as bs N \<le> radix * (?k * m)" using sum assms(2) by (simp add: algebra_simps)
  have "?k * m < 2 ^ 32" using room by linarith
  then have top: "radix * (?k * m) < radix * 2 ^ 32" by (rule radix_mono)
  have fits: "radix * unat (0 :: u32) + unat c + sum_list (map unat ?ps) < radix * 2 ^ 32"
    using order_le_less_trans [OF km [unfolded row_sum_def] top]
    by (simp only: unsigned_0 mult_0_right add_0_left)
  have "?ps \<noteq> [] \<longrightarrow> unat c + ?q < 2 ^ 32" using room assms(2) by (simp add: min_def)
  then have sound: "radix * unat c' + unat w' = unat c + row_sum as bs N \<and> (?ps \<noteq> [] \<longrightarrow> unat w' < radix)"
    using add_products [OF run [unfolded row_def] q _ _ fits] by (simp add: row_sum_def)
  have "unat w' < radix"
    using sound assms(3) run by (cases "?ps = []") (auto simp: row_def)
  moreover have "radix * unat c' \<le> radix * (?k * m)" using sound km by linarith
  then have "unat c' \<le> ?k * m" by (simp only: mult_le_cancel1)  simp
  ultimately show ?thesis using sound by blast
qed

section \<open>All rows\<close>

text \<open>The sum over all rows is the product of the values.\<close>

lemma row_sum_convolution:
  "row_sum as bs N = (\<Sum>A\<le>N. (if A < length as then unat (as ! A) else 0) * (if N - A < length bs then unat (bs ! (N - A)) else 0))"
proof -
  let ?P = "\<lambda>A. A < length as \<and> N - A < length bs"
  have "row_sum as bs N = sum_list (map (\<lambda>A. unat (as ! A) * unat (bs ! (N - A))) (filter ?P [0..<N + 1]))"
    by (simp only: row_sum_def row_products_def map_map comp_def unat_product)
  also have "\<dots> = (\<Sum>A\<in>set (filter ?P [0..<N + 1]). unat (as ! A) * unat (bs ! (N - A)))"
    by (simp only: sum_list_distinct_conv_sum_set distinct_filter distinct_upt)
  also have "\<dots> = (\<Sum>A\<le>N. if ?P A then unat (as ! A) * unat (bs ! (N - A)) else 0)"
    by (simp add: sum.inter_filter [symmetric] del: upt_Suc) (rule sum.cong; auto)
  also have "\<dots> = (\<Sum>A\<le>N. (if A < length as then unat (as ! A) else 0) * (if N - A < length bs then unat (bs ! (N - A)) else 0))"
    by (rule sum.cong) auto
  finally show ?thesis .
qed

lemma rows_total:
  assumes "length as + length bs \<le> n + 1"
  shows "(\<Sum>N<n. row_sum as bs N * radix ^ N) = mantissa as * mantissa bs"
proof -
  let ?f = "\<lambda>i. if i < length as then unat (as ! i) else 0" and ?g = "\<lambda>i. if i < length bs then unat (bs ! i) else 0"
  let ?h = "\<lambda>i j. (?f i * radix ^ i) * (?g j * radix ^ j)"
  have "row_sum as bs N * radix ^ N = (\<Sum>A\<le>N. ?h A (N - A))" for N
  proof -
    have "?f A * ?g (N - A) * radix ^ N = ?h A (N - A)" if "A \<in> {..N}" for A
    proof -
      have "radix ^ N = radix ^ A * radix ^ (N - A)" using that by (simp flip: power_add)
      then show ?thesis by (simp only: ac_simps)
    qed
    then show ?thesis
      unfolding row_sum_convolution sum_distrib_right by (intro sum.cong) blast+
  qed
  then have "(\<Sum>N<n. row_sum as bs N * radix ^ N) = (\<Sum>N<n. \<Sum>A\<le>N. ?h A (N - A))" by (simp only:)
  also have "\<dots> = (\<Sum>(i, j)\<in>{(i, j). i + j < n}. ?h i j)" by (rule sum.triangle_reindex [symmetric])
  also have "\<dots> = (\<Sum>(i, j)\<in>{..<length as} \<times> {..<length bs}. ?h i j)"
  proof (rule sum.mono_neutral_right)
    show "finite {(i, j). i + j < n}"
      by (rule finite_subset [of _ "{..<n} \<times> {..<n}"]) auto
    show "{..<length as} \<times> {..<length bs} \<subseteq> {(i, j). i + j < n}" using assms by auto
  qed (auto split: if_splits)
  also have "\<dots> = (\<Sum>i<length as. ?f i * radix ^ i) * (\<Sum>j<length bs. ?g j * radix ^ j)"
    by (simp only: sum_product sum.cartesian_product)
  also have "\<dots> = mantissa as * mantissa bs" by (simp add: mantissa_sum)
  finally show ?thesis .
qed

section \<open>One step of the loop\<close>

definition product_step :: "u16 list \<Rightarrow> u16 list \<Rightarrow> nat \<Rightarrow> product_state \<Rightarrow> product_state option" where
  "product_step as bs N st =
     (let (work, carry) = row as bs N (pr_carry st);
          st = st\<lparr>pr_carry := carry, pr_significant := pr_significant st OR work\<rparr>
      in if pr_significant st \<noteq> 0 \<or> pr_P st < 0 then
           map_option (\<lambda>low. st\<lparr>pr_low := low, pr_P := pr_P st + 1\<rparr>)
             (if pr_P st \<ge> 0 then put (pr_low st) (pr_P st) (ucast work) else Some (pr_low st))
         else Some (st\<lparr>pr_extra := pr_extra st + 1, pr_exponent := pr_exponent st + 1\<rparr>))"

lemma product_loop_Suc:
  "product_loop as bs N (Suc n) st = Option.bind (product_step as bs N st) (product_loop as bs (N + 1) n)"
  by (auto simp: product_step_def Let_def put_def split: prod.splits)

declare product_loop.simps(2) [simp del]

text \<open>
  The counters: \<open>z\<close> is how many positions have been left out below, of which at least those for which there is
  no room.
\<close>

definition counters :: "int \<Rightarrow> int \<Rightarrow> nat \<Rightarrow> nat \<Rightarrow> product_state \<Rightarrow> nat \<Rightarrow> bool" where
  "counters e extra L N st z \<longleftrightarrow>
     pr_exponent st = e + int z \<and> pr_P st = int N - int z \<and>
     pr_extra st = extra + int z - int (nat (- extra)) \<and> nat (- extra) \<le> z \<and>
     (pr_P st < 0 \<longrightarrow> z = nat (- extra)) \<and> length (pr_low st) = L"

lemma put_inside: "0 \<le> i \<Longrightarrow> i < int (length low) \<Longrightarrow> put low i w = Some (low[nat i := w])"
  by (simp add: put_def nat_less_iff)

lemma step_counters:
  assumes "counters e extra L N st z" and "int N + 1 \<le> int L - extra"
  shows "\<exists>st' z'. product_step as bs N st = Some st' \<and> counters e extra L (N + 1) st' z'"
proof -
  obtain w c where row: "row as bs N (pr_carry st) = (w, c)" by fastforce
  consider (stored) "pr_significant st OR w \<noteq> 0 \<or> pr_P st < 0" | (skip) "pr_significant st OR w = 0" "\<not> pr_P st < 0"
    by blast
  then show ?thesis
  proof cases
    case stored
    have "pr_P st < int (length (pr_low st))" "length (pr_low st) = L" using assms unfolding counters_def by linarith+
    then have "\<exists>low. (if pr_P st \<ge> 0 then put (pr_low st) (pr_P st) (ucast w) else Some (pr_low st)) = Some low \<and> length low = L"
      by (simp add: put_inside)
    then obtain low where low: "(if pr_P st \<ge> 0 then put (pr_low st) (pr_P st) (ucast w) else Some (pr_low st)) = Some low"
      "length low = L" by blast
    let ?st = "st\<lparr>pr_carry := c, pr_significant := pr_significant st OR w, pr_low := low, pr_P := pr_P st + 1\<rparr>"
    have "product_step as bs N st = Some ?st"
    proof (cases "0 \<le> pr_P st")
      case True
      then show ?thesis using stored low(1) by (simp add: product_step_def row Let_def)
    next
      case False
      then have "low = pr_low st" using low(1) by simp
      then show ?thesis using False row by (cases st) (simp add: product_step_def Let_def)
    qed
    moreover have "counters e extra L (N + 1) ?st z" using assms(1) low(2) by (simp add: counters_def)
    ultimately show ?thesis by blast
  next
    case skip
    let ?st = "st\<lparr>pr_carry := c, pr_significant := 0, pr_extra := pr_extra st + 1, pr_exponent := pr_exponent st + 1\<rparr>"
    have "product_step as bs N st = Some ?st"
      using skip by (simp only: product_step_def row Let_def prod.case) simp
    moreover have "counters e extra L (N + 1) ?st (z + 1)" using assms(1) skip(2) by (simp add: counters_def)
    ultimately show ?thesis by blast
  qed
qed

lemma loop_counters:
  assumes "counters e extra L N st z" and "int N + int n \<le> int L - extra"
  shows "\<exists>st' z'. product_loop as bs N n st = Some st' \<and> counters e extra L (N + n) st' z'"
  using assms
proof (induction n arbitrary: N st z)
  case (Suc n)
  have "int N + 1 \<le> int L - extra" using Suc.prems(2) by simp
  then obtain st1 z1 where "product_step as bs N st = Some st1" "counters e extra L (N + 1) st1 z1"
    using step_counters [OF Suc.prems(1)] by blast
  then show ?case using Suc.IH [of "N + 1" st1 z1] Suc.prems(2) by (simp add: product_loop_Suc)
qed auto

lemma length_shift_in [simp]: "length (shift_in n c low) = length low"
  by (induction n arbitrary: c low) simp_all

lemma place_carry_total:
  assumes "counters e extra L n st z" and "int n \<le> int L - extra" and "nat (- extra) \<le> n"
  shows "\<exists>low leader exponent. place_carry st = Some (low, leader, exponent) \<and> length low = L \<and>
    -1 \<le> leader \<and> leader < int L"
proof -
  have P: "0 \<le> pr_P st" "pr_P st \<le> int L" "pr_extra st > 0 \<longrightarrow> pr_P st < int L"
    using assms unfolding counters_def by linarith+
  then show ?thesis using assms(1) by (auto simp: place_carry_def put_def counters_def Let_def)
qed

text \<open>The state before the loop.\<close>

definition room_left :: "flonum \<Rightarrow> flonum \<Rightarrow> flonum \<Rightarrow> int" where
  "room_left a b product = int (length (fl_low product)) - 1 - (fl_leader a + fl_leader b)"

definition product_start :: "flonum \<Rightarrow> flonum \<Rightarrow> flonum \<Rightarrow> product_state" where
  "product_start a b product =
     (let extra = room_left a b product in
      \<lparr>pr_P = min extra 0, pr_extra = extra, pr_exponent = fl_exponent a + fl_exponent b - min extra 0,
       pr_carry = 0, pr_significant = 0, pr_low = fl_low product\<rparr>)"

definition rows :: "flonum \<Rightarrow> flonum \<Rightarrow> nat" where
  "rows a b = nat (fl_leader a + fl_leader b + 1)"

lemma flonum_multip_run:
  assumes "leader_ok a" "leader_ok b" and "signed a" "signed b"
    and "product_loop (digits_of a) (digits_of b) 0 (rows a b) (product_start a b product) = Some st"
    and "place_carry st = Some (low, leader, exponent)"
  shows "flonum_multip a b product =
    Some (product\<lparr>fl_sign := (if fl_sign a = fl_sign b then CHR ''+'' else CHR ''-''), fl_low := low,
      fl_leader := leader, fl_exponent := exponent\<rparr>)"
  using assms by (simp add: flonum_multip_def Let_def rows_def product_start_def room_left_def)

lemma start_counters:
  "counters (fl_exponent a + fl_exponent b) (room_left a b product) (length (fl_low product)) 0
     (product_start a b product) (nat (- room_left a b product))"
  by (auto simp: counters_def product_start_def Let_def)

lemma rows_room:
  assumes "leader_ok a" "leader_ok b" and "\<not> (fl_leader a = -1 \<and> fl_leader b = -1)"
  shows "int (rows a b) \<le> int (length (fl_low product)) - room_left a b product"
    and "nat (- room_left a b product) \<le> rows a b"
  using assms unfolding leader_ok_def room_left_def rows_def by linarith+

text \<open>No multiplication leaves the arrays, whatever the factors are and whatever overflows.\<close>

lemma flonum_multip_total:
  assumes "leader_ok a" "leader_ok b" and "signed a" "signed b"
  shows "\<exists>p. flonum_multip a b product = Some p \<and> leader_ok p \<and> length (fl_low p) = length (fl_low product) \<and> signed p"
proof (cases "fl_leader a = -1 \<and> fl_leader b = -1")
  case True
  then show ?thesis using assms by (simp add: flonum_multip_def Let_def leader_ok_def place_carry_def signed_def)
next
  case False
  note room = rows_room [OF assms(1,2) False, of product]
  obtain st z where st: "product_loop (digits_of a) (digits_of b) 0 (rows a b) (product_start a b product) = Some st"
    "counters (fl_exponent a + fl_exponent b) (room_left a b product) (length (fl_low product)) (rows a b) st z"
    using loop_counters [OF start_counters, of "rows a b"] room(1) by fastforce
  obtain low leader exponent where "place_carry st = Some (low, leader, exponent)" "length low = length (fl_low product)"
    "-1 \<le> leader" "leader < int (length (fl_low product))"
    using place_carry_total [OF st(2) room] by blast
  then show ?thesis using flonum_multip_run [OF assms st(1)] by (simp add: leader_ok_def signed_def)
qed

section \<open>The value of a product\<close>

text \<open>
  The first \<open>N\<close> rows are stored up to the \<open>z\<close> positions below, and a carry.
\<close>

definition rows_sum :: "u16 list \<Rightarrow> u16 list \<Rightarrow> nat \<Rightarrow> nat" where
  "rows_sum as bs N = (\<Sum>M<N. row_sum as bs M * radix ^ M)"

definition stored_rows :: "u16 list \<Rightarrow> u16 list \<Rightarrow> nat \<Rightarrow> int \<Rightarrow> nat \<Rightarrow> product_state \<Rightarrow> nat \<Rightarrow> nat \<Rightarrow> bool" where
  "stored_rows as bs m extra N st z W \<longleftrightarrow>
     rows_sum as bs N = W + radix ^ N * unat (pr_carry st) \<and> W < radix ^ N \<and>
     unat (pr_carry st) \<le> min (length as) (length bs) * m \<and>
     mantissa (take (nat (pr_P st)) (pr_low st)) = W div radix ^ z \<and>
     (pr_significant st = 0 \<longrightarrow> W = 0 \<and> pr_P st \<le> 0) \<and> (0 \<le> extra \<longrightarrow> radix ^ z dvd W)"

lemma div_add_position:
  assumes "z \<le> N"
  shows "(W + radix ^ N * w) div radix ^ z = W div radix ^ z + radix ^ (N - z) * w"
proof -
  have "radix ^ N = radix ^ z * radix ^ (N - z)" using assms by (simp only: power_add [symmetric] le_add_diff_inverse)
  then have "radix ^ N * w = radix ^ z * (radix ^ (N - z) * w)" by (simp only: mult.assoc)
  then show ?thesis by (simp only: div_mult_self2 power_not_zero) simp
qed

lemma div_below:
  assumes "W < radix ^ N" and "N \<le> z"
  shows "W div radix ^ z = 0"
proof -
  have "radix ^ N \<le> radix ^ z" using assms(2) by (intro power_increasing) simp_all
  then have "W < radix ^ z" using assms(1) by (rule order_less_le_trans [rotated])
  then show ?thesis by (rule div_less)
qed

lemma position_less:
  assumes "W < radix ^ N" and "w < radix"
  shows "W + radix ^ N * w < radix ^ (N + 1)"
proof -
  have "W + radix ^ N * w < radix ^ N * (w + 1)" using assms(1) by simp
  also have "\<dots> \<le> radix ^ N * radix" using assms(2) by (intro mult_le_mono2) simp
  finally show ?thesis by (simp add: mult.commute)
qed

lemma mantissa_take_update:
  assumes "n < length low"
  shows "mantissa (take (Suc n) (low[n := w])) = mantissa (take n low) + radix ^ n * unat w"
proof -
  have "take (Suc n) (low[n := w]) = take n low @ [w]" using assms by (simp add: take_Suc_conv_app_nth)
  then show ?thesis using assms by (simp only: mantissa_snoc) simp
qed

lemma or_eq_0: "(a :: u32) OR b = 0 \<longleftrightarrow> a = 0 \<and> b = 0"
  by (auto simp: bit_eq_iff bit_or_iff)

lemma step_value:
  assumes "product_step as bs N st = Some st'" and "counters e extra L N st z" and "int N + 1 \<le> int L - extra"
    and stored: "stored_rows as bs m extra N st z W" and "room_to_add as bs m"
    and "row_products as bs N \<noteq> [] \<or> pr_carry st = 0"
  shows "\<exists>z' W'. counters e extra L (N + 1) st' z' \<and> stored_rows as bs m extra (N + 1) st' z' W'"
proof -
  obtain w c where row: "row as bs N (pr_carry st) = (w, c)" by fastforce
  have "unat (pr_carry st) \<le> min (length as) (length bs) * m" using stored by (simp add: stored_rows_def)
  then have wc: "radix * unat c + unat w = unat (pr_carry st) + row_sum as bs N" "unat w < radix"
    "unat c \<le> min (length as) (length bs) * m"
    using row_spec [OF assms(5) _ assms(6) row] by simp_all
  let ?W = "W + radix ^ N * unat w"
  have W: "W < radix ^ N" "mantissa (take (nat (pr_P st)) (pr_low st)) = W div radix ^ z"
    "pr_significant st = 0 \<longrightarrow> W = 0 \<and> pr_P st \<le> 0" "0 \<le> extra \<longrightarrow> radix ^ z dvd W"
    "rows_sum as bs N = W + radix ^ N * unat (pr_carry st)"
    using stored by (simp_all add: stored_rows_def)
  have "rows_sum as bs (N + 1) = W + radix ^ N * (unat (pr_carry st) + row_sum as bs N)"
    using W(5) by (simp add: rows_sum_def algebra_simps)
  also have "\<dots> = ?W + radix ^ (N + 1) * unat c" unfolding wc(1) [symmetric] by (simp add: algebra_simps)
  finally have sum: "rows_sum as bs (N + 1) = ?W + radix ^ (N + 1) * unat c" .
  have less: "?W < radix ^ (N + 1)" using W(1) wc(2) by (rule position_less)
  have cnt: "pr_exponent st = e + int z" "pr_P st = int N - int z" "pr_extra st = extra + int z - int (nat (- extra))"
    "nat (- extra) \<le> z" "pr_P st < 0 \<longrightarrow> z = nat (- extra)" "length (pr_low st) = L"
    using assms(2) by (simp_all add: counters_def)
  consider (below) "pr_P st < 0" | (stored) "pr_significant st OR w \<noteq> 0" "\<not> pr_P st < 0"
    | (skip) "pr_significant st OR w = 0" "\<not> pr_P st < 0"
    by blast
  then show ?thesis
  proof cases
    case below
    let ?st = "st\<lparr>pr_carry := c, pr_significant := pr_significant st OR w, pr_P := pr_P st + 1\<rparr>"
    have st': "st' = ?st" using assms(1) below row by (cases st) (simp add: product_step_def Let_def)
    have "counters e extra L (N + 1) ?st z" using cnt below by (simp add: counters_def)
    moreover have "?W div radix ^ z = 0" using less by (rule div_below) (use cnt(2) below in linarith)
    moreover have "0 \<le> extra \<longrightarrow> radix ^ z dvd ?W" using cnt(5) below cnt(2) by auto
    ultimately show ?thesis
      using sum less wc(3) W(3) below by (intro exI [of _ z] exI [of _ ?W]) (auto simp: stored_rows_def st' or_eq_0)
  next
    case stored
    let ?n = "nat (pr_P st)"
    have n: "?n < length (pr_low st)" "?n = N - z" "z \<le> N" "nat (pr_P st + 1) = Suc ?n"
      using cnt assms(3) stored(2) by linarith+
    then have "put (pr_low st) (pr_P st) (ucast w) = Some ((pr_low st)[?n := ucast w])"
      using stored(2) by (simp add: put_def)
    then have st': "st' = st\<lparr>pr_carry := c, pr_significant := pr_significant st OR w,
        pr_low := (pr_low st)[?n := ucast w], pr_P := pr_P st + 1\<rparr>"
      using assms(1) stored row by (simp add: product_step_def Let_def)
    have "unat (ucast w :: u16) = unat w"
      using wc(2) by (simp add: unsigned_ucast_eq take_bit_eq_mod)
    then have "mantissa (take (nat (pr_P st + 1)) ((pr_low st)[?n := ucast w])) = ?W div radix ^ z"
      unfolding n(4) div_add_position [OF n(3)] using mantissa_take_update [OF n(1), of "ucast w"] W(2) n(2) by simp
    moreover have "counters e extra L (N + 1) st' z" using cnt stored(2) by (simp add: counters_def st')
    moreover have "0 \<le> extra \<longrightarrow> radix ^ z dvd ?W"
      using W(4) n(3) by (auto intro!: dvd_add dvd_mult2 le_imp_power_dvd)
    ultimately show ?thesis
      using sum less wc(3) stored(1) by (intro exI [of _ z] exI [of _ ?W]) (simp add: stored_rows_def st')
  next
    case skip
    let ?st = "st\<lparr>pr_carry := c, pr_significant := 0, pr_extra := pr_extra st + 1, pr_exponent := pr_exponent st + 1\<rparr>"
    have zero: "pr_significant st = 0" "w = 0" using skip(1) by (simp_all add: or_eq_0)
    have st': "st' = ?st" using assms(1) skip row by (simp add: product_step_def Let_def)
    have "counters e extra L (N + 1) ?st (z + 1)" using cnt skip(2) by (simp add: counters_def)
    moreover have "pr_P st = 0" "W = 0" using W(3) zero(1) skip(2) by simp_all
    ultimately show ?thesis
      using sum less wc(3) W(2) zero by (intro exI [of _ "z + 1"] exI [of _ 0]) (simp add: stored_rows_def st')
  qed
qed

lemma loop_value:
  assumes "product_loop as bs N n st = Some st'" and "counters e extra L N st z" and "int N + int n \<le> int L - extra"
    and "stored_rows as bs m extra N st z W" and "room_to_add as bs m"
    and "N + n < length as + length bs \<or> length as = 0 \<or> length bs = 0"
  shows "\<exists>z' W'. counters e extra L (N + n) st' z' \<and> stored_rows as bs m extra (N + n) st' z' W'"
  using assms
proof (induction n arbitrary: N st z W)
  case (Suc n)
  obtain st1 where st1: "product_step as bs N st = Some st1" "product_loop as bs (N + 1) n st1 = Some st'"
    using Suc.prems(1) by (auto simp: product_loop_Suc bind_eq_Some_conv)
  have "row_products as bs N \<noteq> [] \<or> pr_carry st = 0"
  proof (cases "length as = 0 \<or> length bs = 0")
    case True
    then have "unat (pr_carry st) \<le> 0" using Suc.prems(4) by (auto simp: stored_rows_def)
    then show ?thesis by (simp add: unat_eq_0)
  next
    case False
    let ?A = "min N (length as - 1)"
    have pos: "0 < length as" "0 < length bs" using False by simp_all
    have "?A < length as" "N - ?A < length bs" using pos False Suc.prems(6) by linarith+
    moreover have "?A \<in> set [0..<N + 1]" by auto
    ultimately have "filter (\<lambda>A. A < length as \<and> N - A < length bs) [0..<N + 1] \<noteq> []"
      unfolding filter_empty_conv by blast
    then show ?thesis by (simp only: row_products_def map_is_Nil_conv) simp
  qed
  moreover have "int N + 1 \<le> int L - extra" using Suc.prems(3) by simp
  ultimately obtain z1 W1 where "counters e extra L (N + 1) st1 z1" "stored_rows as bs m extra (N + 1) st1 z1 W1"
    using step_value [OF st1(1) Suc.prems(2) _ Suc.prems(4,5)] by blast
  then show ?case using Suc.IH [OF st1(2)] Suc.prems(3,5,6) by simp
qed auto

text \<open>Shifting the carry in.\<close>

lemma shift_in_shifts:
  "n \<le> length low \<Longrightarrow> shift_in n c low = (if n = 0 then low else drop 1 (take n low) @ [ucast c] @ drop n low)"
proof (induction n arbitrary: c low)
  case (Suc q)
  show ?case
  proof (cases "q = 0")
    case True
    then show ?thesis using Suc.prems by (cases low) simp_all
  next
    case False
    have "shift_in (Suc q) c low = drop 1 (take q (low[q := ucast c])) @ [ucast (ucast (low ! q) :: u32)] @ drop q (low[q := ucast c])"
      using Suc False by simp
    also have "drop q (low[q := ucast c]) = ucast c # drop (Suc q) low"
      using Suc.prems by (simp add: drop_update_swap Cons_nth_drop_Suc [symmetric] upd_conv_take_nth_drop)
    also have "drop 1 (take q (low[q := ucast c])) = drop 1 (take q low)" by simp
    also have "ucast (ucast (low ! q) :: u32) = low ! q" by (rule bit_word_eqI) (auto simp: bit_ucast_iff)
    finally show ?thesis using Suc.prems False by (simp add: take_Suc_conv_app_nth)
  qed
qed simp

lemma digits_of_with:
  "digits_of (f\<lparr>fl_sign := sign, fl_low := low, fl_leader := leader, fl_exponent := exponent\<rparr>) = take (nat (leader + 1)) low"
  by (simp add: digits_of_def)

lemma place_carry_value:
  assumes "place_carry st = Some (low, leader, exponent)" and "counters e extra L n st z"
    and "stored_rows as bs m extra n st z W" and "int n \<le> int L - extra" and "nat (- extra) \<le> n"
    and "rows_sum as bs n < radix ^ (n + 1)"
  shows "\<exists>k. exponent = e + int k \<and> mantissa (take (nat (leader + 1)) low) = rows_sum as bs n div radix ^ k \<and>
    (0 < extra \<longrightarrow> radix ^ k dvd rows_sum as bs n)"
proof -
  let ?T = "rows_sum as bs n" and ?c = "pr_carry st" and ?P = "nat (pr_P st)"
  have W: "?T = W + radix ^ n * unat ?c" "W < radix ^ n" "mantissa (take ?P (pr_low st)) = W div radix ^ z"
    "0 \<le> extra \<longrightarrow> radix ^ z dvd W"
    using assms(3) by (simp_all add: stored_rows_def)
  have P: "0 \<le> pr_P st" "?P = n - z" "z \<le> n" "?P \<le> length (pr_low st)" "pr_exponent st = e + int z"
    "0 < pr_extra st \<longrightarrow> ?P < length (pr_low st)" "0 < extra \<longrightarrow> 0 < pr_extra st"
    using assms(2,4,5) unfolding counters_def by linarith+
  have "radix ^ n * unat ?c \<le> ?T" unfolding W(1) by (rule le_add2)
  then have "radix ^ n * unat ?c < radix ^ n * radix"
    using assms(6) [unfolded power_add power_one_right] by (rule order_le_less_trans)
  then have c: "unat ?c < radix" by (simp only: mult_less_cancel1)
  then have c16: "unat (ucast ?c :: u16) = unat ?c" by (simp add: unsigned_ucast_eq take_bit_eq_mod)
  have T: "?T div radix ^ z = W div radix ^ z + radix ^ ?P * unat ?c"
    unfolding W(1) P(2) using P(3) by (rule div_add_position)
  consider (none) "?c = 0" | (up) "?c \<noteq> 0" "0 < pr_extra st" | (shift) "?c \<noteq> 0" "\<not> 0 < pr_extra st"
    by blast
  then show ?thesis
  proof cases
    case none
    then have "low = pr_low st" "leader = pr_P st - 1" "exponent = e + int z"
      using assms(1) P(5) by (simp_all add: place_carry_def Let_def)
    then show ?thesis using none W T by (intro exI [of _ z]) simp
  next
    case up
    then have low: "low = (pr_low st)[?P := ucast ?c]" "leader = pr_P st" "exponent = e + int z"
      using assms(1) P(1,5,6) by (auto simp: place_carry_def Let_def put_def)
    have "nat (leader + 1) = Suc ?P" using low(2) P(1) by linarith
    then have "mantissa (take (nat (leader + 1)) low) = ?T div radix ^ z"
      unfolding low(1) using mantissa_take_update P(6) up(2) W(3) T c16 by simp
    moreover have "0 < extra \<longrightarrow> radix ^ z dvd ?T"
      unfolding W(1) using W(4) P(3) by (auto intro!: dvd_add dvd_mult2 le_imp_power_dvd)
    ultimately show ?thesis using low(3) by blast
  next
    case shift
    then have low: "low = shift_in ?P ?c (pr_low st)" "leader = pr_P st - 1" "exponent = e + int (z + 1)"
      using assms(1) P(4,5) by (auto simp: place_carry_def Let_def split: if_splits)
    have "mantissa (take (nat (leader + 1)) low) = ?T div radix ^ (z + 1)"
    proof (cases "?P = 0")
      case True
      then have "n + 1 \<le> z + 1" using P(2,3) by simp
      then have "?T div radix ^ (z + 1) = 0" using assms(6) by (intro div_below)
      then show ?thesis using True low(2) by simp
    next
      case False
      have "take (nat (leader + 1)) low = drop 1 (take ?P (pr_low st)) @ [ucast ?c]"
        unfolding low(1) shift_in_shifts [OF P(4)] using low(2) False P(4) by simp
      then have "mantissa (take (nat (leader + 1)) low) = W div radix ^ z div radix ^ 1 + radix ^ (?P - 1) * unat ?c"
        using mantissa_drop [of 1 "take ?P (pr_low st)"] W(3) P(4) c16 by (simp add: mantissa_snoc min_def)
      also have "\<dots> = (W div radix ^ z + radix ^ ?P * unat ?c) div radix ^ 1"
        using False by (intro div_add_position [symmetric]) simp
      also have "\<dots> = ?T div radix ^ z div radix ^ 1" unfolding T ..
      also have "\<dots> = ?T div (radix ^ z * radix ^ 1)" by (rule div_mult2_eq [symmetric])
      also have "\<dots> = ?T div radix ^ (z + 1)" by (simp only: power_add)
      finally show ?thesis .
    qed
    moreover have "\<not> 0 < extra" using shift(2) P(7) by blast
    ultimately show ?thesis using low(3) by blast
  qed
qed

text \<open>Factors of which no row can overflow the work.\<close>

definition no_overflow :: "u16 list \<Rightarrow> u16 list \<Rightarrow> bool" where
  "no_overflow as bs \<longleftrightarrow>
     (let k = min (length as) (length bs)
      in list_all (\<lambda>d. unat d + k \<le> radix) as \<or> list_all (\<lambda>d. unat d + k \<le> radix) bs)"

lemma no_overflow_room:
  assumes "no_overflow as bs"
  shows "\<exists>m. room_to_add as bs m"
proof (cases "as = [] \<or> bs = []")
  case True
  then show ?thesis by (auto simp: room_to_add_def intro!: exI [of _ 0])
next
  case False
  let ?k = "min (length as) (length bs)"
  have k: "0 < ?k" using False by simp
  have small: "(\<forall>d\<in>set as. unat d + ?k \<le> radix) \<or> (\<forall>d\<in>set bs. unat d + ?k \<le> radix)"
    using assms unfolding no_overflow_def Let_def list_all_iff .
  then have "?k \<le> radix" using False by (metis add_leD2 ex_in_conv set_empty)
  then obtain m where m: "radix = m + ?k" using le_Suc_ex by (metis add.commute)
  have "unat x * unat y \<le> m * (radix - 1)" if "x \<in> set as" "y \<in> set bs" for x y
  proof -
    have le: "unat z \<le> radix - 1" for z :: u16 using unat16_le [of z] by simp
    have "unat x \<le> m \<or> unat y \<le> m" using small that m by fastforce
    then show ?thesis
      using mult_le_mono [of "unat x" m "unat y" "radix - 1"] mult_le_mono [of "unat y" m "unat x" "radix - 1"] le
      by (auto simp: mult.commute)
  qed
  moreover have "m * (radix - 1 + ?k) < radix * radix"
  proof -
    obtain j where j: "?k = Suc j" using k by (cases ?k) simp_all
    have "radix - 1 + ?k = m + j + Suc j" unfolding m j by simp
    then have "m * (radix - 1 + ?k) = m * (m + j + Suc j)" by (simp only:)
    also have "\<dots> < (m + Suc j) * (m + Suc j)" by (simp add: algebra_simps)
    finally show ?thesis unfolding j [symmetric] m [symmetric] .
  qed
  ultimately show ?thesis by (auto simp: room_to_add_def)
qed

lemma length_digits_of: "leader_ok f \<Longrightarrow> int (length (digits_of f)) = fl_leader f + 1"
  by (auto simp: leader_ok_def digits_of_def)

lemma flonum_multip_exact:
  assumes "leader_ok a" "leader_ok b" and "signed a" "signed b"
    and "no_overflow (digits_of a) (digits_of b)"
  shows "\<exists>p k. flonum_multip a b product = Some p \<and> leader_ok p \<and> length (fl_low p) = length (fl_low product) \<and>
    fl_sign p = (if fl_sign a = fl_sign b then CHR ''+'' else CHR ''-'') \<and>
    fl_exponent p = fl_exponent a + fl_exponent b + int k \<and>
    mantissa (digits_of p) = mantissa (digits_of a) * mantissa (digits_of b) div radix ^ k \<and>
    (length (digits_of a) + length (digits_of b) \<le> length (fl_low product) \<longrightarrow>
       radix ^ k dvd mantissa (digits_of a) * mantissa (digits_of b))"
proof (cases "fl_leader a = -1 \<and> fl_leader b = -1")
  case True
  then show ?thesis
    using assms(1-4) by (simp add: flonum_multip_def Let_def leader_ok_def place_carry_def digits_of_def)
next
  case False
  let ?as = "digits_of a" and ?bs = "digits_of b" and ?n = "rows a b" and ?L = "length (fl_low product)"
  let ?e = "fl_exponent a + fl_exponent b" and ?extra = "room_left a b product"
  note room = rows_room [OF assms(1,2) False, of product]
  have len: "int (length ?as) = fl_leader a + 1" "int (length ?bs) = fl_leader b + 1"
    using assms(1,2) by (simp_all add: length_digits_of)
  then have n: "?n + 1 = length ?as + length ?bs"
    using False assms(1,2) unfolding leader_ok_def rows_def by linarith
  obtain m where m: "room_to_add ?as ?bs m" using no_overflow_room [OF assms(5)] by blast
  obtain st z1 where st: "product_loop ?as ?bs 0 ?n (product_start a b product) = Some st" "counters ?e ?extra ?L ?n st z1"
    using loop_counters [OF start_counters, of ?n] room(1) by fastforce
  have "stored_rows ?as ?bs m ?extra 0 (product_start a b product) (nat (- ?extra)) 0"
    by (auto simp: stored_rows_def product_start_def Let_def rows_sum_def min_def)
  then obtain z W where W: "counters ?e ?extra ?L ?n st z" "stored_rows ?as ?bs m ?extra ?n st z W"
    using loop_value [OF st(1) start_counters _ _ m] room(1) n by fastforce
  have total: "rows_sum ?as ?bs ?n = mantissa ?as * mantissa ?bs"
    unfolding rows_sum_def using n by (intro rows_total) simp
  have "mantissa ?as * mantissa ?bs < radix ^ length ?as * radix ^ length ?bs"
    by (intro mult_strict_mono mantissa_less) simp_all
  then have less: "rows_sum ?as ?bs ?n < radix ^ (?n + 1)" unfolding total n power_add .
  obtain low leader exponent where placed: "place_carry st = Some (low, leader, exponent)" "length low = ?L"
    "-1 \<le> leader" "leader < int ?L"
    using place_carry_total [OF st(2) room] by blast
  obtain k where k: "exponent = ?e + int k" "mantissa (take (nat (leader + 1)) low) = rows_sum ?as ?bs ?n div radix ^ k"
    "0 < ?extra \<longrightarrow> radix ^ k dvd rows_sum ?as ?bs ?n"
    using place_carry_value [OF placed(1) W room less] by blast
  have "length ?as + length ?bs \<le> ?L \<longrightarrow> 0 < ?extra"
    unfolding room_left_def using len by linarith
  let ?p = "product\<lparr>fl_sign := (if fl_sign a = fl_sign b then CHR ''+'' else CHR ''-''), fl_low := low,
    fl_leader := leader, fl_exponent := exponent\<rparr>"
  have "flonum_multip a b product = Some ?p" by (rule flonum_multip_run [OF assms(1-4) st(1) placed(1)])
  moreover have "leader_ok ?p" "length (fl_low ?p) = ?L" using placed(2-4) by (simp_all add: leader_ok_def)
  moreover have "mantissa (digits_of ?p) = mantissa ?as * mantissa ?bs div radix ^ k"
    using k(2) by (simp only: digits_of_with total)
  moreover have "fl_exponent ?p = ?e + int k" using k(1) by simp
  moreover have "length ?as + length ?bs \<le> ?L \<longrightarrow> radix ^ k dvd mantissa ?as * mantissa ?bs"
    using \<open>length ?as + length ?bs \<le> ?L \<longrightarrow> 0 < ?extra\<close> k(3) unfolding total by blast
  ultimately show ?thesis by (intro exI [of _ ?p] exI [of _ k]) simp
qed

text \<open>
  C23: When no row of products can overflow 32 bits, the product of two numbers is their exact product cut off
  by some littlenums at its low end, with the exponent raised by as many; and it is exact when the product
  has room for as many littlenums as the two factors have.
\<close>

theorem flonum_multip_value:
  assumes "leader_ok a" "leader_ok b" and "signed a" "signed b"
    and "no_overflow (digits_of a) (digits_of b)"
  shows "\<exists>p k. flonum_multip a b product = Some p \<and> leader_ok p \<and> length (fl_low p) = length (fl_low product) \<and>
    fl_sign p = (if fl_sign a = fl_sign b then CHR ''+'' else CHR ''-'') \<and>
    fl_exponent p = fl_exponent a + fl_exponent b + int k \<and>
    mantissa (digits_of p) = mantissa (digits_of a) * mantissa (digits_of b) div radix ^ k \<and>
    (length (digits_of a) + length (digits_of b) \<le> length (fl_low product) \<longrightarrow>
       radix ^ k dvd mantissa (digits_of a) * mantissa (digits_of b))"
  using assms by (rule flonum_multip_exact)

text \<open>
  A copy has the value of its source, cut off at its low end when it has less room, with the exponent
  raised by the littlenums that were left out, and nothing outside the arrays is touched.
\<close>

theorem flonum_copy_value:
  assumes "leader_ok src" and "0 \<le> fl_leader src"
  shows "\<exists>p k. flonum_copy h src out = Some p \<and> leader_ok p \<and> length (fl_low p) = length (fl_low out) \<and>
    fl_sign p = fl_sign src \<and> fl_exponent p = fl_exponent src + int k \<and>
    mantissa (digits_of p) = mantissa (digits_of src) div radix ^ k \<and>
    (fl_leader src < int (length (fl_low out)) \<longrightarrow> k = 0)"
proof (cases "fl_leader src < int (length (fl_low out))")
  case True
  let ?n = "nat (fl_leader src + 1)"
  have n: "?n \<le> length (fl_low src)" "?n \<le> length (fl_low out)" "Suc (nat (fl_leader src)) = ?n"
    using assms True by (auto simp: leader_ok_def)
  define low where "low = (if fl_leader src < int (length (fl_low out)) - 1
    then clear_bytes h ?n (nat (int (length (fl_low out)) - 1 - fl_leader src)) (fl_low out) else fl_low out)"
  have len: "length low = length (fl_low out)" by (simp add: low_def clear_bytes_def)
  let ?p = "out\<lparr>fl_sign := fl_sign src, fl_low := digits_of src @ drop ?n low, fl_exponent := fl_exponent src,
    fl_leader := fl_leader src\<rparr>"
  have "flonum_copy h src out = Some ?p"
    using assms True by (simp add: flonum_copy_def Let_def n(3) low_def)
  moreover have "digits_of ?p = digits_of src" using n(1) by (simp add: digits_of_def)
  moreover have "length (fl_low ?p) = length (fl_low out)" using n len by (simp add: digits_of_def)
  ultimately show ?thesis using assms True by (intro exI [of _ ?p] exI [of _ 0]) (simp add: leader_ok_def)
next
  case False
  let ?L = "length (fl_low out)" and ?k = "nat (fl_leader src - (int (length (fl_low out)) - 1))"
  let ?p = "out\<lparr>fl_sign := fl_sign src, fl_low := take ?L (drop ?k (fl_low src)), fl_leader := int ?L - 1,
    fl_exponent := fl_exponent src + (fl_leader src - (int ?L - 1))\<rparr>"
  have n: "nat (fl_leader src + 1) = ?k + ?L" "?k + ?L \<le> length (fl_low src)"
    using assms False by (auto simp: leader_ok_def)
  have "flonum_copy h src out = Some ?p"
    using assms False by (simp add: flonum_copy_def Let_def)
  moreover have "digits_of ?p = drop ?k (digits_of src)"
    using n by (simp add: digits_of_def drop_take)
  then have "mantissa (digits_of ?p) = mantissa (digits_of src) div radix ^ ?k" by (simp only: mantissa_drop)
  moreover have "length (fl_low ?p) = ?L" using n by simp
  ultimately show ?thesis
    using False by (intro exI [of _ ?p] exI [of _ ?k]) (simp add: leader_ok_def)
qed

section \<open>Examples\<close>

text \<open>
  Without the hypothesis the product can be wrong: the square of \<open>2 ^ 48 - 1\<close> loses \<open>2 ^ 80\<close>, because the
  work of a row with three products has more than 32 bits.
\<close>

theorem flonum_multip_overflows:
  "\<exists>p. flonum_multip (flonum_of [65535, 65535, 65535] 0) (flonum_of [65535, 65535, 65535] 0)
      (flonum_of [0, 0, 0, 0, 0, 0] 0) = Some p \<and> fl_exponent p = 0 \<and>
    mantissa (digits_of p) + 2 ^ 80 = (2 ^ 48 - 1) ^ 2"
proof -
  have "flonum_multip (flonum_of [65535, 65535, 65535] 0) (flonum_of [65535, 65535, 65535] 0) (flonum_of [0, 0, 0, 0, 0, 0] 0) =
    Some (flonum_of [1, 0, 0, 65534, 65535, 65534] 0)"
    by code_simp
  then show ?thesis by (simp add: flonum_of_def digits_of_def)
qed

theorem flonum_multip_value_witness:
  "\<exists>p k. flonum_multip (flonum_of [65535, 1] 2) (flonum_of [4, 0, 5] 1) (flonum_of [0, 0, 0, 0] 0) = Some p \<and>
     fl_exponent p = 3 + int k \<and> mantissa (digits_of p) = (65535 + 65536) * (4 + 5 * 65536 ^ 2) div 65536 ^ k"
  using flonum_multip_value [of "flonum_of [65535, 1] 2" "flonum_of [4, 0, 5] 1" "flonum_of [0, 0, 0, 0] 0"]
  by (simp add: flonum_of_def leader_ok_def signed_def digits_of_def no_overflow_def) blast

theorem flonum_copy_value_witness:
  "\<exists>p k. flonum_copy LITTLE_ENDIAN_BYTE_SEX (flonum_of [1, 2, 3] 4) (flonum_of [0, 0] 0) = Some p \<and>
     fl_exponent p = 4 + int k \<and> mantissa (digits_of p) = (1 + 2 * 65536 + 3 * 65536 ^ 2) div 65536 ^ k"
  using flonum_copy_value [of "flonum_of [1, 2, 3] 4" LITTLE_ENDIAN_BYTE_SEX "flonum_of [0, 0] 0"]
  by (simp add: flonum_of_def leader_ok_def digits_of_def) blast

end
