(* ===== verification/AtofGeneric.thy ===== *)
theory AtofGeneric
  imports FlonumSound "HOL-Library.Char_ord"
begin

text \<open>
  \<^verbatim>\<open>as/atof-generic.c\<close> and \<^verbatim>\<open>as/flonum-const.c\<close>: a decimal number is read from a string and multiplied by a power
  of ten from tables.  Strings are without their terminating zero, which is read behind their end.
\<close>

section \<open>Powers of ten\<close>

text \<open>The entry \<open>n\<close> stands for \<open>10 ^ 2 ^ (n - 1)\<close>, and in the second table for its inverse.\<close>

definition flonum_positive_powers_of_ten :: "flonum list" where
  "flonum_positive_powers_of_ten =
     [flonum_of [1] 0,
      flonum_of [10] 0,
      flonum_of [100] 0,
      flonum_of [10000] 0,
      flonum_of [57600, 1525] 0,
      flonum_of [28609, 34546, 35] 1,
      flonum_of [61313, 34220, 16731, 11629, 1262] 2,
      flonum_of [7937, 49002, 60772, 28216, 38893, 55975, 63988, 59711, 20227, 24] 4,
      flonum_of [15873, 11925, 39177, 991, 14589, 19735, 25347, 65086, 53853, 938, 37209, 47086, 33626,
        23253, 32586, 42547, 9731, 59679, 590] 8,
      flonum_of [63564, 61556, 29377, 54467, 18621, 28141, 36415, 61241, 47119, 30026, 19740, 46002,
        13541, 61413, 30480, 38664, 32205, 50593, 51112, 48904, 48263, 43814, 286, 30826, 52813, 62575,
        61390, 24540, 21495, 5] 24,
      flonum_of [18520, 53764, 54535, 61910, 61962, 59843, 46270, 58053, 12473, 63785, 2449, 43230,
        50044, 47595, 10403, 35766, 32607, 1124, 24966, 35044, 25524, 23631, 18826, 14518, 58448, 14562,
        49618, 5588, 25396, 28] 77,
      flonum_of [36159, 2055, 33615, 61362, 23581, 62454, 9748, 15275, 39284, 58636, 16269, 42793,
        47240, 45774, 50861, 48400, 9413, 40281, 4030, 9572, 7984, 33038, 59522, 19450, 40593, 24486,
        54320, 6661, 55766, 805] 183]"

definition flonum_negative_powers_of_ten :: "flonum list" where
  "flonum_negative_powers_of_ten =
     [flonum_of [1] 0,
      flonum_of [39321, 39321, 39321, 39321, 39321, 39321, 39321, 39321, 39321, 39321, 39321, 39321,
        39321, 39321, 39321, 39321, 39321, 39321, 39321, 6553] (- 20),
      flonum_of [10485, 36700, 62914, 23592, 49807, 10485, 36700, 62914, 23592, 49807, 10485, 36700,
        62914, 23592, 49807, 10485, 36700, 62914, 23592, 655] (- 20),
      flonum_of [52533, 20027, 37329, 65116, 64067, 60397, 14784, 18979, 33659, 19503, 2726, 9542, 629,
        2202, 40475, 10590, 4299, 47815, 36280, 6] (- 20),
      flonum_of [22516, 49501, 54293, 19424, 60699, 6716, 24348, 22618, 23904, 21327, 3919, 44703,
        19149, 28803, 48959, 6259, 50273, 62237, 42] (- 20),
      flonum_of [22199, 45957, 17005, 26266, 10526, 16260, 55017, 35680, 40443, 19789, 17356, 30195,
        55905, 28426, 63010, 44197, 1844] (- 20),
      flonum_of [30926, 26518, 13110, 43018, 54982, 48258, 24658, 15209, 63366, 11929, 20069, 43857,
        60487, 51] (- 20),
      flonum_of [29819, 14733, 21490, 40602, 31315, 65186, 2695] (- 20),
      flonum_of [45849, 19069, 18068, 36324, 37948, 48745, 10873, 64360, 15961, 20566, 24178, 15922,
        59427, 110] (- 40),
      flonum_of [63601, 55221, 43562, 33661, 29067, 28203, 65417, 64352, 22462, 41110, 12570, 28635,
        23199, 50572, 28471, 27074, 46375, 64028, 13106, 63700, 32698, 17493, 32420, 34382, 22750,
        20681, 12300] (- 80),
      flonum_of [50313, 34681, 1464, 25889, 19575, 41125, 17635, 4598, 49708, 13427, 17287, 56115,
        53783, 38255, 32415, 17778, 31596, 7557, 20951, 18477, 40353, 1178, 44405, 11837, 11571, 50963,
        15649, 11698, 40675, 2308] (- 136),
      flonum_of [6223, 59909, 62437, 59960, 14652, 45336, 48800, 7647, 51962, 37982, 60436, 58176,
        26767, 8440, 9831, 48556, 20994, 14148, 6757, 17221, 60624, 46129, 53210, 44085, 54016, 24259,
        11232, 21229, 21313, 81] (- 242)]"

definition table_size_of_flonum_powers_of_ten :: nat where
  "table_size_of_flonum_powers_of_ten = 11"

section \<open>Scanning\<close>

definition ch :: "string \<Rightarrow> nat \<Rightarrow> char" where
  "ch s i = (if i < length s then s ! i else CHR 0x00)"

definition isdigit :: "char \<Rightarrow> bool" where
  "isdigit c \<longleftrightarrow> CHR ''0'' \<le> c \<and> c \<le> CHR ''9''"

definition digit_value :: "char \<Rightarrow> nat" where
  "digit_value c = of_char c - 48"

text \<open>Numbers of 32 bits with a sign.\<close>

definition wrap32 :: "int \<Rightarrow> int" where
  "wrap32 x = (x + 2 ^ 31) mod 2 ^ 32 - 2 ^ 31"

text \<open>The letters of a word in either case, at an index.\<close>

definition word_at :: "string \<Rightarrow> nat \<Rightarrow> string \<Rightarrow> bool" where
  "word_at s i w \<longleftrightarrow>
     list_all (\<lambda>j. ch s (i + j) = w ! j \<or> of_char (ch s (i + j)) = (of_char (w ! j) - 32 :: nat)) [0..<length w]"

text \<open>
  The digits before a decimal mark: how many leading zeros there are, which are skipped, how many digits, whether
  one of them is not zero, and the rest of the string.
\<close>

fun scan_before :: "(char \<Rightarrow> bool) \<Rightarrow> nat \<Rightarrow> nat \<Rightarrow> bool \<Rightarrow> string \<Rightarrow> nat \<times> nat \<times> bool \<times> string" where
  "scan_before stop z b seen [] = (z, b, seen, [])"
| "scan_before stop z b seen (c # cs) =
     (if stop c \<or> \<not> isdigit c then (z, b, seen, c # cs)
      else if seen \<or> CHR ''0'' < c then scan_before stop z (b + 1) True cs
      else scan_before stop (z + 1) b seen cs)"

fun scan_after :: "(char \<Rightarrow> bool) \<Rightarrow> nat \<Rightarrow> bool \<Rightarrow> string \<Rightarrow> nat \<times> string" where
  "scan_after stop a seen [] = (a, [])"
| "scan_after stop a seen (c # cs) =
     (if stop c then (a, c # cs)
      else if isdigit c then scan_after stop (a + 1) (seen \<or> CHR ''0'' < c) cs
      else (if seen then a else 0, c # cs))"

text \<open>Zeros at the end of the digits behind the mark, which is at \<open>point\<close>, do not count.\<close>

fun strip_zeros :: "string \<Rightarrow> nat \<Rightarrow> nat \<Rightarrow> nat" where
  "strip_zeros s point 0 = 0"
| "strip_zeros s point (Suc a) = (if ch s (point + Suc a) = CHR ''0'' then strip_zeros s point a else Suc a)"

fun scan_exponent :: "int \<Rightarrow> string \<Rightarrow> int \<times> string" where
  "scan_exponent e [] = (e, [])"
| "scan_exponent e (c # cs) =
     (if isdigit c then scan_exponent (wrap32 (e * 10 + int (digit_value c))) cs else (e, c # cs))"

definition signed_exponent :: "string \<Rightarrow> int \<times> string" where
  "signed_exponent cs =
     (case cs of
        c # ds \<Rightarrow>
          if c = CHR ''-'' then (case scan_exponent 0 ds of (e, r) \<Rightarrow> (wrap32 (- e), r))
          else if c = CHR ''+'' then scan_exponent 0 ds
          else scan_exponent 0 cs
      | [] \<Rightarrow> (0, []))"

text \<open>
  What was found: the index of the first digit, the digits before and after the mark, the exponent and the
  index behind the number.
\<close>

record scanned =
  sc_first :: nat
  sc_before :: nat
  sc_after :: nat
  sc_exponent :: int
  sc_end :: nat

definition scan_number :: "string \<Rightarrow> string \<Rightarrow> string \<Rightarrow> nat \<Rightarrow> scanned" where
  "scan_number marks exp_marks s start =
     (let (z, b, seen, r) = scan_before (\<lambda>c. c \<in> set marks \<or> c \<in> set exp_marks) 0 0 False (drop start s);
          (a, r) = (case r of
              c # cs \<Rightarrow> if c \<in> set marks then scan_after (\<lambda>c. c \<in> set exp_marks) 0 seen cs else (0, r)
            | [] \<Rightarrow> (0, []));
          a = strip_zeros s (start + z + b) a;
          (e, r) = (case r of
              c # cs \<Rightarrow> if c \<in> set exp_marks then signed_exponent cs else (0, r)
            | [] \<Rightarrow> (0, []))
      in \<lparr>sc_first = start + z, sc_before = b, sc_after = a, sc_exponent = e, sc_end = length s - length r\<rparr>)"

section \<open>Digits\<close>

text \<open>
  The products with the logarithm of ten are computed with floating point numbers there; for the precisions in
  use none is near an integer.
\<close>

definition LOG_TO_BASE_2_OF_10 :: int where
  "LOG_TO_BASE_2_OF_10 = 33219280948873623478703194294893901758651"

definition maximum_useful_digits :: "nat \<Rightarrow> nat" where
  "maximum_useful_digits precision = nat ((int precision - 2) * 16 * 10 ^ 40 div LOG_TO_BASE_2_OF_10 + 2)"

definition more_than_enough_littlenums :: "nat \<Rightarrow> nat" where
  "more_than_enough_littlenums digits = nat ((int digits * LOG_TO_BASE_2_OF_10 div 10 ^ 40 + 1) div 16 + 2)"

fun add_digit :: "int \<Rightarrow> u16 list \<Rightarrow> u16 list \<times> int" where
  "add_digit carry [] = ([], carry)"
| "add_digit carry (d # ds) =
     (let work = carry + 10 * uint d; (ds, carry) = add_digit (work div 2 ^ 16) ds
      in (of_int (work mod 2 ^ 16) # ds, carry))"

text \<open>\<open>None\<close> is the call of \<^verbatim>\<open>abort\<close> when the digits have no room, and a loop that runs behind the string.\<close>

fun convert_digits :: "string \<Rightarrow> nat \<Rightarrow> u16 list \<Rightarrow> u16 list option" where
  "convert_digits cs 0 ds = Some ds"
| "convert_digits [] (Suc n) ds = None"
| "convert_digits (c # cs) (Suc n) ds =
     (if isdigit c then
        (case add_digit (int (digit_value c)) ds of (ds, carry) \<Rightarrow> if carry \<noteq> 0 then None else convert_digits cs n ds)
      else convert_digits cs (Suc n) ds)"

fun trim_zeros :: "u16 list \<Rightarrow> u16 list" where
  "trim_zeros ds = (if length ds \<ge> 2 \<and> last ds = 0 then trim_zeros (butlast ds) else ds)"

declare trim_zeros.simps [simp del]

section \<open>The number\<close>

text \<open>
  The power of ten, by the bits of the exponent; \<open>tmp\<close> is the number the products go to first.  The second result
  says that the exponent is too large for the tables.
\<close>

function power_of_10 :: "byte_sex \<Rightarrow> flonum list \<Rightarrow> nat \<Rightarrow> int \<Rightarrow> flonum \<Rightarrow> flonum \<Rightarrow> (flonum \<times> bool) option" where
  "power_of_10 h table place e pow tmp =
     (if e = 0 then Some (pow, False)
      else if e mod 2 = 1 then
        if place > table_size_of_flonum_powers_of_ten then Some (pow, True)
        else Option.bind (flonum_multip (table ! place) pow tmp) (\<lambda>tmp.
             Option.bind (flonum_copy h tmp pow) (\<lambda>pow.
             power_of_10 h table (place + 1) (e div 2) pow tmp))
      else power_of_10 h table (place + 1) (e div 2) pow tmp)"
  by pat_completeness auto

termination
  by (relation "measures [\<lambda>(h, table, place, e, pow, tmp). 12 - place, \<lambda>(h, table, place, e, pow, tmp). nat \<bar>e\<bar>]")
    (auto simp: table_size_of_flonum_powers_of_ten_def)

declare power_of_10.simps [simp del]

definition ERROR_EXPONENT_OVERFLOW :: nat where
  "ERROR_EXPONENT_OVERFLOW = 2"

text \<open>
  The result is the returned code, the index behind the number and the number; \<open>junk\<close> is what is on the stack
  where the products go.
\<close>

definition convert_number ::
  "byte_sex \<Rightarrow> u16 list \<Rightarrow> string \<Rightarrow> scanned \<Rightarrow> flonum \<Rightarrow> (nat \<times> flonum) option" where
  "convert_number h junk s sc g =
     (let precision = length (fl_low g);
          digits = min (maximum_useful_digits precision) (sc_before sc + sc_after sc);
          e = wrap32 (sc_exponent sc + int (sc_before sc) - int digits)
      in Option.bind (convert_digits (drop (sc_first sc) s) digits (replicate (more_than_enough_littlenums digits) 0)) (\<lambda>ds.
         Option.bind
           (power_of_10 h (if e < 0 then flonum_negative_powers_of_ten else flonum_positive_powers_of_ten) 1
              (if e < 0 then wrap32 (- e) else e)
              \<lparr>fl_low = 1 # replicate (precision - 1) 0, fl_leader = 0, fl_exponent = 0, fl_sign = CHR ''+''\<rparr>
              \<lparr>fl_low = junk, fl_leader = 0, fl_exponent = 0, fl_sign = CHR 0x00\<rparr>) (\<lambda>(pow, overflow).
         map_option (Pair (if overflow then ERROR_EXPONENT_OVERFLOW else 0))
           (flonum_multip pow (flonum_of (trim_zeros ds) 0) g))))"

definition atof_generic ::
  "byte_sex \<Rightarrow> u16 list \<Rightarrow> string \<Rightarrow> string \<Rightarrow> string \<Rightarrow> flonum \<Rightarrow> (nat \<times> nat \<times> flonum) option" where
  "atof_generic h junk marks exp_marks s g =
     (let (sgn, start) = (if ch s 0 = CHR ''-'' \<or> ch s 0 = CHR ''+'' then (ch s 0, 1) else (CHR ''+'', 0))
      in if word_at s start ''nan'' then
           Some (0, start + 3, g\<lparr>fl_sign := CHR 0x00, fl_exponent := 0, fl_leader := 0\<rparr>)
         else if word_at s start ''inf'' then
           Some (0, start + (if word_at s (start + 3) ''inity'' then 8 else 3),
             g\<lparr>fl_sign := (if sgn = CHR ''+'' then CHR ''P'' else CHR ''N''), fl_exponent := 0, fl_leader := 0\<rparr>)
         else
           let sc = scan_number marks exp_marks s start
           in if sc_before sc + sc_after sc = 0 then
                Some (0, sc_end sc, g\<lparr>fl_exponent := 0, fl_leader := -1, fl_sign := sgn\<rparr>)
              else
                map_option (\<lambda>(code, f). (code, sc_end sc, f\<lparr>fl_sign := sgn\<rparr>)) (convert_number h junk s sc g))"

lemma atof_runs:
  "atof_generic LITTLE_ENDIAN_BYTE_SEX (replicate 6 7) ''.'' ''eE'' ''-1234567.'' (flonum_of (replicate 6 9) 0) =
     Some (0, 9, \<lparr>fl_low = [54919, 18, 9, 9, 9, 9], fl_leader = 1, fl_exponent = 0, fl_sign = CHR ''-''\<rparr>)"
  "atof_generic LITTLE_ENDIAN_BYTE_SEX (replicate 6 7) ''.'' ''eE'' ''00.3e1x'' (flonum_of (replicate 6 9) 0) =
     Some (0, 6, \<lparr>fl_low = [3, 9, 9, 9, 9, 9], fl_leader = 0, fl_exponent = 0, fl_sign = CHR ''+''\<rparr>)"
  "atof_generic LITTLE_ENDIAN_BYTE_SEX (replicate 6 7) ''.'' ''eE'' ''+Infinity'' (flonum_of (replicate 6 9) 0) =
     Some (0, 9, \<lparr>fl_low = replicate 6 9, fl_leader = 0, fl_exponent = 0, fl_sign = CHR ''P''\<rparr>)"
  "atof_generic LITTLE_ENDIAN_BYTE_SEX (replicate 6 7) ''.'' ''eE'' ''-0.00'' (flonum_of (replicate 6 9) 0) =
     Some (0, 5, \<lparr>fl_low = replicate 6 9, fl_leader = -1, fl_exponent = 0, fl_sign = CHR ''-''\<rparr>)"
  "atof_generic LITTLE_ENDIAN_BYTE_SEX (replicate 6 7) ''.'' ''eE'' ''65536e2'' (flonum_of (replicate 6 9) 0) =
     Some (0, 7, \<lparr>fl_low = [100, 9, 9, 9, 9, 9], fl_leader = 0, fl_exponent = 1, fl_sign = CHR ''+''\<rparr>)"
  by code_simp+

end
