(* ===== verification/AtofSound.thy ===== *)
theory AtofSound
  imports AtofGeneric
begin

text \<open>
  What the reading of decimal numbers gives: the tables of powers of ten are close to what they stand for, every
  string is read without leaving the arrays, and decimal integers have their exact value.
\<close>

section \<open>The tables\<close>

definition positive_value :: "nat \<Rightarrow> nat" where
  "positive_value n =
     (let f = flonum_positive_powers_of_ten ! n in mantissa (digits_of f) * radix ^ nat (fl_exponent f))"

text \<open>For an inverse, its value times the power of ten, and the unit to compare it with.\<close>

definition negative_value :: "nat \<Rightarrow> nat \<times> nat" where
  "negative_value n =
     (let f = flonum_negative_powers_of_ten ! n
      in (mantissa (digits_of f) * 10 ^ 2 ^ (n - 1), radix ^ nat (- fl_exponent f)))"

definition close_powers :: "nat \<Rightarrow> bool" where
  "close_powers n \<longleftrightarrow>
     10 ^ 2 ^ (n - 1) \<le> positive_value n \<and> (positive_value n - 10 ^ 2 ^ (n - 1)) * 2 ^ 64 \<le> 10 ^ 2 ^ (n - 1) \<and>
     (case negative_value n of (v, u) \<Rightarrow> v \<le> u \<and> (u - v) * 2 ^ 64 \<le> u)"

definition exact_powers :: "nat \<Rightarrow> bool" where
  "exact_powers n \<longleftrightarrow>
     positive_value n = 10 ^ 2 ^ (n - 1) \<and> (case negative_value n of (v, u) \<Rightarrow> v \<le> u \<and> u < v + 10 ^ 2 ^ (n - 1))"

lemmas power_defs = exact_powers_def close_powers_def positive_value_def negative_value_def Let_def digits_of_def
  flonum_of_def flonum_positive_powers_of_ten_def flonum_negative_powers_of_ten_def

lemma exact_1: "exact_powers 1" by (simp add: power_defs)
lemma exact_2: "exact_powers 2" by (simp add: power_defs)
lemma exact_3: "exact_powers 3" by (simp add: power_defs)
lemma exact_4: "exact_powers 4" by (simp add: power_defs)
lemma exact_5: "exact_powers 5" by (simp add: power_defs)
lemma exact_6: "exact_powers 6" by (simp add: power_defs)
lemma exact_7: "exact_powers 7" by (simp add: power_defs)
lemma close_8: "close_powers 8" by (simp add: power_defs)
lemma close_9: "close_powers 9" by (simp add: power_defs)


text \<open>The entry for \<open>10 ^ 128\<close> is too large by more than \<open>2 ^ 356\<close>: it is not cut off but wrong.\<close>

lemma power_128_wrong: "10 ^ 128 + 2 ^ 356 < positive_value 8"
  by (simp add: power_defs)

section \<open>Digits\<close>

lemma isdigit_iff: "isdigit c \<longleftrightarrow> 48 \<le> (of_char c :: nat) \<and> (of_char c :: nat) \<le> 57"
  by (simp add: isdigit_def less_eq_char_def)

lemma digit_value_le: "isdigit c \<Longrightarrow> digit_value c \<le> 9"
  unfolding isdigit_iff digit_value_def by linarith

definition decimal_from :: "nat \<Rightarrow> string \<Rightarrow> nat" where
  "decimal_from v cs = foldl (\<lambda>v c. 10 * v + digit_value c) v cs"

definition decimal :: "string \<Rightarrow> nat" where
  "decimal cs = decimal_from 0 cs"

lemma uint_of_int_mod [simp]: "uint (of_int (k mod 65536) :: u16) = k mod 65536"
  by (simp add: uint_word_of_int)

lemma add_digit_value:
  assumes "add_digit c ds = (ds', c')" and "0 \<le> c"
  shows "length ds' = length ds \<and> int (mantissa ds') + c' * 2 ^ (16 * length ds) = 10 * int (mantissa ds) + c \<and> 0 \<le> c'"
  using assms
proof (induction ds arbitrary: c ds' c')
  case (Cons d ds)
  let ?w = "c + 10 * uint d"
  obtain es where es: "add_digit (?w div 2 ^ 16) ds = (es, c')" "ds' = of_int (?w mod 2 ^ 16) # es"
    using Cons.prems(1) by (auto simp: Let_def split: prod.splits)
  have w: "0 \<le> ?w" using Cons.prems(2) by simp
  then have IH: "length es = length ds" "0 \<le> c'"
    "int (mantissa es) + c' * 2 ^ (16 * length ds) = 10 * int (mantissa ds) + ?w div 2 ^ 16"
    using Cons.IH [OF es(1)] by (simp_all add: pos_imp_zdiv_nonneg_iff)
  have "int (mantissa ds') + c' * 2 ^ (16 * length (d # ds)) =
      ?w mod 2 ^ 16 + 2 ^ 16 * (int (mantissa es) + c' * 2 ^ (16 * length ds))"
    by (simp add: es(2) power_add algebra_simps)
  also have "\<dots> = 10 * int (mantissa (d # ds)) + c" unfolding IH(3) by (simp add: algebra_simps)
  finally show ?case using IH(1,2) es(2) by simp
qed simp

lemma convert_digits_value:
  assumes "n \<le> length (filter isdigit cs)" and "(mantissa ds + 1) * 10 ^ n \<le> radix ^ length ds"
  shows "\<exists>ds'. convert_digits cs n ds = Some ds' \<and> length ds' = length ds \<and>
    mantissa ds' = decimal_from (mantissa ds) (take n (filter isdigit cs))"
  using assms
proof (induction cs n ds rule: convert_digits.induct)
  case (3 c cs n ds)
  show ?case
  proof (cases "isdigit c")
    case True
    obtain ds' c' where run: "add_digit (int (digit_value c)) ds = (ds', c')" by fastforce
    have val: "length ds' = length ds" "0 \<le> c'"
      "int (mantissa ds') + c' * 2 ^ (16 * length ds) = int (10 * mantissa ds + digit_value c)"
      using add_digit_value [OF run] by simp_all
    have less: "10 * mantissa ds + digit_value c + 1 \<le> (mantissa ds + 1) * 10" using digit_value_le [OF True] by simp
    have "(10 * mantissa ds + digit_value c + 1) * 10 ^ n \<le> (mantissa ds + 1) * 10 * 10 ^ n"
      using less by (rule mult_le_mono1)
    also have "\<dots> \<le> radix ^ length ds" using 3(4) by (simp only: power_Suc mult.assoc)
    finally have room: "(10 * mantissa ds + digit_value c + 1) * 10 ^ n \<le> radix ^ length ds" .
    have "(10 * mantissa ds + digit_value c + 1) * 1 \<le> (10 * mantissa ds + digit_value c + 1) * 10 ^ n"
      by (rule mult_le_mono2) simp
    then have "10 * mantissa ds + digit_value c < (10 * mantissa ds + digit_value c + 1) * 10 ^ n"
      by (simp only: mult_1_right Suc_eq_plus1 [symmetric] Suc_le_eq)
    then have "10 * mantissa ds + digit_value c < radix ^ length ds" using room by (rule order_less_le_trans)
    then have "int (10 * mantissa ds + digit_value c) < int (radix ^ length ds)" by (simp only: of_nat_less_iff)
    then have "int (10 * mantissa ds + digit_value c) < 2 ^ (16 * length ds)" by (simp only: of_nat_power power_mult of_nat_numeral)
    then have "c' * 2 ^ (16 * length ds) < 1 * 2 ^ (16 * length ds)" using val(3) by linarith
    then have c': "c' = 0" using val(2) by (simp only: mult_less_cancel_right) auto
    then have m: "mantissa ds' = 10 * mantissa ds + digit_value c" using val(3) by simp
    show ?thesis
      using 3(1) [OF True run [symmetric]] c' 3(3) room True val(1) run by (simp add: m decimal_from_def)
  next
    case False
    then show ?thesis using 3 by simp
  qed
qed (simp_all add: decimal_from_def)

lemma upto_30: "n \<le> 30 \<Longrightarrow> n \<in> set [0..<31]"
  by simp

lemma enough_littlenums: "n \<le> 30 \<Longrightarrow> 10 ^ n \<le> radix ^ more_than_enough_littlenums n"
proof -
  have "list_all (\<lambda>n. 10 ^ n \<le> radix ^ more_than_enough_littlenums n) [0..<31]"
    by (simp add: more_than_enough_littlenums_def LOG_TO_BASE_2_OF_10_def upt_rec)
  then show "n \<le> 30 \<Longrightarrow> ?thesis" using upto_30 unfolding list_all_iff by blast
qed

lemma useful_digits:
  "p \<le> 8 \<Longrightarrow> maximum_useful_digits p \<le> 30"
  "4 \<le> p \<Longrightarrow> p \<le> 8 \<Longrightarrow> 10 ^ maximum_useful_digits p \<le> radix ^ (p - 1)"
proof -
  have "list_all (\<lambda>p. maximum_useful_digits p \<le> 30) [0..<9]"
    by (simp add: maximum_useful_digits_def LOG_TO_BASE_2_OF_10_def upt_rec)
  then have "\<forall>p\<in>set [0..<9]. maximum_useful_digits p \<le> 30" unfolding list_all_iff .
  then show "p \<le> 8 \<Longrightarrow> maximum_useful_digits p \<le> 30" by (auto simp del: upt_Suc)
  have "list_all (\<lambda>p. 10 ^ maximum_useful_digits p \<le> radix ^ (p - 1)) [4..<9]"
    by (simp add: maximum_useful_digits_def LOG_TO_BASE_2_OF_10_def upt_rec)
  then have "\<forall>p\<in>set [4..<9]. 10 ^ maximum_useful_digits p \<le> radix ^ (p - 1)" unfolding list_all_iff .
  moreover assume "4 \<le> p" "p \<le> 8"
  then have "p \<in> set [4..<9]" by (simp only: set_upt atLeastLessThan_iff) simp
  ultimately show "10 ^ maximum_useful_digits p \<le> radix ^ (p - 1)" by blast
qed

lemma length_trim_zeros: "length (trim_zeros ds) \<le> length ds"
proof (induction ds rule: trim_zeros.induct)
  case (1 ds)
  then show ?case by (subst trim_zeros.simps) auto
qed

lemma mantissa_trim_zeros: "mantissa (trim_zeros ds) = mantissa ds"
proof (induction ds rule: trim_zeros.induct)
  case (1 ds)
  show ?case
  proof (cases "length ds \<ge> 2 \<and> last ds = 0")
    case True
    then have "ds = butlast ds @ [0]" by (metis append_butlast_last_id list.size(3) not_numeral_le_zero)
    then have "mantissa ds = mantissa (butlast ds)" using mantissa_snoc [of "butlast ds" 0] by simp
    then show ?thesis using 1 True by (subst trim_zeros.simps) simp
  next
    case False
    then show ?thesis by (subst trim_zeros.simps) (simp only: if_False)
  qed
qed

lemma trim_zeros_normal: "ds \<noteq> [] \<Longrightarrow> trim_zeros ds \<noteq> [] \<and> (length (trim_zeros ds) \<ge> 2 \<longrightarrow> last (trim_zeros ds) \<noteq> 0)"
proof (induction ds rule: trim_zeros.induct)
  case (1 ds)
  show ?case
  proof (cases "length ds \<ge> 2 \<and> last ds = 0")
    case True
    then have "butlast ds \<noteq> []" by (cases ds) auto
    then show ?thesis using 1 True by (subst (1 2 3) trim_zeros.simps) simp
  next
    case False
    then have "trim_zeros ds = ds" by (subst trim_zeros.simps) (simp only: if_False)
    then show ?thesis using False 1(2) by simp
  qed
qed

text \<open>A mantissa without zeros at its upper end is no longer than its value needs.\<close>

lemma trimmed_length:
  assumes "ds \<noteq> []" and "mantissa ds < radix ^ n" and "0 < n"
  shows "length (trim_zeros ds) \<le> n"
proof (cases "length (trim_zeros ds) \<ge> 2")
  case True
  let ?ts = "trim_zeros ds"
  have last: "last ?ts \<noteq> 0" "?ts \<noteq> []" using trim_zeros_normal [OF assms(1)] True by simp_all
  then have "mantissa ?ts = mantissa (butlast ?ts) + radix ^ length (butlast ?ts) * unat (last ?ts)"
    using mantissa_snoc [of "butlast ?ts" "last ?ts"] by simp
  moreover have "1 \<le> unat (last ?ts)" using last(1) by (simp add: Suc_le_eq unat_gt_0)
  then have "radix ^ length (butlast ?ts) * 1 \<le> radix ^ length (butlast ?ts) * unat (last ?ts)" by (rule mult_le_mono2)
  ultimately have "radix ^ length (butlast ?ts) < radix ^ n" using assms(2) mantissa_trim_zeros [of ds] by linarith
  then have "length (butlast ?ts) < n" by (rule power_less_imp_less_exp [rotated]) simp
  then show ?thesis by simp
next
  case False
  then show ?thesis using assms(3) by simp
qed

section \<open>Scanning\<close>

lemma scan_before_seen:
  assumes "scan_before stop z b True cs = (z', b', seen', r)"
  shows "\<exists>bs. cs = bs @ r \<and> list_all isdigit bs \<and> z' = z \<and> b' = b + length bs"
  using assms
proof (induction cs arbitrary: b)
  case (Cons c cs)
  show ?case
  proof (cases "stop c \<or> \<not> isdigit c")
    case False
    then obtain bs where "cs = bs @ r" "list_all isdigit bs" "z' = z" "b' = b + 1 + length bs"
      using Cons by fastforce
    then show ?thesis using False by (intro exI [of _ "c # bs"]) simp
  qed (use Cons.prems in auto)
qed simp

lemma scan_before_digits:
  assumes "scan_before stop z 0 False cs = (z', b', seen', r)"
  shows "\<exists>zs bs. cs = zs @ bs @ r \<and> list_all isdigit bs \<and> z' = z + length zs \<and> b' = length bs"
  using assms
proof (induction cs arbitrary: z)
  case (Cons c cs)
  consider (stop) "stop c \<or> \<not> isdigit c" | (digit) "\<not> stop c" "isdigit c" "CHR ''0'' < c"
    | (zero) "\<not> stop c" "isdigit c" "\<not> CHR ''0'' < c" by blast
  then show ?case
  proof cases
    case stop
    then show ?thesis using Cons.prems by auto
  next
    case digit
    then have "scan_before stop z 1 True cs = (z', b', seen', r)" using Cons.prems by simp
    then obtain bs where "cs = bs @ r" "list_all isdigit bs" "z' = z" "b' = 1 + length bs"
      using scan_before_seen by blast
    then show ?thesis using digit(2) by (intro exI [of _ "[]"] exI [of _ "c # bs"]) simp
  next
    case zero
    then have "scan_before stop (z + 1) 0 False cs = (z', b', seen', r)" using Cons.prems by simp
    then obtain zs bs where "cs = zs @ bs @ r" "list_all isdigit bs" "z' = z + 1 + length zs" "b' = length bs"
      using Cons.IH by blast
    then show ?thesis by (intro exI [of _ "c # zs"] exI [of _ bs]) simp
  qed
qed simp

lemma scan_after_digits:
  assumes "scan_after stop a seen cs = (a', r)"
  shows "\<exists>as. cs = as @ r \<and> list_all isdigit as \<and> a' \<le> a + length as"
  using assms
proof (induction cs arbitrary: a seen)
  case (Cons c cs)
  show ?case
  proof (cases "\<not> stop c \<and> isdigit c")
    case True
    then obtain as where "cs = as @ r" "list_all isdigit as" "a' \<le> a + 1 + length as" using Cons by fastforce
    then show ?thesis using True by (intro exI [of _ "c # as"]) simp
  qed (use Cons.prems in \<open>auto split: if_splits\<close>)
qed simp

lemma strip_zeros_le: "strip_zeros s p a \<le> a"
  by (induction s p a rule: strip_zeros.induct) (auto intro: le_SucI)

lemma filter_digits [simp]: "list_all isdigit cs \<Longrightarrow> filter isdigit cs = cs"
  by (simp add: list_all_iff)

lemma scan_number_digits:
  assumes "start \<le> length s"
  shows "sc_before (scan_number marks exp_marks s start) + sc_after (scan_number marks exp_marks s start) \<le>
    length (filter isdigit (drop (sc_first (scan_number marks exp_marks s start)) s))"
proof -
  obtain z b seen r where scan: "scan_before (\<lambda>c. c \<in> set marks \<or> c \<in> set exp_marks) 0 0 False (drop start s) = (z, b, seen, r)"
    by (metis surj_pair)
  obtain zs bs where bs: "drop start s = zs @ bs @ r" "list_all isdigit bs" "z = length zs" "b = length bs"
    using scan_before_digits [OF scan] by auto
  let ?a = "fst (case r of c # cs \<Rightarrow> if c \<in> set marks then scan_after (\<lambda>c. c \<in> set exp_marks) 0 seen cs else (0, r) | [] \<Rightarrow> (0, []))"
  have "?a \<le> length (filter isdigit r)"
  proof (cases r)
    case (Cons c cs)
    obtain a r' where run: "scan_after (\<lambda>c. c \<in> set exp_marks) 0 seen cs = (a, r')" by fastforce
    then obtain as where "cs = as @ r'" "list_all isdigit as" "a \<le> length as" using scan_after_digits by fastforce
    then show ?thesis using Cons run by auto
  qed simp
  then have a: "strip_zeros s (start + z + b) ?a \<le> length (filter isdigit r)"
    using strip_zeros_le le_trans by blast
  have "drop (start + z) s = bs @ r" using bs(1,3) by (metis add.commute append_eq_conv_conj drop_drop)
  then have "length (filter isdigit (drop (start + z) s)) = b + length (filter isdigit r)" using bs(2,4) by simp
  moreover have "sc_before (scan_number marks exp_marks s start) = b" "sc_first (scan_number marks exp_marks s start) = start + z"
    "sc_after (scan_number marks exp_marks s start) = strip_zeros s (start + z + b) ?a"
    unfolding scan_number_def scan by (simp_all add: Let_def split: prod.splits)
  ultimately show ?thesis using a by simp
qed

section \<open>Every string is read\<close>

lemma flonum_copy_total:
  assumes "leader_ok src" and "signed src"
  shows "\<exists>p. flonum_copy h src out = Some p \<and> leader_ok p \<and> signed p"
  using assms by (auto simp: flonum_copy_def leader_ok_def signed_def Let_def digits_of_def clear_bytes_def)

definition usable :: "flonum \<Rightarrow> bool" where
  "usable f \<longleftrightarrow> leader_ok f \<and> signed f"

lemma usable_flonum_of [simp]: "usable (flonum_of ds e)"
  by (simp add: usable_def flonum_of_def leader_ok_def signed_def)

lemma tables_usable:
  "list_all usable flonum_positive_powers_of_ten" "list_all usable flonum_negative_powers_of_ten"
  "length flonum_positive_powers_of_ten = 12" "length flonum_negative_powers_of_ten = 12"
  by (simp_all add: flonum_positive_powers_of_ten_def flonum_negative_powers_of_ten_def)

lemma power_of_10_total:
  assumes "list_all usable table" "length table = 12" and "usable pow"
  shows "\<exists>q overflow. power_of_10 h table place e pow tmp = Some (q, overflow) \<and> usable q"
  using assms
proof (induction h table place e pow tmp rule: power_of_10.induct)
  case (1 h table place e pow tmp)
  consider (zero) "e = 0" | (overflow) "e \<noteq> 0" "e mod 2 = 1" "place > table_size_of_flonum_powers_of_ten"
    | (multiply) "e \<noteq> 0" "e mod 2 = 1" "\<not> place > table_size_of_flonum_powers_of_ten"
    | (skip) "e \<noteq> 0" "e mod 2 \<noteq> 1" by blast
  then show ?case
  proof cases
    case multiply
    then have "usable (table ! place)"
      using 1(3,4) by (simp add: list_all_length table_size_of_flonum_powers_of_ten_def)
    then obtain t where t: "flonum_multip (table ! place) pow tmp = Some t" "leader_ok t" "signed t"
      using flonum_multip_total [of "table ! place" pow tmp] 1(5) by (auto simp: usable_def)
    obtain q where q: "flonum_copy h t pow = Some q" "usable q"
      using flonum_copy_total [OF t(2,3), of h pow] by (auto simp: usable_def)
    have "power_of_10 h table place e pow tmp = power_of_10 h table (place + 1) (e div 2) q t"
      using multiply by (subst power_of_10.simps) (simp add: t(1) q(1))
    then show ?thesis using 1(1) [OF multiply t(1) q(1)] 1(3,4) q(2) by simp
  next
    case zero
    then have "power_of_10 h table place e pow tmp = Some (pow, False)" by (simp add: power_of_10.simps)
    then show ?thesis using 1(5) by blast
  next
    case overflow
    then have "power_of_10 h table place e pow tmp = Some (pow, True)" by (subst power_of_10.simps) simp
    then show ?thesis using 1(5) by blast
  next
    case skip
    then have "power_of_10 h table place e pow tmp = power_of_10 h table (place + 1) (e div 2) pow tmp"
      by (subst power_of_10.simps) simp
    then show ?thesis using 1(2) [OF skip] 1(3-5) by simp
  qed
qed

lemma more_than_enough_pos: "0 < more_than_enough_littlenums n"
  by (simp add: more_than_enough_littlenums_def LOG_TO_BASE_2_OF_10_def)

lemma convert_number_total:
  assumes "sc_before sc + sc_after sc \<le> length (filter isdigit (drop (sc_first sc) s))"
    and "1 \<le> length (fl_low g)" "length (fl_low g) \<le> 8"
  shows "\<exists>code f. convert_number h junk s sc g = Some (code, f) \<and> leader_ok f \<and> length (fl_low f) = length (fl_low g)"
proof -
  let ?n = "min (maximum_useful_digits (length (fl_low g))) (sc_before sc + sc_after sc)"
  let ?e = "wrap32 (sc_exponent sc + int (sc_before sc) - int ?n)"
  let ?table = "if ?e < 0 then flonum_negative_powers_of_ten else flonum_positive_powers_of_ten"
  let ?pow = "\<lparr>fl_low = 1 # replicate (length (fl_low g) - 1) 0, fl_leader = 0, fl_exponent = 0, fl_sign = CHR ''+''\<rparr>"
  have n: "?n \<le> 30" using useful_digits(1) [OF assms(3)] by simp
  obtain ds where ds: "convert_digits (drop (sc_first sc) s) ?n (replicate (more_than_enough_littlenums ?n) 0) = Some ds"
    using convert_digits_value [of ?n "drop (sc_first sc) s" "replicate (more_than_enough_littlenums ?n) 0"]
      min.coboundedI2 [OF assms(1)] enough_littlenums [OF n] by auto
  have "usable ?pow" by (simp add: usable_def leader_ok_def signed_def)
  moreover have "list_all usable ?table" "length ?table = 12" using tables_usable by simp_all
  ultimately obtain q overflow where q: "power_of_10 h ?table 1 (if ?e < 0 then wrap32 (- ?e) else ?e) ?pow
      \<lparr>fl_low = junk, fl_leader = 0, fl_exponent = 0, fl_sign = CHR 0x00\<rparr> = Some (q, overflow)" "usable q"
    using power_of_10_total [of ?table ?pow] by blast
  obtain p where "flonum_multip q (flonum_of (trim_zeros ds) 0) g = Some p" "leader_ok p" "length (fl_low p) = length (fl_low g)"
    using flonum_multip_total [of q "flonum_of (trim_zeros ds) 0" g] q(2) usable_flonum_of [of "trim_zeros ds" 0]
    by (auto simp: usable_def)
  then show ?thesis unfolding convert_number_def Let_def ds bind.bind_lunit q(1) by (simp split: if_splits)
qed



section \<open>Integers\<close>

definition stops :: "string \<Rightarrow> string \<Rightarrow> string \<Rightarrow> bool" where
  "stops marks exp_marks rest \<longleftrightarrow>
     (case rest of [] \<Rightarrow> True | c # cs \<Rightarrow> \<not> isdigit c \<and> c \<notin> set marks \<and> c \<notin> set exp_marks)"

lemma isdigit_less: "isdigit c \<Longrightarrow> \<not> CHR ''0'' < c \<Longrightarrow> c = CHR ''0''"
  by (auto simp: isdigit_def)

lemma decimal_from_less: "list_all isdigit ds \<Longrightarrow> decimal_from v ds < (v + 1) * 10 ^ length ds"
proof (induction ds arbitrary: v)
  case (Cons d ds)
  then have "decimal_from (10 * v + digit_value d) ds < (10 * v + digit_value d + 1) * 10 ^ length ds" by simp
  also have "\<dots> \<le> ((v + 1) * 10) * 10 ^ length ds"
    using digit_value_le [of d] Cons.prems by (intro mult_le_mono1) simp
  finally show ?case by (simp only: decimal_from_def foldl.simps list.size power_Suc mult.assoc add_Suc_right add_0_right)
qed (simp add: decimal_from_def)

lemma decimal_from_0: "decimal_from v (CHR ''0'' # ds) = decimal_from (10 * v) ds"
  by (simp add: decimal_from_def digit_value_def)

text \<open>The digits of an integer: zeros, and the digits that are read.\<close>

lemma scan_before_seen_all:
  "list_all isdigit ds \<Longrightarrow> list_all (\<lambda>c. \<not> stop c) ds \<Longrightarrow> rest = [] \<or> stop (hd rest) \<or> \<not> isdigit (hd rest) \<Longrightarrow>
    scan_before stop z b True (ds @ rest) = (z, b + length ds, True, rest)"
proof (induction ds arbitrary: b)
  case Nil
  then show ?case by (cases rest) auto
qed simp

lemma scan_before_integer:
  "list_all isdigit ds \<Longrightarrow> list_all (\<lambda>c. \<not> stop c) ds \<Longrightarrow> rest = [] \<or> stop (hd rest) \<or> \<not> isdigit (hd rest) \<Longrightarrow>
    \<exists>zs bs seen. ds = zs @ bs \<and> scan_before stop z 0 False (ds @ rest) = (z + length zs, length bs, seen, rest) \<and>
      decimal_from 0 ds = decimal_from 0 bs"
proof (induction ds arbitrary: z)
  case Nil
  then show ?case by (cases rest) auto
next
  case (Cons d ds)
  show ?case
  proof (cases "CHR ''0'' < d")
    case True
    then show ?thesis
      using Cons.prems scan_before_seen_all [of ds stop rest z 1] by (intro exI [of _ "[]"] exI [of _ "d # ds"] exI [of _ True]) simp
  next
    case False
    then have d: "d = CHR ''0''" using isdigit_less Cons.prems(1) by simp
    obtain zs bs seen where "ds = zs @ bs" "decimal_from 0 ds = decimal_from 0 bs"
      "scan_before stop (Suc z) 0 False (ds @ rest) = (Suc z + length zs, length bs, seen, rest)"
      using Cons.IH [of "Suc z"] Cons.prems by auto
    then show ?thesis
      using Cons.prems False d
      by (intro exI [of _ "d # zs"] exI [of _ bs] exI [of _ seen]) (simp add: decimal_from_0)
  qed
qed

lemma scan_number_integer:
  assumes "list_all isdigit ds" "set ds \<inter> (set marks \<union> set exp_marks) = {}" and "stops marks exp_marks rest"
  shows "\<exists>zs bs. ds = zs @ bs \<and> decimal ds = decimal bs \<and>
    scan_number marks exp_marks (sg @ ds @ rest) (length sg) =
      \<lparr>sc_first = length sg + length zs, sc_before = length bs, sc_after = 0, sc_exponent = 0,
       sc_end = length (sg @ ds)\<rparr>"
proof -
  let ?stop = "\<lambda>c. c \<in> set marks \<or> c \<in> set exp_marks"
  have "list_all (\<lambda>c. \<not> ?stop c) ds" using assms(2) by (auto simp: list_all_iff)
  moreover have "rest = [] \<or> ?stop (hd rest) \<or> \<not> isdigit (hd rest)" using assms(3) by (cases rest) (auto simp: stops_def)
  ultimately obtain zs bs seen where scan: "ds = zs @ bs" "decimal_from 0 ds = decimal_from 0 bs"
    "scan_before ?stop 0 0 False (ds @ rest) = (length zs, length bs, seen, rest)"
    using scan_before_integer [OF assms(1), of ?stop rest 0] by auto
  then have "scan_number marks exp_marks (sg @ ds @ rest) (length sg) =
      \<lparr>sc_first = length sg + length zs, sc_before = length bs, sc_after = 0, sc_exponent = 0, sc_end = length (sg @ ds)\<rparr>"
    using assms(3) by (cases rest) (simp_all add: scan_number_def stops_def)
  then show ?thesis using scan(1,2) by (auto simp: decimal_def)
qed

lemma no_word_at: "isdigit (ch s i) \<Longrightarrow> w \<noteq> [] \<Longrightarrow> hd w = CHR ''n'' \<or> hd w = CHR ''i'' \<Longrightarrow> \<not> word_at s i w"
  by (cases w) (auto simp: word_at_def isdigit_iff list_all_iff intro!: bexI [of _ 0])

lemma convert_number_integer:
  assumes "list_all isdigit bs" "bs \<noteq> []" and "length bs \<le> maximum_useful_digits (length (fl_low g))"
    and "4 \<le> length (fl_low g)" "length (fl_low g) \<le> 8"
  shows "\<exists>f k. convert_number h junk (pre @ bs @ rest)
      \<lparr>sc_first = length pre, sc_before = length bs, sc_after = 0, sc_exponent = 0, sc_end = n\<rparr> g = Some (0, f) \<and>
    leader_ok f \<and> fl_exponent f = int k \<and> mantissa (digits_of f) * radix ^ k = decimal bs"
proof -
  let ?p = "length (fl_low g)" and ?m = "more_than_enough_littlenums (length bs)"
  have len: "length bs \<le> 30" using assms(3) useful_digits(1) [OF assms(5)] by simp
  obtain ds where ds: "convert_digits (bs @ rest) (length bs) (replicate ?m 0) = Some ds" "length ds = ?m"
    "mantissa ds = decimal bs"
    using convert_digits_value [of "length bs" "bs @ rest" "replicate ?m 0"] enough_littlenums [OF len] assms(1)
    by (auto simp: decimal_def)
  let ?ts = "trim_zeros ds"
  let ?one = "\<lparr>fl_low = 1 # replicate (?p - 1) 0, fl_leader = 0, fl_exponent = 0, fl_sign = CHR ''+''\<rparr>"
  have "decimal bs < 10 ^ length bs" using decimal_from_less [OF assms(1), of 0] by (simp add: decimal_def)
  also have "(10 :: nat) ^ length bs \<le> 10 ^ maximum_useful_digits ?p" using assms(3) by (intro power_increasing) simp_all
  also have "\<dots> \<le> radix ^ (?p - 1)" by (rule useful_digits(2) [OF assms(4,5)])
  finally have "mantissa ds < radix ^ (?p - 1)" unfolding ds(3) .
  moreover have "ds \<noteq> []" using ds(2) more_than_enough_pos [of "length bs"] by auto
  ultimately have ts: "length ?ts \<le> ?p - 1" using assms(4) by (intro trimmed_length) simp_all
  have sides: "leader_ok ?one" "leader_ok (flonum_of ?ts 0)" "signed ?one" "signed (flonum_of ?ts 0)"
    "digits_of ?one = [1]" "digits_of (flonum_of ?ts 0) = ?ts"
    by (simp_all add: leader_ok_def signed_def flonum_of_def digits_of_def)
  moreover have "no_overflow [1] ?ts" by (cases ?ts) (simp_all add: no_overflow_def)
  ultimately obtain f k where f: "flonum_multip ?one (flonum_of ?ts 0) g = Some f" "leader_ok f"
    "fl_exponent f = fl_exponent ?one + fl_exponent (flonum_of ?ts 0) + int k"
    "mantissa (digits_of f) = mantissa [1] * mantissa ?ts div radix ^ k"
    "length [1 :: u16] + length ?ts \<le> ?p \<longrightarrow> radix ^ k dvd mantissa [1] * mantissa ?ts"
    using flonum_multip_exact [OF sides(1-4), of g] by (metis sides(5,6))
  have val: "mantissa [1] * mantissa ?ts = decimal bs" by (simp add: mantissa_trim_zeros ds(3))
  have "radix ^ k dvd decimal bs" using f(5) ts assms(4) unfolding val by simp
  then have "mantissa (digits_of f) * radix ^ k = decimal bs" unfolding f(4) val by (rule dvd_div_mult_self)
  moreover have "convert_number h junk (pre @ bs @ rest)
      \<lparr>sc_first = length pre, sc_before = length bs, sc_after = 0, sc_exponent = 0, sc_end = n\<rparr> g = Some (0, f)"
    using assms(3) ds(1) f(1) by (simp add: convert_number_def Let_def min_absorb2 wrap32_def power_of_10.simps)
  ultimately show ?thesis using f(2,3) by (auto simp: flonum_of_def)
qed

lemma atof_generic_integer:
  assumes "sg = [] \<or> sg = ''+'' \<or> sg = ''-''"
    and "list_all isdigit ds" "ds \<noteq> []" "length ds \<le> maximum_useful_digits (length (fl_low g))"
    and "4 \<le> length (fl_low g)" "length (fl_low g) \<le> 8"
    and "set ds \<inter> (set marks \<union> set exp_marks) = {}" and "stops marks exp_marks rest"
  shows "\<exists>f k. atof_generic h junk marks exp_marks (sg @ ds @ rest) g = Some (0, length (sg @ ds), f) \<and> leader_ok f \<and>
    fl_sign f = (if sg = ''-'' then CHR ''-'' else CHR ''+'') \<and>
    fl_exponent f = int k \<and> mantissa (digits_of f) * radix ^ k = decimal ds"
proof -
  let ?s = "sg @ ds @ rest"
  obtain d ds' where d: "ds = d # ds'" "isdigit d" using assms(2,3) by (cases ds) auto
  then have ch: "ch ?s (length sg) = d" by (simp add: ch_def nth_append)
  have start: "(if ch ?s 0 = CHR ''-'' \<or> ch ?s 0 = CHR ''+'' then (ch ?s 0, 1) else (CHR ''+'', 0)) =
      (if sg = ''-'' then CHR ''-'' else CHR ''+'', length sg)"
    using assms(1) d by (auto simp: ch_def isdigit_def)
  have words: "\<not> word_at ?s (length sg) ''nan''" "\<not> word_at ?s (length sg) ''inf''"
    using no_word_at [of ?s "length sg"] ch d(2) by auto
  obtain zs bs where bs: "ds = zs @ bs" "decimal ds = decimal bs"
    "scan_number marks exp_marks ?s (length sg) = \<lparr>sc_first = length (sg @ zs), sc_before = length bs, sc_after = 0,
      sc_exponent = 0, sc_end = length (sg @ ds)\<rparr>"
    using scan_number_integer [OF assms(2,7,8), of sg] by auto
  let ?sc = "\<lparr>sc_first = length (sg @ zs), sc_before = length bs, sc_after = 0, sc_exponent = 0, sc_end = length (sg @ ds)\<rparr>"
  let ?sign = "if sg = ''-'' then CHR ''-'' else CHR ''+''"
  have run: "atof_generic h junk marks exp_marks ?s g =
      (if sc_before ?sc + sc_after ?sc = 0 then Some (0, sc_end ?sc, g\<lparr>fl_exponent := 0, fl_leader := -1, fl_sign := ?sign\<rparr>)
       else map_option (\<lambda>(code, f). (code, sc_end ?sc, f\<lparr>fl_sign := ?sign\<rparr>)) (convert_number h junk ?s ?sc g))"
    unfolding atof_generic_def start by (simp only: Let_def prod.case words if_False bs(3))
  show ?thesis
  proof (cases "bs = []")
    case True
    then show ?thesis unfolding run bs(2) by (simp add: digits_of_def decimal_def decimal_from_def leader_ok_def)
  next
    case False
    have digits: "list_all isdigit bs" "length bs \<le> maximum_useful_digits (length (fl_low g))" using assms(2,4) bs(1) by simp_all
    have "?s = (sg @ zs) @ bs @ rest" using bs(1) by simp
    then obtain f k where "convert_number h junk ?s ?sc g = Some (0, f)" "leader_ok f" "fl_exponent f = int k"
      "mantissa (digits_of f) * radix ^ k = decimal bs"
      using convert_number_integer [OF digits(1) False digits(2) assms(5,6)] by metis
    then show ?thesis
      using False unfolding run bs(2) by (intro exI [of _ "f\<lparr>fl_sign := ?sign\<rparr>"] exI [of _ k]) (simp add: digits_of_def leader_ok_def)
  qed
qed

text \<open>
  A decimal integer, with a sign or without and however many zeros in front, that has no more digits than are
  useful for the precision is read to its end, whatever follows it, and the number has its exact value.
\<close>

theorem atof_generic_integers:
  assumes "sg = [] \<or> sg = ''+'' \<or> sg = ''-''"
    and "list_all isdigit ds" "ds \<noteq> []" "length ds \<le> maximum_useful_digits (length (fl_low g))"
    and "4 \<le> length (fl_low g)" "length (fl_low g) \<le> 8"
    and "set ds \<inter> (set marks \<union> set exp_marks) = {}" and "stops marks exp_marks rest"
  shows "\<exists>f k. atof_generic h junk marks exp_marks (sg @ ds @ rest) g = Some (0, length (sg @ ds), f) \<and>
    fl_sign f = (if sg = ''-'' then CHR ''-'' else CHR ''+'') \<and>
    fl_exponent f = int k \<and> mantissa (digits_of f) * radix ^ k = decimal ds"
  using atof_generic_integer [OF assms] by blast

theorem atof_generic_integers_witness:
  "\<exists>f k. atof_generic LITTLE_ENDIAN_BYTE_SEX [7, 7] ''.'' ''eE'' ''-00655360000,'' (flonum_of [1, 2, 3, 4] 0) =
       Some (0, length ''-00655360000'', f) \<and> fl_sign f = CHR ''-'' \<and> fl_exponent f = int k \<and> mantissa (digits_of f) * radix ^ k = 655360000"
  using atof_generic_integers [of "''-''" "''00655360000''" "flonum_of [1, 2, 3, 4] 0" "''.''" "''eE''" "'',''" LITTLE_ENDIAN_BYTE_SEX "[7, 7]"]
  by (simp add: flonum_of_def isdigit_iff stops_def decimal_def decimal_from_def digit_value_def maximum_useful_digits_def
      LOG_TO_BASE_2_OF_10_def)

end
