(* ===== verification/AtofIeee.thy ===== *)
theory AtofIeee
  imports AtofGeneric
begin

text \<open>
  \<^verbatim>\<open>as/atof-ieee.c\<close>: a number that was read is encoded as a float of one of the formats of IEEE 754, in words of 16 bits
  with the highest first.  The code is built with \<^verbatim>\<open>NeXT_MOD\<close>.
\<close>

section \<open>Bits from the high end\<close>

text \<open>The three static variables; \<open>rd_pointer\<close> is an index into the littlenums of the number.\<close>

record reader =
  rd_bits :: nat
  rd_left :: nat
  rd_pointer :: int

definition littlenum_at :: "u16 list \<Rightarrow> int \<Rightarrow> int option" where
  "littlenum_at low i = (if 0 \<le> i \<and> nat i < length low then Some (uint (low ! nat i)) else None)"

text \<open>\<open>None\<close> is a read outside the littlenums, or a shift by less than zero bits.\<close>

definition next_bits :: "u16 list \<Rightarrow> nat \<Rightarrow> reader \<Rightarrow> (int \<times> reader) option" where
  "next_bits low n rd =
     (if rd_left rd = 0 then Some (0, rd)
      else if rd_bits rd \<le> n then
        Option.bind (littlenum_at low (rd_pointer rd)) (\<lambda>d.
          let m = n - rd_bits rd; v = push_bit m (take_bit (rd_bits rd) d); rd = rd\<lparr>rd_left := rd_left rd - 1\<rparr>
          in if rd_left rd = 0 then Some (v, rd)
             else if 16 < m then None
             else map_option (\<lambda>d. (v OR take_bit m (drop_bit (16 - m) d), rd\<lparr>rd_bits := 16 - m, rd_pointer := rd_pointer rd - 1\<rparr>))
               (littlenum_at low (rd_pointer rd - 1)))
      else
        map_option (\<lambda>d. (take_bit n (drop_bit (rd_bits rd - n) d), rd\<lparr>rd_bits := rd_bits rd - n\<rparr>))
          (littlenum_at low (rd_pointer rd)))"

definition unget_bits :: "nat \<Rightarrow> reader \<Rightarrow> reader" where
  "unget_bits num rd =
     (if rd_left rd = 0 then rd\<lparr>rd_pointer := rd_pointer rd + 1, rd_left := 1, rd_bits := num\<rparr>
      else if rd_bits rd + num > 16 then
        rd\<lparr>rd_bits := num - (16 - rd_bits rd), rd_pointer := rd_pointer rd + 1, rd_left := rd_left rd + 1\<rparr>
      else rd\<lparr>rd_bits := rd_bits rd + num\<rparr>)"

text \<open>The loop that looks for the first bit, which never ends when there is none.\<close>

partial_function (option) skip_zeros :: "u16 list \<Rightarrow> nat \<Rightarrow> reader \<Rightarrow> (nat \<times> reader) option" where
  "skip_zeros low skippage rd =
     Option.bind (next_bits low 1 rd) (\<lambda>(b, rd). if b \<noteq> 0 then Some (skippage, rd) else skip_zeros low (skippage + 1) rd)"

declare skip_zeros.simps [code]

text \<open>Words of mantissa bits.\<close>

fun next_words :: "u16 list \<Rightarrow> nat \<Rightarrow> reader \<Rightarrow> (u16 list \<times> reader) option" where
  "next_words low 0 rd = Some ([], rd)"
| "next_words low (Suc n) rd =
     Option.bind (next_bits low 16 rd) (\<lambda>(w, rd). map_option (\<lambda>(ws, rd). (of_int w # ws, rd)) (next_words low n rd))"

section \<open>Encoding\<close>

definition F_PRECISION :: nat where "F_PRECISION = 2"
definition D_PRECISION :: nat where "D_PRECISION = 4"
definition X_PRECISION :: nat where "X_PRECISION = 6"
definition P_PRECISION :: nat where "P_PRECISION = 6"
definition GUARD :: nat where "GUARD = 2"

text \<open>Writing the first words of an array.\<close>

definition put_words :: "u16 list \<Rightarrow> u16 list \<Rightarrow> u16 list option" where
  "put_words words ws = (if length ws \<le> length words then Some (ws @ drop (length ws) words) else None)"

definition infinity_words :: "nat \<Rightarrow> bool \<Rightarrow> u16 list" where
  "infinity_words precision neg =
     (let s = (if neg then 0x8000 else 0)
      in if precision = F_PRECISION then [0x7f80 OR s, 0] else [0x7ff0 OR s, 0, 0, 0])"

definition nan_words :: "nat \<Rightarrow> u16 list" where
  "nan_words precision = (if precision = F_PRECISION then [0x7fff, 0xffff] else [0x7fff, 0xffff, 0xffff, 0xffff])"

definition make_invalid_floating_point_number :: "u16 list \<Rightarrow> u16 list option" where
  "make_invalid_floating_point_number words = put_words words [0xffff, 0xffff, 0xffff, 0xffff, 0xffff, 0xffff]"

text \<open>The loop that adds one from the last word on; the words are given from the last to the first.\<close>

fun add_carry :: "u16 list \<Rightarrow> u16 list" where
  "add_carry [] = []"
| "add_carry (w # ws) = (w + 1) # (if uint w + 1 < 2 ^ 16 then ws else add_carry ws)"

definition extended :: "nat \<Rightarrow> nat \<Rightarrow> bool" where
  "extended precision exponent_bits \<longleftrightarrow> precision = X_PRECISION \<and> exponent_bits = 15"

text \<open>A number too small for the exponent; \<open>num_bits\<close> is how many zeros stand before its first bit.\<close>

definition denormal_words ::
  "u16 list \<Rightarrow> nat \<Rightarrow> nat \<Rightarrow> bool \<Rightarrow> nat \<Rightarrow> reader \<Rightarrow> (u16 list \<times> reader) option" where
  "denormal_words low precision exponent_bits neg num_bits rd =
     (let word1 = (if neg then 0x8000 else 0); x = extended precision exponent_bits
      in if 16 \<le> num_bits + exponent_bits then
           let n = int num_bits - (15 - int exponent_bits);
               zeros = (if x then 2 else 0);
               n = (if x then n - 15 else n);
               zeros = zeros + (if n < 16 then 0 else nat (n div 16));
               n = (if n < 16 then n else n mod 16);
               start = word1 # replicate zeros 0
           in if n = 0 then Some (start, rd)
              else map_option (\<lambda>(w, rd). (start @ [of_int w], rd)) (next_bits low (nat (16 - n)) rd)
         else if x then
           if num_bits = 16 then map_option (\<lambda>(w, rd). ([word1, 0, 0, of_int w], rd)) (next_bits low 15 rd)
           else if num_bits = 15 then Some ([word1, 0, 0], rd)
           else map_option (\<lambda>(w, rd). ([word1, 0, of_int w], rd)) (next_bits low (15 - num_bits) rd)
         else map_option (\<lambda>(w, rd). ([word1 OR of_int w], rd)) (next_bits low (15 - (exponent_bits + num_bits)) rd))"

definition denormal :: "u16 list \<Rightarrow> nat \<Rightarrow> nat \<Rightarrow> char \<Rightarrow> nat \<Rightarrow> reader \<Rightarrow> u16 list option" where
  "denormal low precision exponent_bits sign num_bits rd =
     (let rd = unget_bits 1 rd;
          prec_bits = 16 * int precision - (int exponent_bits + 1 + int num_bits) -
            (if extended precision exponent_bits then 17 else 0)
      in if 16 \<le> num_bits + exponent_bits \<and>
            int num_bits - (15 - int exponent_bits) + int exponent_bits + 1 \<ge> 16 * int precision
         then Some (infinity_words precision (sign = CHR ''-''))
         else
           Option.bind (denormal_words low precision exponent_bits (sign \<noteq> CHR ''+'') num_bits rd) (\<lambda>(ws, rd).
           Option.bind (next_words low (precision - length ws) rd) (\<lambda>(vs, rd).
           let ws = ws @ vs
           in map_option (\<lambda>(b, _).
                if b = 0 then ws
                else if 16 < prec_bits then rev (add_carry (rev ws))
                else ws[length ws - 1 := last ws + 1]) (next_bits low 1 rd))))"

definition normal :: "u16 list \<Rightarrow> nat \<Rightarrow> nat \<Rightarrow> bool \<Rightarrow> int \<Rightarrow> reader \<Rightarrow> u16 list option" where
  "normal low precision exponent_bits neg exponent_4 rd =
     Option.bind (next_bits low (15 - exponent_bits) rd) (\<lambda>(w, rd).
     let word1 = (if neg then 0x8000 else 0) OR of_int (push_bit (15 - exponent_bits) exponent_4) OR of_int w
     in Option.bind
          (if extended precision exponent_bits
           then map_option (\<lambda>(w, rd). ([word1, 0, 0x8000 OR of_int w], rd)) (next_bits low 15 rd)
           else Some ([word1], rd)) (\<lambda>(ws, rd).
        Option.bind (next_words low (precision - length ws) rd) (\<lambda>(vs, rd).
        let ws = ws @ vs
        in map_option (\<lambda>(b, _).
             if b = 0 then ws
             else
               let ws = rev (add_carry (rev ws))
               in if (word1 XOR hd ws) AND 0x8000 \<noteq> 0 then (hd ws AND NOT 0x8000) # tl ws else ws)
             (next_bits low 1 rd))))"

text \<open>
  A format without a number of exponent bits is that of packed numbers, for which the code shifts by less than
  zero bits.
\<close>

definition gen_to_words :: "flonum \<Rightarrow> u16 list \<Rightarrow> nat \<Rightarrow> nat option \<Rightarrow> u16 list option" where
  "gen_to_words g words precision exponent_bits =
     (if fl_leader g < 0 then
        put_words words ((if fl_sign g = CHR ''+'' then 0 else 0x8000) # replicate (precision - 1) 0)
      else if fl_sign g = CHR 0x00 then put_words words (nan_words precision)
      else if fl_sign g = CHR ''P'' then put_words words (infinity_words precision False)
      else if fl_sign g = CHR ''N'' then put_words words (infinity_words precision True)
      else
        Option.bind exponent_bits (\<lambda>e.
        Option.bind (skip_zeros (fl_low g) 0 \<lparr>rd_bits = 16, rd_left = nat (fl_leader g + 1), rd_pointer = fl_leader g\<rparr>)
          (\<lambda>(skippage, rd).
        let exponent_4 = wrap32 ((fl_exponent g + fl_leader g + 1) * 16 - int skippage + (2 ^ (e - 1) - 2));
            neg = fl_sign g \<noteq> CHR ''+''
        in Option.bind
             (if exponent_4 < 1 \<and> exponent_4 \<ge> -62 then
                denormal (fl_low g) precision e (fl_sign g) (nat (- exponent_4)) rd
              else if drop_bit e exponent_4 \<noteq> 0 then Some (infinity_words precision (fl_sign g = CHR ''-''))
              else normal (fl_low g) precision e neg exponent_4 rd)
             (put_words words))))"

definition format_of :: "char \<Rightarrow> (nat \<times> nat option) option" where
  "format_of what_kind =
     (if what_kind \<in> set ''fFsS'' then Some (F_PRECISION, Some 8)
      else if what_kind \<in> set ''dDrR'' then Some (D_PRECISION, Some 11)
      else if what_kind \<in> set ''xXeE'' then Some (X_PRECISION, Some 15)
      else if what_kind \<in> set ''pP'' then Some (P_PRECISION, None)
      else None)"

text \<open>
  The result is the index behind the number, none for an unknown format, and the words.  \<open>bits\<close> is what the static
  array holds from \<^verbatim>\<open>bits + MAX_PRECISION\<close> on.
\<close>

definition atof_ieee ::
  "byte_sex \<Rightarrow> u16 list \<Rightarrow> string \<Rightarrow> u16 list \<Rightarrow> string \<Rightarrow> char \<Rightarrow> u16 list \<Rightarrow> (nat option \<times> u16 list) option" where
  "atof_ieee h junk md_EXP_CHARS bits str what_kind words =
     (case format_of what_kind of
        None \<Rightarrow> map_option (Pair None) (make_invalid_floating_point_number words)
      | Some (precision, exponent_bits) \<Rightarrow>
          Option.bind (atof_generic h junk ''.'' md_EXP_CHARS str
              \<lparr>fl_low = take (precision + GUARD) bits, fl_leader = -1, fl_exponent = 0, fl_sign = CHR 0x00\<rparr>)
            (\<lambda>(code, idx, g).
          map_option (Pair (Some idx))
            (if code \<noteq> 0 then put_words words (infinity_words precision (fl_sign g = CHR ''-''))
             else gen_to_words g words precision exponent_bits)))"

section \<open>Integers\<close>

text \<open>\<^verbatim>\<open>sprintf\<close> with the format for a \<^verbatim>\<open>long\<close>, and the conversion, which ends the program when it fails.\<close>

fun decimal_digits :: "nat \<Rightarrow> string" where
  "decimal_digits n = (if n < 10 then [] else decimal_digits (n div 10)) @ [char_of (48 + n mod 10)]"

declare decimal_digits.simps [simp del]

definition sprintf_ld :: "int \<Rightarrow> string" where
  "sprintf_ld x = (if x < 0 then ''-'' else []) @ decimal_digits (nat \<bar>x\<bar>)"

definition int_to_gen :: "byte_sex \<Rightarrow> u16 list \<Rightarrow> string \<Rightarrow> flonum \<Rightarrow> int \<Rightarrow> flonum option" where
  "int_to_gen h junk md_EXP_CHARS g x =
     Option.bind (atof_generic h junk ''.'' md_EXP_CHARS (sprintf_ld x) g)
       (\<lambda>(code, _, g). if code = 0 then Some g else None)"

end
