(* ===== verification/AtofIeeeSound.thy ===== *)
theory AtofIeeeSound
  imports Complex_Main AtofSound AtofIeee
begin

text \<open>
  What the encoding of a number gives: for numbers in the range of a format, the float nearest to the number.
\<close>

section \<open>The bits that are left\<close>

text \<open>The littlenums below a position, as a fraction, and what a reader has left.\<close>

definition below :: "u16 list \<Rightarrow> nat \<Rightarrow> real" where
  "below low k = real (mantissa (take k low)) / radix ^ k"

definition bits_left :: "u16 list \<Rightarrow> reader \<Rightarrow> real" where
  "bits_left low rd =
     (if rd_left rd = 0 then 0
      else (real (unat (low ! (rd_left rd - 1)) mod 2 ^ rd_bits rd) + below low (rd_left rd - 1)) / 2 ^ rd_bits rd)"

definition reader_ok :: "u16 list \<Rightarrow> reader \<Rightarrow> bool" where
  "reader_ok low rd \<longleftrightarrow>
     rd_left rd = 0 \<or>
     rd_pointer rd = int (rd_left rd) - 1 \<and> rd_left rd \<le> length low \<and> 1 \<le> rd_bits rd \<and> rd_bits rd \<le> 16"

lemma below_0 [simp]: "below low 0 = 0"
  by (simp add: below_def)

lemma below_range: "0 \<le> below low k" "below low k < 1"
proof -
  have "mantissa (take k low) < radix ^ length (take k low)" by (rule mantissa_less)
  also have "\<dots> \<le> radix ^ k" by (intro power_increasing) simp_all
  finally have "real (mantissa (take k low)) < real (radix ^ k)" by (simp only: of_nat_less_iff)
  then show "below low k < 1" by (simp add: below_def)
  show "0 \<le> below low k" by (simp add: below_def)
qed

lemma below_Suc:
  assumes "k < length low"
  shows "below low (Suc k) = (real (unat (low ! k)) + below low k) / 2 ^ 16"
proof -
  have "mantissa (take (Suc k) low) = mantissa (take k low) + radix ^ k * unat (low ! k)"
    using assms mantissa_snoc [of "take k low" "low ! k"] by (simp add: take_Suc_conv_app_nth)
  then show ?thesis by (simp add: below_def field_simps)
qed

lemma bits_left_range:
  shows "0 \<le> bits_left low rd" "bits_left low rd < 1"
proof -
  let ?q = "unat (low ! (rd_left rd - 1)) mod 2 ^ rd_bits rd" and ?b = "below low (rd_left rd - 1)"
  have "?q < 2 ^ rd_bits rd" by simp
  then have "?q + 1 \<le> 2 ^ rd_bits rd" by (simp only: Suc_eq_plus1 [symmetric] Suc_le_eq)
  then have "real (?q + 1) \<le> real (2 ^ rd_bits rd)" by (simp only: of_nat_le_iff)
  then have "real ?q + ?b < 2 ^ rd_bits rd" using below_range(2) [of low "rd_left rd - 1"] by simp
  then show "bits_left low rd < 1" by (simp add: bits_left_def)
  show "0 \<le> bits_left low rd" using below_range(1) by (simp add: bits_left_def)
qed

text \<open>A number of \<open>a + b\<close> bits and what is below, split.\<close>

lemma split_bits: "real (q mod 2 ^ (a + b)) + x = real (q div 2 ^ b mod 2 ^ a) * 2 ^ b + (real (q mod 2 ^ b) + x)"
proof -
  have "q mod 2 ^ (a + b) = q div 2 ^ b mod 2 ^ a * 2 ^ b + q mod 2 ^ b"
    by (simp add: power_add mult.commute [of "2 ^ a"] mod_mult2_eq)
  then have "real (q mod 2 ^ (a + b)) = real (q div 2 ^ b mod 2 ^ a * 2 ^ b + q mod 2 ^ b)" by (simp only:)
  then show ?thesis by simp
qed

lemma littlenum_at_nat: "k < length low \<Longrightarrow> littlenum_at low (int k) = Some (uint (low ! k))"
  by (simp add: littlenum_at_def)

lemma push_or_take: "push_bit m v OR take_bit m w = v * 2 ^ m + (take_bit m w :: int)"
proof -
  have "push_bit m v AND take_bit m w = 0" by (rule bit_eqI) (simp add: bit_simps)
  then show ?thesis by (simp add: disjunctive_add_eq_or [symmetric] push_bit_eq_mult)
qed

lemma int_bits:
  "take_bit n (drop_bit m (uint w)) = int (unat w div 2 ^ m mod 2 ^ n)" "take_bit n (uint w) = int (unat w mod 2 ^ n)"
proof -
  have "uint w = int (unat w)" by simp
  then show "take_bit n (drop_bit m (uint w)) = int (unat w div 2 ^ m mod 2 ^ n)" "take_bit n (uint w) = int (unat w mod 2 ^ n)"
    by (simp_all only: take_bit_eq_mod drop_bit_eq_div zmod_int zdiv_int of_nat_power of_nat_numeral)
qed

lemma next_bits_spec:
  assumes "reader_ok low rd" and "n \<le> 16"
  shows "\<exists>v rd'. next_bits low n rd = Some (v, rd') \<and> reader_ok low rd' \<and>
    bits_left low rd * 2 ^ n = real_of_int v + bits_left low rd'"
proof (cases "rd_left rd")
  case 0
  then show ?thesis using assms(1) by (simp add: next_bits_def bits_left_def)
next
  case (Suc k)
  let ?b = "rd_bits rd" and ?q = "unat (low ! k)"
  have ok: "rd_pointer rd = int k" "k < length low" "1 \<le> ?b" "?b \<le> 16"
    using assms(1) Suc by (auto simp: reader_ok_def)
  have left: "bits_left low rd = (real (?q mod 2 ^ ?b) + below low k) / 2 ^ ?b"
    using Suc by (simp add: bits_left_def)
  show ?thesis
  proof (cases "?b \<le> n")
    case False
    define c where "c = ?b - n"
    let ?v = "?q div 2 ^ c mod 2 ^ n" and ?rd = "rd\<lparr>rd_bits := c\<rparr>"
    have b: "?b = n + c" using False by (simp add: c_def)
    have "next_bits low n rd = Some (int ?v, ?rd)"
      using Suc False ok(1) littlenum_at_nat [OF ok(2)] by (simp add: next_bits_def c_def int_bits)
    moreover have "reader_ok low ?rd" using assms(1) Suc False by (auto simp: reader_ok_def c_def)
    moreover have "bits_left low rd * 2 ^ n = (real (?q mod 2 ^ (n + c)) + below low k) / 2 ^ c"
      unfolding left b by (simp add: power_add)
    then have "bits_left low rd * 2 ^ n = real_of_int (int ?v) + bits_left low ?rd"
      unfolding split_bits by (simp add: Suc bits_left_def add_divide_distrib)
    ultimately show ?thesis by blast
  next
    case True
    define m where "m = n - ?b"
    have n: "n = ?b + m" and m: "m \<le> 15" using True ok(3) assms(2) by (simp_all add: m_def)
    have scaled: "bits_left low rd * 2 ^ n = real (?q mod 2 ^ ?b) * 2 ^ m + below low k * 2 ^ m"
    proof -
      have "x / 2 ^ ?b * 2 ^ (?b + m) = x * 2 ^ m" for x :: real by (simp add: power_add)
      then show ?thesis unfolding left n by (simp only: distrib_right)
    qed
    show ?thesis
    proof (cases k)
      case 0
      let ?rd = "rd\<lparr>rd_left := 0\<rparr>"
      have "next_bits low n rd = Some (int (?q mod 2 ^ ?b) * 2 ^ m, ?rd)"
        using Suc 0 True ok(1) littlenum_at_nat [OF ok(2)] unfolding next_bits_def
        by (simp add: Let_def m_def int_bits push_bit_eq_mult)
      moreover have "bits_left low rd * 2 ^ n = real_of_int (int (?q mod 2 ^ ?b) * 2 ^ m) + bits_left low ?rd"
        unfolding scaled by (simp add: 0 bits_left_def)
      moreover have "reader_ok low ?rd" by (simp add: reader_ok_def)
      ultimately show ?thesis by blast
    next
      case (Suc j)
      let ?r = "unat (low ! j)" and ?rd = "rd\<lparr>rd_left := k, rd_bits := 16 - m, rd_pointer := int j\<rparr>"
      have j: "j < length low" using ok(2) Suc by simp
      have "next_bits low n rd = Some (int (?q mod 2 ^ ?b) * 2 ^ m + int (?r div 2 ^ (16 - m) mod 2 ^ m), ?rd)"
        using \<open>rd_left rd = Suc k\<close> Suc True m ok(1) littlenum_at_nat [OF ok(2)] littlenum_at_nat [OF j]
        unfolding next_bits_def by (simp add: Let_def m_def [symmetric] push_or_take int_bits)
      moreover have "reader_ok low ?rd" using ok(2) Suc m by (simp add: reader_ok_def)
      moreover have "below low k * 2 ^ m = (real (?r mod 2 ^ (m + (16 - m))) + below low j) / 2 ^ (16 - m)"
      proof -
        have "?r mod 2 ^ (m + (16 - m)) = ?r" using m by simp
        moreover have "x / 2 ^ 16 * 2 ^ m = x / 2 ^ (16 - m)" for x :: real
        proof -
          have "(2 :: real) ^ 16 = 2 ^ m * 2 ^ (16 - m)" unfolding power_add [symmetric] using m by simp
          then have "x / 2 ^ 16 * 2 ^ m = x / 2 ^ (16 - m) / 2 ^ m * 2 ^ m" by (simp only: divide_divide_eq_left mult.commute)
          then show ?thesis by simp
        qed
        ultimately show ?thesis unfolding Suc below_Suc [OF j] by (simp only:)
      qed
      then have "below low k * 2 ^ m = real (?r div 2 ^ (16 - m) mod 2 ^ m) + bits_left low ?rd"
        unfolding split_bits by (simp add: Suc bits_left_def add_divide_distrib)
      then have "bits_left low rd * 2 ^ n =
          real_of_int (int (?q mod 2 ^ ?b) * 2 ^ m + int (?r div 2 ^ (16 - m) mod 2 ^ m)) + bits_left low ?rd"
        unfolding scaled by simp
      ultimately show ?thesis by blast
    qed
  qed
qed

lemma bits_left_floor: "x = real_of_int v + bits_left low rd \<Longrightarrow> \<lfloor>x\<rfloor> = v"
  using bits_left_range [of low rd] by linarith

lemma next_bits_run:
  assumes "reader_ok low rd" and "n \<le> 16" and "next_bits low n rd = Some (v, rd')"
  shows "reader_ok low rd' \<and> bits_left low rd * 2 ^ n = real_of_int v + bits_left low rd' \<and> 0 \<le> v \<and> v < 2 ^ n"
proof -
  have step: "reader_ok low rd'" "bits_left low rd * 2 ^ n = real_of_int v + bits_left low rd'"
    using next_bits_spec [OF assms(1,2)] assms(3) by auto
  have "0 \<le> bits_left low rd * 2 ^ n" "bits_left low rd * 2 ^ n < 1 * 2 ^ n"
    using bits_left_range [of low rd] by (simp_all only: mult_strict_right_mono zero_less_power zero_less_numeral mult_nonneg_nonneg zero_le_power zero_le_numeral)
  then have "0 \<le> v" "real_of_int v < 2 ^ n" using step(2) bits_left_range [of low rd'] by linarith+
  then have "real_of_int v < real_of_int (2 ^ n)" by simp
  then have "v < 2 ^ n" by (simp only: of_int_less_iff)
  then show ?thesis using step \<open>0 \<le> v\<close> by blast
qed

text \<open>The search for the first bit ends when there is one.\<close>

lemma skip_zeros_spec:
  assumes "reader_ok low rd" and "1 \<le> bits_left low rd * 2 ^ N"
  shows "\<exists>s rd'. skip_zeros low k rd = Some (k + s, rd') \<and> reader_ok low rd' \<and>
    bits_left low rd * 2 ^ (s + 1) = 1 + bits_left low rd'"
  using assms
proof (induction N arbitrary: k rd)
  case 0
  then show ?case using bits_left_range [of low rd] by simp
next
  case (Suc N)
  obtain v rd' where step: "next_bits low 1 rd = Some (v, rd')" using next_bits_spec [OF Suc.prems(1), of 1] by auto
  then have run: "reader_ok low rd'" "bits_left low rd * 2 = real_of_int v + bits_left low rd'" "0 \<le> v" "v < 2"
    using next_bits_run [OF Suc.prems(1) _ step] by simp_all
  show ?case
  proof (cases "v = 0")
    case True
    have "1 \<le> (bits_left low rd * 2) * 2 ^ N" using Suc.prems(2) by (simp only: power_Suc mult.assoc)
    then have "1 \<le> bits_left low rd' * 2 ^ N" unfolding run(2) True by simp
    then obtain s rd2 where "skip_zeros low (k + 1) rd' = Some (k + 1 + s, rd2)" "reader_ok low rd2"
      "bits_left low rd' * 2 ^ (s + 1) = 1 + bits_left low rd2"
      using Suc.IH [OF run(1)] by blast
    moreover have "bits_left low rd * 2 ^ (s + 1 + 1) = bits_left low rd * 2 * 2 ^ (s + 1)" by simp
    ultimately show ?thesis
      using step True run(2) by (intro exI [of _ "s + 1"] exI [of _ rd2]) (subst skip_zeros.simps, simp)
  next
    case False
    then have "v = 1" using run(3,4) by simp
    then show ?thesis using step run(1,2) by (intro exI [of _ 0] exI [of _ rd']) (subst skip_zeros.simps, simp)
  qed
qed

text \<open>Words with the highest first, as a number.\<close>

definition words_value :: "u16 list \<Rightarrow> nat" where
  "words_value ws = mantissa (rev ws)"

lemma words_value_Nil [simp]: "words_value [] = 0"
  by (simp add: words_value_def)

lemma words_value_Cons: "words_value (w # ws) = unat w * radix ^ length ws + words_value ws"
  by (simp add: words_value_def mantissa_append)

lemma words_value_less: "words_value ws < radix ^ length ws"
  using mantissa_less [of "rev ws"] by (simp add: words_value_def)

lemma uint_unat: "uint (w :: u16) = int (unat w)"
  by simp

lemma uint_carry: "uint (w :: u16) + 1 < 2 ^ 16 \<longleftrightarrow> unat w + 1 < radix"
proof -
  have "int (unat w + 1) < int radix \<longleftrightarrow> unat w + 1 < radix" by (rule of_nat_less_iff)
  then show ?thesis unfolding uint_unat by (simp only: of_nat_add of_nat_1 of_nat_power of_nat_numeral)
qed

lemma unat_of_int16: "0 \<le> v \<Longrightarrow> v < 2 ^ 16 \<Longrightarrow> unsigned (of_int v :: u16) = real_of_int v"
proof -
  assume "0 \<le> v" "v < 2 ^ 16"
  then have "uint (of_int v :: u16) = v" by (simp add: uint_word_of_int)
  then have "int (unat (of_int v :: u16)) = v" by (simp only: uint_unat)
  then have "real_of_int (int (unat (of_int v :: u16))) = real_of_int v" by (rule arg_cong)
  then have "real (unat (of_int v :: u16)) = real_of_int v" unfolding of_int_of_nat_eq .
  then show "unsigned (of_int v :: u16) = real_of_int v" by simp
qed

lemma next_words_spec:
  assumes "reader_ok low rd"
  shows "\<exists>ws rd'. next_words low n rd = Some (ws, rd') \<and> length ws = n \<and> reader_ok low rd' \<and>
    bits_left low rd * 2 ^ (16 * n) = real (words_value ws) + bits_left low rd'"
  using assms
proof (induction n arbitrary: rd)
  case (Suc n)
  obtain v rd' where step: "next_bits low 16 rd = Some (v, rd')" using next_bits_spec [OF Suc.prems, of 16] by auto
  then have run: "reader_ok low rd'" "bits_left low rd * 2 ^ 16 = real_of_int v + bits_left low rd'" "0 \<le> v" "v < 2 ^ 16"
    using next_bits_run [OF Suc.prems _ step] by simp_all
  obtain ws rd2 where ws: "next_words low n rd' = Some (ws, rd2)" "length ws = n" "reader_ok low rd2"
    "bits_left low rd' * 2 ^ (16 * n) = real (words_value ws) + bits_left low rd2"
    using Suc.IH [OF run(1)] by blast
  have "bits_left low rd * 2 ^ (16 * Suc n) = (bits_left low rd * 2 ^ 16) * 2 ^ (16 * n)"
    by (simp only: mult_Suc_right power_add mult.assoc)
  also have "\<dots> = real_of_int v * 2 ^ (16 * n) + (real (words_value ws) + bits_left low rd2)"
    unfolding run(2) ws(4) [symmetric] by (simp only: distrib_right)
  also have "\<dots> = real (words_value (of_int v # ws)) + bits_left low rd2"
    by (simp add: words_value_Cons unat_of_int16 [OF run(3,4)] ws(2) power_mult)
  finally show ?case using step ws by (intro exI [of _ "of_int v # ws"] exI [of _ rd2]) simp
qed simp

section \<open>Rounding\<close>

lemma length_add_carry [simp]: "length (add_carry ws) = length ws"
  by (induction ws) simp_all

lemma mantissa_add_carry: "mantissa (add_carry ds) = (mantissa ds + 1) mod radix ^ length ds"
proof (induction ds)
  case (Cons d ds)
  have top: "radix * (mantissa ds + 1) \<le> radix * radix ^ length ds" using mantissa_less [of ds] by (intro mult_le_mono2) simp
  show ?case
  proof (cases "unat d + 1 < radix")
    case True
    then have d: "unat (d + 1) = unat d + 1" by (simp add: unat_word_ariths)
    have "uint d + 1 < 2 ^ 16" using True by (simp only: uint_carry)
    then have "mantissa (add_carry (d # ds)) = mantissa (d # ds) + 1" using d by (simp only: add_carry.simps if_True mantissa.simps)
    moreover have "mantissa (d # ds) + 1 < radix ^ length (d # ds)"
      using top True by simp
    ultimately show ?thesis by (simp only: mod_less)
  next
    case False
    moreover have "unat d < radix" by simp
    ultimately have d: "unat d + 1 = radix" by linarith
    then have "unat (d + 1) = 0" by (simp add: unat_word_ariths)
    moreover have "\<not> uint d + 1 < 2 ^ 16" using False by (simp only: uint_carry not_False_eq_True)
    ultimately have "mantissa (add_carry (d # ds)) = radix * ((mantissa ds + 1) mod radix ^ length ds)"
      by (simp only: add_carry.simps if_False mantissa.simps Cons add_0_left)
    also have "\<dots> = (radix * (mantissa ds + 1)) mod (radix * radix ^ length ds)" by (simp only: mult_mod_right)
    also have "radix * (mantissa ds + 1) = mantissa (d # ds) + 1" using d by (simp only: mantissa.simps distrib_left)
    finally show ?thesis by (simp only: list.size power_Suc add_Suc_right add_0_right)
  qed
qed simp

lemma words_value_add_carry:
  "words_value (rev (add_carry (rev ws))) = (words_value ws + 1) mod radix ^ length ws"
  by (simp add: words_value_def mantissa_add_carry)

text \<open>The sign is the highest bit of the first word.\<close>

lemma sign_bit: "(w :: u16) AND 0x8000 \<noteq> 0 \<longleftrightarrow> 2 ^ 15 \<le> unat w"
proof -
  have "w AND 0x8000 \<noteq> 0 \<longleftrightarrow> bit w 15"
    using and_exp_eq_0_iff_not_bit [of w 15] by simp
  also have "\<dots> \<longleftrightarrow> bit (unat w) 15" by (simp only: bit_unsigned_iff) simp
  also have "\<dots> \<longleftrightarrow> odd (unat w div 2 ^ 15)" by (simp only: bit_iff_odd)
  also have "\<dots> \<longleftrightarrow> 2 ^ 15 \<le> unat w"
  proof -
    have "unat w div 2 ^ 15 < 2" by (intro less_mult_imp_div_less) (use unat16_less [of w] in simp)
    then have "unat w div 2 ^ 15 = 0 \<or> unat w div 2 ^ 15 = 1" by linarith
    then show ?thesis by (auto simp: div_eq_0_iff)
  qed
  finally show ?thesis .
qed

lemma first_word_sign:
  assumes "ws \<noteq> []"
  shows "hd ws AND 0x8000 \<noteq> 0 \<longleftrightarrow> 2 ^ (16 * length ws - 1) \<le> words_value ws"
proof -
  obtain w vs where ws: "ws = w # vs" using assms by (cases ws) auto
  have pow: "2 ^ (16 * length ws - 1) = 2 ^ 15 * radix ^ length vs"
    unfolding ws by (simp only: power_mult [symmetric] power_add [symmetric]) simp
  have less: "words_value vs < radix ^ length vs" by (rule words_value_less)
  have "2 ^ 15 \<le> unat w \<longleftrightarrow> 2 ^ 15 * radix ^ length vs \<le> unat w * radix ^ length vs + words_value vs"
  proof
    assume "2 ^ 15 \<le> unat w"
    then have "2 ^ 15 * radix ^ length vs \<le> unat w * radix ^ length vs" by (rule mult_le_mono1)
    then show "2 ^ 15 * radix ^ length vs \<le> unat w * radix ^ length vs + words_value vs" by linarith
  next
    assume "2 ^ 15 * radix ^ length vs \<le> unat w * radix ^ length vs + words_value vs"
    then have "2 ^ 15 * radix ^ length vs < (unat w + 1) * radix ^ length vs"
      using less unfolding add_mult_distrib mult_1_left by linarith
    then show "2 ^ 15 \<le> unat w" by (simp only: mult_less_cancel2) simp
  qed
  then show ?thesis unfolding pow by (simp add: ws words_value_Cons sign_bit)
qed

text \<open>The first word of a number: its sign, exponent and the first bits of the mantissa.\<close>

lemma or_parts:
  assumes "e \<le> 15" "0 \<le> x" "x < 2 ^ e" "0 \<le> v" "v < 2 ^ (15 - e)"
  shows "real (unat ((if neg then 0x8000 else 0) OR of_int (push_bit (15 - e) x) OR (of_int v :: u16))) =
    (if neg then 2 ^ 15 else 0) + real_of_int x * 2 ^ (15 - e) + real_of_int v"
proof -
  let ?y = "x * 2 ^ (15 - e) + v"
  have v: "take_bit (15 - e) v = v" using assms(4,5) by (simp add: take_bit_int_eq_self)
  have y: "push_bit (15 - e) x OR v = ?y" using push_or_take [of "15 - e" x v] v by simp
  have "(x + 1) * 2 ^ (15 - e) \<le> 2 ^ e * 2 ^ (15 - e)" using assms(3) by (intro mult_right_mono) simp_all
  also have "\<dots> = (2 :: int) ^ 15" using assms(1) by (simp flip: power_add)
  finally have less: "?y < 2 ^ 15" using assms(5) unfolding distrib_right by linarith
  have pos: "0 \<le> ?y" using assms(2,4) by simp
  have t: "take_bit 15 ?y = ?y" using less pos by (simp add: take_bit_int_eq_self)
  have sum: "(if neg then 0x8000 else 0) OR ?y = (if neg then 2 ^ 15 else 0) + ?y"
  proof (cases neg)
    case True
    have "push_bit 15 1 OR take_bit 15 ?y = 1 * 2 ^ 15 + take_bit 15 ?y" by (rule push_or_take)
    then show ?thesis using True unfolding t by (simp add: push_bit_eq_mult)
  qed simp
  have "(if neg then 0x8000 else 0) OR of_int (push_bit (15 - e) x) OR (of_int v :: u16) =
      of_int ((if neg then 0x8000 else 0) OR (push_bit (15 - e) x OR v))"
    by (simp add: of_int_or_eq or.assoc)
  also have "\<dots> = of_int ((if neg then 2 ^ 15 else 0) + ?y)" unfolding y sum ..
  finally have "real (unat ((if neg then 0x8000 else 0) OR of_int (push_bit (15 - e) x) OR (of_int v :: u16))) =
      real (unat (of_int ((if neg then 2 ^ 15 else 0) + ?y) :: u16))" by (rule arg_cong)
  also have "\<dots> = real_of_int ((if neg then 2 ^ 15 else 0) + ?y)"
    using less pos by (simp del: of_int_add add: unat_of_int16)
  finally show ?thesis by simp
qed

lemma xor_sign: "((a :: u16) XOR b) AND 0x8000 \<noteq> 0 \<longleftrightarrow> (a AND 0x8000 \<noteq> 0) \<noteq> (b AND 0x8000 \<noteq> 0)"
  using and_exp_eq_0_iff_not_bit [of "a XOR b" 15] and_exp_eq_0_iff_not_bit [of a 15] and_exp_eq_0_iff_not_bit [of b 15]
  by (simp add: bit_xor_iff)

lemma floor_round:
  assumes "y = real_of_int q + x" "x * 2 = real_of_int b + z" "0 \<le> x" "x < 1" "0 \<le> z" "z < 1"
  shows "\<lfloor>y + 1 / 2\<rfloor> = q + b"
proof -
  have "\<lfloor>x + 1 / 2\<rfloor> = b"
  proof -
    have "-1 < real_of_int b" "real_of_int b < 2" using assms(2-6) by linarith+
    then consider "b = 0" | "b = 1" by linarith
    then show ?thesis by cases (use assms(2-6) in \<open>simp_all add: floor_eq_iff\<close>)
  qed
  then show ?thesis unfolding assms(1) by (simp add: add.assoc)
qed

text \<open>The fraction is the mantissa rounded, halves upwards, and a carry goes to the exponent.\<close>

lemma normal_spec:
  assumes ok: "reader_ok low rd" and e: "e \<le> 15" and p: "1 \<le> p" and x: "\<not> extended p e" and E: "0 \<le> E" "E + 1 < 2 ^ e"
  shows "\<exists>ws. normal low p e neg E rd = Some ws \<and> length ws = p \<and>
    int (words_value ws) = (if neg then 2 ^ (16 * p - 1) else 0) + E * 2 ^ (16 * p - 1 - e) +
      \<lfloor>bits_left low rd * 2 ^ (16 * p - 1 - e) + 1 / 2\<rfloor>"
proof -
  define f where "f = 16 * p - 1 - e"
  have f: "f = (15 - e) + 16 * (p - 1)" using e p by (simp add: f_def)
  let ?S = "if neg then 2 ^ (16 * p - 1) else (0 :: int)"
  have small: "15 - e \<le> 16" by linarith
  obtain w rd1 where w: "next_bits low (15 - e) rd = Some (w, rd1)" using next_bits_spec [OF ok small] by blast
  have w': "reader_ok low rd1" "bits_left low rd * 2 ^ (15 - e) = real_of_int w + bits_left low rd1" "0 \<le> w" "w < 2 ^ (15 - e)"
    using next_bits_run [OF ok small w] by simp_all
  obtain vs rd2 where vs: "next_words low (p - 1) rd1 = Some (vs, rd2)" "length vs = p - 1" "reader_ok low rd2"
    "bits_left low rd1 * 2 ^ (16 * (p - 1)) = real (words_value vs) + bits_left low rd2"
    using next_words_spec [OF w'(1)] by blast
  obtain b rd3 where b: "next_bits low 1 rd2 = Some (b, rd3)" using next_bits_spec [OF vs(3), of 1] by auto
  have b': "bits_left low rd2 * 2 = real_of_int b + bits_left low rd3" "0 \<le> b" "b < 2"
    using next_bits_run [OF vs(3) _ b] by simp_all
  define r where "r = w * 2 ^ (16 * (p - 1)) + int (words_value vs)"
  have whole: "bits_left low rd * 2 ^ f = real_of_int r + bits_left low rd2"
  proof -
    have "bits_left low rd * 2 ^ f = (bits_left low rd * 2 ^ (15 - e)) * 2 ^ (16 * (p - 1))"
      unfolding f power_add by (simp only: mult.assoc)
    also have "\<dots> = real_of_int w * 2 ^ (16 * (p - 1)) + (real (words_value vs) + bits_left low rd2)"
      unfolding w'(2) distrib_right vs(4) ..
    finally show ?thesis by (simp add: r_def)
  qed
  then have round: "\<lfloor>bits_left low rd * 2 ^ f + 1 / 2\<rfloor> = r + b"
    using floor_round b'(1) bits_left_range by blast
  have r: "0 \<le> r" "r < 2 ^ f"
  proof -
    show "0 \<le> r" using w'(3) by (simp add: r_def)
    have "bits_left low rd * 2 ^ f < 1 * 2 ^ f" using bits_left_range(2) by (intro mult_strict_right_mono) simp_all
    then have "real_of_int r < 2 ^ f" using whole bits_left_range(1) [of low rd2] by linarith
    then have "real_of_int r < real_of_int (2 ^ f)" by (simp only: of_int_power of_int_numeral)
    then show "r < 2 ^ f" by (simp only: of_int_less_iff)
  qed
  let ?word1 = "(if neg then 0x8000 else 0) OR of_int (push_bit (15 - e) E) OR (of_int w :: u16)"
  let ?ws = "?word1 # vs"
  have len: "length ?ws = p" using vs(2) p by simp
  have pow: "2 ^ 15 * (2 :: int) ^ (16 * (p - 1)) = 2 ^ (16 * p - 1)" "2 ^ (15 - e) * (2 :: int) ^ (16 * (p - 1)) = 2 ^ f"
    "(2 :: int) ^ e * 2 ^ f = 2 ^ (16 * p - 1)" "(2 :: int) ^ (16 * p) = 2 * 2 ^ (16 * p - 1)"
    unfolding power_add [symmetric] power_Suc [symmetric] f using e p by simp_all
  have less: "E < 2 ^ e" using E(2) by simp
  have val: "int (words_value ?ws) = ?S + E * 2 ^ f + r"
  proof -
    have "real_of_int (int (words_value ?ws)) =
        ((if neg then 2 ^ 15 else 0) + real_of_int E * 2 ^ (15 - e) + real_of_int w) * 2 ^ (16 * (p - 1)) + real (words_value vs)"
      by (simp only: words_value_Cons of_int_of_nat_eq of_nat_add of_nat_mult of_nat_power of_nat_numeral of_int_add of_int_mult
          of_int_power of_int_numeral vs(2) power_mult or_parts [OF e E(1) less w'(3,4)])
    also have "\<dots> = real_of_int (((if neg then 2 ^ 15 else 0) + E * 2 ^ (15 - e) + w) * 2 ^ (16 * (p - 1)) + int (words_value vs))"
      by simp
    finally have "int (words_value ?ws) =
        ((if neg then 2 ^ 15 else 0) + E * 2 ^ (15 - e) + w) * 2 ^ (16 * (p - 1)) + int (words_value vs)"
      by (simp only: of_int_eq_iff)
    also have "\<dots> = (if neg then 2 ^ 15 * 2 ^ (16 * (p - 1)) else 0) + E * (2 ^ (15 - e) * 2 ^ (16 * (p - 1))) + r"
      unfolding r_def by (cases neg) (simp_all only: if_True if_False algebra_simps)
    finally show ?thesis unfolding pow .
  qed
  have "(E + 1) * 2 ^ f < 2 ^ e * 2 ^ f" using E(2) by (intro mult_strict_right_mono) simp_all
  then have room: "E * 2 ^ f + r + 1 < 2 ^ (16 * p - 1)" using r(2) unfolding pow distrib_right by linarith
  have E0: "0 \<le> E * 2 ^ f" using E(1) by simp
  show ?thesis
  proof (cases "b = 0")
    case True
    have "normal low p e neg E rd = Some ?ws"
      using x w vs(1) b True by (simp add: normal_def Let_def)
    then show ?thesis using len val round True unfolding f_def [symmetric] by auto
  next
    case False
    then have b1: "b = 1" using b'(2,3) by simp
    let ?us = "rev (add_carry (rev ?ws))"
    have us: "int (words_value ?us) = ?S + E * 2 ^ f + r + 1"
    proof -
      have "?S \<le> 2 ^ (16 * p - 1)" by simp
      then have "int (words_value ?ws + 1) < 2 ^ (16 * p)"
        unfolding of_nat_add of_nat_1 val pow(4) using room by linarith
      then have "int (words_value ?ws + 1) < int (radix ^ p)" by (simp only: power_mult of_nat_power of_nat_numeral)
      then have "words_value ?ws + 1 < radix ^ p" by (simp only: of_nat_less_iff)
      then have "words_value ?us = words_value ?ws + 1" unfolding words_value_add_carry len by (rule mod_less)
      then show ?thesis using val by simp
    qed
    have "length ?us = p" unfolding length_rev length_add_carry len ..
    moreover have "?us \<noteq> []" using \<open>length ?us = p\<close> p by (metis list.size(3) not_one_le_zero)
    ultimately have sign: "?us \<noteq> []" "length ?us = p" by blast+
    have "int (2 ^ (16 * p - 1)) \<le> int (words_value ?us) \<longleftrightarrow> int (2 ^ (16 * p - 1)) \<le> int (words_value ?ws)"
      unfolding us val of_nat_power of_nat_numeral using room r(1) E0 by simp
    then have "hd ?us AND 0x8000 \<noteq> 0 \<longleftrightarrow> hd ?ws AND 0x8000 \<noteq> 0"
      using first_word_sign [OF sign(1)] first_word_sign [of ?ws] len sign(2) by (simp only: of_nat_le_iff) simp
    then have "\<not> (?word1 XOR hd ?us) AND 0x8000 \<noteq> 0" unfolding xor_sign by simp
    then have "normal low p e neg E rd = Some ?us"
      using x w vs(1) b b1 by (simp add: normal_def Let_def)
    then show ?thesis using sign(2) us round b1 unfolding f_def [symmetric] by auto
  qed
qed

section \<open>What a float stands for\<close>

text \<open>
  Words with a sign, \<open>e\<close> bits of exponent and \<open>f\<close> bits of mantissa; infinities are read as the numbers that would
  come next.
\<close>

definition float_value :: "nat \<Rightarrow> u16 list \<Rightarrow> real" where
  "float_value e ws =
     (let f = 16 * length ws - 1 - e; n = words_value ws; x = n div 2 ^ f mod 2 ^ e; m = n mod 2 ^ f
      in (if 2 ^ (16 * length ws - 1) \<le> n then -1 else 1) *
         (if x = 0 then real m * 2 powi (2 - 2 ^ (e - 1) - int f)
          else real (2 ^ f + m) * 2 powi (int x + 1 - 2 ^ (e - 1) - int f)))"

definition flonum_value :: "flonum \<Rightarrow> real" where
  "flonum_value g =
     (if fl_sign g = CHR ''-'' then -1 else 1) * real (mantissa (digits_of g)) * 2 powi (16 * fl_exponent g)"

lemma float_value_eq:
  assumes "length ws = p" "e < 16 * p" and "f = 16 * p - 1 - e"
    and "words_value ws = (if neg then 2 ^ (16 * p - 1) else 0) + x * 2 ^ f + r"
    and "1 \<le> x" "x + 1 < 2 ^ e" "r \<le> 2 ^ f"
  shows "float_value e ws =
    (if neg then -1 else 1) * (2 ^ f + real r) * 2 powi (int x + 1 - 2 ^ (e - 1) - int f)"
proof -
  let ?n = "words_value ws"
  have pow: "2 ^ (16 * p - 1) = 2 ^ e * (2 :: nat) ^ f" using assms(2,3) by (simp flip: power_add)
  have n: "?n = ((if neg then 2 ^ e else 0) + x) * 2 ^ f + r" unfolding assms(4) pow by (simp add: add_mult_distrib)
  have "x * 2 ^ f + r < 2 ^ e * 2 ^ f"
  proof -
    have "x * 2 ^ f + r \<le> (x + 1) * 2 ^ f" using assms(7) by simp
    also have "\<dots> < 2 ^ e * 2 ^ f" using assms(6) by (intro mult_strict_right_mono) simp_all
    finally show ?thesis .
  qed
  then have sign: "2 ^ (16 * p - 1) \<le> ?n \<longleftrightarrow> neg" unfolding pow assms(4) by auto
  have modulo: "((if neg then 2 ^ e else 0) + y) mod 2 ^ e = y" if "y < 2 ^ e" for y :: nat using that by auto
  show ?thesis
  proof (cases "r = 2 ^ f")
    case True
    have "?n = ((if neg then 2 ^ e else 0) + (x + 1)) * 2 ^ f" unfolding n True by (simp add: add_mult_distrib)
    then have "?n div 2 ^ f mod 2 ^ e = x + 1" "?n mod 2 ^ f = 0" using modulo [OF assms(6)] by simp_all
    moreover define a where "a = int x + 1 - 2 ^ (e - 1) - int f"
    have "int (Suc x) + 1 - 2 ^ (e - 1) - int f = 1 + a" by (simp add: a_def)
    ultimately have "float_value e ws = (if neg then -1 else 1) * 2 ^ f * 2 powi (1 + a)"
      unfolding float_value_def Let_def sign assms(1) assms(3) [symmetric]
      by (simp only: Suc_eq_plus1 [symmetric] nat.distinct if_False add_0_right of_nat_power of_nat_numeral mult.assoc)
    also have "2 powi (1 + a) = 2 * (2 :: real) powi a" by (simp add: power_int_add)
    finally show ?thesis unfolding True a_def by simp
  next
    case False
    then have r: "r < 2 ^ f" using assms(7) by simp
    then have "?n div 2 ^ f = (if neg then 2 ^ e else 0) + x" "?n mod 2 ^ f = r" unfolding n by simp_all
    then have "?n div 2 ^ f mod 2 ^ e = x" "?n mod 2 ^ f = r" using modulo [of x] assms(6) by simp_all
    then show ?thesis
      using assms(5) unfolding float_value_def Let_def sign assms(1) assms(3) [symmetric] by simp
  qed
qed

section \<open>Encoding\<close>

lemma start_bits:
  assumes "leader_ok g" "0 \<le> fl_leader g"
  defines "rd \<equiv> \<lparr>rd_bits = 16, rd_left = nat (fl_leader g + 1), rd_pointer = fl_leader g\<rparr>"
  shows "reader_ok (fl_low g) rd \<and>
    bits_left (fl_low g) rd * 2 ^ (16 * nat (fl_leader g + 1)) = real (mantissa (digits_of g))"
proof -
  let ?k = "nat (fl_leader g)"
  have k: "nat (fl_leader g + 1) = Suc ?k" "?k < length (fl_low g)" using assms(1,2) by (auto simp: leader_ok_def)
  have "unat (fl_low g ! ?k) mod 2 ^ 16 = unat (fl_low g ! ?k)" by simp
  then have "bits_left (fl_low g) rd = (real (unat (fl_low g ! ?k)) + below (fl_low g) ?k) / 2 ^ 16"
    by (simp only: bits_left_def rd_def k reader.select_convs diff_Suc_1 if_False nat.distinct)
  then have "bits_left (fl_low g) rd = below (fl_low g) (Suc ?k)" unfolding below_Suc [OF k(2)] .
  also have "\<dots> = real (mantissa (digits_of g)) / 2 ^ (16 * Suc ?k)"
    unfolding below_def digits_of_def k(1) by (simp only: power_mult of_nat_power of_nat_numeral)
  finally have "bits_left (fl_low g) rd * 2 ^ (16 * nat (fl_leader g + 1)) = real (mantissa (digits_of g))"
    unfolding k(1) by simp
  then show ?thesis using assms(2) k by (simp add: reader_ok_def rd_def leader_ok_def)
qed

lemma power_int_squeeze:
  assumes "2 powi a \<le> (x :: real)" "x < 2 powi (k + 1)" "2 powi k \<le> x" "x < 2 powi b"
  shows "a \<le> k" "k < b"
proof -
  show "a \<le> k"
  proof (rule ccontr)
    assume "\<not> a \<le> k"
    then have "(2 :: real) powi (k + 1) \<le> 2 powi a" by (intro power_int_increasing) simp_all
    then show False using assms(1,2) by linarith
  qed
  show "k < b"
  proof (rule ccontr)
    assume "\<not> k < b"
    then have "(2 :: real) powi b \<le> 2 powi k" by (intro power_int_increasing) simp_all
    then show False using assms(3,4) by linarith
  qed
qed

text \<open>
  A number in the range of the format is \<open>1 + y\<close> times a power of two, and its words are of the number with \<open>y\<close>
  rounded to the bits there are.
\<close>

lemma gen_to_words_rounds:
  assumes g: "leader_ok g" "signed g"
    and format: "1 \<le> p" "p \<le> length words" "1 \<le> e" "e \<le> 15" "\<not> extended p e"
    and range: "2 powi (2 - 2 ^ (e - 1)) \<le> \<bar>flonum_value g\<bar>" "\<bar>flonum_value g\<bar> < 2 powi (2 ^ (e - 1))"
  shows "\<exists>ws k y. gen_to_words g words p (Some e) = Some (ws @ drop p words) \<and> length ws = p \<and> 0 \<le> y \<and> y < 1 \<and>
    \<bar>flonum_value g\<bar> = (1 + y) * 2 powi k \<and>
    float_value e ws = (if fl_sign g = CHR ''-'' then -1 else 1) *
      (2 ^ (16 * p - 1 - e) + real_of_int \<lfloor>y * 2 ^ (16 * p - 1 - e) + 1 / 2\<rfloor>) * 2 powi (k - int (16 * p - 1 - e))"
proof -
  let ?M = "real (mantissa (digits_of g))" and ?n = "nat (fl_leader g + 1)" and ?neg = "fl_sign g = CHR ''-''"
  define f where "f = 16 * p - 1 - e"
  let ?rd = "\<lparr>rd_bits = 16, rd_left = ?n, rd_pointer = fl_leader g\<rparr>"
  have abs: "\<bar>flonum_value g\<bar> = ?M * 2 powi (16 * fl_exponent g)"
    by (simp add: flonum_value_def abs_mult)
  have "0 < (2 :: real) powi (2 - 2 ^ (e - 1))" by simp
  then have "0 < ?M * 2 powi (16 * fl_exponent g)" using range(1) unfolding abs by linarith
  then have "0 < ?M" by (simp add: zero_less_mult_iff)
  then have M: "1 \<le> ?M" "mantissa (digits_of g) \<noteq> 0" by simp_all
  have leader: "0 \<le> fl_leader g"
  proof (rule ccontr)
    assume "\<not> 0 \<le> fl_leader g"
    then have "digits_of g = []" by (simp add: digits_of_def)
    then show False using M(2) by simp
  qed
  have rd: "reader_ok (fl_low g) ?rd" "bits_left (fl_low g) ?rd * 2 ^ (16 * ?n) = ?M"
    using start_bits [OF g(1) leader] by simp_all
  obtain s rd' where s: "skip_zeros (fl_low g) 0 ?rd = Some (s, rd')" "reader_ok (fl_low g) rd'"
    "bits_left (fl_low g) ?rd * 2 ^ (s + 1) = 1 + bits_left (fl_low g) rd'"
    using skip_zeros_spec [OF rd(1), of "16 * ?n" 0] M(1) unfolding rd(2) by auto
  define y where "y = bits_left (fl_low g) rd'"
  define k where "k = 16 * (fl_exponent g + int ?n) - int (s + 1)"
  have y: "0 \<le> y" "y < 1" using bits_left_range by (simp_all add: y_def)
  have X: "\<bar>flonum_value g\<bar> = (1 + y) * 2 powi k"
  proof -
    have "2 powi k = 2 powi (16 * fl_exponent g) * 2 ^ (16 * ?n) / (2 :: real) ^ (s + 1)"
      unfolding k_def by (simp add: power_int_diff power_int_add distrib_left flip: power_int_of_nat)
    then have "(1 + y) * 2 powi k = bits_left (fl_low g) ?rd * 2 ^ (16 * ?n) * 2 powi (16 * fl_exponent g)"
      unfolding y_def s(3) [symmetric] by simp
    then show ?thesis unfolding abs rd(2) by simp
  qed
  have "2 powi k \<le> \<bar>flonum_value g\<bar>" "\<bar>flonum_value g\<bar> < 2 powi (k + 1)"
    using y unfolding X by (simp_all add: power_int_add)
  then have k: "2 - 2 ^ (e - 1) \<le> k" "k < 2 ^ (e - 1)"
    using power_int_squeeze [OF range(1)] range(2) by blast+
  define E where "E = k + 2 ^ (e - 1) - 1"
  have two: "2 * (2 :: int) ^ (e - 1) = 2 ^ e" using format(3) by (simp flip: power_Suc)
  have E: "1 \<le> E" "E + 1 < 2 ^ e" using k two by (simp_all add: E_def)
  have "(2 :: int) ^ e \<le> 2 ^ 15" using format(4) by (intro power_increasing) simp_all
  then have small: "wrap32 E = E" using E by (simp add: wrap32_def)
  have exponent: "(fl_exponent g + fl_leader g + 1) * 16 - int s + (2 ^ (e - 1) - 2) = E"
    using leader by (simp add: E_def k_def)
  have shifted: "drop_bit e E = 0" using E by (simp add: drop_bit_eq_div div_pos_pos_trivial)
  obtain ws where ws: "normal (fl_low g) p e (fl_sign g \<noteq> CHR ''+'') E rd' = Some ws" "length ws = p"
    "int (words_value ws) = (if fl_sign g \<noteq> CHR ''+'' then 2 ^ (16 * p - 1) else 0) + E * 2 ^ f + \<lfloor>y * 2 ^ f + 1 / 2\<rfloor>"
    using normal_spec [OF s(2) format(4) format(1) format(5) _ E(2)] E(1) unfolding f_def y_def by auto
  have neg: "fl_sign g \<noteq> CHR ''+'' \<longleftrightarrow> ?neg" using g(2) by (auto simp: signed_def)
  have signs: "fl_sign g \<noteq> CHR 0x00" "fl_sign g \<noteq> CHR ''P''" "fl_sign g \<noteq> CHR ''N''" using g(2) by (auto simp: signed_def)
  have full: "wrap32 ((fl_exponent g + fl_leader g + 1) * 16 - int s + (2 ^ (e - 1) - 2)) = E"
    unfolding exponent by (rule small)
  have conditions: "\<not> fl_leader g < 0" "\<not> (E < 1 \<and> E \<ge> -62)" "\<not> drop_bit e E \<noteq> 0" using leader E(1) shifted by auto
  have run: "gen_to_words g words p (Some e) = Some (ws @ drop p words)"
    unfolding gen_to_words_def
    by (simp only: signs conditions if_False bind.bind_lunit s(1) prod.case Let_def full ws(1) put_words_def ws(2) format(2) if_True)
  define r where "r = nat \<lfloor>y * 2 ^ f + 1 / 2\<rfloor>"
  have r: "int r = \<lfloor>y * 2 ^ f + 1 / 2\<rfloor>" using y by (simp add: r_def)
  have "y * 2 ^ f < 1 * 2 ^ f" using y(2) by (intro mult_strict_right_mono) simp_all
  then have "\<lfloor>y * 2 ^ f + 1 / 2\<rfloor> \<le> 2 ^ f" unfolding floor_le_iff of_int_power of_int_numeral by linarith
  then have "int r \<le> int (2 ^ f)" unfolding r by simp
  then have "r \<le> 2 ^ f" by (simp only: of_nat_le_iff)
  moreover have "int (words_value ws) = int ((if ?neg then 2 ^ (16 * p - 1) else 0) + nat E * 2 ^ f + r)"
    unfolding ws(3) neg r [symmetric] using E(1) by simp
  then have "words_value ws = (if ?neg then 2 ^ (16 * p - 1) else 0) + nat E * 2 ^ f + r" by (simp only: of_nat_eq_iff)
  moreover have "int (nat E + 1) < int (2 ^ e)" using E by simp
  then have "nat E + 1 < 2 ^ e" by (simp only: of_nat_less_iff)
  ultimately have "float_value e ws = (if ?neg then -1 else 1) * (2 ^ f + real r) * 2 powi (int (nat E) + 1 - 2 ^ (e - 1) - int f)"
    using ws(2) format E by (intro float_value_eq [where p = p]) (simp_all add: f_def nat_less_iff)
  moreover have "int (nat E) + 1 - 2 ^ (e - 1) - int f = k - int f" using E(1) by (simp add: E_def)
  moreover have "real r = real_of_int \<lfloor>y * 2 ^ f + 1 / 2\<rfloor>" unfolding r [symmetric] by (rule of_int_of_nat_eq [symmetric])
  ultimately have "float_value e ws = (if ?neg then -1 else 1) * (2 ^ f + real_of_int \<lfloor>y * 2 ^ f + 1 / 2\<rfloor>) * 2 powi (k - int f)"
    by (simp only:)
  then show ?thesis using run ws(2) y X unfolding f_def by blast
qed



section \<open>Integers\<close>

lemma floor_int_half: "real_of_int \<lfloor>real_of_int z + 1 / 2\<rfloor> = real_of_int z"
proof -
  have "\<lfloor>real_of_int z + 1 / 2\<rfloor> = z" by (simp add: floor_eq_iff)
  then show ?thesis by simp
qed

lemma integers_exact:
  assumes "leader_ok g" "signed g" and "1 \<le> p" "p \<le> length words" "2 \<le> e" "e \<le> 15" "\<not> extended p e" "16 * p - e \<le> 2 ^ (e - 1)"
    and n: "\<bar>flonum_value g\<bar> = real n" "0 < n" "n < 2 ^ (16 * p - e)" and "e < 16 * p"
  shows "\<exists>ws. gen_to_words g words p (Some e) = Some (ws @ drop p words) \<and> length ws = p \<and> float_value e ws = flonum_value g"
proof -
  define f where "f = 16 * p - 1 - e"
  have f: "16 * p - e = f + 1" using assms(12) by (simp add: f_def)
  let ?s = "if fl_sign g = CHR ''-'' then -1 else 1 :: real"
  have "2 ^ 1 \<le> (2 :: int) ^ (e - 1)" using assms(5) by (intro power_increasing) simp_all
  then have "2 powi (2 - 2 ^ (e - 1)) \<le> (2 :: real) powi 0" by (intro power_int_increasing) simp_all
  then have low: "2 powi (2 - 2 ^ (e - 1)) \<le> \<bar>flonum_value g\<bar>" unfolding n(1) using n(2) by simp
  have "real n < real (2 ^ (f + 1))" using n(3) unfolding f by (simp only: of_nat_less_iff)
  then have less: "\<bar>flonum_value g\<bar> < 2 powi (int f + 1)" unfolding n(1) by (simp add: power_int_add)
  have "int f + 1 \<le> int (2 ^ (e - 1))" using assms(8) unfolding f by (metis of_nat_1 of_nat_add of_nat_le_iff)
  then have "(2 :: real) powi (int f + 1) \<le> 2 powi (2 ^ (e - 1))" by (intro power_int_increasing) simp_all
  then have high: "\<bar>flonum_value g\<bar> < 2 powi (2 ^ (e - 1))" using less by linarith
  have e1: "1 \<le> e" using assms(5) by simp
  obtain ws k y where w: "gen_to_words g words p (Some e) = Some (ws @ drop p words)" "length ws = p" "0 \<le> y" "y < 1"
    "\<bar>flonum_value g\<bar> = (1 + y) * 2 powi k"
    "float_value e ws = ?s * (2 ^ f + real_of_int \<lfloor>y * 2 ^ f + 1 / 2\<rfloor>) * 2 powi (k - int f)"
    using gen_to_words_rounds [OF assms(1-4) e1 assms(6,7) low high] unfolding f_def by blast
  have "2 powi k \<le> \<bar>flonum_value g\<bar>" "\<bar>flonum_value g\<bar> < 2 powi (k + 1)"
    using w(3,4) unfolding w(5) by (simp_all add: power_int_add)
  then have "k < int f + 1" using power_int_squeeze(2) [of k "\<bar>flonum_value g\<bar>" k "int f + 1"] less by simp
  then obtain d where d: "int f = k + int d" using zle_iff_zadd [of k "int f"] by auto
  have unit: "2 powi k = 2 ^ f * (2 :: real) powi (k - int f)" by (simp add: power_int_diff)
  have split: "real n = (2 ^ f + y * 2 ^ f) * 2 powi (k - int f)"
    using w(5) unfolding n(1) unit by (simp add: algebra_simps)
  have "(2 :: real) powi (k - int f) * 2 ^ d = 1" unfolding d by (simp add: power_int_minus)
  then have "real n * 2 ^ d = 2 ^ f + y * 2 ^ f" unfolding split by (simp add: mult.assoc)
  then have "y * 2 ^ f = real_of_int (int n * 2 ^ d - 2 ^ f)" by simp
  then have "real_of_int \<lfloor>y * 2 ^ f + 1 / 2\<rfloor> = y * 2 ^ f" by (simp only: floor_int_half)
  then have "float_value e ws = ?s * real n" unfolding w(6) split by (simp only: mult.assoc)
  also have "?s * real n = flonum_value g" unfolding n(1) [symmetric] by (simp add: flonum_value_def abs_mult)
  finally show ?thesis using w(1,2) by blast
qed

lemma flonum_power: "m * radix ^ k = n \<Longrightarrow> real n = real m * 2 powi (16 * int k)"
  by (auto simp: power_int_mult power_mult)

text \<open>
  C19: A positive decimal integer, with a sign or without, whose value has no more bits than the mantissa of a single
  or double float is encoded exactly, whatever follows it and whatever the arrays held before.
\<close>

theorem atof_ieee_integers:
  assumes "format_of what_kind = Some (p, Some e)" "p \<noteq> X_PRECISION"
    and "sg = [] \<or> sg = ''+'' \<or> sg = ''-''"
    and "list_all isdigit ds" "ds \<noteq> []" "length ds \<le> maximum_useful_digits (p + 2)"
    and "0 < decimal ds" "decimal ds < 2 ^ (16 * p - e)"
    and "CHR ''.'' \<notin> set ds" "set ds \<inter> set md_EXP_CHARS = {}" and "stops ''.'' md_EXP_CHARS rest"
    and "p + 2 \<le> length bits" "p \<le> length words"
  shows "\<exists>ws. atof_ieee h junk md_EXP_CHARS bits (sg @ ds @ rest) what_kind words =
      Some (Some (length (sg @ ds)), ws @ drop p words) \<and> length ws = p \<and>
    float_value e ws = (if sg = ''-'' then -1 else 1) * real (decimal ds)"
proof -
  have format: "p = 2 \<and> e = 8 \<or> p = 4 \<and> e = 11"
    using assms(1,2) by (auto simp: format_of_def F_PRECISION_def D_PRECISION_def X_PRECISION_def P_PRECISION_def split: if_splits)
  let ?g = "\<lparr>fl_low = take (p + GUARD) bits, fl_leader = -1, fl_exponent = 0, fl_sign = CHR 0x00\<rparr>"
  have len: "length (fl_low ?g) = p + 2" using assms(12) by (simp add: GUARD_def)
  have "set ds \<inter> (set ''.'' \<union> set md_EXP_CHARS) = {}" using assms(9,10) by auto
  then obtain f k where f: "atof_generic h junk ''.'' md_EXP_CHARS (sg @ ds @ rest) ?g = Some (0, length (sg @ ds), f)"
    "leader_ok f" "fl_sign f = (if sg = ''-'' then CHR ''-'' else CHR ''+'')" "fl_exponent f = int k"
    "mantissa (digits_of f) * radix ^ k = decimal ds"
    using atof_generic_integer [OF assms(3-5), of ?g "''.''" md_EXP_CHARS rest h junk] assms(6,11) format unfolding len by auto
  have "real (decimal ds) = real (mantissa (digits_of f)) * 2 powi (16 * fl_exponent f)"
    unfolding f(4) by (rule flonum_power [OF f(5)])
  then have v: "flonum_value f = (if sg = ''-'' then -1 else 1) * real (decimal ds)"
    by (simp add: flonum_value_def f(3))
  have signed: "signed f" using f(3) by (simp add: signed_def)
  have abs: "\<bar>flonum_value f\<bar> = real (decimal ds)" unfolding v by simp
  have side: "1 \<le> p" "2 \<le> e" "e \<le> 15" "\<not> extended p e" "16 * p - e \<le> 2 ^ (e - 1)" "e < 16 * p"
    using format by (auto simp: extended_def X_PRECISION_def)
  obtain ws where "gen_to_words f words p (Some e) = Some (ws @ drop p words)" "length ws = p" "float_value e ws = flonum_value f"
    using integers_exact [OF f(2) signed side(1) assms(13) side(2-5) abs assms(7,8) side(6)] by blast
  then show ?thesis unfolding atof_ieee_def assms(1) using f(1) v by simp
qed

theorem atof_ieee_integers_witness:
  "\<exists>ws. atof_ieee LITTLE_ENDIAN_BYTE_SEX [1, 2] ''eE'' (replicate 6 9) ''-0016777215,'' CHR ''f'' (replicate 6 7) =
      Some (Some (length ''-0016777215''), ws @ replicate 4 7) \<and> length ws = 2 \<and> float_value 8 ws = -16777215"
  using atof_ieee_integers [of "CHR ''f''" 2 8 "''-''" "''0016777215''" "''eE''" "'',''" "replicate 6 9" "replicate 6 7"
      LITTLE_ENDIAN_BYTE_SEX "[1, 2]"]
  by (simp add: format_of_def F_PRECISION_def X_PRECISION_def isdigit_iff stops_def decimal_def decimal_from_def digit_value_def
      maximum_useful_digits_def LOG_TO_BASE_2_OF_10_def)

section \<open>Numbers of the program\<close>

lemma decimal_append: "decimal (ds @ [c]) = 10 * decimal ds + digit_value c"
  by (simp add: decimal_def decimal_from_def)

lemma digit_char: "k < 10 \<Longrightarrow> isdigit (char_of (48 + k)) \<and> digit_value (char_of (48 + k)) = k"
  by (simp add: isdigit_iff digit_value_def of_char_of)

lemma decimal_digits_spec: "list_all isdigit (decimal_digits n) \<and> decimal (decimal_digits n) = n \<and> decimal_digits n \<noteq> []"
proof (induction n rule: decimal_digits.induct)
  case (1 n)
  show ?case
  proof (cases "n < 10")
    case True
    then show ?thesis
      using digit_char [of n] by (subst (1 2 3) decimal_digits.simps) (simp add: decimal_def decimal_from_def)
  next
    case False
    then show ?thesis
      using digit_char [of "n mod 10"] 1 by (subst (1 2 3) decimal_digits.simps) (simp add: decimal_append)
  qed
qed

lemma length_decimal_digits: "n < 10 ^ Suc k \<Longrightarrow> length (decimal_digits n) \<le> Suc k"
proof (induction k arbitrary: n)
  case 0
  then show ?case by (subst decimal_digits.simps) simp
next
  case (Suc k)
  then have "n div 10 < 10 ^ Suc k" by (simp add: less_mult_imp_div_less mult.commute)
  then show ?case using Suc.IH [of "n div 10"] by (subst decimal_digits.simps) simp
qed

text \<open>
  C21: A number of 32 bits with a sign gets its exact value, whatever the number was before, if there is room for four
  to eight littlenums.
\<close>

theorem int_to_gen_exact:
  assumes "\<bar>x\<bar> \<le> 2 ^ 31" and "4 \<le> length (fl_low g)" "length (fl_low g) \<le> 8" and "list_all (\<lambda>c. \<not> isdigit c) md_EXP_CHARS"
  shows "\<exists>f. int_to_gen h junk md_EXP_CHARS g x = Some f \<and> leader_ok f \<and> flonum_value f = of_int x"
proof -
  let ?n = "nat \<bar>x\<bar>"
  define sg where "sg = (if x < 0 then ''-'' else [])"
  have sg: "sg = [] \<or> sg = ''+'' \<or> sg = ''-''" by (simp add: sg_def)
  note digits = decimal_digits_spec [of ?n]
  have "?n < 10 ^ Suc 9" using assms(1) by simp
  then have "length (decimal_digits ?n) \<le> 10" using length_decimal_digits [of ?n 9] by simp
  also have "10 \<le> maximum_useful_digits (length (fl_low g))"
    using assms(2) by (simp add: maximum_useful_digits_def LOG_TO_BASE_2_OF_10_def)
  finally have len: "length (decimal_digits ?n) \<le> maximum_useful_digits (length (fl_low g))" .
  have "set (decimal_digits ?n) \<inter> (set ''.'' \<union> set md_EXP_CHARS) = {}"
    using digits assms(4) by (auto simp: list_all_iff isdigit_iff)
  then obtain f k where f: "atof_generic h junk ''.'' md_EXP_CHARS (sg @ decimal_digits ?n @ []) g =
      Some (0, length (sg @ decimal_digits ?n), f)" "leader_ok f"
    "fl_sign f = (if sg = ''-'' then CHR ''-'' else CHR ''+'')" "fl_exponent f = int k"
    "mantissa (digits_of f) * radix ^ k = decimal (decimal_digits ?n)"
    using atof_generic_integer [OF sg _ _ len assms(2,3), of "''.''" md_EXP_CHARS "[]" h junk] digits
    by (auto simp: stops_def)
  have "real ?n = real (mantissa (digits_of f)) * 2 powi (16 * fl_exponent f)"
    using digits f(4,5) by (metis flonum_power)
  then have "flonum_value f = (if x < 0 then -1 else 1) * real ?n"
    unfolding flonum_value_def f(3) mult.assoc by (simp only: sg_def list.distinct if_split) simp
  then have "flonum_value f = of_int x" by simp
  then show ?thesis using f(1,2) by (auto simp: int_to_gen_def sprintf_ld_def sg_def)
qed

theorem int_to_gen_exact_witness:
  "\<exists>f. int_to_gen LITTLE_ENDIAN_BYTE_SEX [3] ''eE'' (flonum_of [1, 2, 3, 4] 9) (-2147483648) = Some f \<and> leader_ok f \<and>
     flonum_value f = -2147483648"
  using int_to_gen_exact [of "-2147483648" "flonum_of [1, 2, 3, 4] 9" "''eE''"] by (simp add: flonum_of_def isdigit_iff)

section \<open>Outside the range\<close>

definition single :: "string \<Rightarrow> (nat option \<times> u16 list) option" where
  "single s = atof_ieee LITTLE_ENDIAN_BYTE_SEX (replicate 4 0) ''eE'' (replicate 4 0) s CHR ''f'' (replicate 6 0)"

lemma single_1: "single ''1e-64'' = Some (Some 5, [0x7f80, 0, 0, 0, 0, 0])"
  by code_simp

lemma single_2: "single ''4e38'' = Some (Some 4, [0x7f96, 0x7699, 0, 0, 0, 0])"
  by code_simp

lemma single_3: "single ''91835200e-48'' = Some (Some 12, [0, 0, 0, 0, 0, 0])"
  by code_simp

lemma single_4: "single ''300e-48'' = Some (Some 7, [0, 0, 0x36ce, 0, 0, 0])"
  by code_simp


end
