(* ===== verification/Spec2Isabelle.thy ===== *)
theory Spec2Isabelle
  imports BestArch SwapHeadersSound AsHash Crc Hppa Version Reloc ArchiveSound CStringOrder LipoInput ShortName AtofIeeeSound
begin

text \<open>
  \<^bold>\<open>A model of the core of cctools.\<close>  The repository is Apple's tool chain for Mach-O files: the
  library \<^verbatim>\<open>libstuff\<close> that every tool links, the assembler \<^verbatim>\<open>as\<close>, the linker \<^verbatim>\<open>ld\<close>, the tools on
  archives and object files, and beside them \<^verbatim>\<open>ld64\<close> and \<^verbatim>\<open>distcc\<close>.  What the tools have in common is
  \<^verbatim>\<open>libstuff\<close>: a file is mapped, its kind found (fat file, archive, object file), its structs brought to
  the byte order of the host and every offset and size in it checked before a tool follows it.  The
  development models that code, and components of the assembler and the linker with a contract of
  their own.  All paths are under \<^verbatim>\<open>src/cctools\<close>.

  \<^bold>\<open>Theories and code.\<close>
  \<^item> \<open>Prelude\<close>: machine words as bytes, a mapped file as a list of bytes; reads give \<open>None\<close> outside.
  \<^item> \<open>ByteSex\<close>, \<open>MachO\<close>, \<open>SwapStructs\<close>, \<open>SwapBits\<close>, \<open>ThreadState\<close>: \<^verbatim>\<open>libstuff/bytesex.c\<close> with the structs of
    \<^verbatim>\<open>include/mach-o\<close> and the thread states of \<^verbatim>\<open>include/mach\<close>.  A struct is a record with a codec (its
    layout, its fields, how it is built from them); \<^verbatim>\<open>swap_X\<close> is a function on the record.  The locales
    \<open>mach_struct\<close> and \<open>swappable_struct\<close> are the contract; every struct interprets them.
  \<^item> \<open>Arch\<close>, \<open>BestArch\<close>: \<^verbatim>\<open>libstuff/arch.c\<close>, \<^verbatim>\<open>libstuff/best_arch.c\<close>.
  \<^item> \<open>OFile\<close>, \<open>CheckThreads\<close>, \<open>CheckMachO\<close>: the checks of \<^verbatim>\<open>libstuff/ofile.c\<close> for fat files and object files,
    \<^verbatim>\<open>check_Mach_O\<close> with every load command; \<open>CheckFrame\<close> says which bytes they write, \<open>CheckSound\<close> what
    an accepted file is.
  \<^item> \<open>SwapHeaders\<close>, \<open>SwapHeadersSound\<close>: \<^verbatim>\<open>libstuff/swap_headers.c\<close>, both passes, and \<^verbatim>\<open>swap_back_Mach_O\<close>.
  \<^item> \<open>CString\<close>: strings and \<^verbatim>\<open>strtoul\<close> of the C library, as the code uses them.
  \<^item> \<open>Archive\<close>, \<open>ArchiveSound\<close>: \<^verbatim>\<open>check_archive\<close> of \<^verbatim>\<open>libstuff/ofile.c\<close> and \<^verbatim>\<open>libstuff/get_toc_byte_sex.c\<close>.
  \<^item> \<open>Version\<close>, \<open>Reloc\<close>, \<open>Crc\<close>, \<open>Hppa\<close>: \<^verbatim>\<open>version_number.c\<close>, \<^verbatim>\<open>round.c\<close>, \<^verbatim>\<open>hash_string.c\<close>, \<^verbatim>\<open>reloc.c\<close>, \<^verbatim>\<open>crc32.c\<close> and
    \<^verbatim>\<open>hppa.c\<close> of \<^verbatim>\<open>libstuff\<close>.
  \<^item> \<open>AsHash\<close>: \<^verbatim>\<open>as/hash.c\<close>, the hash table of the assembler, against an abstract map (locale
    \<open>symbol_table\<close>).
  \<^item> \<open>FineReloc\<close>: the maps by which the linker places the items of an input section, \<^verbatim>\<open>ld/objects.c\<close> and
    \<^verbatim>\<open>ld/sections.c\<close>.
  \<^item> \<open>Literals\<close>, \<open>FixedLiterals\<close>, \<open>LiteralOrder\<close>, \<open>CStringLiterals\<close>, \<open>CStringOrder\<close>: sections of literals,
    \<^verbatim>\<open>ld/4byte_literals.c\<close>, \<^verbatim>\<open>ld/8byte_literals.c\<close> and \<^verbatim>\<open>ld/cstring_literals.c\<close>.  The contract between lookup,
    merging and output is the locales \<open>literal_pool\<close> and \<open>literal_section\<close>; the literals of 4 and 8 bytes
    and the strings interpret them.
  \<^item> \<open>Lipo\<close>, \<open>LipoSound\<close>, \<open>LipoInput\<close>: \<^verbatim>\<open>misc/lipo.c\<close>, the tool that makes fat files and takes them apart:
    its operations and the file they write, what that file is, and the files it takes.
  \<^item> \<open>ShortName\<close>: \<^verbatim>\<open>libstuff/guess_short_name.c\<close>, the short names of libraries and frameworks.
  \<^item> \<open>Flonum\<close>, \<open>FlonumSound\<close>: \<^verbatim>\<open>as/flonum-mult.c\<close> and \<^verbatim>\<open>as/flonum-copy.c\<close>, the floating point numbers of the assembler,
    and their values.
  \<^item> \<open>AtofGeneric\<close>, \<open>AtofSound\<close>: \<^verbatim>\<open>as/atof-generic.c\<close> and \<^verbatim>\<open>as/flonum-const.c\<close>, the reading of decimal numbers.
  \<^item> \<open>AtofIeee\<close>, \<open>AtofIeeeSound\<close>: \<^verbatim>\<open>as/atof-ieee.c\<close>, their encoding as floats.

  \<^bold>\<open>Conventions.\<close>  The code is read as it is built: \<^verbatim>\<open>unsigned long\<close> and pointers have 32 bits, \<^verbatim>\<open>char\<close> is
  signed, sums are taken modulo \<open>2 ^ 32\<close> wherever the code takes them so.  A pointer into a mapped file is
  an offset, and the offset itself does not wrap.  The byte order of the host is a parameter \<open>h\<close>.  A
  function that prints an error and returns \<^verbatim>\<open>CHECK_BAD\<close> gives \<open>CHECK_BAD\<close> with a value of an error type;
  \<open>FAULT\<close> is a read or write outside the mapped file; structs are read as a whole, also where the code
  reads only some of their fields.  Locals that the code may use before it sets them are parameters.

  \<^bold>\<open>What the theorems show.\<close>  Swapping: a swapped struct, command or header is what a machine of the other
  byte order reads, and swapping is its own inverse; the exceptions are theorems too.  Checks: what
  acceptance means, in terms of the file and not of the code, for fat files, archives and object files
  (tables in the file, commands that fill their space, unique commands, symbol groups, one cputype),
  where the 32-bit sums let more pass, and that checking changes no byte of a file in the order of the
  host.  Choice of slices: the exact slice is taken, and what is chosen can be executed.  Small
  routines: the checksum is a division with remainder and detects short bursts, immediates and
  version numbers are read back, switches over relocation types agree.  Containers: a run of operations
  refines an abstract map or pool.  Literal sections: every byte of an input section is in the output file
  at the offset its map gives, and dead stripping leaves exactly the live literals, those of an order file
  first.  Fat files: what \<^verbatim>\<open>lipo\<close> writes passes the checks of \<^verbatim>\<open>libstuff\<close>, every input comes back from it
  unchanged, and extraction and removal split it.  Numbers of the assembler: a product is the exact product cut
  off where it has no room, unless a sum overflows 32 bits; every string is read within the arrays, what is in
  the range of a format is encoded as a nearest float and decimal integers exactly, and what goes wrong outside
  the range.  Short names: the documented forms are recognised, and which names make the
  code write outside its memory.

  \<^bold>\<open>Termination.\<close>  Loops over a file move forward and have a measure; the loop of \<^verbatim>\<open>check_archive\<close> need
  not end and is a partial function: it is shown to end unless an offset wraps, and not to end on an
  archive where it does.  No fuel is used.

  \<^bold>\<open>Not modelled.\<close>  Printing, allocation, processes and file I/O of \<^verbatim>\<open>libstuff\<close>; the iteration over
  architectures and members around the checks (\<^verbatim>\<open>ofile_process\<close> and what it calls); symbol lists; the parsers and
  machine descriptions of the assembler; the passes of the linker; the tools other than \<^verbatim>\<open>lipo\<close>; \<^verbatim>\<open>ld64\<close>
  (C++); \<^verbatim>\<open>distcc\<close> and the bundled libraries, which are third-party code.  Not done either, though within reach: the
  layout a tool writes (\<^verbatim>\<open>libstuff/writeout.c\<close>), the relaxation of the assembler
  (\<^verbatim>\<open>as/layout.c\<close>), \<^verbatim>\<open>libmacho\<close> as a second copy of the tables and swaps.
\<close>

section \<open>Every struct of the format\<close>

text \<open>
  C37: The meaning of the 35 swap routines that reverse every integer of their struct: what a
  machine of the other byte order reads at an address is the swapped value of what this machine
  reads there.
\<close>

theorem swaps_read_other_byte_order:
  "load fat_header_codec (other_byte_sex h) m off = map_option swap_fat_header (load fat_header_codec h m off) \<and>
     load fat_arch_codec (other_byte_sex h) m off = map_option swap_fat_arch (load fat_arch_codec h m off) \<and>
     load mach_header_codec (other_byte_sex h) m off = map_option swap_mach_header (load mach_header_codec h m off) \<and>
     load mach_header_64_codec (other_byte_sex h) m off = map_option swap_mach_header_64 (load mach_header_64_codec h m off) \<and>
     load load_command_codec (other_byte_sex h) m off = map_option swap_load_command (load load_command_codec h m off) \<and>
     load segment_command_codec (other_byte_sex h) m off = map_option swap_segment_command (load segment_command_codec h m off) \<and>
     load segment_command_64_codec (other_byte_sex h) m off = map_option swap_segment_command_64 (load segment_command_64_codec h m off) \<and>
     load section_codec (other_byte_sex h) m off = map_option swap_section (load section_codec h m off) \<and>
     load symtab_command_codec (other_byte_sex h) m off = map_option swap_symtab_command (load symtab_command_codec h m off) \<and>
     load dysymtab_command_codec (other_byte_sex h) m off = map_option swap_dysymtab_command (load dysymtab_command_codec h m off) \<and>
     load symseg_command_codec (other_byte_sex h) m off = map_option swap_symseg_command (load symseg_command_codec h m off) \<and>
     load fvmlib_command_codec (other_byte_sex h) m off = map_option swap_fvmlib_command (load fvmlib_command_codec h m off) \<and>
     load dylib_command_codec (other_byte_sex h) m off = map_option swap_dylib_command (load dylib_command_codec h m off) \<and>
     load sub_framework_command_codec (other_byte_sex h) m off = map_option swap_sub_framework_command (load sub_framework_command_codec h m off) \<and>
     load sub_umbrella_command_codec (other_byte_sex h) m off = map_option swap_sub_umbrella_command (load sub_umbrella_command_codec h m off) \<and>
     load sub_library_command_codec (other_byte_sex h) m off = map_option swap_sub_library_command (load sub_library_command_codec h m off) \<and>
     load sub_client_command_codec (other_byte_sex h) m off = map_option swap_sub_client_command (load sub_client_command_codec h m off) \<and>
     load prebound_dylib_command_codec (other_byte_sex h) m off = map_option swap_prebound_dylib_command (load prebound_dylib_command_codec h m off) \<and>
     load dylinker_command_codec (other_byte_sex h) m off = map_option swap_dylinker_command (load dylinker_command_codec h m off) \<and>
     load fvmfile_command_codec (other_byte_sex h) m off = map_option swap_fvmfile_command (load fvmfile_command_codec h m off) \<and>
     load thread_command_codec (other_byte_sex h) m off = map_option swap_thread_command (load thread_command_codec h m off) \<and>
     load ident_command_codec (other_byte_sex h) m off = map_option swap_ident_command (load ident_command_codec h m off) \<and>
     load routines_command_codec (other_byte_sex h) m off = map_option swap_routines_command (load routines_command_codec h m off) \<and>
     load routines_command_64_codec (other_byte_sex h) m off = map_option swap_routines_command_64 (load routines_command_64_codec h m off) \<and>
     load twolevel_hints_command_codec (other_byte_sex h) m off = map_option swap_twolevel_hints_command (load twolevel_hints_command_codec h m off) \<and>
     load prebind_cksum_command_codec (other_byte_sex h) m off = map_option swap_prebind_cksum_command (load prebind_cksum_command_codec h m off) \<and>
     load uuid_command_codec (other_byte_sex h) m off = map_option swap_uuid_command (load uuid_command_codec h m off) \<and>
     load linkedit_data_command_codec (other_byte_sex h) m off = map_option swap_linkedit_data_command (load linkedit_data_command_codec h m off) \<and>
     load rpath_command_codec (other_byte_sex h) m off = map_option swap_rpath_command (load rpath_command_codec h m off) \<and>
     load encryption_info_command_codec (other_byte_sex h) m off = map_option swap_encryption_command (load encryption_info_command_codec h m off) \<and>
     load nlist_codec (other_byte_sex h) m off = map_option swap_nlist (load nlist_codec h m off) \<and>
     load nlist_64_codec (other_byte_sex h) m off = map_option swap_nlist_64 (load nlist_64_codec h m off) \<and>
     load ranlib_codec (other_byte_sex h) m off = map_option swap_ranlib (load ranlib_codec h m off) \<and>
     load dylib_module_codec (other_byte_sex h) m off = map_option swap_dylib_module (load dylib_module_codec h m off) \<and>
     load dylib_table_of_contents_codec (other_byte_sex h) m off = map_option swap_dylib_table_of_contents (load dylib_table_of_contents_codec h m off)"
  by (intro conjI)
    (rule fat_header.load_other_sex
      fat_arch.load_other_sex
      mach_header.load_other_sex
      mach_header_64.load_other_sex
      load_command.load_other_sex
      segment_command.load_other_sex
      segment_command_64.load_other_sex
      mach_section.load_other_sex
      symtab_command.load_other_sex
      dysymtab_command.load_other_sex
      symseg_command.load_other_sex
      fvmlib_command.load_other_sex
      dylib_command.load_other_sex
      sub_framework_command.load_other_sex
      sub_umbrella_command.load_other_sex
      sub_library_command.load_other_sex
      sub_client_command.load_other_sex
      prebound_dylib_command.load_other_sex
      dylinker_command.load_other_sex
      fvmfile_command.load_other_sex
      thread_command.load_other_sex
      ident_command.load_other_sex
      routines_command.load_other_sex
      routines_command_64.load_other_sex
      twolevel_hints_command.load_other_sex
      prebind_cksum_command.load_other_sex
      uuid_command.load_other_sex
      linkedit_data_command.load_other_sex
      rpath_command.load_other_sex
      encryption_info_command.load_other_sex
      nlist.load_other_sex
      nlist_64.load_other_sex
      ranlib.load_other_sex
      dylib_module.load_other_sex
      dylib_table_of_contents.load_other_sex)+

text \<open>
  A swap in memory, done twice: memory is as it was when the struct lies in it, and there is no
  result when it does not.
\<close>

definition swaps_back :: "'a codec \<Rightarrow> ('a \<Rightarrow> 'a) \<Rightarrow> byte_sex \<Rightarrow> mem \<Rightarrow> nat \<Rightarrow> bool" where
  "swaps_back C swap h m off \<longleftrightarrow>
     Option.bind (swap_at C swap h m off) (\<lambda>m'. swap_at C swap h m' off) =
       (if off + size_of C \<le> length m then Some m else None)"

context swappable_struct
begin

lemma swap_at_back: "swaps_back C swap h m off"
proof (cases "swap_at C swap h m off")
  case None
  then show ?thesis using swap_at_Some_iff [of h m off] by (auto simp: swaps_back_def)
next
  case (Some m')
  then show ?thesis
    using swap_at_Some_iff [of h m off] swap_at_twice [OF Some] by (auto simp: swaps_back_def)
qed

end

text \<open>
  Swapping a struct in place and swapping it again, as \<^verbatim>\<open>check_Mach_O\<close> and
  \<^verbatim>\<open>swap_back_Mach_O\<close> do to the headers of an object, restores the bytes of memory, for the same
  35 routines and at every address where the struct lies in memory.
\<close>

theorem swaps_restore_memory:
  "swaps_back fat_header_codec swap_fat_header h m off \<and>
     swaps_back fat_arch_codec swap_fat_arch h m off \<and>
     swaps_back mach_header_codec swap_mach_header h m off \<and>
     swaps_back mach_header_64_codec swap_mach_header_64 h m off \<and>
     swaps_back load_command_codec swap_load_command h m off \<and>
     swaps_back segment_command_codec swap_segment_command h m off \<and>
     swaps_back segment_command_64_codec swap_segment_command_64 h m off \<and>
     swaps_back section_codec swap_section h m off \<and>
     swaps_back symtab_command_codec swap_symtab_command h m off \<and>
     swaps_back dysymtab_command_codec swap_dysymtab_command h m off \<and>
     swaps_back symseg_command_codec swap_symseg_command h m off \<and>
     swaps_back fvmlib_command_codec swap_fvmlib_command h m off \<and>
     swaps_back dylib_command_codec swap_dylib_command h m off \<and>
     swaps_back sub_framework_command_codec swap_sub_framework_command h m off \<and>
     swaps_back sub_umbrella_command_codec swap_sub_umbrella_command h m off \<and>
     swaps_back sub_library_command_codec swap_sub_library_command h m off \<and>
     swaps_back sub_client_command_codec swap_sub_client_command h m off \<and>
     swaps_back prebound_dylib_command_codec swap_prebound_dylib_command h m off \<and>
     swaps_back dylinker_command_codec swap_dylinker_command h m off \<and>
     swaps_back fvmfile_command_codec swap_fvmfile_command h m off \<and>
     swaps_back thread_command_codec swap_thread_command h m off \<and>
     swaps_back ident_command_codec swap_ident_command h m off \<and>
     swaps_back routines_command_codec swap_routines_command h m off \<and>
     swaps_back routines_command_64_codec swap_routines_command_64 h m off \<and>
     swaps_back twolevel_hints_command_codec swap_twolevel_hints_command h m off \<and>
     swaps_back prebind_cksum_command_codec swap_prebind_cksum_command h m off \<and>
     swaps_back uuid_command_codec swap_uuid_command h m off \<and>
     swaps_back linkedit_data_command_codec swap_linkedit_data_command h m off \<and>
     swaps_back rpath_command_codec swap_rpath_command h m off \<and>
     swaps_back encryption_info_command_codec swap_encryption_command h m off \<and>
     swaps_back nlist_codec swap_nlist h m off \<and>
     swaps_back nlist_64_codec swap_nlist_64 h m off \<and>
     swaps_back ranlib_codec swap_ranlib h m off \<and>
     swaps_back dylib_module_codec swap_dylib_module h m off \<and>
     swaps_back dylib_table_of_contents_codec swap_dylib_table_of_contents h m off"
  by (intro conjI)
    (rule fat_header.swap_at_back
      fat_arch.swap_at_back
      mach_header.swap_at_back
      mach_header_64.swap_at_back
      load_command.swap_at_back
      segment_command.swap_at_back
      segment_command_64.swap_at_back
      mach_section.swap_at_back
      symtab_command.swap_at_back
      dysymtab_command.swap_at_back
      symseg_command.swap_at_back
      fvmlib_command.swap_at_back
      dylib_command.swap_at_back
      sub_framework_command.swap_at_back
      sub_umbrella_command.swap_at_back
      sub_library_command.swap_at_back
      sub_client_command.swap_at_back
      prebound_dylib_command.swap_at_back
      dylinker_command.swap_at_back
      fvmfile_command.swap_at_back
      thread_command.swap_at_back
      ident_command.swap_at_back
      routines_command.swap_at_back
      routines_command_64.swap_at_back
      twolevel_hints_command.swap_at_back
      prebind_cksum_command.swap_at_back
      uuid_command.swap_at_back
      linkedit_data_command.swap_at_back
      rpath_command.swap_at_back
      encryption_info_command.swap_at_back
      nlist.swap_at_back
      nlist_64.swap_at_back
      ranlib.swap_at_back
      dylib_module.swap_at_back
      dylib_table_of_contents.swap_at_back)+

end
